(* ===== verification/Kisy_Prelude.thy ===== *)
theory Kisy_Prelude
  imports Main "HOL-Library.Word" "HOL-Library.AList" "HOL-Library.Char_ord"
    "HOL-Library.List_Lexorder" "HOL-Library.Sublist"
begin

text \<open>
  Shared ground of the development.

  \<^item> \<^bold>\<open>Effects.\<close> An \<open>async\<close> function of the client that may throw is a function from a world to
    either an error (\<open>Inl\<close>) or a value (\<open>Inr\<close>), together with the world it leaves behind. A throw
    keeps the effects made before it, as in JavaScript. \<open>io_bind\<close> is \<open>await\<close>, \<open>io_catch\<close> is
    \<open>try/catch\<close>, \<open>io_for\<close> is \<open>for (const x of xs)\<close> with the loop's mutable variables as its accumulator.
  \<^item> \<^bold>\<open>Frames.\<close> The locale \<open>io_frame\<close> takes any reflexive and transitive relation between worlds and
    proves once that every combinator above respects it when its parts do. Invariants, \<open>this part of
    the world is untouched\<close> and \<open>the request log only grows by harmless requests\<close> are all instances.
  \<^item> \<^bold>\<open>JavaScript data.\<close> A \<open>Map\<close> is an association list: \<open>set\<close> on a known key keeps its place and
    on a new key appends, as \<open>AList.update\<close> does; \<open>delete\<close> is \<open>AList.delete\<close>. A string stands for the
    UTF-8 bytes of the JavaScript string (ASCII characters, on which the code splits and searches,
    never occur inside a longer UTF-8 sequence), so \<open>TextEncoder\<close> and \<open>TextDecoder\<close> only change the
    type between \<open>char list\<close> and \<open>8 word list\<close>.
\<close>

named_theorems io_simps \<open>evaluation of the effect combinators\<close>
named_theorems js_simps \<open>evaluation of the modelled JavaScript primitives\<close>

subsection \<open>Effects: a world, an error or a value\<close>

type_synonym ('w, 'e, 'a) io = "'w \<Rightarrow> ('e + 'a) \<times> 'w"

definition io_ret :: "'a \<Rightarrow> ('w, 'e, 'a) io" where
  "io_ret a w = (Inr a, w)"

definition io_throw :: "'e \<Rightarrow> ('w, 'e, 'a) io" where
  "io_throw e w = (Inl e, w)"

definition io_bind :: "('w, 'e, 'a) io \<Rightarrow> ('a \<Rightarrow> ('w, 'e, 'b) io) \<Rightarrow> ('w, 'e, 'b) io" where
  "io_bind m f w = (case m w of (Inl e, w') \<Rightarrow> (Inl e, w') | (Inr a, w') \<Rightarrow> f a w')"

definition io_catch :: "('w, 'e, 'a) io \<Rightarrow> ('e \<Rightarrow> ('w, 'e, 'a) io) \<Rightarrow> ('w, 'e, 'a) io" where
  "io_catch m h w = (case m w of (Inl e, w') \<Rightarrow> h e w' | (Inr a, w') \<Rightarrow> (Inr a, w'))"

definition io_get :: "('w \<Rightarrow> 'a) \<Rightarrow> ('w, 'e, 'a) io" where
  "io_get g w = (Inr (g w), w)"

definition io_mod :: "('w \<Rightarrow> 'w) \<Rightarrow> ('w, 'e, unit) io" where
  "io_mod g w = (Inr (), g w)"

definition io_of :: "'e + 'a \<Rightarrow> ('w, 'e, 'a) io" where
  "io_of r w = (r, w)"

fun io_for :: "('a \<Rightarrow> 's \<Rightarrow> ('w, 'e, 's) io) \<Rightarrow> 'a list \<Rightarrow> 's \<Rightarrow> ('w, 'e, 's) io" where
  "io_for f [] s = io_ret s"
| "io_for f (x # xs) s = io_bind (f x s) (io_for f xs)"

lemma io_eval [io_simps, simp]:
  "io_ret a w = (Inr a, w)"
  "io_throw e w = (Inl e, w)"
  "io_get g w = (Inr (g w), w)"
  "io_mod h w = (Inr (), h w)"
  "io_of r w = (r, w)"
  by (simp_all add: io_ret_def io_throw_def io_get_def io_mod_def io_of_def)

lemma io_bind_cong [fundef_cong]:
  "m = m' \<Longrightarrow> (\<And>a. f a = f' a) \<Longrightarrow> io_bind m f = io_bind m' f'"
  by (metis ext)

lemma io_bind_eval [io_simps]:
  "m w = (Inr a, w') \<Longrightarrow> io_bind m f w = f a w'"
  "m w = (Inl e, w') \<Longrightarrow> io_bind m f w = (Inl e, w')"
  by (simp_all add: io_bind_def)

lemma io_catch_eval [io_simps]:
  "m w = (Inr a, w') \<Longrightarrow> io_catch m h w = (Inr a, w')"
  "m w = (Inl e, w') \<Longrightarrow> io_catch m h w = h e w'"
  by (simp_all add: io_catch_def)

lemma io_bind_Inr_E:
  assumes "io_bind m f w = (Inr b, w')"
  obtains a v where "m w = (Inr a, v)" and "f a v = (Inr b, w')"
  using assms by (auto simp: io_bind_def split: prod.splits sum.splits)

lemma io_bind_Inl_E:
  assumes "io_bind m f w = (Inl e, w')"
  obtains "m w = (Inl e, w')"
  | a v where "m w = (Inr a, v)" and "f a v = (Inl e, w')"
  using assms by (auto simp: io_bind_def split: prod.splits sum.splits)

lemma io_catch_E:
  assumes "io_catch m h w = (r, w')"
  obtains a where "m w = (Inr a, w')" and "r = Inr a"
  | e v where "m w = (Inl e, v)" and "h e v = (r, w')"
  using assms by (auto simp: io_catch_def split: prod.splits sum.splits)

text \<open>
  A program that can be run under a \<open>catch\<close> that never rethrows always returns; the two forms the
  client uses are \<open>.catch(() => value)\<close> and \<open>.catch(() => {})\<close>.
\<close>

definition io_default :: "('w, 'e, 'a) io \<Rightarrow> 'a \<Rightarrow> ('w, 'e, 'a) io" where
  "io_default m d = io_catch m (\<lambda>_. io_ret d)"

definition io_ignore :: "('w, 'e, 'a) io \<Rightarrow> ('w, 'e, unit) io" where
  "io_ignore m = io_catch (io_bind m (\<lambda>_. io_ret ())) (\<lambda>_. io_ret ())"

text \<open>\<open>Promise.all\<close> of two requests: both are made; a failure of either is the result.\<close>

definition io_both :: "('w, 'e, 'a) io \<Rightarrow> ('w, 'e, 'b) io \<Rightarrow> ('w, 'e, 'a \<times> 'b) io" where
  "io_both m n w = (case m w of (ra, w1) \<Rightarrow> case n w1 of (rb, w2) \<Rightarrow>
     (case ra of Inl e \<Rightarrow> Inl e | Inr a \<Rightarrow> (case rb of Inl e \<Rightarrow> Inl e | Inr b \<Rightarrow> Inr (a, b)), w2))"

text \<open>A call inside a larger \<open>try\<close>: the value, or \<open>None\<close> when it threw.\<close>

definition io_attempt :: "('w, 'e, 'a) io \<Rightarrow> ('w, 'e, 'a option) io" where
  "io_attempt m = io_default (io_bind m (\<lambda>a. io_ret (Some a))) None"

lemma io_default_returns: "\<exists>a. fst (io_default m d w) = Inr a"
  by (simp add: io_default_def io_catch_def split: prod.splits sum.splits)

lemma io_ignore_returns: "fst (io_ignore m w) = Inr ()"
  by (simp add: io_ignore_def io_catch_def io_bind_def split: prod.splits sum.splits)

lemma io_ignore_world: "snd (io_ignore m w) = snd (m w)"
  by (simp add: io_ignore_def io_catch_def io_bind_def split: prod.splits sum.splits)

subsection \<open>Frames: relations between worlds every combinator respects\<close>

locale io_frame =
  fixes R :: "'w \<Rightarrow> 'w \<Rightarrow> bool"
  assumes frame_refl: "R w w"
    and frame_trans: "R u v \<Longrightarrow> R v w \<Longrightarrow> R u w"
begin

definition framed :: "('w, 'e, 'a) io \<Rightarrow> bool" where
  "framed m \<longleftrightarrow> (\<forall>w. R w (snd (m w)))"

lemma framedD: "framed m \<Longrightarrow> m w = (r, w') \<Longrightarrow> R w w'"
  unfolding framed_def by (metis snd_conv)

lemma framed_snd: "framed m \<Longrightarrow> R w (snd (m w))"
  by (simp add: framed_def)

lemma framedI: "(\<And>w r w'. m w = (r, w') \<Longrightarrow> R w w') \<Longrightarrow> framed m"
  unfolding framed_def by (metis prod.collapse)

lemma framed_pure [intro!]:
  "framed (io_ret a)" "framed (io_throw e)" "framed (io_get g)" "framed (io_of x)"
  by (simp_all add: framed_def frame_refl)

lemma framed_mod: "(\<And>w. R w (g w)) \<Longrightarrow> framed (io_mod g)"
  by (simp add: framed_def)

lemma framed_bind [intro!]:
  assumes "framed m" and "\<And>a. framed (f a)"
  shows "framed (io_bind m f)"
proof (rule framedI)
  fix w r w' assume run: "io_bind m f w = (r, w')"
  show "R w w'"
  proof (cases r)
    case (Inl e)
    with run show ?thesis
      by (auto elim!: io_bind_Inl_E intro: framedD [OF assms(1)] framedD [OF assms(2)] frame_trans)
  next
    case (Inr b)
    with run show ?thesis
      by (auto elim!: io_bind_Inr_E intro: framedD [OF assms(1)] framedD [OF assms(2)] frame_trans)
  qed
qed

lemma framed_catch [intro!]:
  assumes "framed m" and "\<And>e. framed (h e)"
  shows "framed (io_catch m h)"
proof (rule framedI)
  fix w r w' assume "io_catch m h w = (r, w')"
  then show "R w w'"
    by (auto elim!: io_catch_E intro: framedD [OF assms(1)] framedD [OF assms(2)] frame_trans)
qed

lemma framed_for [intro!]: "(\<And>x s. framed (f x s)) \<Longrightarrow> framed (io_for f xs s)"
  by (induction xs arbitrary: s) auto

lemma framed_default [intro!]: "framed m \<Longrightarrow> framed (io_default m d)"
  unfolding io_default_def by blast

lemma framed_ignore [intro!]: "framed m \<Longrightarrow> framed (io_ignore m)"
  unfolding io_ignore_def by blast

lemma framed_attempt [intro!]: "framed m \<Longrightarrow> framed (io_attempt m)"
  unfolding io_attempt_def by blast

lemma framed_both [intro!]: "framed m \<Longrightarrow> framed n \<Longrightarrow> framed (io_both m n)"
  by (rule framedI) (auto simp: io_both_def split: prod.splits dest!: framedD intro: frame_trans)

lemma framed_if [intro!]: "(b \<Longrightarrow> framed m) \<Longrightarrow> (\<not> b \<Longrightarrow> framed n) \<Longrightarrow> framed (if b then m else n)"
  by simp

lemma framed_option [intro!]:
  "framed m \<Longrightarrow> (\<And>a. framed (f a)) \<Longrightarrow> framed (case x of None \<Rightarrow> m | Some a \<Rightarrow> f a)"
  by (cases x) auto

lemma framed_prod [intro!]: "(\<And>a b. framed (f a b)) \<Longrightarrow> framed (case x of (a, b) \<Rightarrow> f a b)"
  by (cases x) auto

end

text \<open>The commonest frame: an observation \<open>f\<close> of the world does not change.\<close>

definition keeps :: "('w \<Rightarrow> 'o) \<Rightarrow> 'w \<Rightarrow> 'w \<Rightarrow> bool" where
  "keeps f w w' \<longleftrightarrow> f w' = f w"

interpretation keeps_frame: io_frame "keeps f" for f
  by unfold_locales (simp_all add: keeps_def)

abbreviation kept :: "('w \<Rightarrow> 'o) \<Rightarrow> ('w, 'e, 'a) io \<Rightarrow> bool" where
  "kept f m \<equiv> io_frame.framed (keeps f) m"

lemmas kept_intros [intro!] =
  keeps_frame.framed_pure keeps_frame.framed_bind keeps_frame.framed_catch keeps_frame.framed_for
  keeps_frame.framed_default keeps_frame.framed_ignore keeps_frame.framed_if keeps_frame.framed_option
  keeps_frame.framed_prod keeps_frame.framed_attempt keeps_frame.framed_both

lemma keptD: "kept f m \<Longrightarrow> m w = (r, w') \<Longrightarrow> f w' = f w"
  using keeps_frame.framedD [of f m w r w'] by (simp add: keeps_def)

lemma kept_mod: "(\<And>w. f (g w) = f w) \<Longrightarrow> kept f (io_mod g)"
  by (rule keeps_frame.framed_mod) (simp add: keeps_def)

subsection \<open>Strings, bytes and numbers\<close>

type_synonym byte = "8 word"
type_synonym bytes = "8 word list"

definition utf8 :: "string \<Rightarrow> bytes" where
  "utf8 s = map (\<lambda>c. word_of_nat (of_char c)) s"

definition utf8dec :: "bytes \<Rightarrow> string" where
  "utf8dec bs = map (\<lambda>b. char_of (unat b)) bs"

lemma utf8dec_utf8 [simp, js_simps]: "utf8dec (utf8 s) = s"
proof -
  have "unat (word_of_nat (of_char c) :: byte) = of_char c" for c
    by (simp add: unat_of_nat take_bit_eq_mod of_char_def)
  then show ?thesis
    by (simp add: utf8dec_def utf8_def comp_def map_idI)
qed

lemma utf8_inj [simp]: "utf8 s = utf8 t \<longleftrightarrow> s = t"
  by (metis utf8dec_utf8)

lemma length_utf8 [simp]: "length (utf8 s) = length s"
  by (simp add: utf8_def)

abbreviation nl :: char where
  "nl \<equiv> CHR 0x0A"

text \<open>\<open>String.prototype.indexOf\<close> for one character, \<open>split\<close> and \<open>join\<close> at one character.\<close>

fun index_of :: "'a \<Rightarrow> 'a list \<Rightarrow> nat option" where
  "index_of c [] = None"
| "index_of c (x # xs) = (if x = c then Some 0 else map_option Suc (index_of c xs))"

fun split_on :: "'a \<Rightarrow> 'a list \<Rightarrow> 'a list list" where
  "split_on c [] = [[]]"
| "split_on c (x # xs) =
     (if x = c then [] # split_on c xs
      else case split_on c xs of [] \<Rightarrow> [[x]] | y # ys \<Rightarrow> (x # y) # ys)"

fun join_with :: "'a list \<Rightarrow> 'a list list \<Rightarrow> 'a list" where
  "join_with sep [] = []"
| "join_with sep [x] = x"
| "join_with sep (x # y # ys) = x @ sep @ join_with sep (y # ys)"

lemma index_of_None [simp]: "index_of c s = None \<longleftrightarrow> c \<notin> set s"
  by (induction s) auto

lemma index_of_append [simp]: "c \<notin> set p \<Longrightarrow> index_of c (p @ c # t) = Some (length p)"
  by (induction p) auto

lemma split_on_ne [simp]: "split_on c s \<noteq> []"
  by (induction s) (auto split: list.splits)

lemma join_split [simp]: "join_with [c] (split_on c s) = s"
proof (induction s)
  case Nil
  show ?case by simp
next
  case (Cons x s)
  obtain y ys where s: "split_on c s = y # ys"
    using split_on_ne by (metis list.exhaust)
  from Cons s show ?case by (cases ys) auto
qed

lemma split_on_append: "c \<notin> set p \<Longrightarrow> split_on c (p @ c # t) = p # split_on c t"
  by (induction p) auto

text \<open>
  \<open>String(n)\<close> for an integer, and \<open>Number(s)\<close> for the forms the client writes: an optional sign and
  decimal digits, with surrounding blanks. \<open>None\<close> is \<open>NaN\<close>; the fractional, exponent and hexadecimal
  forms, which the client never writes, are read as \<open>NaN\<close> too.
\<close>

fun show_nat :: "nat \<Rightarrow> string" where
  "show_nat n = (if n < 10 then [char_of (48 + n)] else show_nat (n div 10) @ [char_of (48 + n mod 10)])"

declare show_nat.simps [simp del]

definition show_int :: "int \<Rightarrow> string" where
  "show_int i = (if i < 0 then CHR ''-'' # show_nat (nat (- i)) else show_nat (nat i))"

definition is_digit :: "char \<Rightarrow> bool" where
  "is_digit c \<longleftrightarrow> 48 \<le> (of_char c :: nat) \<and> (of_char c :: nat) \<le> 57"

definition digit_val :: "char \<Rightarrow> nat" where
  "digit_val c = of_char c - 48"

definition read_nat :: "string \<Rightarrow> nat option" where
  "read_nat s = (if s \<noteq> [] \<and> list_all is_digit s
                 then Some (foldl (\<lambda>n c. 10 * n + digit_val c) 0 s) else None)"

definition is_blank :: "char \<Rightarrow> bool" where
  "is_blank c \<longleftrightarrow> of_char c \<in> {9, 10, 11, 12, 13, 32 :: nat}"

definition trim :: "string \<Rightarrow> string" where
  "trim s = rev (dropWhile is_blank (rev (dropWhile is_blank s)))"

definition js_number :: "string \<Rightarrow> int option" where
  "js_number s = (case trim s of
      [] \<Rightarrow> Some 0
    | c # cs \<Rightarrow>
        (if c = CHR ''-'' then map_option (\<lambda>n. - int n) (read_nat cs)
         else if c = CHR ''+'' then map_option int (read_nat cs)
         else map_option int (read_nat (c # cs))))"

lemma is_digit_char: "d < 10 \<Longrightarrow> is_digit (char_of (48 + d :: nat))"
  by (simp add: is_digit_def)

lemma digits_show_nat: "list_all is_digit (show_nat n)" "show_nat n \<noteq> []"
proof -
  show "list_all is_digit (show_nat n)"
  proof (induction n rule: show_nat.induct)
    case (1 n)
    then show ?case
      by (cases "n < 10"; subst show_nat.simps) (simp_all add: is_digit_char)
  qed
  show "show_nat n \<noteq> []"
    by (subst show_nat.simps) simp
qed

lemma foldl_show_nat: "foldl (\<lambda>n c. 10 * n + digit_val c) 0 (show_nat n) = n"
proof (induction n rule: show_nat.induct)
  case (1 n)
  show ?case
  proof (cases "n < 10")
    case True
    then show ?thesis by (subst show_nat.simps) (simp add: digit_val_def)
  next
    case False
    with "1.IH" show ?thesis
      by (subst show_nat.simps) (simp add: digit_val_def)
  qed
qed

lemma read_show_nat [simp, js_simps]: "read_nat (show_nat n) = Some n"
  by (simp add: read_nat_def digits_show_nat foldl_show_nat)

lemma show_nat_inj [simp]: "show_nat m = show_nat n \<longleftrightarrow> m = n"
  by (metis option.inject read_show_nat)

lemma digit_not_blank: "is_digit c \<Longrightarrow> \<not> is_blank c" "is_digit c \<Longrightarrow> c \<noteq> CHR ''-'' \<and> c \<noteq> CHR ''+''"
  "is_digit c \<Longrightarrow> c \<noteq> nl"
  by (auto simp: is_digit_def is_blank_def)

lemma trim_id:
  assumes "s \<noteq> []" and "\<not> is_blank (hd s)" and "\<not> is_blank (last s)"
  shows "trim s = s"
proof -
  obtain x xs where "s = x # xs" using assms(1) by (cases s) auto
  with assms(2) have "dropWhile is_blank s = s" by simp
  moreover have "dropWhile is_blank (rev s) = rev s"
    using assms(1,3) by (cases s rule: rev_cases) auto
  ultimately show ?thesis by (simp add: trim_def)
qed

lemma list_all_hd_last: "list_all P s \<Longrightarrow> s \<noteq> [] \<Longrightarrow> P (hd s) \<and> P (last s)"
  by (simp add: list_all_iff)

lemma js_number_show_int [simp, js_simps]: "js_number (show_int i) = Some i"
proof (cases "i < 0")
  case True
  let ?d = "show_nat (nat (- i))"
  have "is_digit (last ?d)" using list_all_hd_last [OF digits_show_nat(1) digits_show_nat(2)] by blast
  then have "trim (CHR ''-'' # ?d) = CHR ''-'' # ?d"
    using digits_show_nat(2) by (intro trim_id) (auto simp: is_blank_def is_digit_def)
  with True show ?thesis by (simp add: js_number_def show_int_def)
next
  case False
  let ?d = "show_nat (nat i)"
  obtain c cs where d: "?d = c # cs" using digits_show_nat(2) by (metis list.exhaust)
  have "is_digit (hd ?d)" "is_digit (last ?d)"
    using list_all_hd_last [OF digits_show_nat(1) digits_show_nat(2)] by blast+
  then have "trim ?d = ?d" and "is_digit c"
    using digits_show_nat(2) digit_not_blank(1) d by (auto intro: trim_id)
  moreover have "read_nat (c # cs) = Some (nat i)"
    using read_show_nat [of "nat i"] d by simp
  ultimately show ?thesis
    using False d digit_not_blank(2) by (simp add: js_number_def show_int_def)
qed

lemma nl_not_in_show_int [simp]: "nl \<notin> set (show_int i)"
proof -
  have "nl \<notin> set (show_nat n)" for n
  proof
    assume "nl \<in> set (show_nat n)"
    with digits_show_nat(1) [of n] have "is_digit nl" by (simp add: list_all_iff)
    then show False by (simp add: is_digit_def)
  qed
  then show ?thesis by (simp add: show_int_def)
qed

text \<open>Reading a list after \<open>xs[i] = v\<close>, whether or not \<open>i\<close> is in range.\<close>

lemma nth_upd: "j < length xs \<Longrightarrow> xs[i := v] ! j = (if i = j then v else xs ! j)"
  by (simp add: nth_list_update)

text \<open>
  \<open>s.slice(0, n)\<close> and \<open>s.slice(n)\<close> count UTF-16 units: in UTF-8 a byte that continues a sequence counts for none and
  the first of four for two. A cut inside a surrogate pair leaves the whole character to the second part.
\<close>

definition utf16_units :: "char \<Rightarrow> nat" where
  "utf16_units c = (let n = of_char c :: nat in if n < 128 then 1 else if n < 192 then 0 else if n < 240 then 1 else 2)"

fun js_take :: "nat \<Rightarrow> string \<Rightarrow> string" where
  "js_take n [] = []"
| "js_take n (c # cs) = (if utf16_units c \<le> n then c # js_take (n - utf16_units c) cs else [])"

definition js_drop :: "nat \<Rightarrow> string \<Rightarrow> string" where
  "js_drop n s = drop (length (js_take n s)) s"

lemma js_take_prefix: "js_take n s = take (length (js_take n s)) s"
  by (induction s arbitrary: n) auto

lemma js_take_drop [simp]: "js_take n s @ js_drop n s = s"
  by (metis append_take_drop_id js_drop_def js_take_prefix)

text \<open>
  \<open>trim()\<close> of a text a person typed also takes the white space outside ASCII; \<open>blank_marks\<close> are its UTF-8 sequences.
\<close>

definition blank_marks :: "nat list list" where
  "blank_marks = map (\<lambda>n. [n]) [9, 10, 11, 12, 13, 32] @ [[0xC2, 0xA0], [0xE1, 0x9A, 0x80], [0xE2, 0x80, 0xA8], [0xE2, 0x80, 0xA9],
     [0xE2, 0x80, 0xAF], [0xE2, 0x81, 0x9F], [0xE3, 0x80, 0x80], [0xEF, 0xBB, 0xBF]] @ map (\<lambda>k. [0xE2, 0x80, 0x80 + k]) [0..<11]"

function strip_marks :: "nat list list \<Rightarrow> string \<Rightarrow> string" where
  "strip_marks ws s = (case find (\<lambda>w. w \<noteq> [] \<and> prefix w (map of_char s)) ws of
     None \<Rightarrow> s | Some w \<Rightarrow> strip_marks ws (drop (length w) s))"
  by pat_completeness auto
termination strip_marks
proof (relation "measure (\<lambda>(_, s). length s)")
  fix ws s w
  assume "find (\<lambda>w. w \<noteq> [] \<and> prefix w (map of_char s)) ws = Some w"
  then have "w \<noteq> []" "length w \<le> length s" by (auto simp: find_Some_iff dest!: prefix_length_le)
  then show "((ws, drop (length w) s), (ws, s)) \<in> measure (\<lambda>(_, s). length s)" by (cases w) auto
qed simp

declare strip_marks.simps [simp del]

definition js_trim :: "string \<Rightarrow> string" where
  "js_trim s = rev (strip_marks (map rev blank_marks) (rev (strip_marks blank_marks s)))"

lemma strip_marks_suffix: "suffix (strip_marks ws s) s"
proof (induction ws s rule: strip_marks.induct)
  case (1 ws s)
  then show ?case
    by (subst strip_marks.simps) (auto split: option.splits intro: suffix_order.trans suffix_drop)
qed

text \<open>Trimming takes away at the ends and nothing else.\<close>

lemma js_trim_inside: "\<exists>a b. s = a @ js_trim s @ b"
proof -
  obtain a where a: "s = a @ strip_marks blank_marks s" using strip_marks_suffix by (auto simp: suffix_def)
  obtain b where "rev (strip_marks blank_marks s) = b @ strip_marks (map rev blank_marks) (rev (strip_marks blank_marks s))"
    using strip_marks_suffix by (auto simp: suffix_def)
  then have "strip_marks blank_marks s = js_trim s @ rev b" by (metis js_trim_def rev_append rev_rev_ident)
  with a show ?thesis by metis
qed

subsection \<open>Machines over events\<close>

text \<open>
  A component driven by events is a step function; what one step keeps, every history of events that are \<open>ok\<close> keeps.
\<close>

locale event_machine =
  fixes step :: "'e \<Rightarrow> 's \<Rightarrow> 's" and ok :: "'e \<Rightarrow> bool" and inv :: "'s \<Rightarrow> bool"
  assumes step_inv: "inv s \<Longrightarrow> ok e \<Longrightarrow> inv (step e s)"
begin

lemma run_inv: "inv s \<Longrightarrow> list_all ok es \<Longrightarrow> inv (fold step es s)"
  by (induction es arbitrary: s) (simp_all add: step_inv)

end

subsection \<open>JavaScript Map\<close>

type_synonym ('k, 'v) jsmap = "('k \<times> 'v) list"

lemmas jsmap_simps [js_simps, simp] = update_conv' delete_conv'

lemma filter_update_other:
  "\<not> P k \<Longrightarrow> filter (\<lambda>p. P (fst p)) (AList.update k v m) = filter (\<lambda>p. P (fst p)) m"
  by (induction m) auto

lemma filter_delete_other:
  "\<not> P k \<Longrightarrow> filter (\<lambda>p. P (fst p)) (AList.delete k m) = filter (\<lambda>p. P (fst p)) m"
  by (induction m) (auto simp: AList.delete_eq)

end
