(* ===== verification/Api_Types.thy ===== *)
theory Api_Types
  imports Kisy_Prelude
begin

text \<open>
  The DTOs of \<open>shared/api/types.ts\<close> and \<open>shared/api/endpoints.ts\<close> the modelled code reads or writes.
  Field names carry a prefix per record. A field that may be \<open>null\<close> or absent is an \<open>option\<close>; the
  client tests such fields for truthiness, so the empty string counts as absent there (\<open>truthy\<close>).
  Times are the ISO strings the server sends; epochs and counters are natural numbers. A text shown to
  the user is either a translation key with its parameters (what \<open>t(key, params)\<close> renders in the
  language on screen; \<open>TT\<close> where a parameter is itself a text) or a literal string.
\<close>

datatype ui_text = T string "(string \<times> int) list" | TT string "(string \<times> ui_text) list" | Plain string

definition truthy :: "string option \<Rightarrow> bool" where
  "truthy x \<longleftrightarrow> (case x of None \<Rightarrow> False | Some s \<Rightarrow> s \<noteq> '''')"

lemma truthy_simps [simp, js_simps]: "\<not> truthy None" "truthy (Some s) \<longleftrightarrow> s \<noteq> ''''"
  by (simp_all add: truthy_def)

datatype chat_type = Private | Group

datatype account_kind = Basic | Invited

record quarantine =
  q_until :: string
  q_hoursLeft :: int
  q_newChatsPerDay :: int
  q_maxUploadBytes :: int

datatype user_status = Online | Offline | Away

record user =
  u_id :: string
  u_username :: string
  u_displayName :: string
  u_roleLevel :: "int option"
  u_accountKind :: account_kind
  u_avatarUrl :: "string option"
  u_status :: user_status
  u_isActive :: bool
  u_lastSeen :: "string option"
  u_createdAt :: string
  u_mustChangePassword :: bool
  u_displayNameNeedsChange :: bool
  u_consentRequired :: bool
  u_verifiedAt :: "string option"

record chat =
  c_id :: string
  c_otherUserId :: string
  c_otherUser :: "user option"
  c_unreadCount :: nat
  c_otherLastReadAt :: "string option"
  c_createdAt :: string

record reaction_summary =
  rs_emoji :: string
  rs_count :: nat
  rs_reacted :: bool

datatype attachment_kind = FileKind | ImageKind | VoiceKind | VideoKind

record attachment =
  a_id :: string
  a_fileName :: string
  a_mimeType :: string
  a_sizeBytes :: nat
  a_isImage :: bool
  a_url :: string
  a_kind :: attachment_kind
  a_durationMs :: "nat option"
  a_waveform :: "string option"
  a_width :: "nat option"
  a_height :: "nat option"

record message =
  m_id :: string
  m_chatId :: string
  m_chatType :: chat_type
  m_senderId :: string
  m_text :: "string option"
  m_replyTo :: "string option"
  m_attachments :: "attachment list"
  m_reactions :: "reaction_summary list"
  m_mentions :: "string list"
  m_isDeleted :: bool
  m_createdAt :: string
  m_deletedAt :: "string option"
  m_editedAt :: "string option"
  m_pinnedAt :: "string option"
  m_readCount :: "nat option"
  m_readTotal :: "nat option"
  m_pending :: bool
  m_failed :: bool
  m_ciphertext :: "string option"
  m_alg :: "nat option"
  m_epoch :: "nat option"
  m_contentKind :: "nat option"
  m_encrypted :: bool
  m_undecryptable :: bool
  m_forwardedFrom :: "(string \<times> string) option"
  m_senderName :: "string option"
  m_scheduledId :: "string option"
  m_expiresAt :: "string option"
  m_threadRootId :: "string option"
  m_threadReplyCount :: "nat option"
  m_threadLastReplyAt :: "string option"

record message_page =
  p_items :: "message list"
  p_nextCursor :: "string option"
  p_hasMore :: bool

datatype scheduled_status = PendingStatus | SentStatus | CanceledStatus

record scheduled_message =
  sm_id :: string
  sm_chatType :: chat_type
  sm_chatId :: string
  sm_text :: "string option"
  sm_ciphertext :: "string option"
  sm_alg :: "nat option"
  sm_epoch :: "nat option"
  sm_contentKind :: "nat option"
  sm_replyTo :: "string option"
  sm_attachmentIds :: "string list"
  sm_sendAt :: string
  sm_status :: scheduled_status
  sm_sentMessageId :: "string option"
  sm_createdAt :: string

text \<open>Bodies of the requests that carry message text (\<open>SendMessageBody\<close>, \<open>ScheduleMessageBody\<close>).\<close>

record send_body =
  sb_text :: "string option"
  sb_replyTo :: "string option"
  sb_attachmentIds :: "string list option"
  sb_ciphertext :: "string option"
  sb_alg :: "nat option"
  sb_epoch :: "nat option"
  sb_contentKind :: "nat option"
  sb_forwardedFromMessageId :: "string option"
  sb_threadRootId :: "string option"

definition empty_body :: send_body where
  "empty_body = \<lparr>sb_text = None, sb_replyTo = None, sb_attachmentIds = None, sb_ciphertext = None,
     sb_alg = None, sb_epoch = None, sb_contentKind = None, sb_forwardedFromMessageId = None,
     sb_threadRootId = None\<rparr>"

record encrypted_body =
  eb_ciphertext :: string
  eb_alg :: nat
  eb_epoch :: nat

record schedule_body =
  sch_chatType :: chat_type
  sch_chatId :: string
  sch_body :: send_body
  sch_sendAt :: string

text \<open>The E2EE directory and mailbox (\<open>E2EEDeviceDTO\<close>, \<open>E2EEGroupMessageDTO\<close>).\<close>

record e2ee_device =
  d_id :: string
  d_userId :: string
  d_name :: string
  d_ed25519Pub :: string
  d_signedBy :: "string option"
  d_signature :: "string option"
  d_createdAt :: string
  d_revokedAt :: "string option"

record group_message =
  gm_id :: string
  gm_chatType :: chat_type
  gm_chatId :: string
  gm_kind :: nat
  gm_senderDevice :: "string option"
  gm_recipientDevice :: "string option"
  gm_payload :: string
  gm_epoch :: "nat option"
  gm_createdAt :: string

record claimed_package =
  cp_deviceId :: string
  cp_keyPackage :: string

datatype handshake_kind = WelcomeKind | CommitKind | ProposalKind

record handshake_body =
  hb_chatType :: chat_type
  hb_chatId :: string
  hb_kind :: handshake_kind
  hb_senderDevice :: string
  hb_payload :: string
  hb_epoch :: nat
  hb_recipients :: "(string, string) jsmap"

end
