(* ===== verification/Api_Envelope.thy ===== *)
theory Api_Envelope
  imports Api_Types
begin

text \<open>
  Errors of the client: \<open>shared/api/envelope.ts\<close> and \<open>shared/lib/errors.ts\<close>. Everything the modelled
  code throws is one of three kinds: a \<open>UserFacingError\<close> (its text is shown), an \<open>ApiError\<close> (the server
  answered, or the transport failed with status 0) or any other JavaScript error.
\<close>

record api_error =
  ae_code :: string
  ae_message :: string
  ae_requestId :: string
  ae_status :: int
  ae_retryAfter :: int

datatype js_error = UserFacingError ui_text | ApiErr api_error | JsError string

text \<open>A message that JavaScript treats as truthy: every translated text, and a non-empty literal.\<close>

fun ui_nonempty :: "ui_text \<Rightarrow> bool" where
  "ui_nonempty (T k ps) = True"
| "ui_nonempty (TT k ps) = True"
| "ui_nonempty (Plain s) = (s \<noteq> '''')"

definition isAuthFailure :: "js_error \<Rightarrow> bool" where
  "isAuthFailure err = (case err of ApiErr e \<Rightarrow> ae_status e = 401 \<or> ae_status e = 403 | _ \<Rightarrow> False)"

definition USER_FACING_CODES :: "string list" where
  "USER_FACING_CODES = [''QUOTA_EXCEEDED'', ''E2EE_REQUIRED'', ''QUARANTINE_ACTIVE'', ''UNDER_MODERATION'']"

definition rateLimitedMessage :: "int \<Rightarrow> ui_text" where
  "rateLimitedMessage secs =
     (if \<not> secs > 0 then T ''common.rateLimited'' []
      else if secs < 60 then T ''common.rateLimitedSeconds'' [(''count'', secs)]
      else T ''common.rateLimitedMinutes'' [(''count'', (secs + 59) div 60)])"

definition userFacingError :: "js_error \<Rightarrow> ui_text \<Rightarrow> ui_text" where
  "userFacingError err fallback = (case err of
      UserFacingError m \<Rightarrow> (if ui_nonempty m then m else fallback)
    | ApiErr e \<Rightarrow>
        (if ae_code e = ''RATE_LIMITED'' then rateLimitedMessage (ae_retryAfter e)
         else if ae_code e \<in> set USER_FACING_CODES \<and> ae_message e \<noteq> '''' then Plain (ae_message e)
         else fallback)
    | JsError m \<Rightarrow> fallback)"

text \<open>A conflict over a chat's epoch, the answer to the loser of a commit race (\<open>isEpochConflict\<close>).\<close>

definition isEpochConflict :: "js_error \<Rightarrow> bool" where
  "isEpochConflict err = (case err of ApiErr e \<Rightarrow> ae_code e = ''EPOCH_CONFLICT'' | _ \<Rightarrow> False)"

lemma isEpochConflict_iff [simp]:
  "\<not> isEpochConflict (UserFacingError m)" "\<not> isEpochConflict (JsError s)"
  "isEpochConflict (ApiErr e) \<longleftrightarrow> ae_code e = ''EPOCH_CONFLICT''"
  by (simp_all add: isEpochConflict_def)

text \<open>The wait shown covers the wait the server asked for, and is less than a minute longer.\<close>

lemma rateLimitedMessage_minutes:
  assumes "60 \<le> secs"
  obtains m where "rateLimitedMessage secs = T ''common.rateLimitedMinutes'' [(''count'', m)]"
    and "secs \<le> 60 * m" and "60 * m < secs + 60"
proof
  show "rateLimitedMessage secs = T ''common.rateLimitedMinutes'' [(''count'', (secs + 59) div 60)]"
    using assms by (simp add: rateLimitedMessage_def)
qed (linarith)+

end
