(* ===== verification/Keystore.thy ===== *)
theory Keystore
  imports Api_Envelope
begin

text \<open>
  \<open>shared/crypto/keystore.ts\<close>: the store behind which all key material, MLS state and decrypted
  history lives. The locale \<open>key_store\<close> is the \<open>KeyStore\<close> interface with the laws its callers rely on;
  \<open>MemoryKeyStore\<close> is interpreted in it. \<open>EncryptedIndexedDbKeyStore\<close> keeps every value as a 12-byte IV
  followed by its AES-GCM ciphertext; it simulates \<open>MemoryKeyStore\<close> whenever decryption inverts
  encryption, so the rest of the development works on the memory store.
  The cipher is WebCrypto's and a parameter (\<open>enc\<close>, \<open>dec\<close>); random IVs are arguments.
\<close>

subsection \<open>The interface\<close>

locale key_store =
  fixes ks_get :: "'s \<Rightarrow> string \<Rightarrow> 'v option"
    and ks_put :: "string \<Rightarrow> 'v \<Rightarrow> 's \<Rightarrow> 's"
    and ks_remove :: "string \<Rightarrow> 's \<Rightarrow> 's"
    and ks_list :: "string \<Rightarrow> 's \<Rightarrow> string list"
    and ks_invar :: "'s \<Rightarrow> bool"
  assumes get_put: "ks_get (ks_put n v s) = (ks_get s)(n \<mapsto> v)"
    and get_remove: "ks_get (ks_remove n s) = (ks_get s)(n := None)"
    and set_list: "set (ks_list p s) = {n. prefix p n \<and> ks_get s n \<noteq> None}"
    and sorted_list: "sorted (ks_list p s)"
    and distinct_list: "ks_invar s \<Longrightarrow> distinct (ks_list p s)"
    and invar_put: "ks_invar s \<Longrightarrow> ks_invar (ks_put n v s)"
    and invar_remove: "ks_invar s \<Longrightarrow> ks_invar (ks_remove n s)"
begin

lemma get_remove_all: "ks_get (fold ks_remove ns s) n = (if n \<in> set ns then None else ks_get s n)"
  by (induction ns arbitrary: s) (auto simp: get_remove)

text \<open>Removing everything listed under a prefix clears exactly that prefix.\<close>

lemma clear_prefix:
  "ks_get (fold ks_remove (ks_list p s) s) n = (if prefix p n then None else ks_get s n)"
  by (auto simp: get_remove_all set_list)

lemma list_put_other: "\<not> prefix p n \<Longrightarrow> set (ks_list p (ks_put n v s)) = set (ks_list p s)"
  by (auto simp: set_list get_put split: if_splits)

end

subsection \<open>MemoryKeyStore\<close>

type_synonym kvstore = "(string, bytes) jsmap"

definition mks_get :: "kvstore \<Rightarrow> string \<Rightarrow> bytes option" where
  "mks_get entries name = map_of entries name"

definition mks_put :: "string \<Rightarrow> bytes \<Rightarrow> kvstore \<Rightarrow> kvstore" where
  "mks_put name value entries = AList.update name value entries"

definition mks_remove :: "string \<Rightarrow> kvstore \<Rightarrow> kvstore" where
  "mks_remove name entries = AList.delete name entries"

definition mks_list :: "string \<Rightarrow> kvstore \<Rightarrow> string list" where
  "mks_list pre entries = sort (filter (prefix pre) (map fst entries))"

definition mks_invar :: "kvstore \<Rightarrow> bool" where
  "mks_invar entries \<longleftrightarrow> distinct (map fst entries)"

interpretation mks: key_store mks_get mks_put mks_remove mks_list mks_invar
proof unfold_locales
  show "set (mks_list p s) = {n. prefix p n \<and> mks_get s n \<noteq> None}" for p s
    by (auto simp: mks_list_def mks_get_def map_of_eq_None_iff image_iff)
qed (simp_all add: fun_eq_iff mks_get_def mks_put_def mks_remove_def mks_list_def mks_invar_def
      distinct_update distinct_delete distinct_map_filter)

lemmas mks_get_simps [simp, js_simps] = mks.get_put mks.get_remove

lemma mks_get_Nil [simp, js_simps]: "mks_get [] n = None"
  by (simp add: mks_get_def)

subsection \<open>EncryptedIndexedDbKeyStore\<close>

definition IV_BYTES :: nat where
  "IV_BYTES = 12"

record 'k idb =
  idb_blobs :: kvstore
  idb_localKey :: "'k option"

text \<open>
  \<open>open\<close>: the database with its local key, generated (here: \<open>fresh\<close>) only when none is stored yet.
\<close>

definition idb_open :: "'k \<Rightarrow> 'k idb \<Rightarrow> 'k \<times> 'k idb" where
  "idb_open fresh db = (case idb_localKey db of
      Some k \<Rightarrow> (k, db)
    | None \<Rightarrow> (fresh, db\<lparr>idb_localKey := Some fresh\<rparr>))"

definition idb_get :: "('k \<Rightarrow> bytes \<Rightarrow> bytes \<Rightarrow> bytes option) \<Rightarrow> 'k \<Rightarrow> kvstore \<Rightarrow> string
    \<Rightarrow> js_error + bytes option" where
  "idb_get dec key blobs name = (case map_of blobs name of
      None \<Rightarrow> Inr None
    | Some stored \<Rightarrow>
        (case dec key (take IV_BYTES stored) (drop IV_BYTES stored) of
           None \<Rightarrow> Inl (JsError ''OperationError'')
         | Some plain \<Rightarrow> Inr (Some plain)))"

definition idb_put :: "('k \<Rightarrow> bytes \<Rightarrow> bytes \<Rightarrow> bytes) \<Rightarrow> 'k \<Rightarrow> bytes \<Rightarrow> string \<Rightarrow> bytes \<Rightarrow> kvstore
    \<Rightarrow> kvstore" where
  "idb_put enc key iv name value blobs = AList.update name (iv @ enc key iv value) blobs"

definition idb_remove :: "string \<Rightarrow> kvstore \<Rightarrow> kvstore" where
  "idb_remove name blobs = AList.delete name blobs"

definition idb_list :: "string \<Rightarrow> kvstore \<Rightarrow> string list" where
  "idb_list pre blobs = sort (filter (prefix pre) (map fst blobs))"

text \<open>
  The simulation relation: entry by entry the same names, each blob decrypting to the plain value.
\<close>

definition idb_sim :: "('k \<Rightarrow> bytes \<Rightarrow> bytes \<Rightarrow> bytes option) \<Rightarrow> 'k \<Rightarrow> kvstore \<Rightarrow> kvstore \<Rightarrow> bool" where
  "idb_sim dec key blobs entries \<longleftrightarrow>
     list_all2 (\<lambda>b e. fst b = fst e \<and>
        dec key (take IV_BYTES (snd b)) (drop IV_BYTES (snd b)) = Some (snd e)) blobs entries"

lemma idb_sim_names: "idb_sim dec key blobs entries \<Longrightarrow> map fst blobs = map fst entries"
  unfolding idb_sim_def by (induction rule: list_all2_induct) auto

lemma idb_sim_get: "idb_sim dec key blobs entries \<Longrightarrow> idb_get dec key blobs n = Inr (mks_get entries n)"
  unfolding idb_sim_def
  by (induction rule: list_all2_induct) (auto simp: idb_get_def mks_get_def split: option.splits)

lemma idb_sim_update:
  assumes "\<And>x. dec key iv (enc key iv x) = Some x" and "length iv = IV_BYTES"
    and "idb_sim dec key blobs entries"
  shows "idb_sim dec key (idb_put enc key iv n v blobs) (mks_put n v entries)"
  using assms(3) unfolding idb_sim_def idb_put_def mks_put_def
  by (induction rule: list_all2_induct) (auto simp: assms(1,2))

lemma idb_sim_delete:
  "idb_sim dec key blobs entries \<Longrightarrow> idb_sim dec key (idb_remove n blobs) (mks_remove n entries)"
  unfolding idb_sim_def idb_remove_def mks_remove_def AList.delete_eq
  by (induction rule: list_all2_induct) auto

text \<open>Histories of a store: writes (with the IV drawn for them) and removals.\<close>

datatype store_op = PutOp string bytes bytes | RemoveOp string

fun iv_ok :: "store_op \<Rightarrow> bool" where
  "iv_ok (PutOp n v iv) = (length iv = IV_BYTES)"
| "iv_ok (RemoveOp n) = True"

fun mks_step :: "store_op \<Rightarrow> kvstore \<Rightarrow> kvstore" where
  "mks_step (PutOp n v iv) = mks_put n v"
| "mks_step (RemoveOp n) = mks_remove n"

fun idb_step :: "('k \<Rightarrow> bytes \<Rightarrow> bytes \<Rightarrow> bytes) \<Rightarrow> 'k \<Rightarrow> store_op \<Rightarrow> kvstore \<Rightarrow> kvstore" where
  "idb_step enc key (PutOp n v iv) = idb_put enc key iv n v"
| "idb_step enc key (RemoveOp n) = idb_remove n"

lemma idb_sim_run:
  assumes "\<And>iv x. dec key iv (enc key iv x) = Some x" and "list_all iv_ok ops"
    and "idb_sim dec key blobs entries"
  shows "idb_sim dec key (fold (idb_step enc key) ops blobs) (fold mks_step ops entries)"
  using assms(2,3)
proof (induction ops arbitrary: blobs entries)
  case Nil
  then show ?case by simp
next
  case (Cons op ops)
  have "idb_sim dec key (idb_step enc key op blobs) (mks_step op entries)"
    using Cons.prems assms(1) by (cases op) (auto intro: idb_sim_update idb_sim_delete)
  with Cons show ?case by simp
qed

text \<open>
  C21. The encrypted IndexedDB store behaves as the in-memory store: when decryption inverts
  encryption under the local key, then after any history of writes (each with a fresh 12-byte IV) and
  removals on an empty store, every read returns what the memory store returns, never failing, and
  every listing by prefix is the memory store's listing.
\<close>

theorem encrypted_store_refines_memory_store:
  assumes "\<And>iv x. dec key iv (enc key iv x) = Some x"
    and "list_all iv_ok ops"
  shows "idb_get dec key (fold (idb_step enc key) ops []) n = Inr (mks_get (fold mks_step ops []) n) \<and>
    idb_list pre (fold (idb_step enc key) ops []) = mks_list pre (fold mks_step ops [])"
proof -
  have sim: "idb_sim dec key (fold (idb_step enc key) ops []) (fold mks_step ops [])"
    by (rule idb_sim_run) (auto simp: assms idb_sim_def)
  from idb_sim_names [OF sim]
  have "idb_list pre (fold (idb_step enc key) ops []) = mks_list pre (fold mks_step ops [])"
    by (simp add: idb_list_def mks_list_def)
  with idb_sim_get [OF sim] show ?thesis by simp
qed

definition shift_enc :: "byte \<Rightarrow> bytes \<Rightarrow> bytes \<Rightarrow> bytes" where
  "shift_enc key iv x = map (\<lambda>b. b + key) x"

definition shift_dec :: "byte \<Rightarrow> bytes \<Rightarrow> bytes \<Rightarrow> bytes option" where
  "shift_dec key iv x = Some (map (\<lambda>b. b - key) x)"

theorem encrypted_store_refines_memory_store_witness:
  "idb_get shift_dec 7 (fold (idb_step shift_enc 7)
      [PutOp ''msg/1'' [1, 2] (replicate 12 0), PutOp ''kp/0'' [9] (replicate 12 5), RemoveOp ''kp/0''] []) ''msg/1''
    = Inr (Some [1, 2]) \<and>
   idb_list ''msg/'' (fold (idb_step shift_enc 7)
      [PutOp ''msg/1'' [1, 2] (replicate 12 0), PutOp ''kp/0'' [9] (replicate 12 5), RemoveOp ''kp/0''] [])
    = [''msg/1'']"
proof -
  have law: "\<And>iv x. shift_dec 7 iv (shift_enc 7 iv x) = Some x"
    by (simp add: shift_enc_def shift_dec_def comp_def)
  have ops: "list_all iv_ok [PutOp ''msg/1'' [1, 2] (replicate 12 0), PutOp ''kp/0'' [9] (replicate 12 5), RemoveOp ''kp/0'']"
    by (simp add: IV_BYTES_def)
  show ?thesis
    using encrypted_store_refines_memory_store [of shift_dec 7 shift_enc, OF law ops, of "''msg/1''" "''msg/''"]
    by (simp add: mks_put_def mks_remove_def mks_list_def mks_get_def)
qed

end
