(* ===== verification/Device_Identity.thy ===== *)
theory Device_Identity
  imports Keystore "HOL-Library.Multiset"
begin

text \<open>
  \<open>shared/crypto/identity.ts\<close> and \<open>shared/crypto/fingerprint.ts\<close>: the device's long-term key, its
  storage format, vouches for new devices, and the safety number two people compare.
  libsodium is a parameter: the signature functions and the hash \<open>H\<close> (\<open>crypto_generichash\<close>).
\<close>

subsection \<open>Typed arrays\<close>

text \<open>\<open>buf.set(xs, off)\<close> throws a RangeError when the source does not fit; \<open>slice\<close> clips.\<close>

definition ta_set :: "bytes \<Rightarrow> nat \<Rightarrow> bytes \<Rightarrow> js_error + bytes" where
  "ta_set xs off buf =
     (if off + length xs > length buf then Inl (JsError ''RangeError'')
      else Inr (take off buf @ xs @ drop (off + length xs) buf))"

definition slice :: "nat \<Rightarrow> nat \<Rightarrow> 'a list \<Rightarrow> 'a list" where
  "slice a b xs = take (b - a) (drop a xs)"

definition sum_bind :: "'e + 'a \<Rightarrow> ('a \<Rightarrow> 'e + 'b) \<Rightarrow> 'e + 'b" where
  "sum_bind r f = (case r of Inl e \<Rightarrow> Inl e | Inr a \<Rightarrow> f a)"

lemma sum_bind_simps [simp]: "sum_bind (Inl e) f = Inl e" "sum_bind (Inr a) f = f a"
  by (simp_all add: sum_bind_def)

lemma ta_set_fits [simp]:
  "length a = off \<Longrightarrow> length xs = length b \<Longrightarrow> ta_set xs off (a @ b @ c) = Inr (a @ xs @ c)"
  by (simp add: ta_set_def)

subsection \<open>Identity\<close>

record device_identity =
  deviceId :: string
  publicKey :: bytes
  seed :: bytes

definition IDENTITY_ENTRY :: string where
  "IDENTITY_ENTRY = ''device/identity''"

definition encodeIdentity :: "device_identity \<Rightarrow> js_error + bytes" where
  "encodeIdentity i =
     (let d = utf8 (deviceId i);
          out = replicate (1 + length d + 32 + 32) 0
      in sum_bind (Inr (out[0 := word_of_nat (length d)])) (\<lambda>out.
         sum_bind (ta_set d 1 out) (\<lambda>out.
         sum_bind (ta_set (publicKey i) (1 + length d) out) (\<lambda>out.
         ta_set (seed i) (1 + length d + 32) out))))"

definition decodeIdentity :: "bytes \<Rightarrow> device_identity" where
  "decodeIdentity bs = (case bs of
      [] \<Rightarrow> \<lparr>deviceId = '''', publicKey = [], seed = []\<rparr>
    | b # _ \<Rightarrow>
        (let idLen = unat b
         in \<lparr>deviceId = utf8dec (slice 1 (1 + idLen) bs),
             publicKey = slice (1 + idLen) (1 + idLen + 32) bs,
             seed = slice (1 + idLen + 32) (1 + idLen + 64) bs\<rparr>))"

text \<open>
  \<open>fresh\<close> is the key pair libsodium generates together with the random UUID; it is used only when the
  store holds no identity.
\<close>

definition loadOrCreateIdentity :: "device_identity \<Rightarrow> kvstore \<Rightarrow> js_error + device_identity \<times> kvstore" where
  "loadOrCreateIdentity fresh store = (case mks_get store IDENTITY_ENTRY of
      Some existing \<Rightarrow> Inr (decodeIdentity existing, store)
    | None \<Rightarrow> sum_bind (encodeIdentity fresh) (\<lambda>bs. Inr (fresh, mks_put IDENTITY_ENTRY bs store)))"

definition identity_ok :: "device_identity \<Rightarrow> bool" where
  "identity_ok i \<longleftrightarrow> length (deviceId i) < 256 \<and> length (publicKey i) = 32 \<and> length (seed i) = 32"

lemma encodeIdentity_ok:
  assumes "length (publicKey i) = 32" and "length (seed i) = 32"
  shows "encodeIdentity i =
    Inr (word_of_nat (length (deviceId i)) # utf8 (deviceId i) @ publicKey i @ seed i)"
proof -
  let ?d = "utf8 (deviceId i)"
  let ?b = "word_of_nat (length (deviceId i)) :: byte"
  have z: "(replicate (1 + length ?d + 32 + 32) (0::byte))[0 := ?b]
      = [?b] @ replicate (length ?d) 0 @ replicate 64 0"
  proof -
    have "1 + length ?d + 32 + 32 = Suc (length ?d + 64)" by simp
    then show ?thesis by (simp only: replicate_Suc replicate_add list_update_code append.simps)
  qed
  have z64: "replicate 64 (0::byte) = replicate 32 0 @ replicate 32 0"
    by (simp add: replicate_add [symmetric])
  have s1: "ta_set ?d 1 ([?b] @ replicate (length ?d) 0 @ replicate 64 0) = Inr ([?b] @ ?d @ replicate 64 0)"
    by (rule ta_set_fits) simp_all
  have s2: "ta_set (publicKey i) (1 + length ?d) (([?b] @ ?d) @ replicate 32 0 @ replicate 32 0)
      = Inr (([?b] @ ?d) @ publicKey i @ replicate 32 0)"
    by (rule ta_set_fits) (simp_all add: assms)
  have s3: "ta_set (seed i) (1 + length ?d + 32) (([?b] @ ?d @ publicKey i) @ replicate 32 0 @ [])
      = Inr (([?b] @ ?d @ publicKey i) @ seed i @ [])"
    by (rule ta_set_fits) (simp_all add: assms)
  show ?thesis
    unfolding encodeIdentity_def Let_def length_utf8
    using z s1 s2 s3 by (simp add: z64)
qed

lemma decode_encodeIdentity:
  assumes "identity_ok i" and "encodeIdentity i = Inr bs"
  shows "decodeIdentity bs = i"
proof -
  have len: "length (publicKey i) = 32" "length (seed i) = 32" "length (deviceId i) < 256"
    using assms(1) by (simp_all add: identity_ok_def)
  have "bs = word_of_nat (length (deviceId i)) # utf8 (deviceId i) @ publicKey i @ seed i"
    using assms(2) encodeIdentity_ok [OF len(1,2)] by simp
  moreover have "unat (word_of_nat (length (deviceId i)) :: byte) = length (deviceId i)"
    using len(3) by (simp add: unat_of_nat take_bit_eq_mod)
  moreover have "drop (33 + n) (x # a @ b @ c) = c" if "length a = n" "length b = 32"
    for n x and a b c :: bytes
  proof -
    have "33 + n = Suc (n + 32)" by simp
    with that show ?thesis by (simp only: drop_Suc_Cons) simp
  qed
  ultimately show ?thesis
    using len(1,2) by (simp add: decodeIdentity_def slice_def Let_def)
qed

text \<open>
  C27. The device keeps one identity: the identity created on first login is well-formed enough to
  survive its own storage format (a device id of fewer than 256 bytes, 32-byte keys, as libsodium and
  \<open>crypto.randomUUID\<close> produce), and every later start of the same account loads exactly it back, whatever
  fresh key pair that start could have drawn; the store is written only the first time.
\<close>

theorem device_identity_stable:
  assumes "mks_get store IDENTITY_ENTRY = None" and "identity_ok fresh"
  shows "\<exists>store'. loadOrCreateIdentity fresh store = Inr (fresh, store') \<and>
    (\<forall>other. loadOrCreateIdentity other store' = Inr (fresh, store')) \<and>
    (\<forall>n. n \<noteq> IDENTITY_ENTRY \<longrightarrow> mks_get store' n = mks_get store n)"
proof -
  obtain bs where bs: "encodeIdentity fresh = Inr bs"
    using assms(2) encodeIdentity_ok by (auto simp: identity_ok_def)
  from decode_encodeIdentity [OF assms(2) bs] show ?thesis
    using assms(1) bs by (simp add: loadOrCreateIdentity_def)
qed

theorem device_identity_stable_witness:
  "\<exists>store'. loadOrCreateIdentity \<lparr>deviceId = ''d1'', publicKey = replicate 32 1, seed = replicate 32 2\<rparr> []
      = Inr (\<lparr>deviceId = ''d1'', publicKey = replicate 32 1, seed = replicate 32 2\<rparr>, store')"
  using device_identity_stable
    [of "[]" "\<lparr>deviceId = ''d1'', publicKey = replicate 32 1, seed = replicate 32 2\<rparr>"]
  by (auto simp: identity_ok_def mks_get_def)

subsection \<open>Vouching for a new device\<close>

definition VOUCH_CONTEXT :: bytes where
  "VOUCH_CONTEXT = utf8 ''KISY-device-vouch-v1''"

definition vouchMessage :: "bytes \<Rightarrow> bytes" where
  "vouchMessage newKey = VOUCH_CONTEXT @ newKey"

definition signDetached :: "(bytes \<Rightarrow> bytes) \<Rightarrow> (bytes \<Rightarrow> bytes \<Rightarrow> bytes) \<Rightarrow> device_identity \<Rightarrow> bytes \<Rightarrow> bytes" where
  "signDetached sk_of_seed sign i msg = sign msg (sk_of_seed (seed i))"

definition vouchDevice :: "(bytes \<Rightarrow> bytes) \<Rightarrow> (bytes \<Rightarrow> bytes \<Rightarrow> bytes) \<Rightarrow> device_identity \<Rightarrow> bytes \<Rightarrow> bytes" where
  "vouchDevice sk_of_seed sign existing newKey = signDetached sk_of_seed sign existing (vouchMessage newKey)"

definition verifyVouch :: "(bytes \<Rightarrow> bytes \<Rightarrow> bytes \<Rightarrow> bool) \<Rightarrow> bytes \<Rightarrow> bytes \<Rightarrow> bytes \<Rightarrow> bool" where
  "verifyVouch verify existingKey newKey sig = verify sig (vouchMessage newKey) existingKey"

subsection \<open>Fingerprints and safety numbers\<close>

definition FINGERPRINT_BYTES :: nat where
  "FINGERPRINT_BYTES = 32"

definition hex_digit :: "nat \<Rightarrow> char" where
  "hex_digit n = (if n < 10 then char_of (48 + n) else char_of (87 + n))"

definition to_hex :: "bytes \<Rightarrow> string" where
  "to_hex bs = concat (map (\<lambda>b. [hex_digit (unat b div 16), hex_digit (unat b mod 16)]) bs)"

definition fingerprint :: "(nat \<Rightarrow> bytes \<Rightarrow> bytes) \<Rightarrow> bytes \<Rightarrow> bytes" where
  "fingerprint H key = H FINGERPRINT_BYTES key"

text \<open>\<open>s.match(/.{k}/g)\<close>: the consecutive full groups of \<open>k\<close> characters.\<close>

function groups :: "nat \<Rightarrow> 'a list \<Rightarrow> 'a list list" where
  "groups k s = (if k = 0 \<or> length s < k then [] else take k s # groups k (drop k s))"
  by pat_completeness auto
termination
  by (relation "measure (\<lambda>(k, s). length s)") auto

declare groups.simps [simp del]

definition fingerprintHex :: "(nat \<Rightarrow> bytes \<Rightarrow> bytes) \<Rightarrow> bytes \<Rightarrow> string" where
  "fingerprintHex H key = join_with '' '' (groups 4 (to_hex (fingerprint H key)))"

record user_key_set =
  uks_userId :: string
  uks_deviceKeys :: "bytes list"

definition byte_at :: "bytes \<Rightarrow> nat \<Rightarrow> 32 word" where
  "byte_at bs i = (if i < length bs then ucast (bs ! i) else 0)"

definition pad5 :: "nat \<Rightarrow> string" where
  "pad5 n = (let s = show_nat n in replicate (5 - length s) (CHR ''0'') @ s)"

definition digit_group :: "bytes \<Rightarrow> nat \<Rightarrow> string" where
  "digit_group hash g =
     (let o' = g * 4;
          n = or (or (or (push_bit 24 (byte_at hash o')) (push_bit 16 (byte_at hash (o' + 1))))
                     (push_bit 8 (byte_at hash (o' + 2)))) (byte_at hash (o' + 3))
      in pad5 (unat n mod 100000))"

definition digitsFromHash :: "bytes \<Rightarrow> string" where
  "digitsFromHash hash = concat (map (digit_group hash) [0..<6])"

definition userDigest :: "(nat \<Rightarrow> bytes \<Rightarrow> bytes) \<Rightarrow> user_key_set \<Rightarrow> bytes" where
  "userDigest H u =
     (let sortedHex = sort (map (\<lambda>k. to_hex (fingerprint H k)) (uks_deviceKeys u))
      in H FINGERPRINT_BYTES
           (utf8 (''KISY-safety-v1|'' @ uks_userId u @ ''|'' @ join_with ''|'' sortedHex)))"

definition safetyNumber :: "(nat \<Rightarrow> bytes \<Rightarrow> bytes) \<Rightarrow> user_key_set \<Rightarrow> user_key_set \<Rightarrow> string" where
  "safetyNumber H a b =
     (let da = userDigest H a; db = userDigest H b;
          halves = [digitsFromHash da, digitsFromHash db];
          halves = (if to_hex da > to_hex db then rev halves else halves)
      in concat halves)"

definition formatSafetyNumber :: "string \<Rightarrow> string" where
  "formatSafetyNumber sn = join_with '' '' (groups 5 sn)"

lemma hex_digit_inj: "m < 16 \<Longrightarrow> n < 16 \<Longrightarrow> hex_digit m = hex_digit n \<Longrightarrow> m = n"
proof -
  assume lt: "m < 16" "n < 16" and eq: "hex_digit m = hex_digit n"
  have val: "(of_char (hex_digit k) :: nat) = (if k < 10 then 48 + k else 87 + k)" if "k < 16" for k
    using that by (simp add: hex_digit_def)
  from arg_cong [OF eq, of "of_char :: char \<Rightarrow> nat"] show ?thesis
    unfolding val [OF lt(1)] val [OF lt(2)] using lt by (simp split: if_splits)
qed

lemma to_hex_inj: "to_hex a = to_hex b \<Longrightarrow> a = b"
proof (induction a arbitrary: b)
  case Nil
  then show ?case by (cases b) (auto simp: to_hex_def)
next
  case (Cons x a)
  then obtain y b' where b: "b = y # b'" by (cases b) (auto simp: to_hex_def)
  with Cons.prems have "hex_digit (unat x div 16) = hex_digit (unat y div 16)"
    and "hex_digit (unat x mod 16) = hex_digit (unat y mod 16)" and tail: "to_hex a = to_hex b'"
    by (simp_all add: to_hex_def)
  moreover have "unat x div 16 < 16" "unat y div 16 < 16"
    using unsigned_less [of x, where ?'a = nat] unsigned_less [of y, where ?'a = nat] by auto
  ultimately have "unat x div 16 = unat y div 16" and "unat x mod 16 = unat y mod 16"
    by (auto intro: hex_digit_inj)
  then have "unat x = unat y" by (metis div_mult_mod_eq)
  then have "x = y" by (simp add: word_unat_eq_iff)
  with Cons.IH [OF tail] b show ?case by simp
qed

lemma length_show_nat: "n < 10 ^ Suc k \<Longrightarrow> length (show_nat n) \<le> Suc k"
proof (induction k arbitrary: n)
  case 0
  then show ?case by (subst show_nat.simps) simp
next
  case (Suc k)
  show ?case
  proof (cases "n < 10")
    case True
    then show ?thesis by (subst show_nat.simps) simp
  next
    case False
    have "n div 10 < 10 ^ Suc k" using Suc.prems by (simp add: less_mult_imp_div_less)
    from Suc.IH [OF this] False show ?thesis by (subst show_nat.simps) simp
  qed
qed

lemma pad5_digits: "n < 100000 \<Longrightarrow> length (pad5 n) = 5 \<and> list_all is_digit (pad5 n)"
  using length_show_nat [of n 4] digits_show_nat(1) [of n]
  by (auto simp: pad5_def Let_def list_all_iff is_digit_def)

lemma digitsFromHash_digits: "length (digitsFromHash h) = 30 \<and> list_all is_digit (digitsFromHash h)"
proof -
  have "length (digit_group h g) = 5 \<and> list_all is_digit (digit_group h g)" for g
    unfolding digit_group_def Let_def by (rule pad5_digits) simp
  then show ?thesis
    by (simp add: digitsFromHash_def upt_rec)
qed

lemma userDigest_perm:
  assumes "mset ks = mset ks'"
  shows "userDigest H \<lparr>uks_userId = u, uks_deviceKeys = ks\<rparr> = userDigest H \<lparr>uks_userId = u, uks_deviceKeys = ks'\<rparr>"
proof -
  have "mset (map (\<lambda>k. to_hex (fingerprint H k)) ks) = mset (map (\<lambda>k. to_hex (fingerprint H k)) ks')"
    using assms by simp
  then have "sort (map (\<lambda>k. to_hex (fingerprint H k)) ks) = sort (map (\<lambda>k. to_hex (fingerprint H k)) ks')"
    by (intro properties_for_sort) (auto simp: mset_sort)
  then show ?thesis by (simp add: userDigest_def)
qed

text \<open>
  C28. The safety number: both partners compute the same string (it does not depend on whose key set
  comes first), it is always 60 decimal digits, and it depends on the set of device keys alone, not on
  the order in which the directory lists them.
\<close>

theorem safetyNumber_agrees:
  "safetyNumber H a b = safetyNumber H b a \<and>
   length (safetyNumber H a b) = 60 \<and> list_all is_digit (safetyNumber H a b) \<and>
   (\<forall>u ks ks'. mset ks = mset ks' \<longrightarrow>
      safetyNumber H \<lparr>uks_userId = u, uks_deviceKeys = ks\<rparr> b = safetyNumber H \<lparr>uks_userId = u, uks_deviceKeys = ks'\<rparr> b)"
proof (intro conjI allI impI)
  show "safetyNumber H a b = safetyNumber H b a"
  proof (cases "to_hex (userDigest H a) = to_hex (userDigest H b)")
    case True
    then have "userDigest H a = userDigest H b" by (rule to_hex_inj)
    then show ?thesis by (simp add: safetyNumber_def Let_def)
  next
    case False
    then show ?thesis by (auto simp: safetyNumber_def Let_def not_less)
  qed
  show "length (safetyNumber H a b) = 60" "list_all is_digit (safetyNumber H a b)"
    using digitsFromHash_digits by (auto simp: safetyNumber_def Let_def)
next
  fix u :: string and ks ks' :: "bytes list"
  assume "mset ks = mset ks'"
  from userDigest_perm [OF this, of H u]
  show "safetyNumber H \<lparr>uks_userId = u, uks_deviceKeys = ks\<rparr> b = safetyNumber H \<lparr>uks_userId = u, uks_deviceKeys = ks'\<rparr> b"
    by (simp add: safetyNumber_def Let_def)
qed

theorem safetyNumber_agrees_witness:
  "safetyNumber (\<lambda>n x. take n (x @ replicate n 3)) \<lparr>uks_userId = ''u1'', uks_deviceKeys = [[1], [2]]\<rparr>
      \<lparr>uks_userId = ''u2'', uks_deviceKeys = []\<rparr>
   = safetyNumber (\<lambda>n x. take n (x @ replicate n 3)) \<lparr>uks_userId = ''u1'', uks_deviceKeys = [[2], [1]]\<rparr>
      \<lparr>uks_userId = ''u2'', uks_deviceKeys = []\<rparr>"
proof -
  have "mset [[1], [2 :: byte]] = mset [[2], [1 :: byte]]" by simp
  with safetyNumber_agrees [of "\<lambda>n x. take n (x @ replicate n 3)"] show ?thesis by blast
qed

end
