(* ===== verification/Mls_Wrapper.thy ===== *)
theory Mls_Wrapper
  imports Device_Identity
begin

text \<open>
  \<open>shared/crypto/mls.ts\<close>, the only module that touches ts-mls. The library, libsodium's base64,
  WebCrypto's digest, the clock and the server are the record \<open>platform\<close>, a parameter of every
  definition that uses them; nothing is assumed of its fields here. Each call is a function of the
  environment \<open>'env\<close> (random source, network, server, clock) that may throw. The opaque types are
  ts-mls's \<open>ClientState\<close> (\<open>'st\<close>), \<open>KeyPackage\<close> (\<open>'pub\<close>), \<open>Welcome\<close> (\<open>'wel\<close>) and framed message (\<open>'msg\<close>).
\<close>

type_synonym ('env, 'a) ext = "('env, js_error, 'a) io"

datatype ('pub, 'wel, 'msg) mls_message =
    MlsKeyPackage 'pub | MlsWelcome 'wel | MlsPrivateMessage 'msg | MlsPublicMessage 'msg | MlsGroupInfo

datatype 'pub proposal = AddProposal 'pub | RemoveProposal nat

datatype credential = BasicCredential bytes | OtherCredential

datatype tree_node = LeafNode credential bytes | ParentNode

record private_package =
  initPrivateKey :: bytes
  hpkePrivateKey :: bytes
  signaturePrivateKey :: bytes

record ('st, 'pub, 'wel, 'msg, 'env) platform =
  \<comment> \<open>ts-mls\<close>
  createGroup :: "bytes \<Rightarrow> 'pub \<Rightarrow> private_package \<Rightarrow> ('env, 'st) ext"
  createCommit :: "'st \<Rightarrow> 'pub proposal list \<Rightarrow> ('env, 'st \<times> ('pub, 'wel, 'msg) mls_message \<times> 'wel option) ext"
  joinGroup :: "'wel \<Rightarrow> 'pub \<Rightarrow> private_package \<Rightarrow> ('env, 'st) ext"
  createApplicationMessage :: "'st \<Rightarrow> bytes \<Rightarrow> ('env, 'st \<times> 'msg) ext"
  processMessage :: "'msg \<Rightarrow> 'st \<Rightarrow> ('env, 'st \<times> bytes option) ext"
  generateKeyPackageWithKey :: "credential \<Rightarrow> bytes \<Rightarrow> bytes \<Rightarrow> ('env, 'pub \<times> private_package) ext"
  encodeMlsMessage :: "('pub, 'wel, 'msg) mls_message \<Rightarrow> bytes"
  decodeMlsMessage :: "bytes \<Rightarrow> ('pub, 'wel, 'msg) mls_message option"
  encodeGroupState :: "'st \<Rightarrow> bytes"
  decodeGroupState :: "bytes \<Rightarrow> 'st option"
  ratchetTree :: "'st \<Rightarrow> tree_node option list"
  stEpoch :: "'st \<Rightarrow> nat"
  \<comment> \<open>libsodium, WebCrypto, Date\<close>
  to_base64 :: "bytes \<Rightarrow> string"
  from_base64 :: "string \<Rightarrow> js_error + bytes"
  sha256 :: "bytes \<Rightarrow> bytes"
  parseDate :: "string \<Rightarrow> int option"
  newIdentity :: "('env, device_identity) ext"
  date_now :: "'env \<Rightarrow> int"
  sleep :: "nat \<Rightarrow> 'env \<Rightarrow> 'env"
  \<comment> \<open>the server, as \<open>endpoints.ts\<close> reaches it\<close>
  srv_listWelcomes :: "string \<Rightarrow> ('env, group_message list) ext"
  srv_ackWelcome :: "string \<Rightarrow> string \<Rightarrow> ('env, unit) ext"
  srv_listHandshake :: "string \<Rightarrow> string option \<Rightarrow> ('env, group_message list) ext"
  srv_publishHandshake :: "handshake_body \<Rightarrow> ('env, unit) ext"
  srv_claimKeyPackages :: "string \<Rightarrow> string option \<Rightarrow> string option \<Rightarrow> ('env, claimed_package list) ext"
  srv_listDevices :: "string \<Rightarrow> ('env, e2ee_device list) ext"
  srv_requestJoin :: "string \<Rightarrow> string \<Rightarrow> ('env, unit) ext"
  srv_registerDevice :: "string \<Rightarrow> string \<Rightarrow> string \<Rightarrow> ('env, unit) ext"
  srv_countKeyPackages :: "string \<Rightarrow> ('env, int) ext"
  srv_uploadKeyPackages :: "string \<Rightarrow> string list \<Rightarrow> ('env, unit) ext"
  srv_listMessages :: "chat_type \<Rightarrow> string \<Rightarrow> string option \<Rightarrow> nat \<Rightarrow> ('env, message_page) ext"
  srv_send :: "chat_type \<Rightarrow> string \<Rightarrow> send_body \<Rightarrow> ('env, message) ext"
  srv_forward :: "string list \<Rightarrow> chat_type \<Rightarrow> string \<Rightarrow> (string, encrypted_body) jsmap option \<Rightarrow> ('env, unit) ext"
  srv_schedule :: "schedule_body \<Rightarrow> ('env, scheduled_message) ext"
  srv_updateScheduled :: "string \<Rightarrow> send_body \<Rightarrow> ('env, scheduled_message) ext"
  srv_cancelScheduled :: "string \<Rightarrow> ('env, unit) ext"

subsection \<open>Credentials and key packages\<close>

definition KISY_E2EE_ALG :: nat where
  "KISY_E2EE_ALG = 1"

definition credentialFor :: "string \<Rightarrow> string \<Rightarrow> credential" where
  "credentialFor userId devId = BasicCredential (utf8 (userId @ ''/'' @ devId))"

definition parseCredentialIdentity :: "bytes \<Rightarrow> (string \<times> string) option" where
  "parseCredentialIdentity ident =
     (let txt = utf8dec ident
      in case index_of (CHR ''/'') txt of
           None \<Rightarrow> None
         | Some sep \<Rightarrow> if sep = 0 then None else Some (take sep txt, drop (sep + 1) txt))"

lemma parse_credentialFor:
  assumes "CHR ''/'' \<notin> set userId" and "userId \<noteq> ''''"
  shows "parseCredentialIdentity (utf8 (userId @ ''/'' @ devId)) = Some (userId, devId)"
  using assms by (simp add: parseCredentialIdentity_def)

record ('pub) device_key_package =
  keyPackageMessage :: bytes
  publicPackage :: 'pub
  privatePackage :: private_package

definition createDeviceKeyPackage ::
  "('st, 'pub, 'wel, 'msg, 'env) platform \<Rightarrow> device_identity \<Rightarrow> string \<Rightarrow> ('env, 'pub device_key_package) ext" where
  "createDeviceKeyPackage P i userId =
     io_bind (generateKeyPackageWithKey P (credentialFor userId (deviceId i)) (seed i) (publicKey i))
       (\<lambda>(pub, priv). io_ret \<lparr>keyPackageMessage = encodeMlsMessage P (MlsKeyPackage pub),
          publicPackage = pub, privatePackage = priv\<rparr>)"

definition decodeKeyPackageMessage ::
  "('st, 'pub, 'wel, 'msg, 'env) platform \<Rightarrow> bytes \<Rightarrow> js_error + 'pub" where
  "decodeKeyPackageMessage P bs = (case decodeMlsMessage P bs of
      Some (MlsKeyPackage kp) \<Rightarrow> Inr kp
    | _ \<Rightarrow> Inl (JsError ''Not an MLS key package''))"

subsection \<open>Groups\<close>

definition createChat ::
  "('st, 'pub, 'wel, 'msg, 'env) platform \<Rightarrow> string \<Rightarrow> 'pub device_key_package \<Rightarrow> ('env, 'st) ext" where
  "createChat P chatId own = createGroup P (utf8 chatId) (publicPackage own) (privatePackage own)"

record 'st commit_result =
  cr_state :: 'st
  cr_commit :: bytes
  cr_welcome :: "bytes option"
  cr_epoch :: nat

definition commitProposals ::
  "('st, 'pub, 'wel, 'msg, 'env) platform \<Rightarrow> 'st \<Rightarrow> 'pub proposal list \<Rightarrow> ('env, 'st commit_result) ext" where
  "commitProposals P st props =
     io_bind (createCommit P st props) (\<lambda>(newState, commit, welcome).
       io_ret \<lparr>cr_state = newState, cr_commit = encodeMlsMessage P commit,
         cr_welcome = map_option (\<lambda>w. encodeMlsMessage P (MlsWelcome w)) welcome,
         cr_epoch = stEpoch P newState\<rparr>)"

fun map_sum_list :: "('a \<Rightarrow> 'e + 'b) \<Rightarrow> 'a list \<Rightarrow> 'e + 'b list" where
  "map_sum_list f [] = Inr []"
| "map_sum_list f (x # xs) = sum_bind (f x) (\<lambda>y. sum_bind (map_sum_list f xs) (\<lambda>ys. Inr (y # ys)))"

definition addMembers ::
  "('st, 'pub, 'wel, 'msg, 'env) platform \<Rightarrow> 'st \<Rightarrow> bytes list \<Rightarrow> ('env, 'st commit_result) ext" where
  "addMembers P st messages =
     io_bind (io_of (map_sum_list (decodeKeyPackageMessage P) messages)) (\<lambda>kps.
       commitProposals P st (map AddProposal kps))"

record member_info =
  mi_userId :: string
  mi_deviceId :: string
  mi_leafIndex :: nat
  mi_signaturePublicKey :: bytes

text \<open>The leaves of the ratchet tree sit at even node indices.\<close>

definition node_member :: "nat \<Rightarrow> tree_node option \<Rightarrow> member_info option" where
  "node_member nodeIndex node =
     (if nodeIndex mod 2 \<noteq> 0 then None
      else case node of
        Some (LeafNode (BasicCredential ident) sigKey) \<Rightarrow>
          map_option (\<lambda>(u, d). \<lparr>mi_userId = u, mi_deviceId = d, mi_leafIndex = nodeIndex div 2,
            mi_signaturePublicKey = sigKey\<rparr>) (parseCredentialIdentity ident)
      | _ \<Rightarrow> None)"

definition listMembers :: "('st, 'pub, 'wel, 'msg, 'env) platform \<Rightarrow> 'st \<Rightarrow> member_info list" where
  "listMembers P st = List.map_filter (\<lambda>(i, node). node_member i node) (enumerate 0 (ratchetTree P st))"

definition currentEpoch :: "('st, 'pub, 'wel, 'msg, 'env) platform \<Rightarrow> 'st \<Rightarrow> nat" where
  "currentEpoch P st = stEpoch P st"

definition removeMember ::
  "('st, 'pub, 'wel, 'msg, 'env) platform \<Rightarrow> 'st \<Rightarrow> string \<Rightarrow> string option \<Rightarrow> ('env, 'st commit_result) ext" where
  "removeMember P st userId devId =
     (let targets = filter (\<lambda>m. mi_userId m = userId \<and> (devId = None \<or> Some (mi_deviceId m) = devId))
                      (listMembers P st)
      in if targets = [] then io_throw (JsError ''Member not found in group'')
         else commitProposals P st (map (\<lambda>m. RemoveProposal (mi_leafIndex m)) targets))"

definition selfUpdate ::
  "('st, 'pub, 'wel, 'msg, 'env) platform \<Rightarrow> 'st \<Rightarrow> ('env, 'st commit_result) ext" where
  "selfUpdate P st = commitProposals P st []"

definition joinChat ::
  "('st, 'pub, 'wel, 'msg, 'env) platform \<Rightarrow> bytes \<Rightarrow> 'pub device_key_package \<Rightarrow> ('env, 'st) ext" where
  "joinChat P welcomeMessage own = (case decodeMlsMessage P welcomeMessage of
      Some (MlsWelcome w) \<Rightarrow> joinGroup P w (publicPackage own) (privatePackage own)
    | _ \<Rightarrow> io_throw (JsError ''Not an MLS welcome''))"

record 'st encrypted_message =
  em_state :: 'st
  em_message :: bytes
  em_epoch :: nat

definition encryptMessage ::
  "('st, 'pub, 'wel, 'msg, 'env) platform \<Rightarrow> 'st \<Rightarrow> bytes \<Rightarrow> ('env, 'st encrypted_message) ext" where
  "encryptMessage P st plaintext =
     io_bind (createApplicationMessage P st plaintext) (\<lambda>(newState, pm).
       io_ret \<lparr>em_state = newState, em_message = encodeMlsMessage P (MlsPrivateMessage pm),
         em_epoch = stEpoch P newState\<rparr>)"

text \<open>\<open>Incoming\<close>: an application message carries its plaintext, a handshake only a new state.\<close>

definition processIncoming ::
  "('st, 'pub, 'wel, 'msg, 'env) platform \<Rightarrow> 'st \<Rightarrow> bytes \<Rightarrow> ('env, 'st \<times> bytes option) ext" where
  "processIncoming P st bs = (case decodeMlsMessage P bs of
      None \<Rightarrow> io_throw (JsError ''Cannot decode MLS message'')
    | Some (MlsPrivateMessage m) \<Rightarrow> processMessage P m st
    | Some (MlsPublicMessage m) \<Rightarrow> processMessage P m st
    | Some _ \<Rightarrow> io_throw (JsError ''Unexpected MLS wireformat''))"

definition serializeChatState :: "('st, 'pub, 'wel, 'msg, 'env) platform \<Rightarrow> 'st \<Rightarrow> bytes" where
  "serializeChatState P st = encodeGroupState P st"

definition deserializeChatState :: "('st, 'pub, 'wel, 'msg, 'env) platform \<Rightarrow> bytes \<Rightarrow> js_error + 'st" where
  "deserializeChatState P bs = (case decodeGroupState P bs of
      None \<Rightarrow> Inl (JsError ''Cannot decode MLS group state'') | Some st \<Rightarrow> Inr st)"

subsection \<open>Membership\<close>

lemma set_listMembers:
  "m \<in> set (listMembers P st) \<longleftrightarrow>
     (\<exists>i < length (ratchetTree P st). node_member i (ratchetTree P st ! i) = Some m)"
  by (auto simp: listMembers_def List.map_filter_def in_set_enumerate_eq image_iff
      split: option.splits prod.splits)

lemma node_member_leaf: "node_member i n = Some m \<Longrightarrow> i = 2 * mi_leafIndex m"
  by (auto simp: node_member_def split: if_splits option.splits tree_node.splits credential.splits)

end
