(* ===== verification/Json.thy ===== *)
theory Json
  imports Device_Identity
begin

text \<open>
  \<open>JSON.stringify\<close> and \<open>JSON.parse\<close> on the values the client stores: natural numbers, strings, arrays,
  objects, \<open>null\<close> and booleans, without insignificant blanks (the client reads back only what \<open>JSON.stringify\<close> wrote).
  The parser spends one unit of fuel per value or separator; the length of its input is always enough
  (\<open>json_roundtrip\<close>), so \<open>json_parse\<close> starts it with that.
\<close>

datatype json = JNum nat | JStr string | JArr "json list" | JObj "(string \<times> json) list" | JNull | JBool bool

definition esc_char :: "char \<Rightarrow> string" where
  "esc_char c =
     (let n = of_char c :: nat in
      if n = 34 then [CHR 0x5C, CHR 0x22]
      else if n = 92 then [CHR 0x5C, CHR 0x5C]
      else if n = 8 then [CHR 0x5C, CHR ''b'']
      else if n = 9 then [CHR 0x5C, CHR ''t'']
      else if n = 10 then [CHR 0x5C, CHR ''n'']
      else if n = 12 then [CHR 0x5C, CHR ''f'']
      else if n = 13 then [CHR 0x5C, CHR ''r'']
      else if n < 32 then [CHR 0x5C, CHR ''u'', CHR ''0'', CHR ''0'', hex_digit (n div 16), hex_digit (n mod 16)]
      else [c])"

definition quote :: "string \<Rightarrow> string" where
  "quote s = [CHR 0x22] @ concat (map esc_char s) @ [CHR 0x22]"

fun stringify :: "json \<Rightarrow> string" where
  "stringify (JNum n) = show_nat n"
| "stringify (JStr s) = quote s"
| "stringify (JArr xs) = ''['' @ join_with '','' (map stringify xs) @ '']''"
| "stringify (JObj kvs) =
     ''{'' @ join_with '','' (map (\<lambda>kv. quote (fst kv) @ '':'' @ stringify (snd kv)) kvs) @ ''}''"
| "stringify JNull = ''null''"
| "stringify (JBool b) = (if b then ''true'' else ''false'')"

subsection \<open>Parsing\<close>

definition hex_val :: "char \<Rightarrow> nat" where
  "hex_val c = (if is_digit c then of_char c - 48 else of_char c - 87)"

fun p_string :: "string \<Rightarrow> (string \<times> string) option" where
  "p_string [] = None"
| "p_string (c # cs) =
     (if c = CHR 0x22 then Some ([], cs)
      else if c = CHR 0x5C then
        (case cs of
           [] \<Rightarrow> None
         | d # ds \<Rightarrow>
             (if d = CHR ''u'' then
                (case ds of
                   _ # _ # h # l # rest \<Rightarrow>
                     map_option (apfst (Cons (char_of (16 * hex_val h + hex_val l)))) (p_string rest)
                 | _ \<Rightarrow> None)
              else map_option (apfst (Cons
                (if d = CHR ''b'' then CHR 0x08 else if d = CHR ''t'' then CHR 0x09
                 else if d = CHR ''n'' then CHR 0x0A else if d = CHR ''f'' then CHR 0x0C
                 else if d = CHR ''r'' then CHR 0x0D else d))) (p_string ds)))
      else map_option (apfst (Cons c)) (p_string cs))"

fun p_value :: "nat \<Rightarrow> string \<Rightarrow> (json \<times> string) option"
  and p_elems :: "nat \<Rightarrow> string \<Rightarrow> (json list \<times> string) option"
  and p_members :: "nat \<Rightarrow> string \<Rightarrow> ((string \<times> json) list \<times> string) option" where
  "p_value 0 s = None"
| "p_value (Suc f) [] = None"
| "p_value (Suc f) (c # cs) =
     (if is_digit c then
        map_option (\<lambda>n. (JNum n, dropWhile is_digit (c # cs))) (read_nat (takeWhile is_digit (c # cs)))
      else if c = CHR 0x22 then map_option (apfst JStr) (p_string cs)
      else if c = CHR ''['' then
        (if cs \<noteq> [] \<and> hd cs = CHR '']'' then Some (JArr [], tl cs) else map_option (apfst JArr) (p_elems f cs))
      else if c = CHR ''{'' then
        (if cs \<noteq> [] \<and> hd cs = CHR ''}'' then Some (JObj [], tl cs) else map_option (apfst JObj) (p_members f cs))
      else if prefix ''null'' (c # cs) then Some (JNull, drop 4 (c # cs))
      else if prefix ''true'' (c # cs) then Some (JBool True, drop 4 (c # cs))
      else if prefix ''false'' (c # cs) then Some (JBool False, drop 5 (c # cs))
      else None)"
| "p_elems 0 s = None"
| "p_elems (Suc f) s = (case p_value f s of
      None \<Rightarrow> None
    | Some (v, rest) \<Rightarrow>
        (case rest of
           [] \<Rightarrow> None
         | c # cs \<Rightarrow> if c = CHR '']'' then Some ([v], cs)
                     else if c = CHR '','' then map_option (apfst (Cons v)) (p_elems f cs) else None))"
| "p_members 0 s = None"
| "p_members (Suc f) s =
     (if s = [] \<or> hd s \<noteq> CHR 0x22 then None else
      case p_string (tl s) of
        None \<Rightarrow> None
      | Some (k, rest0) \<Rightarrow>
          (if rest0 = [] \<or> hd rest0 \<noteq> CHR '':'' then None else
           case p_value f (tl rest0) of
             None \<Rightarrow> None
           | Some (v, rest) \<Rightarrow>
               (case rest of
                  [] \<Rightarrow> None
                | c # cs \<Rightarrow> if c = CHR ''}'' then Some ([(k, v)], cs)
                            else if c = CHR '','' then map_option (apfst (Cons (k, v))) (p_members f cs)
                            else None)))"

definition json_parse :: "string \<Rightarrow> json option" where
  "json_parse s = (case p_value (length s) s of Some (v, []) \<Rightarrow> Some v | _ \<Rightarrow> None)"

subsection \<open>Round trip\<close>

lemma hex_val_digit: "n < 16 \<Longrightarrow> hex_val (hex_digit n) = n"
  by (auto simp: hex_val_def hex_digit_def is_digit_def)

lemma p_string_esc: "p_string (esc_char c @ t) = map_option (apfst (Cons c)) (p_string t)"
proof -
  consider "of_char c \<in> {34, 92, 8, 9, 10, 12, 13 :: nat}"
    | "of_char c < (32 :: nat)" "of_char c \<notin> {8, 9, 10, 12, 13 :: nat}"
    | "of_char c \<ge> (32 :: nat)" "of_char c \<noteq> (34 :: nat)" "of_char c \<noteq> (92 :: nat)"
    by force
  then show ?thesis
  proof cases
    case 1
    then have "(of_char c :: nat) \<in> of_char ` {CHR 0x22, CHR 0x5C, CHR 0x08, CHR 0x09, CHR 0x0A, CHR 0x0C, CHR 0x0D}"
      by simp
    then have "c \<in> {CHR 0x22, CHR 0x5C, CHR 0x08, CHR 0x09, CHR 0x0A, CHR 0x0C, CHR 0x0D}"
      unfolding inj_image_mem_iff [OF inj_of_char] .
    then show ?thesis by (auto simp: esc_char_def Let_def)
  next
    case 2
    then have lt: "of_char c div 16 < (16 :: nat)" "of_char c mod 16 < (16 :: nat)" by auto
    have "16 * (of_char c div 16) + of_char c mod 16 = (of_char c :: nat)" by simp
    with 2 lt show ?thesis by (simp add: esc_char_def Let_def hex_val_digit)
  next
    case 3
    then have "c \<noteq> CHR 0x22" "c \<noteq> CHR 0x5C" by auto
    with 3 show ?thesis by (simp add: esc_char_def Let_def)
  qed
qed

lemma p_string_quote: "p_string (concat (map esc_char s) @ CHR 0x22 # t) = Some (s, t)"
  by (induction s) (simp_all add: p_string_esc)

fun need :: "json \<Rightarrow> nat" where
  "need (JNum n) = 1"
| "need (JStr s) = 1"
| "need (JArr xs) = 1 + sum_list (map (\<lambda>x. need x + 1) xs)"
| "need (JObj kvs) = 1 + sum_list (map (\<lambda>kv. need (snd kv) + 1) kvs)"
| "need JNull = 1"
| "need (JBool b) = 1"

definition no_digit :: "string \<Rightarrow> bool" where
  "no_digit t \<longleftrightarrow> t = [] \<or> \<not> is_digit (hd t)"

lemma read_digits:
  assumes "no_digit t"
  shows "takeWhile is_digit (show_nat n @ t) = show_nat n" "dropWhile is_digit (show_nat n @ t) = t"
proof -
  have all: "\<forall>c \<in> set (show_nat n). is_digit c" using digits_show_nat(1) by (simp add: list_all_iff)
  have t: "takeWhile is_digit t = []" "dropWhile is_digit t = t"
    using assms by (cases t; simp add: no_digit_def)+
  show "takeWhile is_digit (show_nat n @ t) = show_nat n" using all t by (simp add: takeWhile_append2)
  show "dropWhile is_digit (show_nat n @ t) = t" using all t by (simp add: dropWhile_append2)
qed

lemma p_value_num:
  assumes "no_digit t"
  shows "p_value (Suc f) (show_nat n @ t) = Some (JNum n, t)"
proof -
  obtain c cs where s: "show_nat n = c # cs" using digits_show_nat(2) by (metis list.exhaust)
  have "is_digit c" using digits_show_nat(1) [of n] s by simp
  then show ?thesis
    using read_digits [OF assms, of n] read_show_nat [of n] by (simp add: s)
qed

lemma stringify_hd: "stringify v \<noteq> [] \<and> hd (stringify v) \<noteq> CHR '']''"
proof (cases v)
  case (JNum n)
  have "is_digit (hd (show_nat n))" using list_all_hd_last [OF digits_show_nat(1) digits_show_nat(2)] by blast
  then have "hd (show_nat n) \<noteq> CHR '']''" by (auto simp: is_digit_def)
  with JNum digits_show_nat(2) show ?thesis by simp
qed (simp_all add: quote_def)

lemma p_elems_ok:
  assumes "\<And>x f t. x \<in> set xs \<Longrightarrow> need x \<le> f \<Longrightarrow> no_digit t \<Longrightarrow> p_value f (stringify x @ t) = Some (x, t)"
    and "xs \<noteq> []" and "sum_list (map (\<lambda>x. need x + 1) xs) \<le> f"
  shows "p_elems f (join_with '','' (map stringify xs) @ CHR '']'' # t) = Some (xs, t)"
  using assms
proof (induction xs arbitrary: f)
  case Nil
  then show ?case by simp
next
  case (Cons x xs)
  then obtain g where f: "f = Suc g" by (cases f) auto
  have rest: "no_digit (CHR '']'' # t)" "no_digit ('','' @ u)" for t u by (simp_all add: no_digit_def is_digit_def)
  show ?case
  proof (cases xs)
    case Nil
    with Cons.prems f show ?thesis by (simp add: rest)
  next
    case (Cons y ys)
    have "p_elems g (join_with '','' (map stringify xs) @ CHR '']'' # t) = Some (xs, t)"
      using Cons.prems f Cons by (intro Cons.IH) auto
    with Cons.prems f Cons rest(2) show ?thesis by simp
  qed
qed

lemma p_members_ok:
  assumes "\<And>x f t. x \<in> snd ` set kvs \<Longrightarrow> need x \<le> f \<Longrightarrow> no_digit t \<Longrightarrow> p_value f (stringify x @ t) = Some (x, t)"
    and "kvs \<noteq> []" and "sum_list (map (\<lambda>kv. need (snd kv) + 1) kvs) \<le> f"
  shows "p_members f (join_with '','' (map (\<lambda>kv. quote (fst kv) @ '':'' @ stringify (snd kv)) kvs) @ CHR ''}'' # t)
    = Some (kvs, t)"
  using assms
proof (induction kvs arbitrary: f)
  case Nil
  then show ?case by simp
next
  case (Cons kv kvs)
  then obtain g where f: "f = Suc g" by (cases f) auto
  have rest: "no_digit (CHR ''}'' # t)" "no_digit ('','' @ u)" for t u by (simp_all add: no_digit_def is_digit_def)
  show ?case
  proof (cases kvs)
    case Nil
    with Cons.prems f show ?thesis by (simp add: rest quote_def p_string_quote)
  next
    case (Cons y ys)
    have "p_members g (join_with '','' (map (\<lambda>kv. quote (fst kv) @ '':'' @ stringify (snd kv)) kvs) @ CHR ''}'' # t)
        = Some (kvs, t)"
      using Cons.prems f Cons by (intro Cons.IH) auto
    with Cons.prems f Cons rest(2) show ?thesis by (simp add: quote_def p_string_quote)
  qed
qed

lemma p_value_ok: "need v \<le> f \<Longrightarrow> no_digit t \<Longrightarrow> p_value f (stringify v @ t) = Some (v, t)"
proof (induction v arbitrary: f t rule: stringify.induct)
  case (1 n)
  then show ?case by (cases f) (simp_all add: p_value_num)
next
  case (2 s)
  then show ?case by (cases f) (simp_all add: quote_def p_string_quote is_digit_def)
next
  case (3 xs)
  then obtain g where f: "f = Suc g" by (cases f) auto
  show ?case
  proof (cases xs)
    case Nil
    with f show ?thesis by (simp add: is_digit_def)
  next
    case (Cons x ys)
    have "p_elems g (join_with '','' (map stringify xs) @ CHR '']'' # t) = Some (xs, t)"
      using 3 f Cons by (intro p_elems_ok) auto
    moreover have "join_with '','' (map stringify xs) @ CHR '']'' # t \<noteq> []"
      and "hd (join_with '','' (map stringify xs) @ CHR '']'' # t) \<noteq> CHR '']''"
      using stringify_hd [of x] Cons by (cases ys; simp)+
    ultimately show ?thesis using f Cons by (simp add: is_digit_def)
  qed
next
  case (4 kvs)
  then obtain g where f: "f = Suc g" by (cases f) auto
  show ?case
  proof (cases kvs)
    case Nil
    with f show ?thesis by (simp add: is_digit_def)
  next
    case (Cons kv ys)
    let ?j = "join_with '','' (map (\<lambda>kv. quote (fst kv) @ '':'' @ stringify (snd kv)) kvs) @ CHR ''}'' # t"
    have "p_members g ?j = Some (kvs, t)"
      using 4 f Cons by (intro p_members_ok) (blast, simp, simp)
    moreover have "?j \<noteq> []" and "hd ?j \<noteq> CHR ''}''"
      using Cons by (cases ys; simp add: quote_def)+
    ultimately show ?thesis using f Cons by (simp add: is_digit_def)
  qed
next
  case 5
  then show ?case by (cases f) (simp_all add: is_digit_def)
next
  case (6 b)
  then show ?case by (cases f) (simp_all add: is_digit_def)
qed

lemma length_join_with: "xs \<noteq> [] \<Longrightarrow> length (join_with [c] xs) + 1 = sum_list (map (\<lambda>x. length x + 1) xs)"
proof (induction xs)
  case (Cons x xs)
  then show ?case by (cases xs) auto
qed simp

lemma need_length: "need v \<le> length (stringify v)"
proof (induction v rule: stringify.induct)
  case (1 n)
  then show ?case using digits_show_nat(2) [of n] by (cases "show_nat n") auto
next
  case (2 s)
  then show ?case by (simp add: quote_def)
next
  case (3 xs)
  have "sum_list (map (\<lambda>x. need x + 1) xs) \<le> sum_list (map (\<lambda>x. length (stringify x) + 1) xs)"
    using 3 by (intro sum_list_mono) simp
  moreover have "xs \<noteq> [] \<Longrightarrow> length (join_with '','' (map stringify xs)) + 1 = sum_list (map (\<lambda>x. length (stringify x) + 1) xs)"
    using length_join_with [of "map stringify xs"] by (simp add: comp_def)
  ultimately show ?case by (cases "xs = []") auto
next
  case (4 kvs)
  let ?s = "\<lambda>kv. quote (fst kv) @ '':'' @ stringify (snd kv)"
  have "sum_list (map (\<lambda>kv. need (snd kv) + 1) kvs) \<le> sum_list (map (\<lambda>kv. length (?s kv) + 1) kvs)"
  proof (rule sum_list_mono)
    fix kv assume "kv \<in> set kvs"
    from 4 [OF this] show "need (snd kv) + 1 \<le> length (?s kv) + 1" by simp
  qed
  moreover have "kvs \<noteq> [] \<Longrightarrow> length (join_with '','' (map ?s kvs)) + 1 = sum_list (map (\<lambda>kv. length (?s kv) + 1) kvs)"
    using length_join_with [of "map ?s kvs"] by (simp only: map_map comp_def) simp
  ultimately show ?case by (cases "kvs = []") auto
qed simp_all

lemma json_roundtrip [simp]: "json_parse (stringify v) = Some v"
  using p_value_ok [OF need_length, of "[]" v] by (simp add: json_parse_def no_digit_def)

end
