(* ===== verification/E2ee_World.thy ===== *)
theory E2ee_World
  imports Mls_Wrapper Json
begin

text \<open>
  The state the end-to-end encryption code shares: one keystore per account database, the module-level
  maps of \<open>entities/e2ee/chats.ts\<close>, the requests made so far and the environment of the platform.
  \<open>apiLog\<close> records every request in the order the requests are made, each with whether it succeeded;
  the safety theorems are statements about it.
\<close>

datatype api_call =
    ListWelcomes string
  | AckWelcome string string
  | ListHandshake string "string option"
  | PublishHandshake handshake_body
  | ClaimKeyPackages string "string option" "string option"
  | ListDevices string
  | RequestJoin string string
  | RegisterDevice string
  | CountKeyPackages string
  | UploadKeyPackages string "string list"
  | ListMessages chat_type string "string option" nat
  | SendMessage chat_type string send_body
  | ForwardMessages "string list" chat_type string "(string, encrypted_body) jsmap option"
  | ScheduleMessage schedule_body
  | UpdateScheduled string chat_type send_body
  | CancelScheduled string

text \<open>\<open>E2EESession\<close>: the account's keystore (by database name), its device identity, its user.\<close>

record e2ee_session =
  s_store :: string
  s_identity :: device_identity
  s_userId :: string

text \<open>
  The module variables of \<open>entities/e2ee/session.ts\<close>: \<open>session\<close>, \<open>initUserId\<close> and \<open>initPromise\<close>, the last
  with the point its \<open>bootstrap\<close> has reached.
\<close>

datatype boot =
    Opening string
  | Registering string device_identity
  | Replenishing e2ee_session
  | Settled e2ee_session

record e2ee_module =
  session :: "e2ee_session option"
  initPromise :: "boot option"
  initUserId :: "string option"

record ('st, 'env) world =
  stores :: "string \<Rightarrow> kvstore"
  e2ee_vars :: e2ee_module
  authUser :: "string option"
  states :: "string \<rightharpoonup> 'st"
  lastDeviceSync :: "string \<rightharpoonup> int"
  barrenDevices :: "string set"
  joinTries :: nat
  joinIntervalMs :: nat
  apiLog :: "(api_call \<times> bool) list"
  env :: 'env

abbreviation s_deviceId :: "e2ee_session \<Rightarrow> string" where
  "s_deviceId s \<equiv> deviceId (s_identity s)"

type_synonym ('st, 'env, 'a) e2ee = "(('st, 'env) world, js_error, 'a) io"

definition on_env :: "('env, 'a) ext \<Rightarrow> ('st, 'env, 'a) e2ee" where
  "on_env m w = (case m (env w) of (r, e) \<Rightarrow> (r, w\<lparr>env := e\<rparr>))"

definition api :: "api_call \<Rightarrow> ('env, 'a) ext \<Rightarrow> ('st, 'env, 'a) e2ee" where
  "api c m w = (case m (env w) of (r, e) \<Rightarrow> (r, w\<lparr>apiLog := apiLog w @ [(c, \<not> isl r)], env := e\<rparr>))"

definition store_get :: "e2ee_session \<Rightarrow> string \<Rightarrow> ('st, 'env, bytes option) e2ee" where
  "store_get s name = io_get (\<lambda>w. mks_get (stores w (s_store s)) name)"

definition store_put :: "e2ee_session \<Rightarrow> string \<Rightarrow> bytes \<Rightarrow> ('st, 'env, unit) e2ee" where
  "store_put s name v = io_mod (\<lambda>w. w\<lparr>stores := (stores w)(s_store s := mks_put name v (stores w (s_store s)))\<rparr>)"

definition store_remove :: "e2ee_session \<Rightarrow> string \<Rightarrow> ('st, 'env, unit) e2ee" where
  "store_remove s name = io_mod (\<lambda>w. w\<lparr>stores := (stores w)(s_store s := mks_remove name (stores w (s_store s)))\<rparr>)"

definition store_list :: "e2ee_session \<Rightarrow> string \<Rightarrow> ('st, 'env, string list) e2ee" where
  "store_list s pre = io_get (\<lambda>w. mks_list pre (stores w (s_store s)))"

text \<open>What a session's keystore holds under a name, in a world.\<close>

abbreviation held :: "('st, 'env) world \<Rightarrow> e2ee_session \<Rightarrow> string \<Rightarrow> bytes option" where
  "held w s n \<equiv> mks_get (stores w (s_store s)) n"

lemma store_eval [simp, io_simps]:
  "store_get s n w = (Inr (held w s n), w)"
  "store_put s n v w = (Inr (), w\<lparr>stores := (stores w)(s_store s := mks_put n v (stores w (s_store s)))\<rparr>)"
  "store_remove s n w = (Inr (), w\<lparr>stores := (stores w)(s_store s := mks_remove n (stores w (s_store s)))\<rparr>)"
  "store_list s p w = (Inr (mks_list p (stores w (s_store s))), w)"
  by (simp_all add: store_get_def store_put_def store_remove_def store_list_def)

lemma on_env_world: "on_env m w = (r, w') \<Longrightarrow> \<exists>e. w' = w\<lparr>env := e\<rparr>"
  by (auto simp: on_env_def split: prod.splits)

lemma api_world: "api c m w = (r, w') \<Longrightarrow> \<exists>e. w' = w\<lparr>apiLog := apiLog w @ [(c, \<not> isl r)], env := e\<rparr>"
  by (auto simp: api_def split: prod.splits)

lemma on_env_E:
  assumes "on_env m w = (r, w')"
  obtains e where "w' = w\<lparr>env := e\<rparr>" and "m (env w) = (r, e)"
  using assms by (auto simp: on_env_def split: prod.splits)

lemma api_E:
  assumes "api c m w = (r, w')"
  obtains e where "w' = w\<lparr>apiLog := apiLog w @ [(c, \<not> isl r)], env := e\<rparr>" and "m (env w) = (r, e)"
  using assms by (auto simp: api_def split: prod.splits)

subsection \<open>Frames of the shared state\<close>

text \<open>
  The names a session's keystore uses are
  split by prefix (\<open>mls/\<close>, \<open>msg/\<close>, \<open>ct/\<close>, \<open>sched/\<close>, \<open>hs/\<close>, \<open>dec/\<close>, \<open>kp/\<close>, \<open>device/\<close>), and most frame
  facts are about the entries under names satisfying some predicate.
\<close>

text \<open>The part of a world's keystores outside a set of names of one session.\<close>

definition others :: "e2ee_session \<Rightarrow> (string \<Rightarrow> bool) \<Rightarrow> ('st, 'env) world \<Rightarrow> string \<Rightarrow> string \<rightharpoonup> bytes" where
  "others s P w db n = (if db = s_store s \<and> P n then None else mks_get (stores w db) n)"

lemma othersD: "others s P w' = others s P w \<Longrightarrow> \<not> P n \<Longrightarrow> held w' s n = held w s n"
  by (drule fun_cong [of _ _ "s_store s"], drule fun_cong [of _ _ n]) (simp add: others_def)

lemma othersD_db: "others s P w' = others s P w \<Longrightarrow> db \<noteq> s_store s \<Longrightarrow> mks_get (stores w' db) n = mks_get (stores w db) n"
  by (drule fun_cong [of _ _ db], drule fun_cong [of _ _ n]) (simp add: others_def)

lemma kept_on_env: "(\<And>w e. f (w\<lparr>env := e\<rparr>) = f w) \<Longrightarrow> kept f (on_env m)"
  by (rule keeps_frame.framedI) (auto simp: keeps_def dest: on_env_world)

lemma kept_api: "(\<And>w e l. f (w\<lparr>apiLog := l, env := e\<rparr>) = f w) \<Longrightarrow> kept f (api c m)"
  by (rule keeps_frame.framedI) (auto simp: keeps_def dest!: api_world)

lemma kept_store_reads [intro!]: "kept f (store_get s n)" "kept f (store_list s p)"
  by (auto simp: store_get_def store_list_def)

lemma others_env [simp]:
  "others s P (w\<lparr>env := e\<rparr>) = others s P w" "others s P (w\<lparr>apiLog := l\<rparr>) = others s P w"
  "others s P (w\<lparr>states := st\<rparr>) = others s P w" "others s P (w\<lparr>barrenDevices := b\<rparr>) = others s P w"
  "others s P (w\<lparr>lastDeviceSync := y\<rparr>) = others s P w" "others s P (w\<lparr>e2ee_vars := m\<rparr>) = others s P w"
  by (simp_all add: others_def fun_eq_iff)

lemma kept_others_env [intro!]: "kept (others s P) (on_env m)" "kept (others s P) (api c m)"
  by (auto intro!: kept_on_env kept_api)

lemma kept_others_put: "P n \<Longrightarrow> kept (others s P) (store_put s n v)"
  unfolding store_put_def by (rule kept_mod) (auto simp: others_def fun_eq_iff)

lemma kept_others_remove: "P n \<Longrightarrow> kept (others s P) (store_remove s n)"
  unfolding store_remove_def by (rule kept_mod) (auto simp: others_def fun_eq_iff)

end
