(* ===== verification/Sample_Platform.thy ===== *)
theory Sample_Platform
  imports E2ee_World
begin

text \<open>
  A concrete platform on which the hypotheses about ts-mls, libsodium and the server are seen to hold
  together: a group's state is a byte list whose length is its epoch, a commit appends a byte,
  encryption adds one to every byte, framing puts a tag byte in front, base64 is the byte list read as
  text, the environment is the clock, and the server answers every request with an empty result.
  The examples override single fields.
\<close>

fun sample_frame :: "(bytes, bytes, bytes) mls_message \<Rightarrow> bytes" where
  "sample_frame (MlsKeyPackage b) = 1 # b"
| "sample_frame (MlsWelcome b) = 2 # b"
| "sample_frame (MlsPrivateMessage b) = 3 # b"
| "sample_frame (MlsPublicMessage b) = 4 # b"
| "sample_frame MlsGroupInfo = [5]"

fun sample_unframe :: "bytes \<Rightarrow> (bytes, bytes, bytes) mls_message option" where
  "sample_unframe [] = None"
| "sample_unframe (t # b) =
     (if t = 1 then Some (MlsKeyPackage b) else if t = 2 then Some (MlsWelcome b)
      else if t = 3 then Some (MlsPrivateMessage b) else if t = 4 then Some (MlsPublicMessage b)
      else if t = 5 \<and> b = [] then Some MlsGroupInfo else None)"

lemma sample_unframe_frame [simp]: "sample_unframe (sample_frame m) = Some m"
  by (cases m) simp_all

definition sample_message :: message where
  "sample_message = \<lparr>m_id = ''m1'', m_chatId = ''c1'', m_chatType = Private, m_senderId = ''u1'',
     m_text = None, m_replyTo = None, m_attachments = [], m_reactions = [], m_mentions = [], m_isDeleted = False,
     m_createdAt = ''2026-01-01'', m_deletedAt = None, m_editedAt = None, m_pinnedAt = None, m_readCount = None,
     m_readTotal = None, m_pending = False,
     m_failed = False, m_ciphertext = None, m_alg = None, m_epoch = None, m_contentKind = None,
     m_encrypted = False, m_undecryptable = False, m_forwardedFrom = None, m_senderName = None, m_scheduledId = None, m_expiresAt = None,
     m_threadRootId = None, m_threadReplyCount = None, m_threadLastReplyAt = None\<rparr>"

definition sample_scheduled :: scheduled_message where
  "sample_scheduled = \<lparr>sm_id = ''s1'', sm_chatType = Private, sm_chatId = ''c1'', sm_text = None,
     sm_ciphertext = None, sm_alg = None, sm_epoch = None, sm_contentKind = None, sm_replyTo = None,
     sm_attachmentIds = [], sm_sendAt = ''2026-01-02'', sm_status = PendingStatus, sm_sentMessageId = None,
     sm_createdAt = ''2026-01-01''\<rparr>"

definition sample_frame_message :: "string \<Rightarrow> string \<Rightarrow> string \<Rightarrow> group_message" where
  "sample_frame_message i c payload = \<lparr>gm_id = i, gm_chatType = Private, gm_chatId = c, gm_kind = 1,
     gm_senderDevice = None, gm_recipientDevice = None, gm_payload = payload, gm_epoch = None,
     gm_createdAt = ''2026-01-01''\<rparr>"

abbreviation sample_ok :: "'a \<Rightarrow> (int, 'a) ext" where
  "sample_ok a \<equiv> \<lambda>e. (Inr a, e)"

definition sample_platform :: "(bytes, bytes, bytes, bytes, int) platform" where
  "sample_platform = \<lparr>
     createGroup = (\<lambda>gid pub priv. sample_ok []),
     createCommit = (\<lambda>st props. sample_ok (st @ [7], MlsPublicMessage [7], Some (st @ [7]))),
     joinGroup = (\<lambda>wel pub priv. sample_ok wel),
     createApplicationMessage = (\<lambda>st pt. sample_ok (st, map (\<lambda>b. b + 1) pt)),
     processMessage = (\<lambda>m st. sample_ok (st, Some (map (\<lambda>b. b - 1) m))),
     generateKeyPackageWithKey = (\<lambda>cred sd pk e.
        (Inr ([word_of_int e], \<lparr>initPrivateKey = [8], hpkePrivateKey = [9], signaturePrivateKey = sd\<rparr>), e + 1)),
     encodeMlsMessage = sample_frame,
     decodeMlsMessage = sample_unframe,
     encodeGroupState = (\<lambda>st. st),
     decodeGroupState = Some,
     ratchetTree = (\<lambda>st. []),
     stEpoch = length,
     to_base64 = utf8dec,
     from_base64 = (\<lambda>t. Inr (utf8 t)),
     sha256 = (\<lambda>b. take 32 (b @ replicate 32 0)),
     parseDate = js_number,
     newIdentity = (\<lambda>e. (Inr \<lparr>deviceId = ''d'' @ show_int e, publicKey = replicate 32 1, seed = replicate 32 2\<rparr>, e + 1)),
     date_now = (\<lambda>e. e),
     sleep = (\<lambda>n e. e + int n),
     srv_listWelcomes = (\<lambda>d. sample_ok []),
     srv_ackWelcome = (\<lambda>i d. sample_ok ()),
     srv_listHandshake = (\<lambda>c a. sample_ok []),
     srv_publishHandshake = (\<lambda>b. sample_ok ()),
     srv_claimKeyPackages = (\<lambda>u d t. sample_ok []),
     srv_listDevices = (\<lambda>u. sample_ok []),
     srv_requestJoin = (\<lambda>c d. sample_ok ()),
     srv_registerDevice = (\<lambda>d k v. sample_ok ()),
     srv_countKeyPackages = (\<lambda>d. sample_ok 0),
     srv_uploadKeyPackages = (\<lambda>d ks. sample_ok ()),
     srv_listMessages = (\<lambda>t c p n. sample_ok \<lparr>p_items = [], p_nextCursor = None, p_hasMore = False\<rparr>),
     srv_send = (\<lambda>t c b. sample_ok (sample_message\<lparr>m_ciphertext := sb_ciphertext b, m_text := sb_text b\<rparr>)),
     srv_forward = (\<lambda>is t c e. sample_ok ()),
     srv_schedule = (\<lambda>b. sample_ok sample_scheduled),
     srv_updateScheduled = (\<lambda>i b. sample_ok sample_scheduled),
     srv_cancelScheduled = (\<lambda>i. sample_ok ())\<rparr>"

definition sample_identity :: device_identity where
  "sample_identity = \<lparr>deviceId = ''d1'', publicKey = replicate 32 1, seed = replicate 32 2\<rparr>"

definition sample_session :: e2ee_session where
  "sample_session = \<lparr>s_store = ''kisy-e2ee-u1'', s_identity = sample_identity, s_userId = ''u1''\<rparr>"

definition sample_world :: "(bytes, int) world" where
  "sample_world = \<lparr>stores = (\<lambda>_. []),
     e2ee_vars = \<lparr>session = None, initPromise = None, initUserId = None\<rparr>, authUser = Some ''u1'', states = Map.empty, lastDeviceSync = Map.empty, barrenDevices = {},
     joinTries = 4, joinIntervalMs = 2000, apiLog = [], env = 100\<rparr>"

lemma utf8_utf8dec [simp, js_simps]: "utf8 (utf8dec bs) = bs"
proof -
  have "word_of_nat (of_char (char_of (unat b) :: char)) = b" for b :: byte
  proof -
    have "unat b < 256" using unsigned_less [of b] by simp
    then show ?thesis by (simp add: of_char_of)
  qed
  then show ?thesis by (simp add: utf8_def utf8dec_def comp_def map_idI)
qed

lemmas sample_defs = sample_platform_def sample_session_def sample_identity_def sample_world_def
  sample_message_def sample_scheduled_def sample_frame_message_def

end
