(* ===== verification/E2ee_Session.thy ===== *)
theory E2ee_Session
  imports Sample_Platform
begin

text \<open>
  \<open>entities/e2ee/session.ts\<close>: the pool of one-time key packages. Public halves are uploaded to the
  directory; the private halves stay under \<open>kp/<n>\<close>, listed by \<open>kp/index\<close>, because a Welcome can only be
  opened with the package it was addressed to.
\<close>

definition POOL_MIN :: int where "POOL_MIN = 10"
definition POOL_TARGET :: int where "POOL_TARGET = 30"
definition POOL_INDEX :: string where "POOL_INDEX = ''kp/index''"

definition kp_name :: "nat \<Rightarrow> string" where
  "kp_name n = ''kp/'' @ show_nat n"

record stored_key_package =
  skp_message :: string
  skp_init :: string
  skp_hpke :: string
  skp_sig :: string

record pool_index =
  pi_next :: nat
  pi_entries :: "nat list"

subsection \<open>The two JSON formats\<close>

definition json_of_index :: "pool_index \<Rightarrow> json" where
  "json_of_index ix = JObj [(''next'', JNum (pi_next ix)), (''entries'', JArr (map JNum (pi_entries ix)))]"

fun jnum :: "json \<Rightarrow> nat option" where
  "jnum (JNum n) = Some n" | "jnum _ = None"

fun jstr :: "json \<Rightarrow> string option" where
  "jstr (JStr s) = Some s" | "jstr _ = None"

definition index_of_json :: "json \<Rightarrow> pool_index option" where
  "index_of_json j = (case j of
      JObj kvs \<Rightarrow>
        (case (Option.bind (map_of kvs ''next'') jnum, map_of kvs ''entries'') of
           (Some n, Some (JArr xs)) \<Rightarrow>
             map_option (\<lambda>es. \<lparr>pi_next = n, pi_entries = es\<rparr>) (those (map jnum xs))
         | _ \<Rightarrow> None)
    | _ \<Rightarrow> None)"

definition json_of_stored :: "stored_key_package \<Rightarrow> json" where
  "json_of_stored k = JObj [(''message'', JStr (skp_message k)), (''init'', JStr (skp_init k)),
     (''hpke'', JStr (skp_hpke k)), (''sig'', JStr (skp_sig k))]"

definition stored_of_json :: "json \<Rightarrow> stored_key_package option" where
  "stored_of_json j = (case j of
      JObj kvs \<Rightarrow>
        (let f = (\<lambda>k. Option.bind (map_of kvs k) jstr) in
         case (f ''message'', f ''init'', f ''hpke'', f ''sig'') of
           (Some a, Some b, Some c, Some d) \<Rightarrow>
             Some \<lparr>skp_message = a, skp_init = b, skp_hpke = c, skp_sig = d\<rparr>
         | _ \<Rightarrow> None)
    | _ \<Rightarrow> None)"

lemma those_map_jnum [simp]: "those (map (jnum \<circ> JNum) ns) = Some ns"
  by (induction ns) auto

lemma index_of_json_of_index [simp]: "index_of_json (json_of_index ix) = Some ix"
  by (simp add: index_of_json_def json_of_index_def)

lemma stored_of_json_of_stored [simp]: "stored_of_json (json_of_stored k) = Some k"
  by (simp add: stored_of_json_def json_of_stored_def)

definition parse_or :: "(json \<Rightarrow> 'a option) \<Rightarrow> bytes \<Rightarrow> js_error + 'a" where
  "parse_or dec raw = (case Option.bind (json_parse (utf8dec raw)) dec of
      None \<Rightarrow> Inl (JsError ''SyntaxError'') | Some a \<Rightarrow> Inr a)"

lemma parse_or_stringify [simp]:
  "parse_or index_of_json (utf8 (stringify (json_of_index ix))) = Inr ix"
  "parse_or stored_of_json (utf8 (stringify (json_of_stored k))) = Inr k"
  by (simp_all add: parse_or_def)

subsection \<open>Pool operations\<close>

definition index_in :: "kvstore \<Rightarrow> js_error + pool_index" where
  "index_in store = (case mks_get store POOL_INDEX of
      None \<Rightarrow> Inr \<lparr>pi_next = 0, pi_entries = []\<rparr>
    | Some raw \<Rightarrow> parse_or index_of_json raw)"

definition readPoolIndex :: "e2ee_session \<Rightarrow> ('st, 'env, pool_index) e2ee" where
  "readPoolIndex s = io_bind (store_get s POOL_INDEX) (\<lambda>raw. case raw of
      None \<Rightarrow> io_ret \<lparr>pi_next = 0, pi_entries = []\<rparr>
    | Some raw \<Rightarrow> io_of (parse_or index_of_json raw))"

definition writePoolIndex :: "e2ee_session \<Rightarrow> pool_index \<Rightarrow> ('st, 'env, unit) e2ee" where
  "writePoolIndex s ix = store_put s POOL_INDEX (utf8 (stringify (json_of_index ix)))"

lemma readPoolIndex_eval: "readPoolIndex s w = (index_in (stores w (s_store s)), w)"
  by (simp add: readPoolIndex_def io_bind_def index_in_def split: option.splits)

definition stored_of_package ::
  "('st, 'pub, 'wel, 'msg, 'env) platform \<Rightarrow> 'pub device_key_package \<Rightarrow> stored_key_package" where
  "stored_of_package P kp = \<lparr>skp_message = to_base64 P (keyPackageMessage kp),
     skp_init = to_base64 P (initPrivateKey (privatePackage kp)),
     skp_hpke = to_base64 P (hpkePrivateKey (privatePackage kp)),
     skp_sig = to_base64 P (signaturePrivateKey (privatePackage kp))\<rparr>"

text \<open>One round of the loop in \<open>topUpKeyPackages\<close>: the private half is stored before it is listed.\<close>

definition addKeyPackage ::
  "('st, 'pub, 'wel, 'msg, 'env) platform \<Rightarrow> e2ee_session \<Rightarrow> nat \<Rightarrow> pool_index \<times> string list
    \<Rightarrow> ('st, 'env, pool_index \<times> string list) e2ee" where
  "addKeyPackage P s i acc = (case acc of (ix, fresh) \<Rightarrow>
     io_bind (on_env (createDeviceKeyPackage P (s_identity s) (s_userId s))) (\<lambda>kp.
       let n = pi_next ix; stored = stored_of_package P kp in
       io_bind (store_put s (kp_name n) (utf8 (stringify (json_of_stored stored)))) (\<lambda>_.
         io_ret (\<lparr>pi_next = n + 1, pi_entries = pi_entries ix @ [n]\<rparr>, fresh @ [skp_message stored]))))"

definition topUpKeyPackages ::
  "('st, 'pub, 'wel, 'msg, 'env) platform \<Rightarrow> e2ee_session \<Rightarrow> nat \<Rightarrow> ('st, 'env, string list) e2ee" where
  "topUpKeyPackages P s k =
     io_bind (readPoolIndex s) (\<lambda>ix.
     io_bind (io_for (addKeyPackage P s) [0..<k] (ix, [])) (\<lambda>(ix', fresh).
     io_bind (writePoolIndex s ix') (\<lambda>_. io_ret fresh)))"

definition replenishKeyPackages ::
  "('st, 'pub, 'wel, 'msg, 'env) platform \<Rightarrow> e2ee_session \<Rightarrow> ('st, 'env, unit) e2ee" where
  "replenishKeyPackages P s =
     io_bind (api (CountKeyPackages (s_deviceId s)) (srv_countKeyPackages P (s_deviceId s))) (\<lambda>available.
       if available \<ge> POOL_MIN then io_ret ()
       else io_bind (topUpKeyPackages P s (nat (POOL_TARGET - available))) (\<lambda>fresh.
         api (UploadKeyPackages (s_deviceId s) fresh) (srv_uploadKeyPackages P (s_deviceId s) fresh)))"

definition package_of_stored ::
  "('st, 'pub, 'wel, 'msg, 'env) platform \<Rightarrow> stored_key_package \<Rightarrow> js_error + 'pub device_key_package" where
  "package_of_stored P st =
     sum_bind (from_base64 P (skp_message st)) (\<lambda>msg.
     sum_bind (decodeKeyPackageMessage P msg) (\<lambda>pub.
     sum_bind (from_base64 P (skp_init st)) (\<lambda>i.
     sum_bind (from_base64 P (skp_hpke st)) (\<lambda>h.
     sum_bind (from_base64 P (skp_sig st)) (\<lambda>g.
       Inr \<lparr>keyPackageMessage = msg, publicPackage = pub,
         privatePackage = \<lparr>initPrivateKey = i, hpkePrivateKey = h, signaturePrivateKey = g\<rparr>\<rparr>)))))"

definition loadKeyPackage ::
  "('st, 'pub, 'wel, 'msg, 'env) platform \<Rightarrow> e2ee_session \<Rightarrow> nat \<Rightarrow> (nat \<times> 'pub device_key_package) list
    \<Rightarrow> ('st, 'env, (nat \<times> 'pub device_key_package) list) e2ee" where
  "loadKeyPackage P s n out =
     io_bind (store_get s (kp_name n)) (\<lambda>raw. case raw of
        None \<Rightarrow> io_ret out
      | Some raw \<Rightarrow>
          io_bind (io_of (parse_or stored_of_json raw)) (\<lambda>stored.
          io_bind (io_of (package_of_stored P stored)) (\<lambda>pkg. io_ret (out @ [(n, pkg)]))))"

definition localKeyPackages ::
  "('st, 'pub, 'wel, 'msg, 'env) platform \<Rightarrow> e2ee_session
    \<Rightarrow> ('st, 'env, (nat \<times> 'pub device_key_package) list) e2ee" where
  "localKeyPackages P s =
     io_bind (readPoolIndex s) (\<lambda>ix. io_for (loadKeyPackage P s) (pi_entries ix) [])"

definition dropKeyPackage :: "e2ee_session \<Rightarrow> nat \<Rightarrow> ('st, 'env, unit) e2ee" where
  "dropKeyPackage s n =
     io_bind (store_remove s (kp_name n)) (\<lambda>_.
     io_bind (readPoolIndex s) (\<lambda>ix.
     writePoolIndex s (ix\<lparr>pi_entries := filter (\<lambda>e. e \<noteq> n) (pi_entries ix)\<rparr>)))"

subsection \<open>The pool invariant\<close>

text \<open>
  The index is readable, lists every number once, all below the next free number, and every listed
  package is present.
\<close>

definition pool_inv :: "kvstore \<Rightarrow> bool" where
  "pool_inv store \<longleftrightarrow> (case index_in store of
      Inl e \<Rightarrow> False
    | Inr ix \<Rightarrow> distinct (pi_entries ix) \<and>
        (\<forall>n \<in> set (pi_entries ix). n < pi_next ix \<and> mks_get store (kp_name n) \<noteq> None))"

lemma kp_name_index [simp]: "kp_name n \<noteq> POOL_INDEX"
proof
  assume "kp_name n = POOL_INDEX"
  then have "show_nat n = ''index''" by (simp add: POOL_INDEX_def kp_name_def)
  with digits_show_nat(1) [of n] show False by (simp add: is_digit_def)
qed

lemmas kp_name_index' [simp] = kp_name_index [symmetric]

lemma index_in_put [simp]:
  "index_in (mks_put (kp_name n) v store) = index_in store"
  "index_in (mks_remove (kp_name n) store) = index_in store"
  "index_in (mks_put POOL_INDEX (utf8 (stringify (json_of_index ix))) store) = Inr ix"
  by (simp_all add: index_in_def)

lemma pool_invE:
  assumes "pool_inv store"
  obtains ix where "index_in store = Inr ix" and "distinct (pi_entries ix)"
    and "\<And>n. n \<in> set (pi_entries ix) \<Longrightarrow> n < pi_next ix \<and> mks_get store (kp_name n) \<noteq> None"
  using assms by (auto simp: pool_inv_def split: sum.splits)

lemma pool_invI:
  assumes "index_in store = Inr ix" and "distinct (pi_entries ix)"
    and "\<And>n. n \<in> set (pi_entries ix) \<Longrightarrow> n < pi_next ix \<and> mks_get store (kp_name n) \<noteq> None"
  shows "pool_inv store"
  using assms by (simp add: pool_inv_def)

lemma kp_name_inj [simp]: "kp_name m = kp_name n \<longleftrightarrow> m = n"
  by (simp add: kp_name_def)

subsubsection \<open>Reading the pool as a function of the store\<close>

definition load_in ::
  "('st, 'pub, 'wel, 'msg, 'env) platform \<Rightarrow> kvstore \<Rightarrow> nat \<Rightarrow> js_error + (nat \<times> 'pub device_key_package) list" where
  "load_in P store n = (case mks_get store (kp_name n) of
      None \<Rightarrow> Inr []
    | Some raw \<Rightarrow> sum_bind (parse_or stored_of_json raw) (\<lambda>st.
        sum_bind (package_of_stored P st) (\<lambda>pkg. Inr [(n, pkg)])))"

definition pool_in ::
  "('st, 'pub, 'wel, 'msg, 'env) platform \<Rightarrow> kvstore \<Rightarrow> js_error + (nat \<times> 'pub device_key_package) list" where
  "pool_in P store = sum_bind (index_in store) (\<lambda>ix.
     sum_bind (map_sum_list (load_in P store) (pi_entries ix)) (\<lambda>ls. Inr (concat ls)))"

lemma loadKeyPackage_eval:
  "loadKeyPackage P s n out w =
     (sum_bind (load_in P (stores w (s_store s)) n) (\<lambda>l. Inr (out @ l)), w)"
  by (simp add: loadKeyPackage_def load_in_def io_bind_def sum_bind_def split: option.splits sum.splits)

lemma loadKeyPackages_eval:
  "io_for (loadKeyPackage P s) ns out w =
     (sum_bind (map_sum_list (load_in P (stores w (s_store s))) ns) (\<lambda>ls. Inr (out @ concat ls)), w)"
proof (induction ns arbitrary: out)
  case Nil
  then show ?case by simp
next
  case (Cons n ns)
  let ?st = "stores w (s_store s)"
  show ?case
  proof (cases "load_in P ?st n")
    case (Inl e)
    then show ?thesis by (simp add: io_bind_def loadKeyPackage_eval)
  next
    case (Inr l)
    with Cons show ?thesis
      by (cases "map_sum_list (load_in P ?st) ns") (simp_all add: io_bind_def loadKeyPackage_eval)
  qed
qed

lemma localKeyPackages_eval: "localKeyPackages P s w = (pool_in P (stores w (s_store s)), w)"
  by (cases "index_in (stores w (s_store s))")
    (simp_all add: localKeyPackages_def pool_in_def io_bind_def readPoolIndex_eval loadKeyPackages_eval)

lemma map_sum_list_cong:
  "(\<And>x. x \<in> set xs \<Longrightarrow> f x = g x) \<Longrightarrow> map_sum_list f xs = map_sum_list g xs"
  by (induction xs) auto

lemma map_sum_list_append:
  "map_sum_list f (xs @ ys) =
     sum_bind (map_sum_list f xs) (\<lambda>as. sum_bind (map_sum_list f ys) (\<lambda>bs. Inr (as @ bs)))"
proof (induction xs)
  case Nil
  then show ?case by (cases "map_sum_list f ys") simp_all
next
  case (Cons x xs)
  then show ?case
    by (cases "f x"; cases "map_sum_list f xs"; cases "map_sum_list f ys") simp_all
qed

lemma load_in_fst: "load_in P store n = Inr l \<Longrightarrow> p \<in> set l \<Longrightarrow> fst p = n"
  by (auto simp: load_in_def sum_bind_def split: option.splits sum.splits)

lemma load_in_list_fst:
  "map_sum_list (load_in P store) ns = Inr ls \<Longrightarrow> l \<in> set ls \<Longrightarrow> p \<in> set l \<Longrightarrow> fst p \<in> set ns"
proof (induction ns arbitrary: ls)
  case (Cons n ns)
  then show ?case
    by (cases "load_in P store n"; cases "map_sum_list (load_in P store) ns") (auto dest: load_in_fst)
qed simp

lemma load_in_put_other [simp]:
  "m \<noteq> n \<Longrightarrow> load_in P (mks_put (kp_name n) v store) m = load_in P store m"
  "load_in P (mks_put POOL_INDEX v store) m = load_in P store m"
  "m \<noteq> n \<Longrightarrow> load_in P (mks_remove (kp_name n) store) m = load_in P store m"
  by (simp_all add: load_in_def)

subsubsection \<open>Topping up\<close>

text \<open>
  What one or more rounds of the loop do to the account's store: numbers below the old \<open>next\<close> keep
  their entries, every other name keeps its value, and the packages made are listed in order.
\<close>

definition grown ::
  "('st, 'pub, 'wel, 'msg, 'env) platform \<Rightarrow> pool_index \<Rightarrow> kvstore \<Rightarrow> 'pub device_key_package list \<Rightarrow> kvstore \<Rightarrow> bool" where
  "grown P ix store kps store' \<longleftrightarrow>
     (\<forall>i < length kps. mks_get store' (kp_name (pi_next ix + i)) =
        Some (utf8 (stringify (json_of_stored (stored_of_package P (kps ! i)))))) \<and>
     (\<forall>m. (\<forall>i < length kps. m \<noteq> kp_name (pi_next ix + i)) \<longrightarrow> mks_get store' m = mks_get store m)"

lemma grown_Nil [simp]: "grown P ix store [] store' \<longleftrightarrow> (\<forall>m. mks_get store' m = mks_get store m)"
  by (simp add: grown_def)

lemma grown_snoc:
  assumes "grown P ix store kps store'"
  shows "grown P ix store (kps @ [kp])
    (mks_put (kp_name (pi_next ix + length kps)) (utf8 (stringify (json_of_stored (stored_of_package P kp)))) store')"
  using assms unfolding grown_def by (auto simp: nth_append less_Suc_eq)

definition made :: "pool_index \<Rightarrow> nat \<Rightarrow> pool_index" where
  "made ix k = \<lparr>pi_next = pi_next ix + k, pi_entries = pi_entries ix @ [pi_next ix..<pi_next ix + k]\<rparr>"

definition topUp_rel ::
  "('st, 'pub, 'wel, 'msg, 'env) platform \<Rightarrow> e2ee_session \<Rightarrow> pool_index \<Rightarrow> 'pub device_key_package list
    \<Rightarrow> ('st, 'env) world \<Rightarrow> ('st, 'env) world \<Rightarrow> bool" where
  "topUp_rel P s ix kps w w' \<longleftrightarrow>
     grown P ix (stores w (s_store s)) kps (stores w' (s_store s)) \<and>
     (\<forall>kp \<in> set kps. keyPackageMessage kp = encodeMlsMessage P (MlsKeyPackage (publicPackage kp)))"

lemma addKeyPackage_step:
  assumes "topUp_rel P s ix kps w0 w" and "addKeyPackage P s i (made ix (length kps), fresh) w = (r, w')"
  obtains (throws) e where "r = Inl e" and "topUp_rel P s ix kps w0 w'"
  | (adds) kp where "r = Inr (made ix (length (kps @ [kp])), fresh @ [to_base64 P (keyPackageMessage kp)])"
      and "topUp_rel P s ix (kps @ [kp]) w0 w'"
proof (cases r)
  case (Inl e)
  with assms(2) have "\<exists>e'. w' = w\<lparr>env := e'\<rparr>"
    by (auto simp: addKeyPackage_def Let_def elim!: io_bind_Inl_E dest!: on_env_world)
  with assms(1) Inl throws show ?thesis by (auto simp: topUp_rel_def)
next
  case (Inr a)
  with assms(2) obtain kp v where kp: "on_env (createDeviceKeyPackage P (s_identity s) (s_userId s)) w = (Inr kp, v)"
    and rest: "r = Inr (made ix (length (kps @ [kp])), fresh @ [to_base64 P (keyPackageMessage kp)])"
      "w' = v\<lparr>stores := (stores v)(s_store s := mks_put (kp_name (pi_next ix + length kps))
         (utf8 (stringify (json_of_stored (stored_of_package P kp)))) (stores v (s_store s)))\<rparr>"
    by (auto simp: addKeyPackage_def Let_def made_def stored_of_package_def elim!: io_bind_Inr_E)
  from kp have v: "stores v = stores w" by (auto elim: on_env_E)
  from kp have "keyPackageMessage kp = encodeMlsMessage P (MlsKeyPackage (publicPackage kp))"
    by (auto simp: createDeviceKeyPackage_def elim!: on_env_E io_bind_Inr_E split: prod.splits)
  with assms(1) rest v have "topUp_rel P s ix (kps @ [kp]) w0 w'"
    by (simp add: topUp_rel_def grown_snoc)
  with rest adds show ?thesis by blast
qed

lemma addKeyPackages_run:
  assumes "topUp_rel P s ix kps w0 w"
    and "io_for (addKeyPackage P s) js (made ix (length kps), map (\<lambda>k. to_base64 P (keyPackageMessage k)) kps) w = (r, w')"
  shows "\<exists>kps'. topUp_rel P s ix kps' w0 w' \<and>
    (case r of Inl e \<Rightarrow> True
     | Inr (ix', fresh) \<Rightarrow> length kps' = length kps + length js \<and> ix' = made ix (length kps') \<and>
         fresh = map (\<lambda>k. to_base64 P (keyPackageMessage k)) kps')"
  using assms
proof (induction js arbitrary: kps w)
  case Nil
  then show ?case by auto
next
  case (Cons j js)
  obtain r1 w1 where step: "addKeyPackage P s j (made ix (length kps), map (\<lambda>k. to_base64 P (keyPackageMessage k)) kps) w = (r1, w1)"
    by fastforce
  from Cons.prems(1) step show ?case
  proof (cases rule: addKeyPackage_step)
    case (throws e)
    with Cons.prems(2) step show ?thesis by (auto simp: io_bind_eval)
  next
    case (adds kp)
    with Cons.prems(2) step
    have "io_for (addKeyPackage P s) js (made ix (length (kps @ [kp])),
        map (\<lambda>k. to_base64 P (keyPackageMessage k)) (kps @ [kp])) w1 = (r, w')"
      by (simp add: io_bind_eval)
    from Cons.IH [OF adds(2) this] show ?thesis by (auto split: sum.splits)
  qed
qed

lemma grown_index: "grown P ix store kps store' \<Longrightarrow> index_in store' = index_in store"
  by (simp add: grown_def index_in_def)

lemma grown_load_old:
  "grown P ix store kps store' \<Longrightarrow> n < pi_next ix \<Longrightarrow> load_in P store' n = load_in P store n"
  by (simp add: grown_def load_in_def)

lemma grown_inv:
  assumes "grown P ix store kps store'" and "pool_inv store" and "index_in store = Inr ix"
  shows "pool_inv store'"
    and "pool_inv (mks_put POOL_INDEX (utf8 (stringify (json_of_index (made ix (length kps))))) store')"
proof -
  from assms(2,3) have old: "distinct (pi_entries ix)"
    "\<And>n. n \<in> set (pi_entries ix) \<Longrightarrow> n < pi_next ix \<and> mks_get store (kp_name n) \<noteq> None"
    by (auto elim: pool_invE)
  from assms(1) have same: "\<And>n. n < pi_next ix \<Longrightarrow> mks_get store' (kp_name n) = mks_get store (kp_name n)"
    by (simp add: grown_def)
  from old same assms(3) grown_index [OF assms(1)] show "pool_inv store'"
    by (intro pool_invI) auto
  have fresh: "mks_get store' (kp_name n) \<noteq> None" if "pi_next ix \<le> n" "n < pi_next ix + length kps" for n
  proof -
    from that have "n - pi_next ix < length kps" by arith
    with assms(1) have "mks_get store' (kp_name (pi_next ix + (n - pi_next ix))) \<noteq> None"
      by (simp add: grown_def)
    with that show ?thesis by simp
  qed
  show "pool_inv (mks_put POOL_INDEX (utf8 (stringify (json_of_index (made ix (length kps))))) store')"
  proof (rule pool_invI [of _ "made ix (length kps)"])
    show "distinct (pi_entries (made ix (length kps)))"
      using old by (fastforce simp: made_def)
    fix n assume "n \<in> set (pi_entries (made ix (length kps)))"
    then consider "n \<in> set (pi_entries ix)" | "pi_next ix \<le> n" "n < pi_next ix + length kps"
      by (auto simp: made_def)
    then show "n < pi_next (made ix (length kps)) \<and>
      mks_get (mks_put POOL_INDEX (utf8 (stringify (json_of_index (made ix (length kps))))) store') (kp_name n) \<noteq> None"
    proof cases
      case 1
      with old(2) [OF 1] same show ?thesis by (simp add: made_def)
    next
      case 2
      with fresh [OF 2] show ?thesis by (simp add: made_def)
    qed
  qed simp
qed

lemma topUp_run:
  assumes "topUpKeyPackages P s k w = (r, w')" and "index_in (stores w (s_store s)) = Inr ix"
  obtains (failed) e kps where "r = Inl e" and "topUp_rel P s ix kps w w'"
  | (finished) kps v where "r = Inr (map (\<lambda>k. to_base64 P (keyPackageMessage k)) kps)" and "length kps = k"
      and "topUp_rel P s ix kps w v"
      and "stores w' = (stores v)(s_store s := mks_put POOL_INDEX
             (utf8 (stringify (json_of_index (made ix k)))) (stores v (s_store s)))"
proof -
  obtain r1 v where loop: "io_for (addKeyPackage P s) [0..<k] (ix, []) w = (r1, v)" by fastforce
  have "topUp_rel P s ix [] w w" by (simp add: topUp_rel_def)
  moreover have "made ix 0 = ix" by (simp add: made_def)
  ultimately have "\<exists>kps. topUp_rel P s ix kps w v \<and> (case r1 of Inl e \<Rightarrow> True
     | Inr (ix', fresh) \<Rightarrow> length kps = k \<and> ix' = made ix (length kps) \<and>
         fresh = map (\<lambda>k. to_base64 P (keyPackageMessage k)) kps)"
    using addKeyPackages_run [of P s ix "[]" w w "[0..<k]" r1 v] loop by (cases r1) auto
  then obtain kps where kps: "topUp_rel P s ix kps w v"
    and out: "case r1 of Inl e \<Rightarrow> True
     | Inr (ix', fresh) \<Rightarrow> length kps = k \<and> ix' = made ix (length kps) \<and>
         fresh = map (\<lambda>k. to_base64 P (keyPackageMessage k)) kps"
    by blast
  show thesis
  proof (cases r1)
    case (Inl e)
    with assms loop have "r = Inl e" "w' = v"
      by (auto simp: topUpKeyPackages_def io_bind_def readPoolIndex_eval)
    with kps failed show thesis by blast
  next
    case (Inr a)
    with assms loop out have "r = Inr (map (\<lambda>k. to_base64 P (keyPackageMessage k)) kps)"
      "stores w' = (stores v)(s_store s := mks_put POOL_INDEX
             (utf8 (stringify (json_of_index (made ix k)))) (stores v (s_store s)))" "length kps = k"
      by (auto simp: topUpKeyPackages_def io_bind_def readPoolIndex_eval writePoolIndex_def)
    with kps finished show thesis by blast
  qed
qed

lemma topUp_keeps_pool_inv:
  assumes "topUpKeyPackages P s k w = (r, w')" and "pool_inv (stores w (s_store s))"
  shows "pool_inv (stores w' (s_store s))"
proof -
  from assms(2) obtain ix where ix: "index_in (stores w (s_store s)) = Inr ix" by (auto elim: pool_invE)
  from assms(1) ix show ?thesis
  proof (cases rule: topUp_run)
    case (failed e kps)
    then show ?thesis using grown_inv(1) [OF _ assms(2) ix] by (auto simp: topUp_rel_def)
  next
    case (finished kps v)
    then show ?thesis using grown_inv(2) [OF _ assms(2) ix] by (auto simp: topUp_rel_def)
  qed
qed

lemma drop_keeps_pool_inv:
  assumes "dropKeyPackage s n w = (r, w')" and "pool_inv (stores w (s_store s))"
  shows "pool_inv (stores w' (s_store s))"
  using assms(2)
proof (rule pool_invE)
  fix ix assume "index_in (stores w (s_store s)) = Inr ix" and "distinct (pi_entries ix)"
    and "\<And>m. m \<in> set (pi_entries ix) \<Longrightarrow> m < pi_next ix \<and> mks_get (stores w (s_store s)) (kp_name m) \<noteq> None"
  with assms(1) show ?thesis
    by (intro pool_invI [of _ "ix\<lparr>pi_entries := filter (\<lambda>e. e \<noteq> n) (pi_entries ix)\<rparr>"])
      (auto simp: dropKeyPackage_def io_bind_def readPoolIndex_eval writePoolIndex_def)
qed

subsubsection \<open>What the pool serves\<close>

text \<open>Documented of libsodium and ts-mls: decoding inverts encoding.\<close>

definition codec_ok :: "('st, 'pub, 'wel, 'msg, 'env) platform \<Rightarrow> bool" where
  "codec_ok P \<longleftrightarrow> (\<forall>b. from_base64 P (to_base64 P b) = Inr b) \<and>
     (\<forall>m. decodeMlsMessage P (encodeMlsMessage P m) = Some m)"

lemma package_of_stored_of_package:
  assumes "codec_ok P" and "keyPackageMessage kp = encodeMlsMessage P (MlsKeyPackage (publicPackage kp))"
  shows "package_of_stored P (stored_of_package P kp) = Inr kp"
  using assms by (simp add: codec_ok_def package_of_stored_def stored_of_package_def decodeKeyPackageMessage_def)

lemma grown_load_new:
  assumes "codec_ok P" and "grown P ix store kps store'"
    and "\<forall>kp \<in> set kps. keyPackageMessage kp = encodeMlsMessage P (MlsKeyPackage (publicPackage kp))"
  shows "map_sum_list (load_in P store') [pi_next ix..<pi_next ix + length kps] =
    Inr (map (\<lambda>p. [p]) (enumerate (pi_next ix) kps))"
proof -
  have one: "load_in P store' (pi_next ix + i) = Inr [(pi_next ix + i, kps ! i)]" if "i < length kps" for i
    using assms that package_of_stored_of_package [OF assms(1)] by (simp add: load_in_def grown_def)
  have "map_sum_list (load_in P store') [pi_next ix..<pi_next ix + j] =
      Inr (map (\<lambda>p. [p]) (enumerate (pi_next ix) (take j kps)))" if "j \<le> length kps" for j
    using that
  proof (induction j)
    case 0
    then show ?case by simp
  next
    case (Suc j)
    then have "map_sum_list (load_in P store') [pi_next ix..<pi_next ix + j] =
      Inr (map (\<lambda>p. [p]) (enumerate (pi_next ix) (take j kps)))" by simp
    with Suc.prems show ?case
      by (simp add: map_sum_list_append one take_Suc_conv_app_nth enumerate_append_eq)
  qed
  from this [of "length kps"] show ?thesis by simp
qed

text \<open>
  A top-up that returns leaves a pool that serves what was there before followed by exactly the
  new packages, numbered from the old \<open>next\<close>, and the messages handed to the upload are theirs: for
  every public half in the directory the private half is on this device.
\<close>

theorem topUpKeyPackages_extends_pool:
  assumes "codec_ok P" and "pool_inv (stores w (s_store s))"
    and "topUpKeyPackages P s k w = (Inr fresh, w')"
    and "localKeyPackages P s w = (Inr pool, w)"
  shows "\<exists>kps n. localKeyPackages P s w' = (Inr (pool @ enumerate n kps), w') \<and> length kps = k \<and>
    fresh = map (\<lambda>kp. to_base64 P (keyPackageMessage kp)) kps \<and> (\<forall>m \<in> fst ` set pool. m < n)"
proof -
  from assms(2) obtain ix where ix: "index_in (stores w (s_store s)) = Inr ix"
    and below: "\<And>n. n \<in> set (pi_entries ix) \<Longrightarrow> n < pi_next ix" by (auto elim: pool_invE)
  from assms(4) ix obtain ls where ls: "map_sum_list (load_in P (stores w (s_store s))) (pi_entries ix) = Inr ls"
    and pool: "pool = concat ls"
    by (cases "map_sum_list (load_in P (stores w (s_store s))) (pi_entries ix)")
      (auto simp: localKeyPackages_eval pool_in_def)
  from assms(3) ix show ?thesis
  proof (cases rule: topUp_run)
    case (failed e kps)
    then show ?thesis by simp
  next
    case (finished kps v)
    let ?st = "stores v (s_store s)"
    let ?st' = "mks_put POOL_INDEX (utf8 (stringify (json_of_index (made ix k)))) ?st"
    from finished(3) have grown: "grown P ix (stores w (s_store s)) kps ?st"
      and msgs: "\<forall>kp \<in> set kps. keyPackageMessage kp = encodeMlsMessage P (MlsKeyPackage (publicPackage kp))"
      by (auto simp: topUp_rel_def)
    have "map_sum_list (load_in P ?st) (pi_entries ix) = Inr ls"
      using ls below by (subst map_sum_list_cong [OF grown_load_old [OF grown]]) auto
    moreover have "map_sum_list (load_in P ?st') xs = map_sum_list (load_in P ?st) xs" for xs
      by (rule map_sum_list_cong) simp
    ultimately have "pool_in P ?st' = Inr (pool @ enumerate (pi_next ix) kps)"
      using grown_load_new [OF assms(1) grown msgs] finished(2) pool
      by (simp add: pool_in_def made_def map_sum_list_append)
    moreover have "fst p < pi_next ix" if "p \<in> set pool" for p
      using that ls below unfolding pool by (auto dest!: load_in_list_fst)
    ultimately show ?thesis
      using finished by (intro exI [of _ kps] exI [of _ "pi_next ix"]) (auto simp: localKeyPackages_eval)
  qed
qed

lemma codec_ok_sample [simp]: "codec_ok sample_platform"
  by (simp add: codec_ok_def sample_platform_def)

theorem topUpKeyPackages_extends_pool_witness:
  "\<exists>kps n. localKeyPackages sample_platform sample_session
      (snd (topUpKeyPackages sample_platform sample_session 2 sample_world)) =
    (Inr ([] @ enumerate n kps), snd (topUpKeyPackages sample_platform sample_session 2 sample_world)) \<and>
    length kps = 2 \<and>
    [utf8dec [1, 100], utf8dec [1, 101]] = map (\<lambda>kp. to_base64 sample_platform (keyPackageMessage kp)) kps \<and>
    (\<forall>m \<in> fst ` set ([] :: (nat \<times> bytes device_key_package) list). m < n)"
proof (rule topUpKeyPackages_extends_pool)
  show "codec_ok sample_platform" by simp
  show "pool_inv (stores sample_world (s_store sample_session))"
    by (simp add: pool_inv_def index_in_def mks_get_def sample_defs)
  show "topUpKeyPackages sample_platform sample_session 2 sample_world =
    (Inr [utf8dec [1, 100], utf8dec [1, 101]],
     snd (topUpKeyPackages sample_platform sample_session 2 sample_world))"
    by (simp add: topUpKeyPackages_def readPoolIndex_def writePoolIndex_def addKeyPackage_def upt_conv_Cons
        on_env_def createDeviceKeyPackage_def io_bind_def Let_def mks_get_def stored_of_package_def
        sample_defs)
  show "localKeyPackages sample_platform sample_session sample_world = (Inr [], sample_world)"
    by (simp add: localKeyPackages_eval pool_in_def index_in_def mks_get_def sample_defs)
qed

lemma load_in_filter:
  assumes "map_sum_list (load_in P store) ns = Inr ls"
  obtains ls' where "map_sum_list (load_in P store) (filter (\<lambda>m. m \<noteq> n) ns) = Inr ls'"
    and "concat ls' = filter (\<lambda>p. fst p \<noteq> n) (concat ls)"
  using assms
proof (induction ns arbitrary: ls thesis)
  case Nil
  then show ?case by simp
next
  case (Cons m ns)
  from Cons.prems(2) obtain l ls1 where l: "load_in P store m = Inr l"
    and ls1: "map_sum_list (load_in P store) ns = Inr ls1" and ls: "ls = l # ls1"
    by (cases "load_in P store m"; cases "map_sum_list (load_in P store) ns") auto
  from ls1 obtain ls' where "map_sum_list (load_in P store) (filter (\<lambda>m. m \<noteq> n) ns) = Inr ls'"
    and "concat ls' = filter (\<lambda>p. fst p \<noteq> n) (concat ls1)"
    using Cons.IH by blast
  moreover have "filter (\<lambda>p. fst p \<noteq> n) l = (if m = n then [] else l)"
    using load_in_fst [OF l] by (auto simp: filter_id_conv filter_empty_conv)
  ultimately show ?case
    using Cons.prems(1) [of "if m = n then ls' else l # ls'"] l ls by (cases "m = n") simp_all
qed

text \<open>A consumed package is gone, and nothing else: \<open>dropKeyPackage\<close> removes exactly its number.\<close>

lemma dropKeyPackage_pool:
  assumes "localKeyPackages P s w = (Inr pool, w)"
  shows "dropKeyPackage s n w = (Inr (), snd (dropKeyPackage s n w)) \<and>
    localKeyPackages P s (snd (dropKeyPackage s n w)) =
      (Inr (filter (\<lambda>p. fst p \<noteq> n) pool), snd (dropKeyPackage s n w))"
proof -
  let ?st = "stores w (s_store s)"
  from assms obtain ix ls where ix: "index_in ?st = Inr ix"
    and ls: "map_sum_list (load_in P ?st) (pi_entries ix) = Inr ls" and pool: "pool = concat ls"
    by (cases "index_in ?st"; cases "map_sum_list (load_in P ?st) (pi_entries (projr (index_in ?st)))")
      (auto simp: localKeyPackages_eval pool_in_def)
  obtain ls' where ls': "map_sum_list (load_in P ?st) (filter (\<lambda>m. m \<noteq> n) (pi_entries ix)) = Inr ls'"
    and c: "concat ls' = filter (\<lambda>p. fst p \<noteq> n) pool"
    using load_in_filter [OF ls] pool by metis
  let ?ix' = "ix\<lparr>pi_entries := filter (\<lambda>e. e \<noteq> n) (pi_entries ix)\<rparr>"
  let ?st' = "mks_put POOL_INDEX (utf8 (stringify (json_of_index ?ix'))) (mks_remove (kp_name n) ?st)"
  have run: "dropKeyPackage s n w = (Inr (), w\<lparr>stores := (stores w)(s_store s := ?st')\<rparr>)"
    using ix by (simp add: dropKeyPackage_def io_bind_def readPoolIndex_eval writePoolIndex_def)
  have "map_sum_list (load_in P ?st') (filter (\<lambda>m. m \<noteq> n) (pi_entries ix)) = Inr ls'"
    using ls' by (subst map_sum_list_cong [where g = "load_in P ?st"]) auto
  then have "pool_in P ?st' = Inr (filter (\<lambda>p. fst p \<noteq> n) pool)"
    using c by (simp add: pool_in_def)
  with run show ?thesis by (simp add: localKeyPackages_eval)
qed

end
