(* ===== verification/E2ee_Init.thy ===== *)
theory E2ee_Init
  imports E2ee_Session
begin

text \<open>
  The start of end-to-end encryption (\<open>initE2EE\<close> and \<open>bootstrap\<close> of \<open>entities/e2ee/session.ts\<close>), first as a
  state machine over the module variables in which the awaits of \<open>bootstrap\<close> are separate events and
  any number of callers may ask meanwhile, then as the effectful function the send path awaits, which
  is one particular run of that machine.
\<close>

definition db_name :: "string \<Rightarrow> string" where
  "db_name userId = ''kisy-e2ee-'' @ userId"

text \<open>The answer to a caller: now, or whatever the shared promise settles to.\<close>

datatype init_answer = Now "e2ee_session option" | Awaits

definition initE2EE_call :: "string \<Rightarrow> e2ee_module \<Rightarrow> init_answer \<times> e2ee_module" where
  "initE2EE_call userId m =
     (if (case session m of Some s \<Rightarrow> s_userId s = userId | None \<Rightarrow> False) then (Now (session m), m)
      else if (case session m of Some s \<Rightarrow> s_userId s \<noteq> userId | None \<Rightarrow> False)
              \<or> (initPromise m \<noteq> None \<and> initUserId m \<noteq> Some userId) then (Now None, m)
      else if initPromise m = None
        then (Awaits, m\<lparr>initUserId := Some userId, initPromise := Some (Opening userId)\<rparr>)
      else (Awaits, m))"

text \<open>The events of \<open>bootstrap\<close>: what each \<open>await\<close> ends with.\<close>

datatype boot_event = Opened device_identity | Registered | Replenished | BootFailed

fun boot_step :: "boot_event \<Rightarrow> e2ee_module \<Rightarrow> e2ee_module" where
  "boot_step (Opened ident) m = (case initPromise m of
      Some (Opening u) \<Rightarrow> m\<lparr>initPromise := Some (Registering u ident)\<rparr> | _ \<Rightarrow> m)"
| "boot_step Registered m = (case initPromise m of
      Some (Registering u ident) \<Rightarrow>
        (let s = \<lparr>s_store = db_name u, s_identity = ident, s_userId = u\<rparr>
         in m\<lparr>session := Some s, initPromise := Some (Replenishing s)\<rparr>)
    | _ \<Rightarrow> m)"
| "boot_step Replenished m = (case initPromise m of
      Some (Replenishing s) \<Rightarrow> m\<lparr>initPromise := Some (Settled s)\<rparr> | _ \<Rightarrow> m)"
| "boot_step BootFailed m = (case initPromise m of
      None \<Rightarrow> m | Some (Settled s) \<Rightarrow> m | Some _ \<Rightarrow> m\<lparr>initPromise := None\<rparr>)"

subsection \<open>All interleavings of callers and awaits\<close>

text \<open>
  A configuration is the module with the callers still waiting on the promise and the answers given.
  A promise that settles answers every waiter: with the session, or with \<open>null\<close> on failure.
\<close>

record init_config =
  ic_mod :: e2ee_module
  ic_waiting :: "string list"
  ic_answers :: "(string \<times> e2ee_session option) list"

definition settle :: "e2ee_session option \<Rightarrow> init_config \<Rightarrow> init_config" where
  "settle r c = c\<lparr>ic_waiting := [], ic_answers := ic_answers c @ map (\<lambda>u. (u, r)) (ic_waiting c)\<rparr>"

inductive init_step :: "init_config \<Rightarrow> init_config \<Rightarrow> bool" where
  answer: "initE2EE_call u (ic_mod c) = (Now r, m) \<Longrightarrow>
     init_step c (c\<lparr>ic_mod := m, ic_answers := ic_answers c @ [(u, r)]\<rparr>)"
| wait: "initE2EE_call u (ic_mod c) = (Awaits, m) \<Longrightarrow> \<not> (\<exists>s. initPromise m = Some (Settled s)) \<Longrightarrow>
     init_step c (c\<lparr>ic_mod := m, ic_waiting := ic_waiting c @ [u]\<rparr>)"
| wait_settled: "initE2EE_call u (ic_mod c) = (Awaits, m) \<Longrightarrow> initPromise m = Some (Settled s) \<Longrightarrow>
     init_step c (c\<lparr>ic_mod := m, ic_answers := ic_answers c @ [(u, Some s)]\<rparr>)"
| opened: "init_step c (c\<lparr>ic_mod := boot_step (Opened i) (ic_mod c)\<rparr>)"
| registered: "init_step c (c\<lparr>ic_mod := boot_step Registered (ic_mod c)\<rparr>)"
| replenished: "initPromise (ic_mod c) = Some (Replenishing s) \<Longrightarrow>
     init_step c (settle (Some s) (c\<lparr>ic_mod := boot_step Replenished (ic_mod c)\<rparr>))"
| failed: "initPromise (ic_mod c) = Some b \<Longrightarrow> \<not> (\<exists>s. b = Settled s) \<Longrightarrow>
     init_step c (settle None (c\<lparr>ic_mod := boot_step BootFailed (ic_mod c)\<rparr>))"

definition init_start :: init_config where
  "init_start = \<lparr>ic_mod = \<lparr>session = None, initPromise = None, initUserId = None\<rparr>, ic_waiting = [], ic_answers = []\<rparr>"

definition own_session :: "string \<Rightarrow> e2ee_session \<Rightarrow> bool" where
  "own_session u s \<longleftrightarrow> s_userId s = u \<and> s_store s = db_name u"

fun boot_user :: "boot \<Rightarrow> string" where
  "boot_user (Opening u) = u"
| "boot_user (Registering u i) = u"
| "boot_user (Replenishing s) = s_userId s"
| "boot_user (Settled s) = s_userId s"

definition module_inv :: "e2ee_module \<Rightarrow> bool" where
  "module_inv m \<longleftrightarrow>
     (\<forall>s. session m = Some s \<longrightarrow> own_session (s_userId s) s \<and> initUserId m = Some (s_userId s)) \<and>
     (\<forall>b. initPromise m = Some b \<longrightarrow> initUserId m = Some (boot_user b)) \<and>
     (\<forall>s. initPromise m = Some (Replenishing s) \<or> initPromise m = Some (Settled s) \<longrightarrow> session m = Some s) \<and>
     (\<forall>u. initPromise m = Some (Opening u) \<longrightarrow> session m = None) \<and>
     (\<forall>u i. initPromise m = Some (Registering u i) \<longrightarrow> session m = None)"

definition config_inv :: "init_config \<Rightarrow> bool" where
  "config_inv c \<longleftrightarrow> module_inv (ic_mod c) \<and>
     (\<forall>u \<in> set (ic_waiting c). initPromise (ic_mod c) \<noteq> None \<and> initUserId (ic_mod c) = Some u) \<and>
     (\<forall>(u, r) \<in> set (ic_answers c). \<forall>s. r = Some s \<longrightarrow> own_session u s)"

text \<open>The five ways a call goes.\<close>

lemma initE2EE_call_cases:
  assumes "initE2EE_call u m = (a, m')"
  obtains (own) s where "session m = Some s" and "s_userId s = u" and "a = Now (Some s)" and "m' = m"
  | (foreign) s where "session m = Some s" and "s_userId s \<noteq> u" and "a = Now None" and "m' = m"
  | (busy) "session m = None" and "initPromise m \<noteq> None" and "initUserId m \<noteq> Some u" and "a = Now None" and "m' = m"
  | (starts) "session m = None" and "initPromise m = None" and "a = Awaits"
      and "m' = m\<lparr>initUserId := Some u, initPromise := Some (Opening u)\<rparr>"
  | (joins) "session m = None" and "initPromise m \<noteq> None" and "initUserId m = Some u" and "a = Awaits" and "m' = m"
  using assms
  by (cases "session m"; cases "initPromise m = None"; cases "initUserId m = Some u";
      cases "s_userId (the (session m)) = u") (auto simp: initE2EE_call_def)

lemma module_inv_call:
  assumes "module_inv m" and "initE2EE_call u m = (a, m')"
  shows "module_inv m'"
  using assms(2,1)
proof (cases rule: initE2EE_call_cases)
  case starts
  with assms(1) show ?thesis by (simp add: module_inv_def)
qed simp_all

lemma module_inv_boot: "module_inv m \<Longrightarrow> module_inv (boot_step e m)"
  by (cases e; cases "initPromise m"; cases "the (initPromise m)")
    (simp_all add: module_inv_def own_session_def Let_def)

lemma call_answers_own:
  assumes "initE2EE_call u m = (Now (Some s), m')" and "module_inv m"
  shows "own_session u s"
  using assms by (cases rule: initE2EE_call_cases) (auto simp: module_inv_def)

lemma call_awaits_own:
  assumes "initE2EE_call u m = (Awaits, m')"
  shows "initPromise m' \<noteq> None \<and> initUserId m' = Some u"
  using assms by (cases rule: initE2EE_call_cases) auto

lemma call_now_same:
  assumes "initE2EE_call u m = (Now r, m')"
  shows "m' = m"
  using assms by (cases rule: initE2EE_call_cases) auto

lemma boot_step_keeps:
  "initUserId (boot_step e m) = initUserId m"
  "e \<noteq> BootFailed \<Longrightarrow> initPromise m \<noteq> None \<Longrightarrow> initPromise (boot_step e m) \<noteq> None"
  by (cases e; cases "initPromise m"; cases "the (initPromise m)"; simp add: Let_def)+

lemma config_invI:
  assumes "module_inv (ic_mod c)"
    and "\<And>u. u \<in> set (ic_waiting c) \<Longrightarrow> initPromise (ic_mod c) \<noteq> None \<and> initUserId (ic_mod c) = Some u"
    and "\<And>u s. (u, Some s) \<in> set (ic_answers c) \<Longrightarrow> own_session u s"
  shows "config_inv c"
  using assms unfolding config_inv_def by blast

lemma config_invD:
  assumes "config_inv c"
  shows "module_inv (ic_mod c)"
    and "u \<in> set (ic_waiting c) \<Longrightarrow> initPromise (ic_mod c) \<noteq> None \<and> initUserId (ic_mod c) = Some u"
    and "(u, Some s) \<in> set (ic_answers c) \<Longrightarrow> own_session u s"
  using assms unfolding config_inv_def by blast+

lemma config_inv_step:
  assumes "init_step c c'" and "config_inv c"
  shows "config_inv c'"
  using assms
proof (induction rule: init_step.induct)
  case (answer u c r m)
  note inv = config_invD [OF answer.prems]
  have "m = ic_mod c" using answer.hyps by (rule call_now_same)
  with inv answer.hyps show ?case
    by (intro config_invI) (auto dest: call_answers_own)
next
  case (wait u c m)
  note inv = config_invD [OF wait.prems]
  have "initUserId (ic_mod c) = Some u" if "initPromise (ic_mod c) \<noteq> None"
    using wait.hyps(1) that by (cases rule: initE2EE_call_cases) auto
  with inv module_inv_call [OF inv(1) wait.hyps(1)] call_awaits_own [OF wait.hyps(1)] show ?case
    by (intro config_invI) auto
next
  case (wait_settled u c m s)
  note inv = config_invD [OF wait_settled.prems]
  have m: "m = ic_mod c" "initUserId m = Some u"
    using wait_settled.hyps by (auto elim: initE2EE_call_cases)
  with inv(1) wait_settled.hyps(2) have "session m = Some s" and "initUserId m = Some (s_userId s)"
    by (simp_all add: module_inv_def)
  with inv(1) m have "own_session u s" by (auto simp: module_inv_def)
  with inv m show ?case by (intro config_invI) auto
next
  case (opened c i)
  note inv = config_invD [OF opened]
  from inv module_inv_boot [OF inv(1), of "Opened i"] boot_step_keeps [of "Opened i" "ic_mod c"]
  show ?case by (intro config_invI) (auto simp del: boot_step.simps)
next
  case (registered c)
  note inv = config_invD [OF registered]
  from inv module_inv_boot [OF inv(1), of Registered] boot_step_keeps [of Registered "ic_mod c"]
  show ?case by (intro config_invI) (auto simp del: boot_step.simps)
next
  case (replenished c s)
  note inv = config_invD [OF replenished.prems]
  have "own_session (s_userId s) s \<and> initUserId (ic_mod c) = Some (s_userId s)"
    using inv(1) replenished.hyps by (simp add: module_inv_def)
  with inv module_inv_boot [OF inv(1), of Replenished] show ?case
    by (intro config_invI) (auto simp: settle_def simp del: boot_step.simps)
next
  case (failed c b)
  note inv = config_invD [OF failed.prems]
  from inv module_inv_boot [OF inv(1), of BootFailed] show ?case
    by (intro config_invI) (auto simp: settle_def simp del: boot_step.simps)
qed

lemma config_inv_reachable: "init_step\<^sup>*\<^sup>* init_start c \<Longrightarrow> config_inv c"
proof (induction rule: rtranclp_induct)
  case base
  show ?case by (simp add: init_start_def config_inv_def module_inv_def)
next
  case (step y z)
  then show ?case by (blast intro: config_inv_step)
qed

text \<open>The session, once set, is the page's session for good.\<close>

lemma boot_step_session:
  "module_inv m \<Longrightarrow> session m = Some s \<Longrightarrow> session (boot_step e m) = Some s"
  by (cases e; cases "initPromise m"; cases "the (initPromise m)") (simp_all add: module_inv_def)

lemma session_fixed:
  assumes "init_step c c'" and "config_inv c" and "session (ic_mod c) = Some s"
  shows "session (ic_mod c') = Some s"
  using assms
proof (induction rule: init_step.induct)
  case (wait u c m)
  from wait.hyps(1) wait.prems show ?case by (cases rule: initE2EE_call_cases) auto
next
  case (wait_settled u c m s')
  from wait_settled.hyps(1) wait_settled.prems show ?case by (cases rule: initE2EE_call_cases) auto
qed (auto simp: settle_def boot_step_session dest: call_now_same config_invD(1) simp del: boot_step.simps)

text \<open>
  C7. No caller ever gets another account's session. Whatever the order in which callers of
  \<open>initE2EE\<close> and the awaits of \<open>bootstrap\<close> interleave, failures included, every answer given to a caller
  who asked for account \<open>u\<close> is \<open>null\<close> or a session of \<open>u\<close> on \<open>u\<close>'s own database; and once a session is up it
  is never replaced.
\<close>

theorem initE2EE_never_crosses_accounts:
  assumes "init_step\<^sup>*\<^sup>* init_start c"
  shows "(\<forall>u s. (u, Some s) \<in> set (ic_answers c) \<longrightarrow> s_userId s = u \<and> s_store s = db_name u) \<and>
    (\<forall>s c'. session (ic_mod c) = Some s \<longrightarrow> init_step\<^sup>*\<^sup>* c c' \<longrightarrow> session (ic_mod c') = Some s)"
proof -
  have inv: "config_inv c" using assms by (rule config_inv_reachable)
  have "session (ic_mod c') = Some s" if "session (ic_mod c) = Some s" "init_step\<^sup>*\<^sup>* c c'" for s c'
    using that(2,1)
  proof (induction rule: rtranclp_induct)
    case (step y z)
    moreover have "config_inv y"
      using assms step.hyps(1) config_inv_reachable by (meson rtranclp_trans)
    ultimately show ?case by (blast intro: session_fixed)
  qed
  with inv show ?thesis by (fastforce simp: config_inv_def own_session_def)
qed

definition init_example :: init_config where
  "init_example = (let s = \<lparr>s_store = db_name ''u1'', s_identity = sample_identity, s_userId = ''u1''\<rparr>
     in \<lparr>ic_mod = \<lparr>session = Some s, initPromise = Some (Settled s), initUserId = Some ''u1''\<rparr>,
         ic_waiting = [], ic_answers = [(''u2'', None), (''u1'', Some s)]\<rparr>)"

lemma init_example_reachable: "init_step\<^sup>*\<^sup>* init_start init_example"
proof -
  let ?s = "\<lparr>s_store = db_name ''u1'', s_identity = sample_identity, s_userId = ''u1''\<rparr>"
  let ?c1 = "\<lparr>ic_mod = \<lparr>session = None, initPromise = Some (Opening ''u1''), initUserId = Some ''u1''\<rparr>,
     ic_waiting = [''u1''], ic_answers = []\<rparr>"
  let ?c2 = "?c1\<lparr>ic_answers := [(''u2'', None)]\<rparr>"
  let ?c3 = "?c2\<lparr>ic_mod := boot_step (Opened sample_identity) (ic_mod ?c2)\<rparr>"
  let ?c4 = "?c3\<lparr>ic_mod := boot_step Registered (ic_mod ?c3)\<rparr>"
  have "init_step init_start ?c1"
    using init_step.wait [of "''u1''" init_start "ic_mod ?c1"] by (simp add: init_start_def initE2EE_call_def)
  moreover have "init_step ?c1 ?c2"
    using init_step.answer [of "''u2''" ?c1 None "ic_mod ?c1"] by (simp add: initE2EE_call_def)
  moreover have "init_step ?c2 ?c3" by (rule init_step.opened)
  moreover have "init_step ?c3 ?c4" by (rule init_step.registered)
  moreover have "init_step ?c4 init_example"
    using init_step.replenished [of ?c4 ?s] by (simp add: init_example_def settle_def Let_def)
  ultimately show ?thesis by (meson converse_rtranclp_into_rtranclp rtranclp.rtrancl_refl)
qed

theorem initE2EE_never_crosses_accounts_witness:
  "\<exists>s c'. (''u1'', Some s) \<in> set (ic_answers init_example) \<and> s_userId s = ''u1'' \<and> s_store s = db_name ''u1'' \<and>
    init_step init_example c' \<and> ic_answers c' = ic_answers init_example @ [(''u2'', None)] \<and> session (ic_mod c') = Some s"
proof -
  let ?s = "\<lparr>s_store = db_name ''u1'', s_identity = sample_identity, s_userId = ''u1''\<rparr>"
  let ?c = "init_example\<lparr>ic_answers := ic_answers init_example @ [(''u2'', None)]\<rparr>"
  have up: "session (ic_mod init_example) = Some ?s" "(''u1'', Some ?s) \<in> set (ic_answers init_example)"
    by (simp_all add: init_example_def Let_def)
  have foreign: "initE2EE_call ''u2'' (ic_mod init_example) = (Now None, ic_mod init_example)"
    by (simp add: initE2EE_call_def init_example_def Let_def)
  have step: "init_step init_example ?c" using init_step.answer [OF foreign] by simp
  then have "init_step\<^sup>*\<^sup>* init_example ?c" by (rule r_into_rtranclp)
  note own = initE2EE_never_crosses_accounts [OF init_example_reachable]
  from own [THEN conjunct1, rule_format, OF up(2)]
  have "s_userId ?s = ''u1'' \<and> s_store ?s = db_name ''u1''" .
  moreover from own [THEN conjunct2, rule_format, OF up(1) \<open>init_step\<^sup>*\<^sup>* init_example ?c\<close>]
  have "session (ic_mod ?c) = Some ?s" .
  ultimately show ?thesis using up step by (intro exI [of _ ?s] exI [of _ ?c]) simp
qed

subsection \<open>The start as the send path awaits it\<close>

definition boot_ev :: "boot_event \<Rightarrow> ('st, 'env, unit) e2ee" where
  "boot_ev e = io_mod (\<lambda>w. w\<lparr>e2ee_vars := boot_step e (e2ee_vars w)\<rparr>)"

text \<open>\<open>EncryptedIndexedDbKeyStore.open\<close> and \<open>loadOrCreateIdentity\<close> on the account's database.\<close>

definition openIdentity :: "('st, 'pub, 'wel, 'msg, 'env) platform \<Rightarrow> string \<Rightarrow> ('st, 'env, device_identity) e2ee" where
  "openIdentity P db =
     io_bind (io_get (\<lambda>w. mks_get (stores w db) IDENTITY_ENTRY)) (\<lambda>existing.
     io_bind (case existing of None \<Rightarrow> on_env (newIdentity P) | Some bs \<Rightarrow> io_ret (decodeIdentity bs)) (\<lambda>fresh w.
       case loadOrCreateIdentity fresh (stores w db) of
         Inl e \<Rightarrow> (Inl e, w)
       | Inr (i, store) \<Rightarrow> (Inr i, w\<lparr>stores := (stores w)(db := store)\<rparr>)))"

definition bootstrapE2EE :: "('st, 'pub, 'wel, 'msg, 'env) platform \<Rightarrow> string \<Rightarrow> ('st, 'env, e2ee_session) e2ee" where
  "bootstrapE2EE P userId =
     io_bind (openIdentity P (db_name userId)) (\<lambda>ident.
     io_bind (boot_ev (Opened ident)) (\<lambda>_.
     io_bind (api (RegisterDevice (deviceId ident))
                (srv_registerDevice P (deviceId ident) ''browser'' (to_base64 P (publicKey ident)))) (\<lambda>_.
     io_bind (boot_ev Registered) (\<lambda>_.
     let s = \<lparr>s_store = db_name userId, s_identity = ident, s_userId = userId\<rparr> in
     io_bind (replenishKeyPackages P s) (\<lambda>_.
     io_bind (boot_ev Replenished) (\<lambda>_. io_ret s))))))"

text \<open>
  \<open>await initE2EE(userId)\<close>. When no other start is in flight a call either answers at once or starts
  \<open>bootstrap\<close> and waits for it; a failure clears the promise and answers \<open>null\<close>.
\<close>

definition initE2EE :: "('st, 'pub, 'wel, 'msg, 'env) platform \<Rightarrow> string \<Rightarrow> ('st, 'env, e2ee_session option) e2ee" where
  "initE2EE P userId w = (case initE2EE_call userId (e2ee_vars w) of
      (Now r, m) \<Rightarrow> (Inr r, w\<lparr>e2ee_vars := m\<rparr>)
    | (Awaits, m) \<Rightarrow>
        io_catch (io_bind (bootstrapE2EE P userId) (\<lambda>s. io_ret (Some s)))
          (\<lambda>_. io_bind (boot_ev BootFailed) (\<lambda>_. io_ret None)) (w\<lparr>e2ee_vars := m\<rparr>))"

lemma kept_e2ee_vars_replenish [intro!]: "kept e2ee_vars (replenishKeyPackages P s)"
  unfolding replenishKeyPackages_def topUpKeyPackages_def readPoolIndex_def writePoolIndex_def
    addKeyPackage_def store_put_def Let_def
  by (auto intro!: kept_api kept_on_env kept_mod)

lemma kept_e2ee_vars_open [intro!]: "kept e2ee_vars (openIdentity P db)"
  unfolding openIdentity_def
  by (intro kept_intros kept_on_env keeps_frame.framedI)
    (auto simp: keeps_def split: sum.splits prod.splits)

lemma bootstrapE2EE_cases:
  assumes "bootstrapE2EE P u v = (r, w)"
  obtains (open_failed) e where "r = Inl e" and "e2ee_vars w = e2ee_vars v"
  | (register_failed) e i where "r = Inl e" and "e2ee_vars w = boot_step (Opened i) (e2ee_vars v)"
  | (replenish_failed) e i where "r = Inl e"
      and "e2ee_vars w = boot_step Registered (boot_step (Opened i) (e2ee_vars v))"
  | (up) i where "r = Inr \<lparr>s_store = db_name u, s_identity = i, s_userId = u\<rparr>"
      and "e2ee_vars w = boot_step Replenished (boot_step Registered (boot_step (Opened i) (e2ee_vars v)))"
proof -
  obtain r1 v1 where o: "openIdentity P (db_name u) v = (r1, v1)" by fastforce
  then have v1: "e2ee_vars v1 = e2ee_vars v" by (rule keptD [OF kept_e2ee_vars_open])
  show thesis
  proof (cases r1)
    case (Inl e)
    with o assms v1 open_failed show thesis by (auto simp: bootstrapE2EE_def io_bind_eval)
  next
    case (Inr i)
    let ?v2 = "v1\<lparr>e2ee_vars := boot_step (Opened i) (e2ee_vars v1)\<rparr>"
    let ?reg = "api (RegisterDevice (deviceId i)) (srv_registerDevice P (deviceId i) ''browser'' (to_base64 P (publicKey i)))"
    let ?s = "\<lparr>s_store = db_name u, s_identity = i, s_userId = u\<rparr>"
    obtain r2 v3 where reg: "?reg ?v2 = (r2, v3)" by fastforce
    then have v3: "e2ee_vars v3 = e2ee_vars ?v2" by (auto elim: api_E)
    show thesis
    proof (cases r2)
      case (Inl e)
      with o Inr reg v1 v3 assms register_failed [of e i] show thesis
        by (auto simp: bootstrapE2EE_def boot_ev_def io_bind_def simp del: boot_step.simps)
    next
      case (Inr x)
      let ?v4 = "v3\<lparr>e2ee_vars := boot_step Registered (e2ee_vars v3)\<rparr>"
      obtain r3 v5 where rep: "replenishKeyPackages P ?s ?v4 = (r3, v5)" by fastforce
      then have v5: "e2ee_vars v5 = e2ee_vars ?v4" by (rule keptD [OF kept_e2ee_vars_replenish])
      from o \<open>r1 = Inr i\<close> Inr reg rep v1 v3 v5 assms replenish_failed [of _ i] up [of i] show thesis
        by (cases r3) (auto simp: bootstrapE2EE_def boot_ev_def io_bind_def Let_def simp del: boot_step.simps)
    qed
  qed
qed

text \<open>A start in a quiet module is a run of the machine above.\<close>

lemma initE2EE_is_machine_run:
  assumes "initE2EE P u w = (r, w')"
    and "initPromise (e2ee_vars w) = None \<or> session (e2ee_vars w) \<noteq> None"
  shows "\<exists>a. r = Inr a \<and> init_step\<^sup>*\<^sup>* \<lparr>ic_mod = e2ee_vars w, ic_waiting = [], ic_answers = []\<rparr>
    \<lparr>ic_mod = e2ee_vars w', ic_waiting = [], ic_answers = [(u, a)]\<rparr>"
proof -
  let ?c0 = "\<lparr>ic_mod = e2ee_vars w, ic_waiting = [], ic_answers = []\<rparr>"
  obtain ans m where call: "initE2EE_call u (e2ee_vars w) = (ans, m)" by fastforce
  show ?thesis
  proof (cases ans)
    case (Now a)
    with call assms(1) have "r = Inr a" "e2ee_vars w' = m" by (auto simp: initE2EE_def)
    with init_step.answer [of u ?c0 a m] call Now show ?thesis by auto
  next
    case Awaits
    let ?w1 = "w\<lparr>e2ee_vars := m\<rparr>"
    let ?c1 = "\<lparr>ic_mod = m, ic_waiting = [u], ic_answers = []\<rparr>"
    from call Awaits assms(2) have m: "initPromise m = Some (Opening u)"
      by (auto elim: initE2EE_call_cases)
    then have s1: "init_step ?c0 ?c1"
      using init_step.wait [of u ?c0 m] call Awaits by auto
    have s2: "init_step ?c1 (?c1\<lparr>ic_mod := boot_step (Opened i) m\<rparr>)" for i
      using init_step.opened [of ?c1 i] by simp
    have s3: "init_step (?c1\<lparr>ic_mod := boot_step (Opened i) m\<rparr>)
        (?c1\<lparr>ic_mod := boot_step Registered (boot_step (Opened i) m)\<rparr>)" for i
      using init_step.registered [of "?c1\<lparr>ic_mod := boot_step (Opened i) m\<rparr>"] by simp
    have fail: "init_step (?c1\<lparr>ic_mod := m'\<rparr>) \<lparr>ic_mod = boot_step BootFailed m', ic_waiting = [], ic_answers = [(u, None)]\<rparr>"
      if "initPromise m' \<noteq> None" "\<And>s. initPromise m' \<noteq> Some (Settled s)" for m'
      using that init_step.failed [of "?c1\<lparr>ic_mod := m'\<rparr>" "the (initPromise m')"]
      by (auto simp: settle_def simp del: boot_step.simps)
    obtain rb v where b: "bootstrapE2EE P u ?w1 = (rb, v)" by fastforce
    have run: "(r, w') = (case rb of Inr s \<Rightarrow> (Inr (Some s), v)
        | Inl e \<Rightarrow> (Inr None, v\<lparr>e2ee_vars := boot_step BootFailed (e2ee_vars v)\<rparr>))"
      using assms(1) call Awaits b
      by (cases rb) (auto simp: initE2EE_def io_catch_def io_bind_def boot_ev_def)
    from b show ?thesis
    proof (cases rule: bootstrapE2EE_cases)
      case (open_failed e)
      with run s1 fail [of m] m show ?thesis
        by (auto simp del: boot_step.simps intro: converse_rtranclp_into_rtranclp)
    next
      case (register_failed e i)
      with run s1 s2 [of i] fail [of "boot_step (Opened i) m"] m show ?thesis
        by (auto intro!: exI [of _ None] intro: converse_rtranclp_into_rtranclp)
    next
      case (replenish_failed e i)
      with run s1 s2 [of i] s3 [of i] fail [of "boot_step Registered (boot_step (Opened i) m)"] m
      show ?thesis by (auto simp: Let_def intro: converse_rtranclp_into_rtranclp)
    next
      case (up i)
      let ?s = "\<lparr>s_store = db_name u, s_identity = i, s_userId = u\<rparr>"
      from m have "initPromise (boot_step Registered (boot_step (Opened i) m)) = Some (Replenishing ?s)"
        by (simp add: Let_def)
      then have "init_step (?c1\<lparr>ic_mod := boot_step Registered (boot_step (Opened i) m)\<rparr>)
        \<lparr>ic_mod = boot_step Replenished (boot_step Registered (boot_step (Opened i) m)), ic_waiting = [], ic_answers = [(u, Some ?s)]\<rparr>"
        using init_step.replenished [of "?c1\<lparr>ic_mod := boot_step Registered (boot_step (Opened i) m)\<rparr>" ?s]
        by (simp add: settle_def del: boot_step.simps)
      with run up s1 s2 [of i] s3 [of i] show ?thesis
        by (auto simp del: boot_step.simps intro: converse_rtranclp_into_rtranclp)
    qed
  qed
qed

end
