(* ===== verification/E2ee_Cache.thy ===== *)
theory E2ee_Cache
  imports E2ee_Init
begin

text \<open>
  The plaintext caches of \<open>entities/e2ee/chats.ts\<close>. An MLS key opens a message once, and a sender cannot
  open its own messages at all, so the decrypted text of a message lives only in the account's
  keystore: under \<open>msg/<id>\<close> once the message has an id, under \<open>ct/<digest of the ciphertext>\<close> between
  encryption and the server's answer, under \<open>sched/<id>\<close> while a message waits in the scheduler. Entries
  under \<open>msg/\<close> and \<open>ct/\<close> carry the time they expire at, \<open>0\<close> for never.
\<close>

definition msg_name :: "string \<Rightarrow> string" where "msg_name i = ''msg/'' @ i"
definition sched_name :: "string \<Rightarrow> string" where "sched_name i = ''sched/'' @ i"

text \<open>\<open>String(x)\<close> for the number \<open>Date.getTime\<close> or \<open>Date.parse\<close> returns; \<open>None\<close> is \<open>NaN\<close>.\<close>

definition show_num :: "int option \<Rightarrow> string" where
  "show_num x = (case x of None \<Rightarrow> ''NaN'' | Some i \<Rightarrow> show_int i)"

definition NO_EXPIRY :: string where
  "NO_EXPIRY = ''0''"

definition stamp_of :: "('st, 'pub, 'wel, 'msg, 'env) platform \<Rightarrow> string option \<Rightarrow> string" where
  "stamp_of P expiresAt = (if truthy expiresAt then show_num (parseDate P (the expiresAt)) else NO_EXPIRY)"

definition entry :: "string \<Rightarrow> string \<Rightarrow> bytes" where
  "entry stamp txt = utf8 (stamp @ nl # txt)"

definition cachePlaintext ::
  "('st, 'pub, 'wel, 'msg, 'env) platform \<Rightarrow> e2ee_session \<Rightarrow> string \<Rightarrow> string \<Rightarrow> string option \<Rightarrow> ('st, 'env, unit) e2ee" where
  "cachePlaintext P s messageId txt expiresAt = store_put s (msg_name messageId) (entry (stamp_of P expiresAt) txt)"

definition decodePlaintext :: "bytes \<Rightarrow> int \<times> string" where
  "decodePlaintext raw =
     (let decoded = utf8dec raw
      in case index_of nl decoded of
           None \<Rightarrow> (0, decoded)
         | Some i \<Rightarrow> (case js_number (take i decoded) of None \<Rightarrow> 0 | Some n \<Rightarrow> n, drop (i + 1) decoded))"

definition expired :: "int \<Rightarrow> bytes \<Rightarrow> bool" where
  "expired now raw \<longleftrightarrow> fst (decodePlaintext raw) > 0 \<and> fst (decodePlaintext raw) \<le> now"

definition cachedPlaintext ::
  "('st, 'pub, 'wel, 'msg, 'env) platform \<Rightarrow> e2ee_session \<Rightarrow> string \<Rightarrow> ('st, 'env, string option) e2ee" where
  "cachedPlaintext P s messageId =
     io_bind (store_get s (msg_name messageId)) (\<lambda>raw. case raw of
        None \<Rightarrow> io_ret None
      | Some raw \<Rightarrow>
          io_bind (io_get (\<lambda>w. date_now P (env w))) (\<lambda>now.
            if expired now raw
            then io_bind (store_remove s (msg_name messageId)) (\<lambda>_. io_ret None)
            else io_ret (Some (snd (decodePlaintext raw)))))"

definition resetMLSState :: "e2ee_session \<Rightarrow> ('st, 'env, unit) e2ee" where
  "resetMLSState s =
     io_bind (store_list s ''mls/'') (\<lambda>keys.
     io_bind (io_for (\<lambda>key _. store_remove s key) keys ()) (\<lambda>_.
     io_mod (\<lambda>w. w\<lparr>states := Map.empty\<rparr>)))"

subsection \<open>Outgoing text, before the message exists on the server\<close>

definition CT_PREFIX :: string where
  "CT_PREFIX = ''ct/''"

definition ciphertextKey :: "('st, 'pub, 'wel, 'msg, 'env) platform \<Rightarrow> string \<Rightarrow> string" where
  "ciphertextKey P ciphertextB64 = CT_PREFIX @ to_hex (take 16 (sha256 P (utf8 ciphertextB64)))"

definition cacheOutgoingPlaintext ::
  "('st, 'pub, 'wel, 'msg, 'env) platform \<Rightarrow> e2ee_session \<Rightarrow> string \<Rightarrow> string \<Rightarrow> string option \<Rightarrow> ('st, 'env, unit) e2ee" where
  "cacheOutgoingPlaintext P s ciphertextB64 txt expiresAt =
     store_put s (ciphertextKey P ciphertextB64) (entry (stamp_of P expiresAt) txt)"

definition adoptOutgoingPlaintext ::
  "('st, 'pub, 'wel, 'msg, 'env) platform \<Rightarrow> e2ee_session \<Rightarrow> string \<Rightarrow> string \<Rightarrow> string option
    \<Rightarrow> ('st, 'env, string option) e2ee" where
  "adoptOutgoingPlaintext P s ciphertextB64 messageId expiresAt =
     (let key = ciphertextKey P ciphertextB64 in
      io_bind (store_get s key) (\<lambda>raw. case raw of
         None \<Rightarrow> io_ret None
       | Some raw \<Rightarrow>
           (let txt = join_with [nl] (drop 1 (split_on nl (utf8dec raw))) in
            io_bind (cachePlaintext P s messageId txt expiresAt) (\<lambda>_.
            io_bind (store_remove s key) (\<lambda>_. io_ret (Some txt))))))"

definition sweepOrphanOutgoing ::
  "('st, 'pub, 'wel, 'msg, 'env) platform \<Rightarrow> e2ee_session \<Rightarrow> int \<Rightarrow> ('st, 'env, unit) e2ee" where
  "sweepOrphanOutgoing P s olderThanMs =
     io_bind (store_list s CT_PREFIX) (\<lambda>keys.
       io_for (\<lambda>key _. io_bind (store_get s key) (\<lambda>raw. case raw of
            None \<Rightarrow> io_ret ()
          | Some raw \<Rightarrow>
              io_bind (io_get (\<lambda>w. date_now P (env w))) (\<lambda>now.
                case js_number (hd (split_on nl (utf8dec raw))) of
                  None \<Rightarrow> io_ret ()
                | Some stored \<Rightarrow> if stored > 0 \<and> stored + olderThanMs < now then store_remove s key else io_ret ())))
         keys ())"

definition dropPlaintext :: "e2ee_session \<Rightarrow> string \<Rightarrow> ('st, 'env, unit) e2ee" where
  "dropPlaintext s messageId = store_remove s (msg_name messageId)"

definition sweepExpiredPlaintext :: "e2ee_session \<Rightarrow> int \<Rightarrow> ('st, 'env, nat) e2ee" where
  "sweepExpiredPlaintext s now =
     io_bind (store_list s ''msg/'') (\<lambda>keys.
       io_for (\<lambda>key removed. io_bind (store_get s key) (\<lambda>raw. case raw of
            None \<Rightarrow> io_ret removed
          | Some raw \<Rightarrow>
              if expired now raw then io_bind (store_remove s key) (\<lambda>_. io_ret (removed + 1))
              else io_ret removed))
         keys 0)"

subsection \<open>Scheduled text\<close>

definition cacheScheduledPlaintext :: "e2ee_session \<Rightarrow> string \<Rightarrow> string \<Rightarrow> ('st, 'env, unit) e2ee" where
  "cacheScheduledPlaintext s scheduledId txt = store_put s (sched_name scheduledId) (utf8 txt)"

definition cachedScheduledPlaintext :: "e2ee_session \<Rightarrow> string \<Rightarrow> ('st, 'env, string option) e2ee" where
  "cachedScheduledPlaintext s scheduledId =
     io_bind (store_get s (sched_name scheduledId)) (\<lambda>raw. io_ret (map_option utf8dec raw))"

definition dropScheduledPlaintext :: "e2ee_session \<Rightarrow> string \<Rightarrow> ('st, 'env, unit) e2ee" where
  "dropScheduledPlaintext s scheduledId = store_remove s (sched_name scheduledId)"

definition adoptScheduledPlaintext ::
  "('st, 'pub, 'wel, 'msg, 'env) platform \<Rightarrow> e2ee_session \<Rightarrow> string \<Rightarrow> string \<Rightarrow> string option
    \<Rightarrow> ('st, 'env, string option) e2ee" where
  "adoptScheduledPlaintext P s scheduledId messageId expiresAt =
     io_bind (cachedScheduledPlaintext s scheduledId) (\<lambda>txt. case txt of
        None \<Rightarrow> io_ret None
      | Some txt \<Rightarrow>
          io_bind (cachePlaintext P s messageId txt expiresAt) (\<lambda>_.
          io_bind (dropScheduledPlaintext s scheduledId) (\<lambda>_. io_ret (Some txt))))"

subsection \<open>Names do not collide\<close>

lemma cache_names [simp]:
  "msg_name i = msg_name j \<longleftrightarrow> i = j" "sched_name i = sched_name j \<longleftrightarrow> i = j"
  "msg_name i \<noteq> sched_name j" "sched_name j \<noteq> msg_name i"
  "msg_name i \<noteq> ciphertextKey P c" "ciphertextKey P c \<noteq> msg_name i"
  "sched_name i \<noteq> ciphertextKey P c" "ciphertextKey P c \<noteq> sched_name i"
  "prefix ''msg/'' (msg_name i)" "\<not> prefix ''mls/'' (msg_name i)" "\<not> prefix ''mls/'' (sched_name i)"
  "\<not> prefix ''mls/'' (ciphertextKey P c)"
  by (simp_all add: msg_name_def sched_name_def ciphertextKey_def CT_PREFIX_def)

subsection \<open>Entries\<close>

lemma show_num_no_nl: "nl \<notin> set (show_num x)"
  by (cases x) (auto simp: show_num_def)

lemma stamp_of_no_nl [simp]: "nl \<notin> set (stamp_of P e)"
  using show_num_no_nl by (auto simp: stamp_of_def NO_EXPIRY_def)

text \<open>The time a stamp stands for: the expiry when the date is readable, otherwise never.\<close>

definition stamp_ms :: "('st, 'pub, 'wel, 'msg, 'env) platform \<Rightarrow> string option \<Rightarrow> int" where
  "stamp_ms P e = (if truthy e then (case parseDate P (the e) of None \<Rightarrow> 0 | Some t \<Rightarrow> t) else 0)"

lemma js_number_simps [simp]: "js_number ''NaN'' = None" "js_number ''0'' = Some 0"
  by (simp_all add: js_number_def trim_def is_blank_def read_nat_def is_digit_def digit_val_def)

lemma decode_entry [simp]: "decodePlaintext (entry (stamp_of P e) txt) = (stamp_ms P e, txt)"
  by (auto simp: decodePlaintext_def entry_def stamp_ms_def stamp_of_def show_num_def NO_EXPIRY_def
      show_num_no_nl split: option.splits)

lemma split_entry [simp]:
  "split_on nl (utf8dec (entry (stamp_of P e) txt)) = stamp_of P e # split_on nl txt"
  by (simp add: entry_def split_on_append)

subsection \<open>Evaluation\<close>

lemma cachedPlaintext_eval:
  "cachedPlaintext P s i w = (case held w s (msg_name i) of
      None \<Rightarrow> (Inr None, w)
    | Some raw \<Rightarrow> if expired (date_now P (env w)) raw
        then (Inr None, snd (store_remove s (msg_name i) w)) else (Inr (Some (snd (decodePlaintext raw))), w))"
  by (simp add: cachedPlaintext_def io_bind_def split: option.splits)

lemma adoptOutgoingPlaintext_eval:
  "adoptOutgoingPlaintext P s c i e w = (case held w s (ciphertextKey P c) of
      None \<Rightarrow> (Inr None, w)
    | Some raw \<Rightarrow> (let txt = join_with [nl] (drop 1 (split_on nl (utf8dec raw))) in
        (Inr (Some txt), snd (store_remove s (ciphertextKey P c)
           (snd (store_put s (msg_name i) (entry (stamp_of P e) txt) w))))))"
  by (simp add: adoptOutgoingPlaintext_def cachePlaintext_def io_bind_def Let_def split: option.splits)

lemma adoptScheduledPlaintext_eval:
  "adoptScheduledPlaintext P s j i e w = (case held w s (sched_name j) of
      None \<Rightarrow> (Inr None, w)
    | Some raw \<Rightarrow> (Inr (Some (utf8dec raw)), snd (store_remove s (sched_name j)
         (snd (store_put s (msg_name i) (entry (stamp_of P e) (utf8dec raw)) w)))))"
  by (simp add: adoptScheduledPlaintext_def cachedScheduledPlaintext_def dropScheduledPlaintext_def
      cachePlaintext_def io_bind_def split: option.splits)

lemma expired_entry [simp]:
  "expired now (entry (stamp_of P e) txt) \<longleftrightarrow> 0 < stamp_ms P e \<and> stamp_ms P e \<le> now"
  by (simp add: expired_def)

subsection \<open>Reading back\<close>

text \<open>
  C11. What is cached is read back, until it expires and never after. A text cached for a message,
  newlines and all, is returned unchanged by every read at a moment before the expiry (always, when
  the message has none or it is unreadable); a read at or after the expiry returns nothing and removes
  the entry, even on a device that never heard of the deletion.
\<close>

theorem cached_plaintext_until_expiry:
  "\<exists>w1 w2. cachePlaintext P s i txt e w = (Inr (), w1) \<and>
     cachedPlaintext P s i (w1\<lparr>env := later\<rparr>) =
       (Inr (if 0 < stamp_ms P e \<and> stamp_ms P e \<le> date_now P later then None else Some txt), w2) \<and>
     held w2 s (msg_name i) =
       (if 0 < stamp_ms P e \<and> stamp_ms P e \<le> date_now P later then None else Some (entry (stamp_of P e) txt))"
  by (simp add: cachePlaintext_def cachedPlaintext_eval)

subsection \<open>Sweeping\<close>

definition expired_names :: "int \<Rightarrow> kvstore \<Rightarrow> string set" where
  "expired_names now store = {n. \<exists>raw. mks_get store n = Some raw \<and> expired now raw}"

lemma expired_names_remove: "expired_names now (mks_remove k store) = expired_names now store - {k}"
  by (auto simp: expired_names_def split: if_splits)

definition sweep_round :: "e2ee_session \<Rightarrow> int \<Rightarrow> string \<Rightarrow> nat \<Rightarrow> ('st, 'env, nat) e2ee" where
  "sweep_round s now = (\<lambda>key removed. io_bind (store_get s key) (\<lambda>raw. case raw of
            None \<Rightarrow> io_ret removed
          | Some raw \<Rightarrow>
              if expired now raw then io_bind (store_remove s key) (\<lambda>_. io_ret (removed + 1))
              else io_ret removed))"

lemma sweep_round_eval:
  "sweep_round s now k r w =
     (if k \<in> expired_names now (stores w (s_store s))
      then (Inr (r + 1), w\<lparr>stores := (stores w)(s_store s := mks_remove k (stores w (s_store s)))\<rparr>)
      else (Inr r, w))"
  by (auto simp: sweep_round_def io_bind_def expired_names_def split: option.splits)

lemma sweep_loop:
  "\<exists>st. io_for (sweep_round s now) ks r w =
      (Inr (r + card (set ks \<inter> expired_names now (stores w (s_store s)))),
       w\<lparr>stores := (stores w)(s_store s := st)\<rparr>) \<and>
     (\<forall>n. mks_get st n = (if n \<in> set ks \<inter> expired_names now (stores w (s_store s)) then None else held w s n))"
proof (induction ks arbitrary: r w)
  case Nil
  show ?case by (rule exI [of _ "stores w (s_store s)"]) simp
next
  case (Cons k ks)
  let ?E = "expired_names now (stores w (s_store s))"
  show ?case
  proof (cases "k \<in> ?E")
    case False
    have same: "set (k # ks) \<inter> ?E = set ks \<inter> ?E" using False by auto
    have "sweep_round s now k r w = (Inr r, w)" using False by (simp add: sweep_round_eval)
    then have run: "io_for (sweep_round s now) (k # ks) r w = io_for (sweep_round s now) ks r w"
      by (simp add: io_bind_eval)
    show ?thesis unfolding run same by (rule Cons)
  next
    case True
    let ?w1 = "w\<lparr>stores := (stores w)(s_store s := mks_remove k (stores w (s_store s)))\<rparr>"
    have "set (k # ks) \<inter> ?E = insert k (set ks \<inter> (?E - {k}))" using True by auto
    then have card: "r + card (set (k # ks) \<inter> ?E) = r + 1 + card (set ks \<inter> (?E - {k}))" by simp
    have "sweep_round s now k r w = (Inr (r + 1), ?w1)" using True by (simp add: sweep_round_eval)
    then have run: "io_for (sweep_round s now) (k # ks) r w = io_for (sweep_round s now) ks (r + 1) ?w1"
      by (simp add: io_bind_eval)
    have E1: "expired_names now (stores ?w1 (s_store s)) = ?E - {k}" by (simp add: expired_names_remove)
    obtain st where "io_for (sweep_round s now) ks (r + 1) ?w1 =
        (Inr (r + 1 + card (set ks \<inter> (?E - {k}))), ?w1\<lparr>stores := (stores ?w1)(s_store s := st)\<rparr>)"
      and st2: "\<And>n. mks_get st n = (if n \<in> set ks \<inter> (?E - {k}) then None else held ?w1 s n)"
      using Cons [of "r + 1" ?w1] unfolding E1 by blast
    moreover have "?w1\<lparr>stores := (stores ?w1)(s_store s := st)\<rparr> = w\<lparr>stores := (stores w)(s_store s := st)\<rparr>"
      by simp
    ultimately have st1: "io_for (sweep_round s now) ks (r + 1) ?w1 =
        (Inr (r + 1 + card (set ks \<inter> (?E - {k}))), w\<lparr>stores := (stores w)(s_store s := st)\<rparr>)"
      by metis
    have "mks_get st n = (if n \<in> set (k # ks) \<inter> ?E then None else held w s n)" for n
      using True st2 [of n] by auto
    with st1 show ?thesis unfolding run card by blast
  qed
qed

text \<open>
  The sweep evicts exactly the expired texts: it removes every cached message text whose timer
  has run out by \<open>now\<close>, reports how many it removed, and leaves every other entry of the account's
  keystore, every other account's keystore and the rest of the world as they were.
\<close>

theorem sweepExpiredPlaintext_exact:
  "\<exists>st. sweepExpiredPlaintext s now w =
      (Inr (card {n. prefix ''msg/'' n \<and> n \<in> expired_names now (stores w (s_store s))}),
       w\<lparr>stores := (stores w)(s_store s := st)\<rparr>) \<and>
     (\<forall>n. mks_get st n =
        (if prefix ''msg/'' n \<and> n \<in> expired_names now (stores w (s_store s)) then None else held w s n))"
proof -
  let ?E = "expired_names now (stores w (s_store s))"
  have ks: "set (mks_list ''msg/'' (stores w (s_store s))) \<inter> ?E = {n. prefix ''msg/'' n \<and> n \<in> ?E}"
    by (auto simp: mks.set_list expired_names_def)
  have "sweepExpiredPlaintext s now w =
      io_for (sweep_round s now) (mks_list ''msg/'' (stores w (s_store s))) 0 w"
    by (simp add: sweepExpiredPlaintext_def sweep_round_def io_bind_def)
  with ks sweep_loop [of s now "mks_list ''msg/'' (stores w (s_store s))" 0 w] show ?thesis by simp
qed

subsection \<open>Resetting the MLS state\<close>

lemma remove_loop:
  "io_for (\<lambda>key _. store_remove s key) ks u w =
     (Inr (), w\<lparr>stores := (stores w)(s_store s := fold mks_remove ks (stores w (s_store s)))\<rparr>)"
  by (induction ks arbitrary: u w) (simp_all add: io_bind_def)

text \<open>
  Forgetting the MLS state keeps the history: \<open>resetMLSState\<close> removes every entry under \<open>mls/\<close> and
  every group state in memory, and not one other entry: decrypted texts, outgoing and scheduled texts,
  key packages and the device identity all stay.
\<close>

theorem resetMLSState_keeps_history:
  "\<exists>w'. resetMLSState s w = (Inr (), w') \<and> states w' = Map.empty \<and>
     (\<forall>n. held w' s n = (if prefix ''mls/'' n then None else held w s n)) \<and>
     (stores w')(s_store s := []) = (stores w)(s_store s := [])"
  by (simp add: resetMLSState_def io_bind_def remove_loop mks.clear_prefix)

text \<open>
  An entry written before expiry stamps existed has no stamp line, and is read as its text only when
  it has a single line: \<open>decodePlaintext\<close> takes the first line of any other for a stamp and drops it.
\<close>

theorem decodePlaintext_legacy:
  "decodePlaintext (utf8 txt) =
     (if nl \<in> set txt then (case js_number (hd (split_on nl txt)) of None \<Rightarrow> 0 | Some n \<Rightarrow> n,
        join_with [nl] (tl (split_on nl txt)))
      else (0, txt))"
proof (cases "nl \<in> set txt")
  case True
  then obtain a b where "txt = a @ nl # b" and "nl \<notin> set a" by (meson split_list_first)
  then show ?thesis by (simp add: decodePlaintext_def split_on_append)
next
  case False
  then have none: "index_of nl txt = None" by simp
  show ?thesis using False by (simp add: decodePlaintext_def none)
qed

end
