(* ===== verification/E2ee_Group.thy ===== *)
theory E2ee_Group
  imports E2ee_Cache
begin

text \<open>
  Per-chat MLS state of \<open>entities/e2ee/chats.ts\<close>: loading and saving it, joining from a Welcome, applying
  the handshake feed, adding devices, creating a chat's group and encrypting for it. Every operation
  the code runs under the chat's lock is one function here (the lock itself is modelled in
  \<open>Chat_Lock\<close>). Logging to the console is left out, as is \<open>getSodium()\<close>, which only waits for the library.
\<close>

definition stateKey :: "e2ee_session \<Rightarrow> string \<Rightarrow> string" where
  "stateKey s chatId = s_deviceId s @ ''/'' @ chatId"

definition mls_name :: "string \<Rightarrow> string" where
  "mls_name chatId = ''mls/private/'' @ chatId"

definition hs_name :: "string \<Rightarrow> string" where
  "hs_name chatId = ''hs/'' @ chatId"

definition set_state :: "e2ee_session \<Rightarrow> string \<Rightarrow> 'st \<Rightarrow> ('st, 'env, unit) e2ee" where
  "set_state s chatId st = io_mod (\<lambda>w. w\<lparr>states := (states w)(stateKey s chatId \<mapsto> st)\<rparr>)"

definition loadState ::
  "('st, 'pub, 'wel, 'msg, 'env) platform \<Rightarrow> e2ee_session \<Rightarrow> string \<Rightarrow> ('st, 'env, 'st option) e2ee" where
  "loadState P s chatId =
     io_bind (io_get (\<lambda>w. states w (stateKey s chatId))) (\<lambda>cached. case cached of
        Some st \<Rightarrow> io_ret (Some st)
      | None \<Rightarrow>
          io_bind (store_get s (mls_name chatId)) (\<lambda>raw. case raw of
             None \<Rightarrow> io_ret None
           | Some raw \<Rightarrow>
               io_bind (io_of (deserializeChatState P raw)) (\<lambda>st.
               io_bind (set_state s chatId st) (\<lambda>_. io_ret (Some st)))))"

definition saveState ::
  "('st, 'pub, 'wel, 'msg, 'env) platform \<Rightarrow> e2ee_session \<Rightarrow> string \<Rightarrow> 'st \<Rightarrow> ('st, 'env, unit) e2ee" where
  "saveState P s chatId st =
     io_bind (set_state s chatId st) (\<lambda>_. store_put s (mls_name chatId) (serializeChatState P st))"

subsection \<open>Welcomes\<close>

text \<open>The loop of \<open>joinFromWelcome\<close>: any throw while a package is tried moves on to the next.\<close>

fun tryPackages ::
  "('st, 'pub, 'wel, 'msg, 'env) platform \<Rightarrow> e2ee_session \<Rightarrow> string \<Rightarrow> bytes
    \<Rightarrow> (nat \<times> 'pub device_key_package) list \<Rightarrow> ('st, 'env, bool) e2ee" where
  "tryPackages P s chatId payload [] = io_ret False"
| "tryPackages P s chatId payload ((n, pkg) # pool) =
     io_catch
       (io_bind (on_env (joinChat P payload pkg)) (\<lambda>st.
        io_bind (saveState P s chatId st) (\<lambda>_.
        io_bind (dropKeyPackage s n) (\<lambda>_. io_ret True))))
       (\<lambda>_. tryPackages P s chatId payload pool)"

definition joinFromWelcome ::
  "('st, 'pub, 'wel, 'msg, 'env) platform \<Rightarrow> e2ee_session \<Rightarrow> group_message
    \<Rightarrow> (nat \<times> 'pub device_key_package) list \<Rightarrow> ('st, 'env, bool) e2ee" where
  "joinFromWelcome P s wel pool =
     io_bind (loadState P s (gm_chatId wel)) (\<lambda>st.
       if st \<noteq> None then io_ret False
       else io_bind (io_of (from_base64 P (gm_payload wel))) (\<lambda>payload.
         tryPackages P s (gm_chatId wel) payload pool))"

definition ackWelcome ::
  "('st, 'pub, 'wel, 'msg, 'env) platform \<Rightarrow> e2ee_session \<Rightarrow> string \<Rightarrow> ('st, 'env, unit) e2ee" where
  "ackWelcome P s welcomeId =
     io_ignore (api (AckWelcome welcomeId (s_deviceId s)) (srv_ackWelcome P welcomeId (s_deviceId s)))"

definition processWelcomes ::
  "('st, 'pub, 'wel, 'msg, 'env) platform \<Rightarrow> e2ee_session \<Rightarrow> ('st, 'env, string list) e2ee" where
  "processWelcomes P s =
     io_bind (api (ListWelcomes (s_deviceId s)) (srv_listWelcomes P (s_deviceId s))) (\<lambda>welcomes.
       if welcomes = [] then io_ret []
       else io_bind (localKeyPackages P s) (\<lambda>pool.
         io_for (\<lambda>wel joined.
             io_bind (joinFromWelcome P s wel pool) (\<lambda>j.
             io_bind (ackWelcome P s (gm_id wel)) (\<lambda>_.
             io_ret (if j then joined @ [gm_chatId wel] else joined))))
           welcomes []))"

subsection \<open>The handshake feed\<close>

definition applyFrame ::
  "('st, 'pub, 'wel, 'msg, 'env) platform \<Rightarrow> e2ee_session \<Rightarrow> string \<Rightarrow> group_message \<Rightarrow> 'st \<Rightarrow> ('st, 'env, 'st) e2ee" where
  "applyFrame P s chatId frame st =
     io_bind
       (if gm_senderDevice frame \<noteq> Some (s_deviceId s)
        then io_default
          (io_bind (io_of (from_base64 P (gm_payload frame))) (\<lambda>bs.
           io_bind (on_env (processIncoming P st bs)) (\<lambda>(st', _). io_ret st'))) st
        else io_ret st)
       (\<lambda>st'. io_bind (store_put s (hs_name chatId) (utf8 (gm_id frame))) (\<lambda>_. io_ret st'))"

definition catchUpHandshake ::
  "('st, 'pub, 'wel, 'msg, 'env) platform \<Rightarrow> e2ee_session \<Rightarrow> string \<Rightarrow> ('st, 'env, unit) e2ee" where
  "catchUpHandshake P s chatId =
     io_bind (loadState P s chatId) (\<lambda>st. case st of
        None \<Rightarrow> io_ret ()
      | Some st \<Rightarrow>
          io_bind (store_get s (hs_name chatId)) (\<lambda>cursorRaw.
          let afterId = map_option utf8dec cursorRaw in
          io_bind (api (ListHandshake chatId afterId) (srv_listHandshake P chatId afterId)) (\<lambda>messages.
          io_bind (io_for (applyFrame P s chatId) messages st) (\<lambda>st'.
          saveState P s chatId st'))))"

definition processChatHandshake ::
  "('st, 'pub, 'wel, 'msg, 'env) platform \<Rightarrow> e2ee_session \<Rightarrow> chat_type \<Rightarrow> string \<Rightarrow> ('st, 'env, unit) e2ee" where
  "processChatHandshake P s chatType chatId =
     (if chatType \<noteq> Private then io_ret () else catchUpHandshake P s chatId)"

definition reachEpoch ::
  "('st, 'pub, 'wel, 'msg, 'env) platform \<Rightarrow> e2ee_session \<Rightarrow> string \<Rightarrow> nat option \<Rightarrow> ('st, 'env, unit) e2ee" where
  "reachEpoch P s chatId epoch = (case epoch of
      None \<Rightarrow> io_ret ()
    | Some epoch \<Rightarrow>
        io_bind (loadState P s chatId) (\<lambda>st. case st of
           None \<Rightarrow> io_ret ()
         | Some st \<Rightarrow> if epoch \<le> currentEpoch P st then io_ret () else catchUpHandshake P s chatId))"

subsection \<open>Adding devices\<close>

definition publish ::
  "('st, 'pub, 'wel, 'msg, 'env) platform \<Rightarrow> handshake_body \<Rightarrow> ('st, 'env, unit) e2ee" where
  "publish P b = api (PublishHandshake b) (srv_publishHandshake P b)"

definition handshake ::
  "('st, 'pub, 'wel, 'msg, 'env) platform \<Rightarrow> e2ee_session \<Rightarrow> string \<Rightarrow> handshake_kind \<Rightarrow> bytes \<Rightarrow> nat
    \<Rightarrow> (string, string) jsmap \<Rightarrow> handshake_body" where
  "handshake P s chatId kind payload epoch recipients =
     \<lparr>hb_chatType = Private, hb_chatId = chatId, hb_kind = kind, hb_senderDevice = s_deviceId s,
      hb_payload = to_base64 P payload, hb_epoch = epoch, hb_recipients = recipients\<rparr>"

text \<open>
  The end of \<open>addDeviceToChat\<close> and of \<open>initiateChat\<close>: once the commit is accepted, the Welcome goes out
  and the new state is saved.
\<close>

definition finishCommit ::
  "('st, 'pub, 'wel, 'msg, 'env) platform \<Rightarrow> e2ee_session \<Rightarrow> string \<Rightarrow> 'st commit_result
    \<Rightarrow> (string, string) jsmap \<Rightarrow> ('st, 'env, unit) e2ee" where
  "finishCommit P s chatId commit recipients =
     io_bind (case cr_welcome commit of
          None \<Rightarrow> io_ret ()
        | Some wel \<Rightarrow> publish P (handshake P s chatId WelcomeKind wel (cr_epoch commit) recipients)) (\<lambda>_.
     saveState P s chatId (cr_state commit))"

text \<open>\<open>try { publish the commit; rest } catch EPOCH_CONFLICT { lost }\<close>, other errors rethrown.\<close>

definition publishCommit ::
  "('st, 'pub, 'wel, 'msg, 'env) platform \<Rightarrow> e2ee_session \<Rightarrow> string \<Rightarrow> 'st commit_result
    \<Rightarrow> ('st, 'env, bool) e2ee" where
  "publishCommit P s chatId commit =
     io_catch (io_bind (publish P (handshake P s chatId CommitKind (cr_commit commit) (cr_epoch commit) []))
                (\<lambda>_. io_ret True))
       (\<lambda>err. if \<not> isEpochConflict err then io_throw err else io_ret False)"

definition addDeviceToChat ::
  "('st, 'pub, 'wel, 'msg, 'env) platform \<Rightarrow> e2ee_session \<Rightarrow> string \<Rightarrow> string \<Rightarrow> string \<Rightarrow> ('st, 'env, bool) e2ee" where
  "addDeviceToChat P s chatId devId ownerUserId =
     (if devId = s_deviceId s then io_ret False
      else io_bind (loadState P s chatId) (\<lambda>st. case st of
        None \<Rightarrow> io_ret False
      | Some st \<Rightarrow>
          if \<exists>m \<in> set (listMembers P st). mi_deviceId m = devId then io_ret False
          else io_bind (api (ClaimKeyPackages ownerUserId (Some (s_deviceId s)) (Some devId))
                 (srv_claimKeyPackages P ownerUserId (Some (s_deviceId s)) (Some devId))) (\<lambda>keyPackages.
            let forDevice = filter (\<lambda>kp. cp_deviceId kp = devId) keyPackages in
            if forDevice = []
            then io_bind (io_mod (\<lambda>w. w\<lparr>barrenDevices := insert devId (barrenDevices w)\<rparr>)) (\<lambda>_. io_ret False)
            else
              io_bind (io_mod (\<lambda>w. w\<lparr>barrenDevices := barrenDevices w - {devId}\<rparr>)) (\<lambda>_.
              io_bind (io_of (map_sum_list (\<lambda>kp. from_base64 P (cp_keyPackage kp)) forDevice)) (\<lambda>packages.
              io_bind (on_env (addMembers P st packages)) (\<lambda>commit.
              io_bind (publishCommit P s chatId commit) (\<lambda>accepted.
                if \<not> accepted then io_bind (catchUpHandshake P s chatId) (\<lambda>_. io_ret False)
                else io_bind (finishCommit P s chatId commit [(devId, ownerUserId)]) (\<lambda>_. io_ret True))))))))"

definition DEVICE_SYNC_INTERVAL_MS :: int where
  "DEVICE_SYNC_INTERVAL_MS = 5 * 60000"

text \<open>
  The two loops of \<open>syncChatDevices\<close>. Both run inside one \<open>try\<close>: a throw ends them and keeps the count
  reached so far, so each call that can throw is caught on the spot and reported as \<open>None\<close>.
\<close>

fun addDevicesOf ::
  "('st, 'pub, 'wel, 'msg, 'env) platform \<Rightarrow> e2ee_session \<Rightarrow> string \<Rightarrow> string set \<Rightarrow> string \<Rightarrow> e2ee_device list
    \<Rightarrow> nat \<Rightarrow> ('st, 'env, nat \<times> bool) e2ee" where
  "addDevicesOf P s chatId inGroup userId [] added = io_ret (added, False)"
| "addDevicesOf P s chatId inGroup userId (d # ds) added =
     io_bind (io_get barrenDevices) (\<lambda>barren.
       if d_id d \<in> inGroup \<or> d_id d = s_deviceId s \<or> d_id d \<in> barren
       then addDevicesOf P s chatId inGroup userId ds added
       else io_bind (io_attempt (addDeviceToChat P s chatId (d_id d) userId)) (\<lambda>r. case r of
           None \<Rightarrow> io_ret (added, True)
         | Some ok \<Rightarrow> addDevicesOf P s chatId inGroup userId ds (if ok then added + 1 else added)))"

fun addMissing ::
  "('st, 'pub, 'wel, 'msg, 'env) platform \<Rightarrow> e2ee_session \<Rightarrow> string \<Rightarrow> string set \<Rightarrow> string list
    \<Rightarrow> nat \<Rightarrow> ('st, 'env, nat) e2ee" where
  "addMissing P s chatId inGroup [] added = io_ret added"
| "addMissing P s chatId inGroup (u # us) added =
     io_bind (io_attempt (api (ListDevices u) (srv_listDevices P u))) (\<lambda>r. case r of
        None \<Rightarrow> io_ret added
      | Some devices \<Rightarrow>
          io_bind (addDevicesOf P s chatId inGroup u devices added) (\<lambda>(added, stop).
            if stop then io_ret added else addMissing P s chatId inGroup us added))"

text \<open>\<open>[...new Set(xs)]\<close>: the first occurrences, in order.\<close>

definition unique :: "'a list \<Rightarrow> 'a list" where
  "unique xs = rev (remdups (rev xs))"

definition syncChatDevices ::
  "('st, 'pub, 'wel, 'msg, 'env) platform \<Rightarrow> e2ee_session \<Rightarrow> string \<Rightarrow> int \<Rightarrow> ('st, 'env, nat) e2ee" where
  "syncChatDevices P s chatId now =
     (let key = stateKey s chatId in
      io_bind (io_get (\<lambda>w. lastDeviceSync w key)) (\<lambda>last.
        if (case last of None \<Rightarrow> False | Some l \<Rightarrow> now - l < DEVICE_SYNC_INTERVAL_MS) then io_ret 0
        else
          io_bind (io_mod (\<lambda>w. w\<lparr>lastDeviceSync := (lastDeviceSync w)(key \<mapsto> now)\<rparr>)) (\<lambda>_.
          io_bind (loadState P s chatId) (\<lambda>st. case st of
             None \<Rightarrow> io_ret 0
           | Some st \<Rightarrow>
               (let members = listMembers P st;
                    inGroup = set (map mi_deviceId members);
                    users = unique (map mi_userId members)
                in addMissing P s chatId inGroup users 0)))))"

subsection \<open>Creating a chat's group\<close>

definition deviceNotInChatText :: ui_text where "deviceNotInChatText = T ''common.e2ee.deviceNotInChat'' []"
definition peerNoDevicesText :: ui_text where "peerNoDevicesText = T ''common.e2ee.peerNoDevices'' []"
definition peerKeysExhaustedText :: ui_text where "peerKeysExhaustedText = T ''common.e2ee.peerKeysExhausted'' []"

text \<open>The loop of \<open>adoptPeerChat\<close> stops at the first Welcome that opened.\<close>

fun adoptFrom ::
  "('st, 'pub, 'wel, 'msg, 'env) platform \<Rightarrow> e2ee_session \<Rightarrow> (nat \<times> 'pub device_key_package) list
    \<Rightarrow> group_message list \<Rightarrow> ('st, 'env, unit) e2ee" where
  "adoptFrom P s pool [] = io_ret ()"
| "adoptFrom P s pool (wel # wels) =
     io_bind (joinFromWelcome P s wel pool) (\<lambda>joined.
     io_bind (ackWelcome P s (gm_id wel)) (\<lambda>_.
       if joined then io_ret () else adoptFrom P s pool wels))"

definition adoptPeerChat ::
  "('st, 'pub, 'wel, 'msg, 'env) platform \<Rightarrow> e2ee_session \<Rightarrow> string \<Rightarrow> ('st, 'env, 'st option) e2ee" where
  "adoptPeerChat P s chatId =
     io_bind (api (ListWelcomes (s_deviceId s)) (srv_listWelcomes P (s_deviceId s))) (\<lambda>welcomes.
       let mine = filter (\<lambda>wel. gm_chatId wel = chatId) welcomes in
       if mine = [] then io_ret None
       else io_bind (localKeyPackages P s) (\<lambda>pool.
         io_bind (adoptFrom P s pool mine) (\<lambda>_. loadState P s chatId)))"

fun awaitTries ::
  "('st, 'pub, 'wel, 'msg, 'env) platform \<Rightarrow> e2ee_session \<Rightarrow> string \<Rightarrow> nat \<Rightarrow> nat \<Rightarrow> ('st, 'env, 'st option) e2ee" where
  "awaitTries P s chatId intervalMs 0 = io_ret None"
| "awaitTries P s chatId intervalMs (Suc n) =
     io_bind (io_mod (\<lambda>w. w\<lparr>env := sleep P intervalMs (env w)\<rparr>)) (\<lambda>_.
     io_bind (adoptPeerChat P s chatId) (\<lambda>adopted. case adopted of
        Some st \<Rightarrow> io_ret (Some st)
      | None \<Rightarrow> awaitTries P s chatId intervalMs n))"

definition awaitJoin ::
  "('st, 'pub, 'wel, 'msg, 'env) platform \<Rightarrow> e2ee_session \<Rightarrow> string \<Rightarrow> ('st, 'env, 'st option) e2ee" where
  "awaitJoin P s chatId =
     io_bind (adoptPeerChat P s chatId) (\<lambda>ready. case ready of
        Some st \<Rightarrow> io_ret (Some st)
      | None \<Rightarrow>
          io_bind (io_ignore (api (RequestJoin chatId (s_deviceId s)) (srv_requestJoin P chatId (s_deviceId s)))) (\<lambda>_.
          io_bind (io_get (\<lambda>w. (joinTries w, joinIntervalMs w))) (\<lambda>(tries, intervalMs).
            awaitTries P s chatId intervalMs tries)))"

definition joinOrRefuse ::
  "('st, 'pub, 'wel, 'msg, 'env) platform \<Rightarrow> e2ee_session \<Rightarrow> string \<Rightarrow> ('st, 'env, 'st) e2ee" where
  "joinOrRefuse P s chatId =
     io_bind (awaitJoin P s chatId) (\<lambda>joined. case joined of
        Some st \<Rightarrow> io_ret st
      | None \<Rightarrow> io_throw (UserFacingError deviceNotInChatText))"

definition recipientsOf :: "string \<Rightarrow> claimed_package list \<Rightarrow> (string, string) jsmap \<Rightarrow> (string, string) jsmap" where
  "recipientsOf userId kps m = fold (\<lambda>kp. AList.update (cp_deviceId kp) userId) kps m"

definition initiateChat ::
  "('st, 'pub, 'wel, 'msg, 'env) platform \<Rightarrow> e2ee_session \<Rightarrow> string \<Rightarrow> string \<Rightarrow> ('st, 'env, 'st) e2ee" where
  "initiateChat P s chatId peerUserId =
     io_bind (api (ListHandshake chatId None) (srv_listHandshake P chatId None)) (\<lambda>feed.
       if feed \<noteq> [] then joinOrRefuse P s chatId
       else io_bind (io_both
              (api (ClaimKeyPackages peerUserId None None) (srv_claimKeyPackages P peerUserId None None))
              (api (ClaimKeyPackages (s_userId s) (Some (s_deviceId s)) None)
                 (srv_claimKeyPackages P (s_userId s) (Some (s_deviceId s)) None))) (\<lambda>(peer, ownOthers).
         if peer = []
         then io_bind (io_default (api (ListDevices peerUserId) (srv_listDevices P peerUserId)) []) (\<lambda>devices.
           io_throw (UserFacingError (if devices \<noteq> [] then peerKeysExhaustedText else peerNoDevicesText)))
         else
           let recipients = recipientsOf (s_userId s) ownOthers (recipientsOf peerUserId peer []) in
           io_bind (io_of (map_sum_list (\<lambda>kp. from_base64 P (cp_keyPackage kp)) (peer @ ownOthers))) (\<lambda>packages.
           io_bind (on_env (createDeviceKeyPackage P (s_identity s) (s_userId s))) (\<lambda>ownPackage.
           io_bind (on_env (createChat P (''private/'' @ chatId) ownPackage)) (\<lambda>st0.
           io_bind (on_env (addMembers P st0 packages)) (\<lambda>commit.
           io_bind (publishCommit P s chatId commit) (\<lambda>accepted.
             if \<not> accepted then joinOrRefuse P s chatId
             else io_bind (finishCommit P s chatId commit recipients) (\<lambda>_. io_ret (cr_state commit)))))))))"

subsection \<open>Encrypting\<close>

definition encryptForChat ::
  "('st, 'pub, 'wel, 'msg, 'env) platform \<Rightarrow> e2ee_session \<Rightarrow> string \<Rightarrow> string \<Rightarrow> string \<Rightarrow> ('st, 'env, encrypted_body) e2ee" where
  "encryptForChat P s chatId peerUserId txt =
     io_bind (loadState P s chatId) (\<lambda>st.
     io_bind (case st of Some st \<Rightarrow> io_ret st | None \<Rightarrow> initiateChat P s chatId peerUserId) (\<lambda>st.
     io_bind (on_env (encryptMessage P st (utf8 txt))) (\<lambda>result.
     io_bind (saveState P s chatId (em_state result)) (\<lambda>_.
     io_ret \<lparr>eb_ciphertext = to_base64 P (em_message result), eb_alg = KISY_E2EE_ALG, eb_epoch = em_epoch result\<rparr>))))"

end
