(* ===== verification/E2ee_Chats.thy ===== *)
theory E2ee_Chats
  imports E2ee_Group
begin

text \<open>
  Reading a private chat: \<open>decryptOnce\<close>, \<open>catchUpChat\<close>, \<open>hydrateMessage\<close> and \<open>hydrateMessages\<close> of
  \<open>entities/e2ee/chats.ts\<close>.
\<close>

definition decryptUnlocked ::
  "('st, 'pub, 'wel, 'msg, 'env) platform \<Rightarrow> e2ee_session \<Rightarrow> string \<Rightarrow> string \<Rightarrow> string \<Rightarrow> string option
    \<Rightarrow> ('st, 'env, string option) e2ee" where
  "decryptUnlocked P s chatId messageId ciphertextB64 expiresAt =
     io_bind (loadState P s chatId) (\<lambda>st. case st of
        None \<Rightarrow> io_ret None
      | Some st \<Rightarrow>
          io_default
            (io_bind (io_of (from_base64 P ciphertextB64)) (\<lambda>bs.
             io_bind (on_env (processIncoming P st bs)) (\<lambda>(st', plaintext).
             io_bind (saveState P s chatId st') (\<lambda>_. case plaintext of
                None \<Rightarrow> io_ret None
              | Some pt \<Rightarrow>
                  io_bind (cachePlaintext P s messageId (utf8dec pt) expiresAt) (\<lambda>_. io_ret (Some (utf8dec pt)))))))
            None)"

definition decryptOnce ::
  "('st, 'pub, 'wel, 'msg, 'env) platform \<Rightarrow> e2ee_session \<Rightarrow> string \<Rightarrow> string \<Rightarrow> string \<Rightarrow> nat option \<Rightarrow> string option
    \<Rightarrow> ('st, 'env, string option) e2ee" where
  "decryptOnce P s chatId messageId ciphertextB64 epoch expiresAt =
     io_bind (reachEpoch P s chatId epoch) (\<lambda>_. decryptUnlocked P s chatId messageId ciphertextB64 expiresAt)"

subsection \<open>Catching up\<close>

definition MAX_CATCH_UP_MESSAGES :: nat where
  "MAX_CATCH_UP_MESSAGES = 400"

definition catchUpKey :: "string \<Rightarrow> string" where
  "catchUpKey chatId = ''dec/'' @ chatId"

text \<open>The part of a page that is newer than the cursor, and whether the cursor was met.\<close>

definition beforeCursor :: "string option \<Rightarrow> message list \<Rightarrow> message list" where
  "beforeCursor cursor items = takeWhile (\<lambda>m. Some (m_id m) \<noteq> cursor) items"

definition meetsCursor :: "string option \<Rightarrow> message list \<Rightarrow> bool" where
  "meetsCursor cursor items \<longleftrightarrow> (\<exists>m \<in> set items. Some (m_id m) = cursor)"

lemma beforeCursor_all: "\<not> meetsCursor cursor items \<Longrightarrow> beforeCursor cursor items = items"
  by (auto simp: meetsCursor_def beforeCursor_def takeWhile_eq_all_conv)

text \<open>
  The \<open>while\<close> loop walking back page by page. It ends because every round either stops or adds at
  least one message to \<open>pending\<close>, which is bounded.
\<close>

function walkBack ::
  "('st, 'pub, 'wel, 'msg, 'env) platform \<Rightarrow> string \<Rightarrow> string option \<Rightarrow> string option \<Rightarrow> message list
    \<Rightarrow> ('st, 'env, message list) e2ee" where
  "walkBack P chatId cursor pageCursor pending =
     (if length pending \<ge> MAX_CATCH_UP_MESSAGES then io_ret pending
      else io_bind (api (ListMessages Private chatId pageCursor 50) (srv_listMessages P Private chatId pageCursor 50)) (\<lambda>page.
        if p_items page = [] then io_ret pending
        else if meetsCursor cursor (p_items page) \<or> \<not> truthy (p_nextCursor page)
        then io_ret (pending @ beforeCursor cursor (p_items page))
        else walkBack P chatId cursor (p_nextCursor page) (pending @ beforeCursor cursor (p_items page))))"
  by pat_completeness auto

termination walkBack
  by (relation "measure (\<lambda>(P, c, cur, pc, pending). MAX_CATCH_UP_MESSAGES - length pending)")
    (auto simp: beforeCursor_all neq_Nil_conv intro!: diff_less_mono2)

declare walkBack.simps [simp del]

definition catchUpOne ::
  "('st, 'pub, 'wel, 'msg, 'env) platform \<Rightarrow> e2ee_session \<Rightarrow> string \<Rightarrow> message \<Rightarrow> nat \<Rightarrow> ('st, 'env, nat) e2ee" where
  "catchUpOne P s chatId m decrypted =
     (if \<not> truthy (m_ciphertext m) \<or> m_isDeleted m then io_ret decrypted
      else io_bind (cachedPlaintext P s (m_id m)) (\<lambda>cached.
        if cached \<noteq> None then io_ret decrypted
        else io_bind (decryptUnlocked P s chatId (m_id m) (the (m_ciphertext m)) (m_expiresAt m)) (\<lambda>txt.
          io_ret (if txt \<noteq> None then decrypted + 1 else decrypted))))"

definition catchUpChat ::
  "('st, 'pub, 'wel, 'msg, 'env) platform \<Rightarrow> e2ee_session \<Rightarrow> string \<Rightarrow> ('st, 'env, nat) e2ee" where
  "catchUpChat P s chatId =
     io_bind (loadState P s chatId) (\<lambda>st.
       if st = None then io_ret 0
       else
         io_bind (catchUpHandshake P s chatId) (\<lambda>_.
         io_bind (store_get s (catchUpKey chatId)) (\<lambda>cursorRaw.
         io_bind (walkBack P chatId (map_option utf8dec cursorRaw) None []) (\<lambda>pending.
           if pending = [] then io_ret 0
           else
             io_bind (io_for (catchUpOne P s chatId) (rev pending) 0) (\<lambda>decrypted.
             let newest = m_id (last (rev pending)) in
             io_bind (if newest \<noteq> '''' then store_put s (catchUpKey chatId) (utf8 newest) else io_ret ()) (\<lambda>_.
             io_ret decrypted))))))"

subsection \<open>Hydrating messages for display\<close>

definition shown :: "message \<Rightarrow> string \<Rightarrow> message" where
  "shown m txt = m\<lparr>m_text := Some txt, m_encrypted := True\<rparr>"

definition hydrateLive ::
  "('st, 'pub, 'wel, 'msg, 'env) platform \<Rightarrow> e2ee_session \<Rightarrow> message \<Rightarrow> string \<Rightarrow> ('st, 'env, message) e2ee" where
  "hydrateLive P s m c =
     io_bind (if m_chatType m = Private
              then decryptOnce P s (m_chatId m) (m_id m) c (m_epoch m) (m_expiresAt m) else io_ret None) (\<lambda>txt.
       io_ret (case txt of Some t \<Rightarrow> shown m t
         | None \<Rightarrow> m\<lparr>m_text := None, m_encrypted := True, m_undecryptable := True\<rparr>))"

definition hydrateMessage ::
  "('st, 'pub, 'wel, 'msg, 'env) platform \<Rightarrow> e2ee_session \<Rightarrow> message \<Rightarrow> ('st, 'env, message) e2ee" where
  "hydrateMessage P s m =
     (if \<not> truthy (m_ciphertext m) \<or> m_isDeleted m then io_ret m
      else let c = the (m_ciphertext m) in
        io_bind (cachedPlaintext P s (m_id m)) (\<lambda>cached. case cached of
           Some t \<Rightarrow> io_ret (shown m t)
         | None \<Rightarrow>
             io_bind (adoptOutgoingPlaintext P s c (m_id m) (m_expiresAt m)) (\<lambda>adoptedOutgoing. case adoptedOutgoing of
                Some t \<Rightarrow> io_ret (shown m t)
              | None \<Rightarrow>
                  io_bind (if truthy (m_scheduledId m)
                           then adoptScheduledPlaintext P s (the (m_scheduledId m)) (m_id m) (m_expiresAt m)
                           else io_ret None) (\<lambda>adopted. case adopted of
                     Some t \<Rightarrow> io_ret (shown m t)
                   | None \<Rightarrow> hydrateLive P s m c))))"

text \<open>
  \<open>hydrateMessages\<close> sorts by \<open>createdAt\<close> with a comparator that answers 1 on ties, which leaves tied
  messages in the order given.
\<close>

definition hydrateInto ::
  "('st, 'pub, 'wel, 'msg, 'env) platform \<Rightarrow> e2ee_session \<Rightarrow> message \<Rightarrow> (string, message) jsmap
    \<Rightarrow> ('st, 'env, (string, message) jsmap) e2ee" where
  "hydrateInto P s m hydrated = io_bind (hydrateMessage P s m) (\<lambda>h. io_ret (AList.update (m_id m) h hydrated))"

definition hydrateMessages ::
  "('st, 'pub, 'wel, 'msg, 'env) platform \<Rightarrow> e2ee_session \<Rightarrow> message list \<Rightarrow> ('st, 'env, message list) e2ee" where
  "hydrateMessages P s msgs =
     io_bind (io_for (hydrateInto P s) (sort_key m_createdAt msgs) []) (\<lambda>hydrated.
       io_ret (map (\<lambda>m. case map_of hydrated (m_id m) of Some h \<Rightarrow> h | None \<Rightarrow> m) msgs))"

end
