(* ===== verification/E2ee_Fork.thy ===== *)
theory E2ee_Fork
  imports E2ee_Chats
begin

text \<open>
  What the operations of a private chat do to its MLS group state: the copy in memory and the copy on
  disk agree, and the state only ever moves forward by steps the group agrees on. Both are frames in
  the sense of \<open>io_frame\<close>, so each operation is covered by composing its parts.
\<close>

subsection \<open>The current state of a chat\<close>

definition cur :: "('st, 'pub, 'wel, 'msg, 'env) platform \<Rightarrow> e2ee_session \<Rightarrow> string \<Rightarrow> ('st, 'env) world \<Rightarrow> 'st option" where
  "cur P s c w = (case states w (stateKey s c) of
      Some st \<Rightarrow> Some st
    | None \<Rightarrow> Option.bind (held w s (mls_name c)) (decodeGroupState P))"

lemma stateKey_inj [simp]: "stateKey s c = stateKey s c' \<longleftrightarrow> c = c'"
  by (simp add: stateKey_def)

lemma mls_name_inj [simp]: "mls_name c = mls_name c' \<longleftrightarrow> c = c'"
  by (simp add: mls_name_def)

lemma not_mls [simp]:
  "msg_name i \<noteq> mls_name c" "sched_name i \<noteq> mls_name c" "ciphertextKey P x \<noteq> mls_name c"
  "hs_name i \<noteq> mls_name c" "kp_name n \<noteq> mls_name c" "POOL_INDEX \<noteq> mls_name c" "catchUpKey i \<noteq> mls_name c"
  by (simp_all add: mls_name_def msg_name_def sched_name_def ciphertextKey_def CT_PREFIX_def hs_name_def
      kp_name_def POOL_INDEX_def catchUpKey_def)

text \<open>\<open>loadState\<close> returns the current state, or throws when the stored bytes do not decode.\<close>

lemma loadState_E:
  assumes "loadState P s c w = (r, w')"
  obtains (found) "r = Inr (cur P s c w)" and "\<And>c'. cur P s c' w' = cur P s c' w" and "\<exists>m. w' = w\<lparr>states := m\<rparr>"
  | (corrupt) e where "r = Inl e" and "w' = w"
proof (cases "states w (stateKey s c)")
  case (Some st)
  with assms have "r = Inr (cur P s c w)" "w' = w"
    by (simp_all add: loadState_def io_bind_def cur_def)
  with found show ?thesis by (metis world.surjective world.update_convs(4))
next
  case None
  show ?thesis
  proof (cases "held w s (mls_name c)")
    case none: None
    with None assms have "r = Inr (cur P s c w)" "w' = w"
      by (simp_all add: loadState_def io_bind_def cur_def)
    with found show ?thesis by (metis world.surjective world.update_convs(4))
  next
    case (Some raw)
    show ?thesis
    proof (cases "decodeGroupState P raw")
      case d: None
      with None Some assms corrupt show ?thesis
        by (auto simp: loadState_def io_bind_def deserializeChatState_def)
    next
      case d: (Some st)
      with None Some assms have r: "r = Inr (cur P s c w)"
        and w': "w' = w\<lparr>states := (states w)(stateKey s c \<mapsto> st)\<rparr>"
        by (simp_all add: loadState_def io_bind_def deserializeChatState_def cur_def set_state_def)
      have "cur P s c' w' = cur P s c' w" for c'
        using None Some d by (cases "c' = c") (auto simp: w' cur_def split: option.splits)
      with r w' found show ?thesis by blast
    qed
  qed
qed

lemma saveState_eval:
  "saveState P s c st w = (Inr (), w\<lparr>states := (states w)(stateKey s c \<mapsto> st),
     stores := (stores w)(s_store s := mks_put (mls_name c) (encodeGroupState P st) (stores w (s_store s)))\<rparr>)"
  by (simp add: saveState_def set_state_def serializeChatState_def io_bind_def)

lemma cur_save [simp]:
  "cur P s c' (w\<lparr>states := (states w)(stateKey s c \<mapsto> st),
     stores := (stores w)(s_store s := mks_put (mls_name c) v (stores w (s_store s)))\<rparr>) =
   (if c' = c then Some st else cur P s c' w)"
  by (auto simp: cur_def split: option.splits)

lemma cur_unrelated [simp]:
  "cur P s c (w\<lparr>env := e\<rparr>) = cur P s c w" "cur P s c (w\<lparr>apiLog := l\<rparr>) = cur P s c w"
  "cur P s c (w\<lparr>barrenDevices := b\<rparr>) = cur P s c w" "cur P s c (w\<lparr>lastDeviceSync := y\<rparr>) = cur P s c w"
  by (simp_all add: cur_def split: option.splits)

subsection \<open>Memory and disk agree\<close>

definition coherent :: "('st, 'pub, 'wel, 'msg, 'env) platform \<Rightarrow> e2ee_session \<Rightarrow> ('st, 'env) world \<Rightarrow> bool" where
  "coherent P s w \<longleftrightarrow> (\<forall>c st. states w (stateKey s c) = Some st \<longrightarrow>
     (\<exists>raw. held w s (mls_name c) = Some raw \<and> decodeGroupState P raw = Some st))"

text \<open>Documented of ts-mls: a serialized group state decodes to itself.\<close>

definition state_codec_ok :: "('st, 'pub, 'wel, 'msg, 'env) platform \<Rightarrow> bool" where
  "state_codec_ok P \<longleftrightarrow> (\<forall>st. decodeGroupState P (encodeGroupState P st) = Some st)"

definition coh :: "('st, 'pub, 'wel, 'msg, 'env) platform \<Rightarrow> e2ee_session \<Rightarrow> ('st, 'env) world \<Rightarrow> ('st, 'env) world \<Rightarrow> bool" where
  "coh P s w w' \<longleftrightarrow> (state_codec_ok P \<longrightarrow> coherent P s w \<longrightarrow> coherent P s w')"

interpretation coh_frame: io_frame "coh P s" for P s
  by unfold_locales (auto simp: coh_def)

abbreviation coheres where "coheres P s m \<equiv> io_frame.framed (coh P s) m"

lemmas coh_intros [intro!] =
  coh_frame.framed_pure coh_frame.framed_bind coh_frame.framed_catch coh_frame.framed_for
  coh_frame.framed_default coh_frame.framed_ignore coh_frame.framed_if coh_frame.framed_option
  coh_frame.framed_prod coh_frame.framed_attempt coh_frame.framed_both

lemma coherent_unrelated [simp]:
  "coherent P s (w\<lparr>env := e\<rparr>) = coherent P s w" "coherent P s (w\<lparr>apiLog := l\<rparr>) = coherent P s w"
  "coherent P s (w\<lparr>barrenDevices := b\<rparr>) = coherent P s w" "coherent P s (w\<lparr>lastDeviceSync := y\<rparr>) = coherent P s w"
  by (simp_all add: coherent_def)

lemma coheres_mod [intro!]: "(\<And>w. coherent P s (f w) = coherent P s w) \<Longrightarrow> coheres P s (io_mod f)"
  by (rule coh_frame.framed_mod) (simp add: coh_def)

lemma coheres_env [intro!]: "coheres P s (on_env m)" "coheres P s (api a m)"
  by (rule coh_frame.framedI; auto simp: coh_def elim!: on_env_E api_E)+

lemma coheres_reads [intro!]: "coheres P s (store_get s' n)" "coheres P s (store_list s' p)"
  by (auto simp: store_get_def store_list_def)

lemma coheres_put [intro]:
  assumes "\<And>c. n \<noteq> mls_name c"
  shows "coheres P s (store_put s n v)" "coheres P s (store_remove s n)"
  using assms [symmetric] by (auto intro!: coh_frame.framedI simp: coh_def coherent_def)

lemma coheres_loadState [intro!]: "coheres P s (loadState P s c)"
proof (rule coh_frame.framedI)
  fix w r w' assume run: "loadState P s c w = (r, w')"
  have "coherent P s w'" if "coherent P s w"
  proof (cases "states w (stateKey s c) = None \<and> (\<exists>raw st. held w s (mls_name c) = Some raw \<and> decodeGroupState P raw = Some st)")
    case True
    with run that show ?thesis
      by (auto simp: loadState_def io_bind_def deserializeChatState_def set_state_def coherent_def
          split: if_splits)
  next
    case False
    with run have "w' = w"
      by (auto simp: loadState_def io_bind_def deserializeChatState_def split: option.splits)
    with that show ?thesis by simp
  qed
  then show "coh P s w w'" by (simp add: coh_def)
qed

lemma coheres_saveState [intro!]: "coheres P s (saveState P s c st)"
  by (rule coh_frame.framedI) (auto simp: coh_def saveState_eval coherent_def state_codec_ok_def)

lemma coheres_pool [intro!]: "coheres P s (localKeyPackages Q s)" "coheres P s (dropKeyPackage s n)"
  unfolding localKeyPackages_def readPoolIndex_def loadKeyPackage_def dropKeyPackage_def writePoolIndex_def
  by (intro coh_intros coheres_reads coheres_put; simp)+

lemma coheres_cache [intro!]:
  "coheres P s (cachePlaintext Q s i t e)" "coheres P s (cachedPlaintext Q s i)"
  "coheres P s (cacheOutgoingPlaintext Q s x t e)" "coheres P s (adoptOutgoingPlaintext Q s x i e)"
  "coheres P s (cacheScheduledPlaintext s j t)" "coheres P s (dropScheduledPlaintext s j)"
  "coheres P s (adoptScheduledPlaintext Q s j i e)" "coheres P s (dropPlaintext s i)"
  unfolding cachePlaintext_def cachedPlaintext_def cacheOutgoingPlaintext_def adoptOutgoingPlaintext_def
    cacheScheduledPlaintext_def dropScheduledPlaintext_def adoptScheduledPlaintext_def
    cachedScheduledPlaintext_def dropPlaintext_def Let_def
  by (intro coh_intros coheres_reads coheres_put; simp)+

lemma coheres_join [intro!]:
  "coheres P s (tryPackages P s c p pool)" "coheres P s (joinFromWelcome P s wel pool)"
  "coheres P s (ackWelcome P s i)" "coheres P s (processWelcomes P s)"
proof -
  show tp: "coheres P s (tryPackages P s c p pool)" for c p pool
    by (induction pool) (auto simp del: io_eval)
  show ack: "coheres P s (ackWelcome P s i)" for i unfolding ackWelcome_def by blast
  show join: "coheres P s (joinFromWelcome P s wel pool)" for wel
    unfolding joinFromWelcome_def using tp by (intro coh_intros coheres_loadState)
  show "coheres P s (processWelcomes P s)"
    unfolding processWelcomes_def joinFromWelcome_def using tp ack
    by (intro coh_intros coheres_loadState coheres_env coheres_pool)
qed

lemma coheres_handshake [intro!]:
  "coheres P s (catchUpHandshake P s c)" "coheres P s (processChatHandshake P s t c)" "coheres P s (reachEpoch P s c e)"
proof -
  have frame: "coheres P s (applyFrame P s c f st)" for f st
    unfolding applyFrame_def by (intro coh_intros coheres_env coheres_put) simp
  show catch: "coheres P s (catchUpHandshake P s c)" for c
    unfolding catchUpHandshake_def applyFrame_def Let_def
    by (intro coh_intros coheres_env coheres_reads coheres_put coheres_loadState coheres_saveState) simp
  show "coheres P s (processChatHandshake P s t c)"
    unfolding processChatHandshake_def using catch by (intro coh_intros)
  show "coheres P s (reachEpoch P s c e)"
    unfolding reachEpoch_def using catch by (intro coh_intros coheres_loadState)
qed

lemma coheres_commit [intro!]:
  "coheres P s (publishCommit P s c k)" "coheres P s (finishCommit P s c k rs)"
  unfolding publishCommit_def finishCommit_def publish_def by blast+

lemma coheres_addDevice [intro!]: "coheres P s (addDeviceToChat P s c d u)"
  unfolding addDeviceToChat_def Let_def by (intro coh_intros coheres_loadState coheres_env coheres_mod
      coheres_commit coheres_handshake) simp_all

lemma coheres_sync [intro!]: "coheres P s (syncChatDevices P s c now)"
proof -
  have devs: "coheres P s (addDevicesOf P s c g u ds n)" for g u ds n
    by (induction ds arbitrary: n) (auto simp del: io_eval)
  have "coheres P s (addMissing P s c g us n)" for g us n
    by (induction us arbitrary: n) (auto simp del: io_eval intro: devs)
  then show ?thesis
    unfolding syncChatDevices_def Let_def by (intro coh_intros coheres_loadState coheres_mod) simp_all
qed

lemma coheres_encrypt [intro!]: "coheres P s (initiateChat P s c u)" "coheres P s (encryptForChat P s c u t)"
proof -
  have "coheres P s (adoptFrom P s pool wels)" for pool wels
    by (induction wels) (auto simp del: io_eval)
  then have adopt: "coheres P s (adoptPeerChat P s c)" for c
    unfolding adoptPeerChat_def Let_def by (intro coh_intros coheres_env coheres_pool coheres_loadState)
  have "coheres P s (awaitTries P s c i n)" for c i n
    by (induction n) (auto simp del: io_eval intro: adopt)
  then have join: "coheres P s (joinOrRefuse P s c)" for c
    unfolding joinOrRefuse_def awaitJoin_def using adopt by (intro coh_intros coheres_env)
  show "coheres P s (initiateChat P s c u)" for c
    unfolding initiateChat_def Let_def using join
    by (intro coh_intros coheres_env coheres_commit)
  then show "coheres P s (encryptForChat P s c u t)"
    unfolding encryptForChat_def by (intro coh_intros coheres_env coheres_loadState coheres_saveState)
qed

lemma coheres_decrypt [intro!]:
  "coheres P s (decryptUnlocked P s c i x e)" "coheres P s (decryptOnce P s c i x ep e)"
proof -
  show "coheres P s (decryptUnlocked P s c i x e)" for c
    unfolding decryptUnlocked_def by (intro coh_intros coheres_env coheres_loadState coheres_saveState coheres_cache)
  then show "coheres P s (decryptOnce P s c i x ep e)"
    unfolding decryptOnce_def by (intro coh_intros coheres_handshake)
qed

lemma coheres_walkBack [intro!]: "coheres P s (walkBack P c cursor pc pending)"
proof (induction P c cursor pc pending rule: walkBack.induct)
  case (1 P c cursor pc pending)
  then show ?case by (subst walkBack.simps) (auto simp del: io_eval)
qed

lemma coheres_catchUp [intro!]: "coheres P s (catchUpChat P s c)"
proof -
  have "coheres P s (catchUpOne P s c m n)" for m n
    unfolding catchUpOne_def by (intro coh_intros coheres_cache coheres_decrypt)
  then show ?thesis
    unfolding catchUpChat_def Let_def
    by (intro coh_intros coheres_loadState coheres_handshake coheres_reads coheres_walkBack coheres_put) simp_all
qed

lemma coheres_hydrate [intro!]: "coheres P s (hydrateMessage P s m)" "coheres P s (hydrateMessages P s ms)"
proof -
  show "coheres P s (hydrateMessage P s m)" for m
    unfolding hydrateMessage_def hydrateLive_def Let_def by (intro coh_intros coheres_cache coheres_decrypt)
  then show "coheres P s (hydrateMessages P s ms)"
    unfolding hydrateMessages_def hydrateInto_def by (intro coh_intros)
qed

subsection \<open>How a chat's state may move\<close>

text \<open>
  Without a commit of this device that the server accepted, a chat's state moves only by handling what
  the others sent, by encrypting (which ratchets the sender forward), or from nothing by a Welcome.
\<close>

inductive evolves :: "('st, 'pub, 'wel, 'msg, 'env) platform \<Rightarrow> 'st option \<Rightarrow> 'st option \<Rightarrow> bool"
  for P :: "('st, 'pub, 'wel, 'msg, 'env) platform" where
  stay: "evolves P x x"
| incoming: "evolves P x (Some st) \<Longrightarrow> processIncoming P st bs e = (Inr (st', pt), e') \<Longrightarrow> evolves P x (Some st')"
| sent: "evolves P x (Some st) \<Longrightarrow> encryptMessage P st pt e = (Inr r, e') \<Longrightarrow> evolves P x (Some (em_state r))"
| joined: "evolves P x None \<Longrightarrow> joinChat P wel pkg e = (Inr st, e') \<Longrightarrow> evolves P x (Some st)"

lemmas evolves_join = evolves.joined [OF evolves.stay]

lemma evolves_trans: "evolves P y z \<Longrightarrow> evolves P x y \<Longrightarrow> evolves P x z"
  by (induction rule: evolves.induct) (auto intro: evolves.intros)

fun own_commit :: "e2ee_session \<Rightarrow> string \<Rightarrow> api_call \<times> bool \<Rightarrow> bool" where
  "own_commit s c (PublishHandshake b, ok) =
     (ok \<and> hb_kind b = CommitKind \<and> hb_chatId b = c \<and> hb_senderDevice b = s_deviceId s)"
| "own_commit s c (_, ok) = False"

definition evol :: "('st, 'pub, 'wel, 'msg, 'env) platform \<Rightarrow> e2ee_session \<Rightarrow> string
    \<Rightarrow> ('st, 'env) world \<Rightarrow> ('st, 'env) world \<Rightarrow> bool" where
  "evol P s c w w' \<longleftrightarrow> (\<exists>l. apiLog w' = apiLog w @ l \<and>
     ((\<exists>a \<in> set l. own_commit s c a) \<or> evolves P (cur P s c w) (cur P s c w')))"

lemma evol_trans:
  assumes "evol P s c u v" and "evol P s c v w"
  shows "evol P s c u w"
proof -
  from assms obtain l l' where "apiLog v = apiLog u @ l" "apiLog w = apiLog v @ l'"
    and "(\<exists>a \<in> set l. own_commit s c a) \<or> evolves P (cur P s c u) (cur P s c v)"
    and "(\<exists>a \<in> set l'. own_commit s c a) \<or> evolves P (cur P s c v) (cur P s c w)"
    unfolding evol_def by blast
  then show ?thesis
    unfolding evol_def by (intro exI [of _ "l @ l'"]) (auto intro: evolves_trans)
qed

interpretation evol_frame: io_frame "evol P s c" for P s c
proof unfold_locales
  show "evol P s c w w" for w by (auto simp: evol_def intro: evolves.stay)
qed (rule evol_trans)

abbreviation evolving where "evolving P s c m \<equiv> io_frame.framed (evol P s c) m"

lemmas evol_intros [intro!] =
  evol_frame.framed_pure evol_frame.framed_bind evol_frame.framed_catch evol_frame.framed_for
  evol_frame.framed_default evol_frame.framed_ignore evol_frame.framed_if evol_frame.framed_option
  evol_frame.framed_prod evol_frame.framed_attempt evol_frame.framed_both

text \<open>A step that leaves the chat's state alone and only appends to the log.\<close>

lemma evol_still: "apiLog w' = apiLog w @ l \<Longrightarrow> cur P s c w' = cur P s c w \<Longrightarrow> evol P s c w w'"
  by (auto simp: evol_def intro: evolves.stay)

lemma evol_moves: "apiLog w' = apiLog w @ l \<Longrightarrow> evolves P (cur P s c w) (cur P s c w') \<Longrightarrow> evol P s c w w'"
  by (auto simp: evol_def)

lemma evolving_mod [intro!]:
  "(\<And>w. apiLog (f w) = apiLog w \<and> cur P s c (f w) = cur P s c w) \<Longrightarrow> evolving P s c (io_mod f)"
  by (rule evol_frame.framed_mod) (simp add: evol_still [where l = "[]"])

lemma evolving_env [intro!]: "evolving P s c (on_env m)" "evolving P s c (api a m)"
  by (rule evol_frame.framedI; auto elim!: on_env_E api_E intro: evol_still)+

lemma evolving_reads [intro!]: "evolving P s c (store_get s' n)" "evolving P s c (store_list s' p)"
  by (auto simp: store_get_def store_list_def)

lemma evolving_put [intro]:
  assumes "\<And>c. n \<noteq> mls_name c"
  shows "evolving P s c (store_put s n v)" "evolving P s c (store_remove s n)"
  using assms [symmetric]
  by (auto intro!: evol_frame.framedI evol_still [where l = "[]"] simp: cur_def split: option.splits)

lemma evolving_loadState [intro!]: "evolving P s c (loadState P s c')"
  by (rule evol_frame.framedI) (auto elim!: loadState_E intro!: evol_still [where l = "[]"])

lemma evolving_pool [intro!]: "evolving P s c (localKeyPackages Q s)" "evolving P s c (dropKeyPackage s n)"
  unfolding localKeyPackages_def readPoolIndex_def loadKeyPackage_def dropKeyPackage_def writePoolIndex_def
  by (intro evol_intros evolving_reads evolving_put; simp)+

lemma evolving_cache [intro!]:
  "evolving P s c (cachePlaintext Q s i t e)" "evolving P s c (cachedPlaintext Q s i)"
  "evolving P s c (cacheOutgoingPlaintext Q s x t e)" "evolving P s c (adoptOutgoingPlaintext Q s x i e)"
  "evolving P s c (cacheScheduledPlaintext s j t)" "evolving P s c (dropScheduledPlaintext s j)"
  "evolving P s c (adoptScheduledPlaintext Q s j i e)" "evolving P s c (dropPlaintext s i)"
  unfolding cachePlaintext_def cachedPlaintext_def cacheOutgoingPlaintext_def adoptOutgoingPlaintext_def
    cacheScheduledPlaintext_def dropScheduledPlaintext_def adoptScheduledPlaintext_def
    cachedScheduledPlaintext_def dropPlaintext_def Let_def
  by (intro evol_intros evolving_reads evolving_put; simp)+

lemma evolving_ack [intro!]: "evolving P s c (ackWelcome Q s i)"
  unfolding ackWelcome_def by blast

lemma saveState_E:
  assumes "saveState P s c st w = (r, w')"
  obtains "r = Inr ()" and "apiLog w' = apiLog w" and "cur P s c w' = Some st"
    and "\<And>c'. c' \<noteq> c \<Longrightarrow> cur P s c' w' = cur P s c' w"
  using assms by (auto simp: saveState_eval)

lemma evolving_save_other: "c' \<noteq> c \<Longrightarrow> evolving P s c (saveState P s c' st)"
  by (rule evol_frame.framedI) (auto elim!: saveState_E intro!: evol_still [where l = "[]"])

text \<open>Steps that make no request and leave the chat's state alone.\<close>

abbreviation idle where "idle P s c m \<equiv> kept (\<lambda>w. (apiLog w, cur P s c w)) m"

lemma idleD: "idle P s c m \<Longrightarrow> m w = (r, w') \<Longrightarrow> apiLog w' = apiLog w \<and> cur P s c w' = cur P s c w"
  by (drule keptD) simp_all

lemma idle_put:
  assumes "\<And>c. n \<noteq> mls_name c"
  shows "idle P s c (store_put s n v)" "idle P s c (store_remove s n)"
  using assms [symmetric] unfolding store_put_def store_remove_def
  by (auto intro!: kept_mod simp: cur_def split: option.splits)

lemma idle_drop: "idle P s c (dropKeyPackage s n)"
  unfolding dropKeyPackage_def readPoolIndex_def writePoolIndex_def
  by (intro kept_intros kept_store_reads idle_put) simp_all

subsubsection \<open>Joining\<close>

lemma tryPackages_cur:
  assumes "tryPackages P s c payload pool w = (r, w')"
  shows "apiLog w' = apiLog w \<and> (c' \<noteq> c \<longrightarrow> cur P s c' w' = cur P s c' w) \<and>
    (cur P s c w' = cur P s c w \<or>
     (\<exists>pkg e e' st. joinChat P payload pkg e = (Inr st, e') \<and> cur P s c w' = Some st))"
  using assms
proof (induction pool arbitrary: w)
  case Nil
  then show ?case by simp
next
  case (Cons p pool)
  obtain n pkg where p: "p = (n, pkg)" by fastforce
  obtain rj v where j: "on_env (joinChat P payload pkg) w = (rj, v)" by fastforce
  then obtain e e' where v: "v = w\<lparr>env := e'\<rparr>" and je: "joinChat P payload pkg e = (rj, e')"
    by (auto elim!: on_env_E)
  show ?case
  proof (cases rj)
    case (Inl err)
    with Cons.prems p j have "tryPackages P s c payload pool v = (r, w')"
      by (simp add: io_catch_def io_bind_def)
    from Cons.IH [OF this] v show ?thesis by simp
  next
    case (Inr st)
    obtain rs v1 where sv: "saveState P s c st v = (rs, v1)" by fastforce
    then have rs: "rs = Inr ()" and v1: "apiLog v1 = apiLog w" "cur P s c v1 = Some st"
      "c' \<noteq> c \<longrightarrow> cur P s c' v1 = cur P s c' w"
      by (auto elim!: saveState_E simp: v)
    obtain rd v2 where d: "dropKeyPackage s n v1 = (rd, v2)" by fastforce
    with v1 have v2: "apiLog v2 = apiLog w" "cur P s c v2 = Some st" "c' \<noteq> c \<longrightarrow> cur P s c' v2 = cur P s c' w"
      using idleD [OF idle_drop [of P s c n] d] idleD [OF idle_drop [of P s c' n] d] by auto
    show ?thesis
    proof (cases rd)
      case (Inl err)
      with Cons.prems p j Inr sv rs d have "tryPackages P s c payload pool v2 = (r, w')"
        by (simp add: io_catch_def io_bind_def)
      from Cons.IH [OF this] v2 je Inr show ?thesis by auto
    next
      case (Inr x)
      with Cons.prems p j \<open>rj = Inr st\<close> sv rs d have "w' = v2"
        by (simp add: io_catch_def io_bind_def)
      with v2 je \<open>rj = Inr st\<close> show ?thesis by auto
    qed
  qed
qed

lemma evolving_joinFromWelcome [intro!]: "evolving P s c (joinFromWelcome P s wel pool)"
proof (rule evol_frame.framedI)
  fix w r w' assume run: "joinFromWelcome P s wel pool w = (r, w')"
  let ?c = "gm_chatId wel"
  obtain rl v where load: "loadState P s ?c w = (rl, v)" by fastforce
  then show "evol P s c w w'"
  proof (cases rule: loadState_E)
    case (corrupt e)
    with run load show ?thesis by (auto simp: joinFromWelcome_def io_bind_def intro: evol_frame.frame_refl)
  next
    case found
    have v: "evol P s c w v" using found by (auto intro!: evol_still [where l = "[]"])
    show ?thesis
    proof (cases "cur P s ?c w = None \<and> (\<exists>payload. from_base64 P (gm_payload wel) = Inr payload)")
      case False
      with run load found have "w' = v"
        by (auto simp: joinFromWelcome_def io_bind_def split: sum.splits if_splits)
      with v show ?thesis by simp
    next
      case True
      then obtain payload where pl: "from_base64 P (gm_payload wel) = Inr payload" by blast
      with True run load found have t: "tryPackages P s ?c payload pool v = (r, w')"
        by (simp add: joinFromWelcome_def io_bind_def)
      note moved = tryPackages_cur [OF t, of c]
      have "evolves P (cur P s c v) (cur P s c w')"
      proof (cases "c = ?c")
        case True
        with moved show ?thesis using found \<open>cur P s ?c w = None \<and> _\<close>
          by (auto intro: evolves.stay evolves_join)
      next
        case False
        with moved show ?thesis by (auto intro: evolves.stay)
      qed
      with moved have "evol P s c v w'" by (intro evol_moves [where l = "[]"]) auto
      with v show ?thesis by (rule evol_trans)
    qed
  qed
qed

lemma evolving_adoptFrom [intro!]: "evolving P s c (adoptFrom P s pool wels)"
  by (induction wels) (auto simp del: io_eval)

lemma evolving_adopt [intro!]: "evolving P s c (adoptPeerChat P s c')"
  unfolding adoptPeerChat_def Let_def by (intro evol_intros evolving_env evolving_pool evolving_adoptFrom evolving_loadState)

lemma evolving_joinOrRefuse [intro!]: "evolving P s c (joinOrRefuse P s c')"
proof -
  have "evolving P s c (awaitTries P s c' i n)" for i n
    by (induction n) (auto simp del: io_eval)
  then show ?thesis
    unfolding joinOrRefuse_def awaitJoin_def by (intro evol_intros evolving_env evolving_adopt)
qed

lemma evolving_processWelcomes [intro!]: "evolving P s c (processWelcomes P s)"
  unfolding processWelcomes_def
  by (intro evol_intros evolving_env evolving_pool evolving_joinFromWelcome evolving_ack)

subsubsection \<open>Handling what others sent\<close>

lemma applyFrame_run:
  assumes "applyFrame P s c f st w = (r, w')"
  shows "\<exists>st'. r = Inr st' \<and> evolves P (Some st) (Some st') \<and>
    apiLog w' = apiLog w \<and> (\<forall>c'. cur P s c' w' = cur P s c' w)"
proof -
  let ?m = "if gm_senderDevice f \<noteq> Some (s_deviceId s)
        then io_default
          (io_bind (io_of (from_base64 P (gm_payload f))) (\<lambda>bs.
           io_bind (on_env (processIncoming P st bs)) (\<lambda>(st', _). io_ret st'))) st
        else io_ret st"
  obtain r1 v where m: "?m w = (r1, v)" by fastforce
  have "\<exists>st'. r1 = Inr st' \<and> evolves P (Some st) (Some st') \<and> (\<exists>e. v = w\<lparr>env := e\<rparr>)"
  proof (cases "gm_senderDevice f \<noteq> Some (s_deviceId s)")
    case False
    with m have "r1 = Inr st" "v = w" by simp_all
    then show ?thesis by (metis evolves.stay world.surjective world.update_convs(10))
  next
    case True
    show ?thesis
    proof (cases "from_base64 P (gm_payload f)")
      case (Inl e)
      with m True have "r1 = Inr st" "v = w" by (simp_all add: io_default_def io_catch_def io_bind_def)
      then show ?thesis by (metis evolves.stay world.surjective world.update_convs(10))
    next
      case (Inr bs)
      obtain rp e' where p: "processIncoming P st bs (env w) = (rp, e')" by fastforce
      with m True Inr have "v = w\<lparr>env := e'\<rparr> \<and> r1 = Inr (case rp of Inl _ \<Rightarrow> st | Inr (st', _) \<Rightarrow> st')"
        by (cases rp) (auto simp: io_default_def io_catch_def io_bind_def on_env_def)
      moreover have "evolves P (Some st) (Some (case rp of Inl _ \<Rightarrow> st | Inr (st', _) \<Rightarrow> st'))"
        using evolves.incoming [OF evolves.stay] p by (auto simp: evolves.stay split: sum.splits prod.splits)
      ultimately show ?thesis by blast
    qed
  qed
  then obtain st' e where v: "r1 = Inr st'" "evolves P (Some st) (Some st')" "v = w\<lparr>env := e\<rparr>" by blast
  with assms m have "r = Inr st'" "store_put s (hs_name c) (utf8 (gm_id f)) v = (Inr (), w')"
    unfolding applyFrame_def by (auto simp: io_bind_def)
  moreover from this(2) have "apiLog w' = apiLog v \<and> cur P s c' w' = cur P s c' v" for c'
    by (rule idleD [OF idle_put(1), rotated]) simp
  ultimately show ?thesis using v by auto
qed

lemma applyFrames_run:
  assumes "io_for (applyFrame P s c) fs st w = (r, w')"
  shows "\<exists>st'. r = Inr st' \<and> evolves P (Some st) (Some st') \<and>
    apiLog w' = apiLog w \<and> (\<forall>c'. cur P s c' w' = cur P s c' w)"
  using assms
proof (induction fs arbitrary: st w)
  case Nil
  then show ?case by (auto intro: evolves.stay)
next
  case (Cons f fs)
  obtain r1 v where f: "applyFrame P s c f st w = (r1, v)" by fastforce
  from applyFrame_run [OF f] obtain st1 where "r1 = Inr st1" "evolves P (Some st) (Some st1)"
    "apiLog v = apiLog w" "\<forall>c'. cur P s c' v = cur P s c' w" by blast
  moreover with Cons.prems f have "io_for (applyFrame P s c) fs st1 v = (r, w')" by (simp add: io_bind_eval)
  note Cons.IH [OF this]
  ultimately show ?case by (auto intro: evolves_trans)
qed

lemma evolving_catchUpHandshake [intro!]: "evolving P s c (catchUpHandshake P s c')"
proof (rule evol_frame.framedI)
  fix w r w' assume run: "catchUpHandshake P s c' w = (r, w')"
  obtain rl v where load: "loadState P s c' w = (rl, v)" by fastforce
  then show "evol P s c w w'"
  proof (cases rule: loadState_E)
    case (corrupt e)
    with run load show ?thesis by (auto simp: catchUpHandshake_def io_bind_def intro: evol_frame.frame_refl)
  next
    case found
    have v: "evol P s c w v" using found by (auto intro!: evol_still [where l = "[]"])
    show ?thesis
    proof (cases "cur P s c' w")
      case None
      with run load found v show ?thesis by (simp add: catchUpHandshake_def io_bind_def)
    next
      case (Some st)
      let ?after = "map_option utf8dec (held v s (hs_name c'))"
      obtain ra v1 where lst: "api (ListHandshake c' ?after) (srv_listHandshake P c' ?after) v = (ra, v1)" by fastforce
      then obtain x where x: "apiLog v1 = apiLog v @ [x]" "\<And>k. cur P s k v1 = cur P s k v"
        by (auto elim!: api_E)
      show ?thesis
      proof (cases ra)
        case (Inl e)
        with run load found Some lst have "w' = v1" by (simp add: catchUpHandshake_def io_bind_def Let_def)
        with x have "evol P s c v w'" by (auto intro: evol_still)
        with v show ?thesis by (rule evol_trans)
      next
        case (Inr msgs)
        obtain rf v2 where fr: "io_for (applyFrame P s c') msgs st v1 = (rf, v2)" by fastforce
        from applyFrames_run [OF fr] obtain st' where st': "rf = Inr st'" "evolves P (Some st) (Some st')"
          "apiLog v2 = apiLog v1" "\<And>k. cur P s k v2 = cur P s k v1" by blast
        with run load found Some lst Inr fr have "saveState P s c' st' v2 = (r, w')"
          by (simp add: catchUpHandshake_def io_bind_def Let_def)
        then have "apiLog w' = apiLog v @ [x]" "cur P s c w' = (if c = c' then Some st' else cur P s c v)"
          using st' x by (auto elim!: saveState_E)
        with st' Some found have "evol P s c v w'"
          by (intro evol_moves [where l = "[x]"]) (auto intro: evolves.stay)
        with v show ?thesis by (rule evol_trans)
      qed
    qed
  qed
qed

lemma evolving_handshake [intro!]:
  "evolving P s c (processChatHandshake P s t c')" "evolving P s c (reachEpoch P s c' e)"
  unfolding processChatHandshake_def reachEpoch_def
  by (intro evol_intros evolving_catchUpHandshake evolving_loadState)+

subsubsection \<open>Committing\<close>

text \<open>The request log only grows.\<close>

definition log_grows :: "('st, 'env) world \<Rightarrow> ('st, 'env) world \<Rightarrow> bool" where
  "log_grows w w' \<longleftrightarrow> prefix (apiLog w) (apiLog w')"

interpretation log_frame: io_frame log_grows
  by unfold_locales (auto simp: log_grows_def intro: prefix_order.trans)

lemma evol_log: "evol P s c w w' \<Longrightarrow> log_grows w w'"
  by (auto simp: evol_def log_grows_def)

lemma evolving_log: "evolving P s c m \<Longrightarrow> io_frame.framed log_grows m"
  by (auto simp: evol_frame.framed_def log_frame.framed_def intro: evol_log)

lemma publishCommit_run:
  assumes "publishCommit P s c k w = (r, w')"
  obtains x where "apiLog w' = apiLog w @ [x]" and "\<And>c'. cur P s c' w' = cur P s c' w"
    and "r = Inr True \<Longrightarrow> own_commit s c x"
proof -
  let ?b = "handshake P s c CommitKind (cr_commit k) (cr_epoch k) []"
  obtain ra v where a: "publish P ?b w = (ra, v)" by fastforce
  then have v: "apiLog v = apiLog w @ [(PublishHandshake ?b, \<not> isl ra)]" "\<And>c'. cur P s c' v = cur P s c' w"
    by (auto simp: publish_def elim!: api_E)
  from assms a have "w' = v" "r = Inr True \<Longrightarrow> \<not> isl ra"
    by (cases ra; auto simp: publishCommit_def io_catch_def io_bind_def split: if_splits)+
  with v that show thesis by (auto simp: handshake_def)
qed

lemma evolving_finish_other: "c' \<noteq> c \<Longrightarrow> evolving P s c (finishCommit P s c' k rs)"
  unfolding finishCommit_def publish_def by (intro evol_intros evolving_env evolving_save_other)

lemma finishCommit_log: "io_frame.framed log_grows (finishCommit P s c k rs)"
proof (rule log_frame.framedI)
  fix w r w' assume run: "finishCommit P s c k rs w = (r, w')"
  have "evolving P s (CHR ''x'' # c) (finishCommit P s c k rs)"
    by (rule evolving_finish_other) (metis not_Cons_self)
  from evol_frame.framedD [OF this run] show "log_grows w w'" by (rule evol_log)
qed

lemma evolving_commit:
  assumes "evolving P s c X" and "io_frame.framed log_grows Y" and "c' \<noteq> c \<Longrightarrow> evolving P s c Y"
  shows "evolving P s c (io_bind (publishCommit P s c' k) (\<lambda>accepted. if \<not> accepted then X else Y))"
proof (rule evol_frame.framedI)
  fix w r w'
  assume run: "io_bind (publishCommit P s c' k) (\<lambda>accepted. if \<not> accepted then X else Y) w = (r, w')"
  obtain rp v where p: "publishCommit P s c' k w = (rp, v)" by fastforce
  then obtain x where x: "apiLog v = apiLog w @ [x]" "cur P s c v = cur P s c w"
    "rp = Inr True \<Longrightarrow> own_commit s c' x" by (rule publishCommit_run) blast
  then have wv: "evol P s c w v" by (intro evol_still)
  consider e where "rp = Inl e" | "rp = Inr False" | "rp = Inr True" by (cases rp) auto
  then show "evol P s c w w'"
  proof cases
    case 1
    with run p wv show ?thesis by (simp add: io_bind_eval)
  next
    case 2
    with run p have "X v = (r, w')" by (simp add: io_bind_def)
    with assms(1) wv show ?thesis by (blast intro: evol_trans evol_frame.framedD)
  next
    case 3
    with run p have Y: "Y v = (r, w')" by (simp add: io_bind_def)
    show ?thesis
    proof (cases "c' = c")
      case False
      with assms(3) Y wv show ?thesis by (blast intro: evol_trans evol_frame.framedD)
    next
      case True
      from log_frame.framedD [OF assms(2) Y] obtain l where "apiLog w' = apiLog w @ x # l"
        using x(1) by (auto simp: log_grows_def prefix_def)
      with 3 True x(3) show ?thesis by (auto simp: evol_def)
    qed
  qed
qed

lemma evolving_addDevice [intro!]: "evolving P s c (addDeviceToChat P s c' d u)"
proof -
  have fin: "c' \<noteq> c \<Longrightarrow> evolving P s c (io_bind (finishCommit P s c' k rs) (\<lambda>_. io_ret True))" for k rs
    by (intro evol_intros evolving_finish_other)
  have log: "io_frame.framed log_grows (io_bind (finishCommit P s c' k rs) (\<lambda>_. io_ret True))" for k rs
    by (intro log_frame.framed_bind finishCommit_log log_frame.framed_pure)
  show ?thesis
    unfolding addDeviceToChat_def Let_def
    by (intro evolving_commit evol_intros evolving_loadState evolving_env evolving_mod
        evolving_catchUpHandshake fin log) simp_all
qed

lemma evolving_sync [intro!]: "evolving P s c (syncChatDevices P s c' now)"
proof -
  have devs: "evolving P s c (addDevicesOf P s c' g u ds n)" for g u ds n
    by (induction ds arbitrary: n) (auto simp del: io_eval)
  have "evolving P s c (addMissing P s c' g us n)" for g us n
    by (induction us arbitrary: n) (auto simp del: io_eval intro: devs)
  then show ?thesis
    unfolding syncChatDevices_def Let_def by (intro evol_intros evolving_loadState evolving_mod) simp_all
qed

lemma evolving_initiate [intro!]: "evolving P s c (initiateChat P s c' u)"
proof -
  have fin: "c' \<noteq> c \<Longrightarrow> evolving P s c (io_bind (finishCommit P s c' k rs) (\<lambda>_. io_ret (cr_state k)))" for k rs
    by (intro evol_intros evolving_finish_other)
  have log: "io_frame.framed log_grows (io_bind (finishCommit P s c' k rs) (\<lambda>_. io_ret (cr_state k)))" for k rs
    by (intro log_frame.framed_bind finishCommit_log log_frame.framed_pure)
  show ?thesis
    unfolding initiateChat_def Let_def
    by (intro evolving_commit evol_intros evolving_env evolving_joinOrRefuse fin log) simp_all
qed

subsubsection \<open>Encrypting and decrypting\<close>

text \<open>Whatever way a chat's group was obtained, the state returned is the chat's current state.\<close>

lemma loadState_cur: "loadState P s c w = (Inr st, w') \<Longrightarrow> st = cur P s c w \<and> cur P s c w' = st"
  by (auto elim: loadState_E)

lemma adoptPeerChat_cur:
  "adoptPeerChat P s c w = (Inr (Some st), w') \<Longrightarrow> cur P s c w' = Some st"
  unfolding adoptPeerChat_def Let_def
  by (auto elim!: io_bind_Inr_E dest!: loadState_cur split: if_splits)

lemma awaitTries_cur: "awaitTries P s c i n w = (Inr (Some st), w') \<Longrightarrow> cur P s c w' = Some st"
proof (induction n arbitrary: w)
  case (Suc n)
  then show ?case by (auto elim!: io_bind_Inr_E dest: adoptPeerChat_cur split: option.splits)
qed simp

lemma joinOrRefuse_cur:
  assumes "joinOrRefuse P s c w = (Inr st, w')"
  shows "cur P s c w' = Some st"
proof -
  from assms have "awaitJoin P s c w = (Inr (Some st), w')"
    unfolding joinOrRefuse_def by (auto elim!: io_bind_Inr_E split: option.splits)
  then show ?thesis
    unfolding awaitJoin_def
    by (auto elim!: io_bind_Inr_E dest: adoptPeerChat_cur awaitTries_cur split: option.splits)
qed

lemma finishCommit_cur: "finishCommit P s c k rs w = (Inr u, w') \<Longrightarrow> cur P s c w' = Some (cr_state k)"
  unfolding finishCommit_def by (auto elim!: io_bind_Inr_E saveState_E)

lemma initiateChat_cur: "initiateChat P s c u w = (Inr st, w') \<Longrightarrow> cur P s c w' = Some st"
  unfolding initiateChat_def Let_def
  by (auto elim!: io_bind_Inr_E dest!: joinOrRefuse_cur finishCommit_cur split: if_splits prod.splits)

text \<open>The first half of \<open>encryptForChat\<close>: a state for the chat, created if there is none.\<close>

lemma obtainState_cur:
  assumes "io_bind (loadState P s c) (\<lambda>st. case st of Some st \<Rightarrow> io_ret st | None \<Rightarrow> initiateChat P s c u) w = (Inr st, w')"
  shows "cur P s c w' = Some st"
  using assms by (auto elim!: io_bind_Inr_E dest: loadState_cur initiateChat_cur split: option.splits)

lemma io_bind_assoc: "io_bind (io_bind m f) g = io_bind m (\<lambda>x. io_bind (f x) g)"
  by (auto simp: fun_eq_iff io_bind_def split: prod.splits sum.splits)

lemma evolving_encryptForChat [intro!]: "evolving P s c (encryptForChat P s c' u t)"
proof (cases "c' = c")
  case False
  then show ?thesis
    unfolding encryptForChat_def
    by (intro evol_intros evolving_loadState evolving_initiate evolving_env evolving_save_other)
next
  case True
  let ?get = "io_bind (loadState P s c) (\<lambda>st. case st of Some st \<Rightarrow> io_ret st | None \<Rightarrow> initiateChat P s c u)"
  let ?put = "\<lambda>st. io_bind (on_env (encryptMessage P st (utf8 t))) (\<lambda>result.
     io_bind (saveState P s c (em_state result)) (\<lambda>_.
     io_ret \<lparr>eb_ciphertext = to_base64 P (em_message result), eb_alg = KISY_E2EE_ALG, eb_epoch = em_epoch result\<rparr>))"
  have get: "evolving P s c ?get" by (intro evol_intros evolving_loadState evolving_initiate)
  show ?thesis
  proof (rule evol_frame.framedI)
    fix w r w' assume "encryptForChat P s c' u t w = (r, w')"
    with True have run: "io_bind ?get ?put w = (r, w')"
      by (simp add: encryptForChat_def io_bind_assoc)
    obtain rg v where g: "?get w = (rg, v)" by fastforce
    have wv: "evol P s c w v" by (rule evol_frame.framedD [OF get g])
    show "evol P s c w w'"
    proof (cases rg)
      case (Inl e)
      with run g wv show ?thesis by (simp add: io_bind_def [of ?get ?put])
    next
      case (Inr st)
      have st: "cur P s c v = Some st" using g Inr by (intro obtainState_cur) simp
      from run g Inr have put: "?put st v = (r, w')" by (simp add: io_bind_def [of ?get ?put])
      obtain re e' where enc: "encryptMessage P st (utf8 t) (env v) = (re, e')" by fastforce
      have "evol P s c v w'"
      proof (cases re)
        case (Inl e)
        with put enc show ?thesis by (auto simp: io_bind_def on_env_def intro!: evol_still [where l = "[]"])
      next
        case (Inr res)
        with put enc have "apiLog w' = apiLog v" "cur P s c w' = Some (em_state res)"
          by (auto simp: io_bind_def on_env_def saveState_eval cur_def)
        with st enc Inr show ?thesis
          by (intro evol_moves [where l = "[]"]) (auto intro: evolves.sent [OF evolves.stay])
      qed
      with wv show ?thesis by (rule evol_trans)
    qed
  qed
qed

text \<open>The part of \<open>decryptUnlocked\<close> inside its \<open>try\<close>.\<close>

lemma evolving_open:
  assumes "cur P s c w = Some st"
    and "io_bind (on_env (processIncoming P st bs)) (\<lambda>(st', plaintext).
             io_bind (saveState P s c st') (\<lambda>_. case plaintext of
                None \<Rightarrow> io_ret None
              | Some pt \<Rightarrow>
                  io_bind (cachePlaintext P s i (utf8dec pt) e) (\<lambda>_. io_ret (Some (utf8dec pt))))) w = (r, w')"
  shows "evol P s c w w'"
proof -
  obtain rp e' where p: "processIncoming P st bs (env w) = (rp, e')" by fastforce
  show ?thesis
  proof (cases rp)
    case (Inl err)
    with assms(2) p show ?thesis by (auto simp: io_bind_def on_env_def intro!: evol_still [where l = "[]"])
  next
    case (Inr a)
    obtain st' pt where a: "a = (st', pt)" by fastforce
    have "msg_name i \<noteq> mls_name c" by simp
    with assms(2) p Inr a have "apiLog w' = apiLog w" "cur P s c w' = Some st'"
      by (cases pt; auto simp: io_bind_def on_env_def saveState_eval cachePlaintext_def cur_def)+
    with assms(1) p Inr a show ?thesis
      by (intro evol_moves [where l = "[]"]) (auto intro: evolves.incoming [OF evolves.stay])
  qed
qed

lemma evolving_decryptUnlocked [intro!]: "evolving P s c (decryptUnlocked P s c' i x e)"
proof (cases "c' = c")
  case False
  then show ?thesis
    unfolding decryptUnlocked_def
    by (intro evol_intros evolving_loadState evolving_env evolving_save_other evolving_cache)
next
  case True
  show ?thesis
  proof (rule evol_frame.framedI)
    fix w r w' assume run: "decryptUnlocked P s c' i x e w = (r, w')"
    obtain rl v where load: "loadState P s c w = (rl, v)" by fastforce
    then show "evol P s c w w'"
    proof (cases rule: loadState_E)
      case (corrupt err)
      with run load True show ?thesis by (auto simp: decryptUnlocked_def io_bind_def intro: evol_frame.frame_refl)
    next
      case found
      have wv: "evol P s c w v" using found by (auto intro!: evol_still [where l = "[]"])
      show ?thesis
      proof (cases "cur P s c w")
        case None
        with run load found wv True show ?thesis by (simp add: decryptUnlocked_def io_bind_def)
      next
        case (Some st)
        show ?thesis
        proof (cases "from_base64 P x")
          case (Inl err)
          with run load found Some wv True show ?thesis
            by (simp add: decryptUnlocked_def io_default_def io_catch_def io_bind_def)
        next
          case (Inr bs)
          let ?m = "io_bind (on_env (processIncoming P st bs)) (\<lambda>(st', plaintext).
             io_bind (saveState P s c st') (\<lambda>_. case plaintext of
                None \<Rightarrow> io_ret None
              | Some pt \<Rightarrow>
                  io_bind (cachePlaintext P s i (utf8dec pt) e) (\<lambda>_. io_ret (Some (utf8dec pt)))))"
          obtain rm v1 where m: "?m v = (rm, v1)" by fastforce
          have "io_default (io_bind (io_of (from_base64 P x)) (\<lambda>bs.
             io_bind (on_env (processIncoming P st bs)) (\<lambda>(st', plaintext).
             io_bind (saveState P s c st') (\<lambda>_. case plaintext of
                None \<Rightarrow> io_ret None
              | Some pt \<Rightarrow>
                  io_bind (cachePlaintext P s i (utf8dec pt) e) (\<lambda>_. io_ret (Some (utf8dec pt))))))) None v = (r, w')"
            using run load found(1) Some True by (simp add: decryptUnlocked_def io_bind_def [of "loadState P s c"])
          with m Inr have "w' = v1"
            by (cases rm) (auto simp: io_default_def io_catch_def io_bind_def [of "io_of _"])
          with evolving_open [OF _ m] Some found(2) have "evol P s c v w'" by simp
          with wv show ?thesis by (rule evol_trans)
        qed
      qed
    qed
  qed
qed

lemma evolving_decryptOnce [intro!]: "evolving P s c (decryptOnce P s c' i x ep e)"
  unfolding decryptOnce_def by (intro evol_intros evolving_handshake evolving_decryptUnlocked)

lemma evolving_walkBack [intro!]: "evolving P s c (walkBack P c' cursor pc pending)"
proof (induction P c' cursor pc pending rule: walkBack.induct)
  case (1 P c' cursor pc pending)
  then show ?case by (subst walkBack.simps) (auto simp del: io_eval)
qed

lemma evolving_catchUp [intro!]: "evolving P s c (catchUpChat P s c')"
proof -
  have "evolving P s c (catchUpOne P s c' m n)" for m n
    unfolding catchUpOne_def by (intro evol_intros evolving_cache evolving_decryptUnlocked)
  then show ?thesis
    unfolding catchUpChat_def Let_def
    by (intro evol_intros evolving_loadState evolving_catchUpHandshake evolving_reads evolving_walkBack evolving_put)
      simp_all
qed

lemma evolving_hydrate [intro!]: "evolving P s c (hydrateMessage P s m)" "evolving P s c (hydrateMessages P s ms)"
proof -
  show "evolving P s c (hydrateMessage P s m)" for m
    unfolding hydrateMessage_def hydrateLive_def Let_def by (intro evol_intros evolving_cache evolving_decryptOnce)
  then show "evolving P s c (hydrateMessages P s ms)"
    unfolding hydrateMessages_def hydrateInto_def by (intro evol_intros)
qed

subsection \<open>Histories\<close>

text \<open>
  The operations the client performs on private chats, in any order, with restarts of the page in
  between: a restart empties the memory and keeps the keystore.
\<close>

datatype e2ee_op =
    OpEncrypt string string string
  | OpHydrate "message list"
  | OpCatchUp string
  | OpHandshake chat_type string
  | OpAddDevice string string string
  | OpSync string int
  | OpWelcomes
  | OpRestart

definition restart :: "('st, 'env) world \<Rightarrow> ('st, 'env) world" where
  "restart w = w\<lparr>states := Map.empty, lastDeviceSync := Map.empty, barrenDevices := {}\<rparr>"

fun run_op :: "('st, 'pub, 'wel, 'msg, 'env) platform \<Rightarrow> e2ee_session \<Rightarrow> e2ee_op \<Rightarrow> ('st, 'env) world \<Rightarrow> ('st, 'env) world" where
  "run_op P s (OpEncrypt c u t) w = snd (encryptForChat P s c u t w)"
| "run_op P s (OpHydrate ms) w = snd (hydrateMessages P s ms w)"
| "run_op P s (OpCatchUp c) w = snd (catchUpChat P s c w)"
| "run_op P s (OpHandshake t c) w = snd (processChatHandshake P s t c w)"
| "run_op P s (OpAddDevice c d u) w = snd (addDeviceToChat P s c d u w)"
| "run_op P s (OpSync c now) w = snd (syncChatDevices P s c now w)"
| "run_op P s OpWelcomes w = snd (processWelcomes P s w)"
| "run_op P s OpRestart w = restart w"

lemma cur_restart: "coherent P s w \<Longrightarrow> cur P s c (restart w) = cur P s c w"
  by (fastforce simp: cur_def coherent_def restart_def split: option.splits)

lemma run_op_ok:
  assumes "state_codec_ok P" and "coherent P s w"
  shows "coherent P s (run_op P s op w) \<and> evol P s c w (run_op P s op w)"
proof (cases "op = OpRestart")
  case True
  have "evol P s c w (restart w)"
    using cur_restart [OF assms(2)] by (intro evol_still [where l = "[]"]) (simp_all add: restart_def)
  moreover have "coherent P s (restart w)" by (simp add: coherent_def restart_def)
  ultimately show ?thesis using True by simp
next
  case False
  have "coh P s w (run_op P s op w)"
    using False
    by (cases op) (simp_all add: coh_frame.framed_snd coheres_encrypt coheres_hydrate coheres_catchUp
        coheres_handshake coheres_addDevice coheres_sync coheres_join)
  moreover have "evol P s c w (run_op P s op w)"
    using False
    by (cases op) (simp_all add: evol_frame.framed_snd evolving_encryptForChat evolving_hydrate evolving_catchUp
        evolving_handshake evolving_addDevice evolving_sync evolving_processWelcomes)
  ultimately show ?thesis using assms by (simp add: coh_def)
qed

lemma run_ops_ok:
  assumes "state_codec_ok P" and "coherent P s w"
  shows "coherent P s (fold (run_op P s) ops w) \<and> evol P s c w (fold (run_op P s) ops w)"
  using assms(2)
proof (induction ops arbitrary: w)
  case Nil
  then show ?case by (simp add: evol_frame.frame_refl)
next
  case (Cons op ops)
  with run_op_ok [OF assms(1) Cons.prems, of op c] show ?case by (auto intro: evol_trans)
qed


definition refusing_platform :: "(bytes, bytes, bytes, bytes, int) platform" where
  "refusing_platform = sample_platform\<lparr>
     srv_claimKeyPackages := (\<lambda>u d t. sample_ok [\<lparr>cp_deviceId = ''d2'', cp_keyPackage = utf8dec [1, 9]\<rparr>]),
     srv_publishHandshake := (\<lambda>b e. (Inl (ApiErr \<lparr>ae_code = ''EPOCH_CONFLICT'', ae_message = [], ae_requestId = [],
        ae_status = 409, ae_retryAfter = 0\<rparr>), e))\<rparr>"


end
