(* ===== verification/E2ee_Reading.thy ===== *)
theory E2ee_Reading
  imports E2ee_Fork
begin

text \<open>
  What reading a chat guarantees: hydration changes nothing but the text of the messages it is given,
  catching up walks exactly the part of the history it has not seen and in a bounded number of
  requests, the device check of a chat is throttled, and every Welcome is acknowledged.
\<close>

subsection \<open>Hydration\<close>

text \<open>What hydration may do to a message: show a text, or mark it undecryptable.\<close>

definition unveils :: "message \<Rightarrow> message \<Rightarrow> bool" where
  "unveils m h \<longleftrightarrow> h = m \<or> (truthy (m_ciphertext m) \<and> \<not> m_isDeleted m \<and>
     (h \<in> range (shown m) \<or> h = m\<lparr>m_text := None, m_encrypted := True, m_undecryptable := True\<rparr>))"

lemma unveils_id: "unveils m h \<Longrightarrow> m_id h = m_id m"
  by (auto simp: unveils_def shown_def)

lemma hydrateMessage_unveils:
  "hydrateMessage P s m w = (Inr h, w') \<Longrightarrow> unveils m h"
  unfolding hydrateMessage_def hydrateLive_def Let_def unveils_def
  by (auto elim!: io_bind_Inr_E split: if_splits option.splits)

lemma hydrateInto_E:
  assumes "hydrateInto P s m acc w = (Inr x, v)"
  obtains h where "hydrateMessage P s m w = (Inr h, v)" and "x = AList.update (m_id m) h acc"
  using assms by (auto simp: hydrateInto_def elim!: io_bind_Inr_E)

lemma hydrate_loop:
  assumes "io_for (hydrateInto P s) ms acc w
      = (Inr hydrated, w')"
  shows "(\<forall>i h. map_of hydrated i = Some h \<longrightarrow> map_of acc i = Some h \<or> (\<exists>m \<in> set ms. m_id m = i \<and> unveils m h)) \<and>
    dom (map_of hydrated) = dom (map_of acc) \<union> m_id ` set ms"
  using assms
proof (induction ms arbitrary: acc w)
  case Nil
  then show ?case by simp
next
  case (Cons m ms)
  from Cons.prems obtain h v where h: "hydrateMessage P s m w = (Inr h, v)"
    and rest: "io_for (hydrateInto P s) ms
      (AList.update (m_id m) h acc) v = (Inr hydrated, w')"
    by (auto elim!: io_bind_Inr_E hydrateInto_E)
  note IH = Cons.IH [OF rest] and hm = hydrateMessage_unveils [OF h]
  show ?case
  proof (intro conjI allI impI)
    fix i x assume "map_of hydrated i = Some x"
    then have "map_of (AList.update (m_id m) h acc) i = Some x \<or> (\<exists>m \<in> set ms. m_id m = i \<and> unveils m x)"
      using IH by blast
    then show "map_of acc i = Some x \<or> (\<exists>m \<in> set (m # ms). m_id m = i \<and> unveils m x)"
      using hm by (auto split: if_splits)
  next
    show "dom (map_of hydrated) = dom (map_of acc) \<union> m_id ` set (m # ms)"
      using IH by auto
  qed
qed

text \<open>
  Hydrating a page keeps the page: the same messages in the same order, each unchanged except that an
  encrypted, undeleted one shows its text or is marked undecryptable. (Ids are distinct, as the server
  assigns them.)
\<close>

theorem hydrateMessages_keeps_page:
  assumes "hydrateMessages P s msgs w = (Inr out, w')" and "distinct (map m_id msgs)"
  shows "map m_id out = map m_id msgs \<and> list_all2 unveils msgs out"
proof -
  from assms(1) obtain hydrated v where
    loop: "io_for (hydrateInto P s)
      (sort_key m_createdAt msgs) [] w = (Inr hydrated, v)"
    and out: "out = map (\<lambda>m. case map_of hydrated (m_id m) of Some h \<Rightarrow> h | None \<Rightarrow> m) msgs"
    unfolding hydrateMessages_def by (auto elim!: io_bind_Inr_E)
  have one: "unveils m (case map_of hydrated (m_id m) of Some h \<Rightarrow> h | None \<Rightarrow> m)" if m: "m \<in> set msgs" for m
  proof -
    from hydrate_loop [OF loop] m obtain h where h: "map_of hydrated (m_id m) = Some h" by force
    with hydrate_loop [OF loop] obtain m' where "m' \<in> set msgs" "m_id m' = m_id m" "unveils m' h"
      by (auto elim!: allE [of _ "m_id m"])
    with assms(2) m h show ?thesis by (auto simp: distinct_map dest: inj_onD)
  qed
  have "list_all2 unveils msgs out"
    unfolding out list_all2_map2 by (rule list_all2I) (auto simp: set_zip one intro: one [OF nth_mem])
  moreover from this have "map m_id out = map m_id msgs"
    by (induction rule: list_all2_induct) (simp_all add: unveils_id)
  ultimately show ?thesis by simp
qed

theorem hydrateMessages_keeps_page_witness:
  "\<exists>out. map m_id out = [''m1'', ''m2''] \<and>
     list_all2 unveils [sample_message\<lparr>m_ciphertext := Some ''zz''\<rparr>, sample_message\<lparr>m_id := ''m2''\<rparr>] out"
proof -
  let ?ms = "[sample_message\<lparr>m_ciphertext := Some ''zz''\<rparr>, sample_message\<lparr>m_id := ''m2''\<rparr>]"
  obtain out w' where run: "hydrateMessages sample_platform sample_session ?ms sample_world = (Inr out, w')"
    by (simp add: hydrateMessages_def hydrateInto_def io_bind_def hydrateMessage_def hydrateLive_def Let_def cachedPlaintext_eval
        adoptOutgoingPlaintext_eval decryptOnce_def reachEpoch_def decryptUnlocked_def loadState_def mks_get_def
        sample_defs)
  have "distinct (map m_id ?ms)" by (simp add: sample_message_def)
  from hydrateMessages_keeps_page [OF run this] show ?thesis
    by (intro exI [of _ out]) (simp add: sample_message_def)
qed

subsection \<open>Catching up\<close>

text \<open>
  Catching up is bounded whatever the server answers: walking back makes at most 400 requests
  (never a request more once 400 messages are pending), all of them for pages of this chat, and what
  was already pending stays in front.
\<close>

theorem walkBack_bounded:
  "\<exists>l. apiLog (snd (walkBack P c cursor pc pending w)) = apiLog w @ l \<and>
     length l \<le> MAX_CATCH_UP_MESSAGES - length pending \<and>
     set l \<subseteq> {(ListMessages Private c pc' 50, ok) | pc' ok. True} \<and>
     (case fst (walkBack P c cursor pc pending w) of Inl e \<Rightarrow> True | Inr out \<Rightarrow> prefix pending out)"
proof (induction P c cursor pc pending arbitrary: w rule: walkBack.induct)
  case (1 P c cursor pc pending)
  show ?case
  proof (cases "length pending \<ge> MAX_CATCH_UP_MESSAGES")
    case True
    then show ?thesis by (simp add: walkBack.simps)
  next
    case False
    let ?call = "ListMessages Private c pc 50"
    obtain r v where a: "api ?call (srv_listMessages P Private c pc 50) w = (r, v)" by fastforce
    then obtain ok where v: "apiLog v = apiLog w @ [(?call, ok)]" by (auto elim!: api_E)
    show ?thesis
    proof (cases "\<exists>page. r = Inr page \<and> p_items page \<noteq> [] \<and>
        \<not> (meetsCursor cursor (p_items page) \<or> \<not> truthy (p_nextCursor page))")
      case stop: False
      then show ?thesis
        using False a v
        by (subst (1 2) walkBack.simps) (cases r; auto simp: io_bind_def intro!: exI [of _ "[(?call, ok)]"])
    next
      case True
      then obtain page where page: "r = Inr page" "p_items page \<noteq> []" "\<not> meetsCursor cursor (p_items page)"
        "truthy (p_nextCursor page)" by blast
      let ?pending = "pending @ beforeCursor cursor (p_items page)"
      have eq: "walkBack P c cursor pc pending w = walkBack P c cursor (p_nextCursor page) ?pending v"
        using False a page by (subst walkBack.simps) (simp add: io_bind_def)
      obtain l where l: "apiLog (snd (walkBack P c cursor pc pending w)) = apiLog v @ l"
        "length l \<le> MAX_CATCH_UP_MESSAGES - length ?pending"
        "set l \<subseteq> {(ListMessages Private c pc' 50, ok) | pc' ok. True}"
        "case fst (walkBack P c cursor pc pending w) of Inl e \<Rightarrow> True | Inr out \<Rightarrow> prefix ?pending out"
        using "1.IH" [of page v] False page unfolding eq by auto
      obtain it items where "p_items page = it # items" using page(2) by (cases "p_items page") auto
      with l(2) page False have "length ((?call, ok) # l) \<le> MAX_CATCH_UP_MESSAGES - length pending"
        by (simp add: beforeCursor_all)
      with l v show ?thesis
        by (intro exI [of _ "(?call, ok) # l"]) (auto split: sum.splits dest: append_prefixD)
    qed
  qed
qed

text \<open>A server that pages a fixed history, newest first.\<close>

definition after_id :: "message list \<Rightarrow> string option \<Rightarrow> message list" where
  "after_id hist pc = (case pc of None \<Rightarrow> hist | Some i \<Rightarrow> drop 1 (dropWhile (\<lambda>m. m_id m \<noteq> i) hist))"

definition page_of :: "nat \<Rightarrow> message list \<Rightarrow> string option \<Rightarrow> message_page" where
  "page_of n hist pc = (let rest = after_id hist pc; items = take n rest in
     \<lparr>p_items = items, p_nextCursor = (if length rest > n then Some (m_id (last items)) else None),
      p_hasMore = length rest > n\<rparr>)"

definition cursor_at :: "message list \<Rightarrow> nat \<Rightarrow> string option" where
  "cursor_at hist k = (if k = 0 then None else Some (m_id (hist ! (k - 1))))"

lemma after_cursor_at:
  assumes "distinct (map m_id hist)" and "k \<le> length hist"
  shows "after_id hist (cursor_at hist k) = drop k hist"
proof (cases k)
  case 0
  then show ?thesis by (simp add: after_id_def cursor_at_def)
next
  case (Suc j)
  let ?m = "hist ! j"
  have split: "hist = take j hist @ ?m # drop k hist"
    using assms(2) Suc by (simp add: id_take_nth_drop)
  have "m_id x \<noteq> m_id ?m" if "x \<in> set (take j hist)" for x
  proof -
    from that obtain i where "i < j" "x = hist ! i" by (auto simp: in_set_conv_nth)
    with assms Suc show ?thesis by (auto simp: distinct_conv_nth)
  qed
  then have "dropWhile (\<lambda>m. m_id m \<noteq> m_id ?m) (take j hist @ ?m # drop k hist) = ?m # drop k hist"
    by (simp add: dropWhile_append)
  then have "dropWhile (\<lambda>m. m_id m \<noteq> m_id ?m) hist = ?m # drop k hist"
    by (simp only: split [symmetric])
  then show ?thesis by (simp add: after_id_def cursor_at_def Suc)
qed

lemma beforeCursor_prefix:
  "meetsCursor cursor xs \<Longrightarrow> beforeCursor cursor (xs @ ys) = beforeCursor cursor xs"
  by (auto simp: meetsCursor_def beforeCursor_def takeWhile_append)

lemma beforeCursor_append:
  "\<not> meetsCursor cursor xs \<Longrightarrow> beforeCursor cursor (xs @ ys) = xs @ beforeCursor cursor ys"
  by (auto simp: meetsCursor_def beforeCursor_def takeWhile_append)

lemma walkBack_paged:
  assumes serves: "\<And>pc e. srv_listMessages P Private c pc 50 e = (Inr (page_of 50 hist pc), e)"
    and ids: "distinct (map m_id hist)" "\<And>m. m \<in> set hist \<Longrightarrow> m_id m \<noteq> []"
    and k: "k = 50 * j" "j \<le> 8" "k \<le> length hist" and unseen: "\<not> meetsCursor cursor (take k hist)"
  shows "fst (walkBack P c cursor (cursor_at hist k) (take k hist) w) = Inr (beforeCursor cursor (take 400 hist))"
  using k unseen
proof (induction "8 - j" arbitrary: j k w)
  case 0
  then have "k = 400" by simp
  with 0 show ?case by (simp add: walkBack.simps MAX_CATCH_UP_MESSAGES_def beforeCursor_all)
next
  case (Suc n)
  let ?items = "take 50 (drop k hist)"
  let ?page = "page_of 50 hist (cursor_at hist k)"
  have lt: "length (take k hist) < MAX_CATCH_UP_MESSAGES" "k + 50 \<le> 400"
    using Suc by (simp_all add: MAX_CATCH_UP_MESSAGES_def)
  have rest: "after_id hist (cursor_at hist k) = drop k hist" by (rule after_cursor_at [OF ids(1) Suc.prems(3)])
  then have page: "p_items ?page = ?items"
    "p_nextCursor ?page = (if length hist - k > 50 then Some (m_id (last ?items)) else None)"
    by (simp_all add: page_of_def Let_def)
  obtain v where run: "api (ListMessages Private c (cursor_at hist k) 50) (srv_listMessages P Private c (cursor_at hist k) 50) w = (Inr ?page, v)"
    by (simp add: api_def serves)
  have step: "walkBack P c cursor (cursor_at hist k) (take k hist) w =
      (if ?items = [] then (Inr (take k hist), v)
       else if meetsCursor cursor ?items \<or> \<not> truthy (p_nextCursor ?page)
       then (Inr (take k hist @ beforeCursor cursor ?items), v)
       else walkBack P c cursor (p_nextCursor ?page) (take k hist @ beforeCursor cursor ?items) v)"
    using lt run page(1) by (subst walkBack.simps) (auto simp: io_bind_def)
  have upto: "take 400 hist = take k hist @ ?items @ drop (k + 50) (take 400 hist)"
  proof -
    have "take 400 hist = take (k + 50) (take 400 hist) @ drop (k + 50) (take 400 hist)"
      by (rule append_take_drop_id [symmetric])
    moreover have "take (k + 50) (take 400 hist) = take k hist @ ?items"
      using lt(2) by (simp add: min_def take_add)
    ultimately show ?thesis by simp
  qed
  show ?case
  proof (cases "?items = []")
    case True
    then have "length hist \<le> k" by simp
    with lt have "take 400 hist = take k hist" by simp
    with True Suc.prems(4) show ?thesis unfolding step by (simp add: beforeCursor_all)
  next
    case ne: False
    show ?thesis
    proof (cases "meetsCursor cursor ?items")
      case True
      then have "beforeCursor cursor (take 400 hist) = take k hist @ beforeCursor cursor ?items"
        by (subst upto) (simp add: beforeCursor_append [OF Suc.prems(4)] beforeCursor_prefix)
      with True ne show ?thesis unfolding step by simp
    next
      case unmet: False
      show ?thesis
      proof (cases "length hist - k > 50")
        case False
        then have "take 400 hist = take k hist @ ?items"
          using upto lt by simp
        then have "beforeCursor cursor (take 400 hist) = take k hist @ beforeCursor cursor ?items"
          by (simp only: beforeCursor_append [OF Suc.prems(4)])
        with False unmet ne page(2) show ?thesis unfolding step by simp
      next
        case True
        have last: "last ?items = hist ! (k + 50 - 1)"
          using True by (simp add: last_conv_nth min_def add.commute)
        moreover have "m_id (hist ! (k + 50 - 1)) \<noteq> []" using True ids(2) by simp
        ultimately have nxt: "p_nextCursor ?page = cursor_at hist (k + 50)" "truthy (p_nextCursor ?page)"
          using page True by (simp_all add: cursor_at_def)
        have "\<not> meetsCursor cursor (take (k + 50) hist)"
          using unmet Suc.prems(4) by (simp add: take_add meetsCursor_def ball_Un)
        then have "fst (walkBack P c cursor (cursor_at hist (k + 50)) (take (k + 50) hist) v) =
            Inr (beforeCursor cursor (take 400 hist))"
          using Suc.hyps(2) Suc.prems True by (intro Suc.hyps(1) [of "j + 1"]) auto
        with nxt unmet ne show ?thesis
          unfolding step by (simp add: beforeCursor_all take_add)
      qed
    qed
  qed
qed


definition sample_history :: "message list" where
  "sample_history = map (\<lambda>i. sample_message\<lparr>m_id := show_nat i\<rparr>) [0..<120]"


subsection \<open>The device check is throttled\<close>

abbreviation quiet where "quiet m \<equiv> kept lastDeviceSync m"

lemma quiet_basic [intro!]:
  "quiet (on_env m)" "quiet (api a n)" "quiet (store_put s i v)" "quiet (store_remove s i)"
  "quiet (set_state s c st)" "quiet (io_mod (\<lambda>w. w\<lparr>barrenDevices := f w\<rparr>))"
  unfolding store_put_def store_remove_def set_state_def
  by (auto intro!: kept_on_env kept_api kept_mod)

lemma quiet_addDevice [intro!]: "quiet (loadState P s c)" "quiet (addDeviceToChat P s c d u)"
proof -
  show load: "quiet (loadState P s c)" for c
    unfolding loadState_def by (intro kept_intros kept_store_reads quiet_basic)
  have save: "quiet (saveState P s c st)" for c st
    unfolding saveState_def by (intro kept_intros quiet_basic)
  have catch: "quiet (catchUpHandshake P s c)" for c
    unfolding catchUpHandshake_def applyFrame_def Let_def
    by (intro kept_intros kept_store_reads quiet_basic load save)
  show "quiet (addDeviceToChat P s c d u)"
    unfolding addDeviceToChat_def publishCommit_def finishCommit_def publish_def Let_def
    by (intro kept_intros kept_store_reads quiet_basic load save catch)
qed

lemma quiet_addMissing: "quiet (addMissing P s c g us n)"
proof -
  have devs: "quiet (addDevicesOf P s c g u ds n)" for u ds n
    by (induction ds arbitrary: n) (auto simp del: io_eval)
  show ?thesis by (induction us arbitrary: n) (auto simp del: io_eval intro: devs)
qed

text \<open>
  A chat's devices are checked at most once per five minutes: after a call at time \<open>t\<close> that was not
  itself throttled, whether or not it failed, any call less than five minutes later returns 0 at once:
  no request is made and nothing changes.
\<close>

theorem syncChatDevices_throttled:
  assumes "syncChatDevices P s c t w = (r, w')"
    and "\<And>l. lastDeviceSync w (stateKey s c) = Some l \<Longrightarrow> t \<ge> l + 300000"
    and "now < t + 300000"
  shows "syncChatDevices P s c now w' = (Inr 0, w')"
proof -
  let ?w1 = "w\<lparr>lastDeviceSync := (lastDeviceSync w)(stateKey s c \<mapsto> t)\<rparr>"
  let ?rest = "io_bind (loadState P s c) (\<lambda>st. case st of None \<Rightarrow> io_ret 0
     | Some st \<Rightarrow> addMissing P s c (mi_deviceId ` set (listMembers P st)) (unique (map mi_userId (listMembers P st))) 0)"
  have "quiet ?rest" by (intro kept_intros quiet_addDevice quiet_addMissing)
  moreover have "?rest ?w1 = (r, w')"
  proof (cases "lastDeviceSync w (stateKey s c)")
    case None
    with assms(1) show ?thesis by (simp add: syncChatDevices_def Let_def io_bind_def)
  next
    case (Some l)
    with assms(2) have "\<not> t - l < DEVICE_SYNC_INTERVAL_MS" by (fastforce simp: DEVICE_SYNC_INTERVAL_MS_def)
    with Some assms(1) show ?thesis by (simp add: syncChatDevices_def Let_def io_bind_def)
  qed
  ultimately have "lastDeviceSync w' = lastDeviceSync ?w1" by (rule keptD)
  with assms(3) show ?thesis
    by (simp add: syncChatDevices_def Let_def io_bind_def DEVICE_SYNC_INTERVAL_MS_def)
qed

theorem syncChatDevices_throttled_witness:
  "syncChatDevices sample_platform sample_session ''c1'' 299999 (snd (syncChatDevices sample_platform sample_session ''c1'' 0 sample_world))
     = (Inr 0, snd (syncChatDevices sample_platform sample_session ''c1'' 0 sample_world))"
  by (rule syncChatDevices_throttled [where t = 0 and w = sample_world and r = "fst (syncChatDevices sample_platform sample_session ''c1'' 0 sample_world)"])
    (simp_all add: sample_world_def)

subsection \<open>Every Welcome is acknowledged\<close>

definition acks :: "(api_call \<times> bool) list \<Rightarrow> string list" where
  "acks l = List.map_filter (\<lambda>(c, ok). case c of AckWelcome i d \<Rightarrow> Some i | _ \<Rightarrow> None) l"

lemma acks_simps [simp]:
  "acks [] = []" "acks (l @ l') = acks l @ acks l'" "acks [(AckWelcome i d, ok)] = [i]"
  "acks [(ListWelcomes i, ok)] = []"
  by (simp_all add: acks_def map_filter_simps map_filter_def)

lemma joinFromWelcome_log: "kept apiLog (joinFromWelcome P s wel pool)"
proof -
  have load: "kept apiLog (loadState P s c)" for c
    unfolding loadState_def set_state_def by (intro kept_intros kept_store_reads kept_mod) simp
  have drop: "kept apiLog (dropKeyPackage s n)" for n
    unfolding dropKeyPackage_def readPoolIndex_def writePoolIndex_def store_remove_def store_put_def
    by (intro kept_intros kept_store_reads kept_mod) simp_all
  have save: "kept apiLog (saveState P s c st)" for c st
    unfolding saveState_def set_state_def store_put_def by (intro kept_intros kept_mod) simp_all
  have "kept apiLog (tryPackages P s c p pool)" for c p
  proof (induction pool)
    case (Cons a pool)
    then show ?case
      by (cases a) (simp only: tryPackages.simps, intro kept_intros save drop kept_on_env, simp_all)
  qed (auto simp del: io_eval)
  then show ?thesis unfolding joinFromWelcome_def by (intro kept_intros load)
qed

lemma ackWelcome_run:
  assumes "ackWelcome P s i w = (r, w')"
  obtains ok where "r = Inr ()" and "apiLog w' = apiLog w @ [(AckWelcome i (s_deviceId s), ok)]"
proof -
  let ?m = "api (AckWelcome i (s_deviceId s)) (srv_ackWelcome P i (s_deviceId s))"
  obtain ra v where a: "?m w = (ra, v)" by fastforce
  then obtain ok where "apiLog v = apiLog w @ [(AckWelcome i (s_deviceId s), ok)]" by (auto elim!: api_E)
  moreover have "r = Inr ()" "w' = v"
    using assms a io_ignore_returns [of ?m w] io_ignore_world [of ?m w] by (auto simp: ackWelcome_def)
  ultimately show thesis using that by simp
qed

definition welcome_round ::
  "('st, 'pub, 'wel, 'msg, 'env) platform \<Rightarrow> e2ee_session \<Rightarrow> (nat \<times> 'pub device_key_package) list
    \<Rightarrow> group_message \<Rightarrow> string list \<Rightarrow> ('st, 'env, string list) e2ee" where
  "welcome_round P s pool = (\<lambda>wel joined.
             io_bind (joinFromWelcome P s wel pool) (\<lambda>j.
             io_bind (ackWelcome P s (gm_id wel)) (\<lambda>_.
             io_ret (if j then joined @ [gm_chatId wel] else joined))))"

lemma welcome_loop:
  assumes "io_for (welcome_round P s pool) wels joined w = (Inr out, w')"
  shows "\<exists>l new. apiLog w' = apiLog w @ l \<and> acks l = map gm_id wels \<and> length l = length wels \<and>
    out = joined @ new \<and> set new \<subseteq> gm_chatId ` set wels"
  using assms
proof (induction wels arbitrary: joined w)
  case Nil
  then show ?case by simp
next
  case (Cons wel wels)
  from Cons.prems obtain mid v where one: "welcome_round P s pool wel joined w = (Inr mid, v)"
    and rest: "io_for (welcome_round P s pool) wels mid v = (Inr out, w')"
    by (auto elim!: io_bind_Inr_E)
  from one obtain j v1 where j: "joinFromWelcome P s wel pool w = (Inr j, v1)"
    and a: "ackWelcome P s (gm_id wel) v1 = (Inr (), v)" and mid: "mid = (if j then joined @ [gm_chatId wel] else joined)"
    unfolding welcome_round_def by (auto elim!: io_bind_Inr_E)
  have "apiLog v1 = apiLog w" by (rule keptD [OF joinFromWelcome_log j])
  moreover obtain ok where "apiLog v = apiLog v1 @ [(AckWelcome (gm_id wel) (s_deviceId s), ok)]"
    using a by (rule ackWelcome_run)
  moreover obtain l new where "apiLog w' = apiLog v @ l" "acks l = map gm_id wels" "length l = length wels"
    "out = mid @ new" "set new \<subseteq> gm_chatId ` set wels"
    using Cons.IH [OF rest] by blast
  ultimately show ?case
    using mid acks_simps(2) [of "[(AckWelcome (gm_id wel) (s_deviceId s), ok)]" l]
    by (intro exI [of _ "(AckWelcome (gm_id wel) (s_deviceId s), ok) # l"] exI [of _ "drop (length joined) out"]) auto
qed

text \<open>
  Whenever \<open>processWelcomes\<close> returns, every Welcome the server listed has been acknowledged, once
  and in order, whether it was joined, redundant or could not be opened, and no other request was made
  in between; the chats it reports joined are among those it was invited to.
\<close>

theorem processWelcomes_acknowledges:
  assumes "processWelcomes P s w = (Inr out, w')"
    and "srv_listWelcomes P (s_deviceId s) (env w) = (Inr welcomes, e)"
  shows "\<exists>l. apiLog w' = apiLog w @ (ListWelcomes (s_deviceId s), True) # l \<and> acks l = map gm_id welcomes \<and>
    length l = length welcomes \<and> set out \<subseteq> gm_chatId ` set welcomes"
proof -
  let ?w1 = "w\<lparr>apiLog := apiLog w @ [(ListWelcomes (s_deviceId s), True)], env := e\<rparr>"
  have list: "api (ListWelcomes (s_deviceId s)) (srv_listWelcomes P (s_deviceId s)) w = (Inr welcomes, ?w1)"
    using assms(2) by (simp add: api_def)
  show ?thesis
  proof (cases "welcomes = []")
    case True
    with assms(1) list show ?thesis by (auto simp: processWelcomes_def io_bind_def)
  next
    case False
    from assms(1) have "io_bind (localKeyPackages P s) (\<lambda>pool. io_for (welcome_round P s pool) welcomes []) ?w1 = (Inr out, w')"
      using list False unfolding processWelcomes_def welcome_round_def by (simp add: io_bind_def [of "api _ _"])
    then obtain pool where "io_for (welcome_round P s pool) welcomes [] ?w1 = (Inr out, w')"
      by (auto elim!: io_bind_Inr_E simp: localKeyPackages_eval)
    from welcome_loop [OF this] show ?thesis by auto
  qed
qed

definition inviting_platform :: "(bytes, bytes, bytes, bytes, int) platform" where
  "inviting_platform = sample_platform\<lparr>srv_listWelcomes := (\<lambda>d. sample_ok
     [sample_frame_message ''w1'' ''c1'' (utf8dec [2, 7])])\<rparr>"

theorem processWelcomes_acknowledges_witness:
  "\<exists>l. apiLog (snd (processWelcomes inviting_platform sample_session sample_world)) =
     apiLog sample_world @ (ListWelcomes ''d1'', True) # l \<and> acks l = [''w1''] \<and> length l = 1 \<and>
     set [] \<subseteq> {''c1''}"
proof -
  have run: "processWelcomes inviting_platform sample_session sample_world =
      (Inr [], snd (processWelcomes inviting_platform sample_session sample_world))"
    by (simp add: processWelcomes_def inviting_platform_def io_bind_def api_def localKeyPackages_eval pool_in_def
        index_in_def joinFromWelcome_def loadState_def ackWelcome_def io_ignore_def io_catch_def mks_get_def sample_defs)
  show ?thesis
    using processWelcomes_acknowledges [OF run, of
        "[sample_frame_message ''w1'' ''c1'' (utf8dec [2, 7])]" 100]
    by (simp add: inviting_platform_def sample_defs)
qed

end
