(* ===== verification/E2ee_Frame.thy ===== *)
theory E2ee_Frame
  imports E2ee_Reading
begin

text \<open>
  The footprint of the encryption layer, proved once. The locale \<open>e2ee_frame\<close> is the contract between a
  relation on worlds and the operations of one session: the relation tolerates time passing, writes to
  the session's own keystore, the session's own group states, its bookkeeping, and requests that belong
  to the key directory, the handshake mailbox or the history, but no request that carries a message out.
  Every operation of \<open>session.ts\<close> and \<open>chats.ts\<close> then respects the relation. Two instances: nothing of
  another account is touched, and no message is sent.
\<close>

fun e2ee_call :: "api_call \<Rightarrow> bool" where
  "e2ee_call (SendMessage t c b) = False"
| "e2ee_call (ForwardMessages is t c e) = False"
| "e2ee_call (ScheduleMessage b) = False"
| "e2ee_call (UpdateScheduled i t b) = False"
| "e2ee_call (CancelScheduled i) = False"
| "e2ee_call _ = True"

locale e2ee_frame = io_frame R for R :: "('st, 'env) world \<Rightarrow> ('st, 'env) world \<Rightarrow> bool" +
  fixes s :: e2ee_session
  assumes frame_env: "R w (w\<lparr>env := e\<rparr>)"
    and frame_store: "R w (w\<lparr>stores := (stores w)(s_store s := st)\<rparr>)"
    and frame_states: "R w (w\<lparr>states := (states w)(stateKey s c \<mapsto> g)\<rparr>)"
    and frame_books: "R w (w\<lparr>barrenDevices := b\<rparr>)" "R w (w\<lparr>lastDeviceSync := y\<rparr>)"
    and frame_api: "e2ee_call a \<Longrightarrow> R w (w\<lparr>apiLog := apiLog w @ [(a, ok)], env := e\<rparr>)"
begin

lemma f_on_env [intro!]: "framed (on_env m)"
  by (rule framedI) (auto elim!: on_env_E intro: frame_env)

lemma f_api [intro!]: "e2ee_call a \<Longrightarrow> framed (api a m)"
  by (rule framedI) (auto elim!: api_E intro: frame_api)

lemma f_store [intro!]:
  "framed (store_get s n)" "framed (store_list s p)" "framed (store_put s n v)" "framed (store_remove s n)"
  by (auto intro!: framedI frame_store frame_refl)

lemma f_state [intro!]: "framed (set_state s c g)" "framed (loadState P s c)" "framed (saveState P s c g)"
  unfolding loadState_def saveState_def set_state_def
  by (auto simp del: io_eval intro!: framed_mod frame_states)

lemma f_books [intro!]:
  "framed (io_mod (\<lambda>w. w\<lparr>barrenDevices := f w\<rparr>))" "framed (io_mod (\<lambda>w. w\<lparr>lastDeviceSync := g w\<rparr>))"
  "framed (io_mod (\<lambda>w. w\<lparr>env := h w\<rparr>))"
  by (auto intro!: framed_mod frame_books frame_env)

lemma f_pool [intro!]:
  "framed (localKeyPackages P s)" "framed (dropKeyPackage s n)" "framed (replenishKeyPackages P s)"
  unfolding localKeyPackages_def readPoolIndex_def loadKeyPackage_def dropKeyPackage_def writePoolIndex_def
    replenishKeyPackages_def topUpKeyPackages_def addKeyPackage_def Let_def
  by (auto simp del: io_eval)

lemma f_cache [intro!]:
  "framed (cachePlaintext P s i t e)" "framed (cachedPlaintext P s i)"
  "framed (cacheOutgoingPlaintext P s x t e)" "framed (adoptOutgoingPlaintext P s x i e)"
  "framed (cacheScheduledPlaintext s j t)" "framed (dropScheduledPlaintext s j)"
  "framed (adoptScheduledPlaintext P s j i e)" "framed (dropPlaintext s i)"
  unfolding cachePlaintext_def cachedPlaintext_def cacheOutgoingPlaintext_def adoptOutgoingPlaintext_def
    cacheScheduledPlaintext_def dropScheduledPlaintext_def adoptScheduledPlaintext_def
    cachedScheduledPlaintext_def dropPlaintext_def Let_def
  by (auto simp del: io_eval)

lemma f_tryPackages [intro!]: "framed (tryPackages P s c p pool)"
  by (induction pool) (auto simp del: io_eval)

lemma f_welcomes [intro!]:
  "framed (joinFromWelcome P s wel pool)" "framed (ackWelcome P s i)" "framed (processWelcomes P s)"
  unfolding processWelcomes_def joinFromWelcome_def ackWelcome_def by (auto simp del: io_eval)

lemma f_handshake [intro!]:
  "framed (catchUpHandshake P s c)" "framed (processChatHandshake P s t c)" "framed (reachEpoch P s c e)"
  unfolding processChatHandshake_def reachEpoch_def catchUpHandshake_def applyFrame_def Let_def
  by (auto simp del: io_eval)

lemma f_addDevice [intro!]:
  "framed (publishCommit P s c k)" "framed (finishCommit P s c k rs)" "framed (addDeviceToChat P s c d u)"
  unfolding addDeviceToChat_def publishCommit_def finishCommit_def publish_def Let_def
  by (auto simp del: io_eval)

lemma f_addDevicesOf [intro!]: "framed (addDevicesOf P s c g u ds n)"
  by (induction ds arbitrary: n) (auto simp del: io_eval)

lemma f_addMissing [intro!]: "framed (addMissing P s c g us n)"
  by (induction us arbitrary: n) (auto simp del: io_eval)

lemma f_sync [intro!]: "framed (syncChatDevices P s c now)"
  unfolding syncChatDevices_def Let_def by (auto simp del: io_eval)

lemma f_adoptFrom [intro!]: "framed (adoptFrom P s pool wels)"
  by (induction wels) (auto simp del: io_eval)

lemma f_adoptPeerChat [intro!]: "framed (adoptPeerChat P s c)"
  unfolding adoptPeerChat_def Let_def by (auto simp del: io_eval)

lemma f_awaitTries [intro!]: "framed (awaitTries P s c i n)"
  by (induction n) (auto simp del: io_eval)

lemma f_encrypt [intro!]: "framed (initiateChat P s c u)" "framed (encryptForChat P s c u t)"
  unfolding encryptForChat_def initiateChat_def joinOrRefuse_def awaitJoin_def Let_def
  by (auto simp del: io_eval)

lemma f_decrypt [intro!]:
  "framed (decryptUnlocked P s c i x e)" "framed (decryptOnce P s c i x ep e)"
  unfolding decryptOnce_def decryptUnlocked_def by (auto simp del: io_eval)

lemma f_walkBack [intro!]: "framed (walkBack P c cursor pc pending)"
proof (induction P c cursor pc pending rule: walkBack.induct)
  case (1 P c cursor pc pending)
  then show ?case by (subst walkBack.simps) (auto simp del: io_eval)
qed

lemma f_catchUp [intro!]: "framed (catchUpChat P s c)"
  unfolding catchUpChat_def catchUpOne_def Let_def by (auto simp del: io_eval)

lemma f_hydrate [intro!]: "framed (hydrateMessage P s m)" "framed (hydrateMessages P s ms)"
  unfolding hydrateMessages_def hydrateInto_def hydrateMessage_def hydrateLive_def Let_def
  by (auto simp del: io_eval)

lemma run_op_frame: "op \<noteq> OpRestart \<Longrightarrow> R w (run_op P s op w)"
  by (cases op) (auto intro!: framed_snd)

end

subsection \<open>Instances\<close>

text \<open>Only the session's own database and its own group states change.\<close>

definition own_only :: "e2ee_session \<Rightarrow> ('st, 'env) world \<Rightarrow> ('st, 'env) world \<Rightarrow> bool" where
  "own_only s w w' \<longleftrightarrow> (stores w')(s_store s := []) = (stores w)(s_store s := []) \<and>
     (\<forall>k. k \<notin> range (stateKey s) \<longrightarrow> states w' k = states w k) \<and>
     e2ee_vars w' = e2ee_vars w \<and> authUser w' = authUser w"

interpretation own_frame: e2ee_frame "own_only s" s for s
  by unfold_locales (auto simp: own_only_def)

text \<open>No request carries a message out.\<close>

definition silent :: "('st, 'env) world \<Rightarrow> ('st, 'env) world \<Rightarrow> bool" where
  "silent w w' \<longleftrightarrow> (\<exists>l. apiLog w' = apiLog w @ l \<and> list_all (\<lambda>(a, ok). e2ee_call a) l)"

interpretation silent_frame: e2ee_frame silent s for s
proof unfold_locales
  show "silent u v \<Longrightarrow> silent v w \<Longrightarrow> silent u w" for u v w :: "('a, 'b) world"
    by (auto simp: silent_def)
qed (auto simp: silent_def)

lemma run_op_inside:
  "(stores (run_op P s op w))(s_store s := []) = (stores w)(s_store s := []) \<and> silent w (run_op P s op w)"
proof (cases "op = OpRestart")
  case True
  then show ?thesis by (simp add: restart_def silent_def)
next
  case False
  then show ?thesis
    using own_frame.run_op_frame [of op s w P] silent_frame.run_op_frame [of op w P s]
    by (simp add: own_only_def)
qed

text \<open>
  C8. The encryption layer keeps to itself: after any sequence of operations of one session on private
  chats (failures and page restarts included) every other account's database on the device is exactly as
  it was, and every request made was one of the key directory, the handshake mailbox or the history; none
  of them sent, forwarded or scheduled a message.
\<close>

theorem e2ee_operations_stay_inside:
  "(stores (fold (run_op P s) ops w))(s_store s := []) = (stores w)(s_store s := []) \<and>
   (\<exists>l. apiLog (fold (run_op P s) ops w) = apiLog w @ l \<and> list_all (\<lambda>(a, ok). e2ee_call a) l)"
proof (induction ops arbitrary: w)
  case Nil
  then show ?case by simp
next
  case (Cons op ops)
  from run_op_inside [of P s op w] obtain l where l: "apiLog (run_op P s op w) = apiLog w @ l" "list_all (\<lambda>(a, ok). e2ee_call a) l"
    by (auto simp: silent_def)
  from Cons [of "run_op P s op w"] obtain l' where l': "apiLog (fold (run_op P s) (op # ops) w) = apiLog (run_op P s op w) @ l'"
    "list_all (\<lambda>(a, ok). e2ee_call a) l'" by auto
  have "(stores (fold (run_op P s) (op # ops) w))(s_store s := []) = (stores w)(s_store s := [])"
    using Cons [of "run_op P s op w"] run_op_inside [of P s op w] by (simp only: fold.simps comp_apply)
  with l l' show ?case by (intro conjI exI [of _ "l @ l'"]) simp_all
qed

end
