(* ===== verification/Message_Send.thy ===== *)
theory Message_Send
  imports E2ee_Frame
begin

text \<open>
  Sending (\<open>entities/message/encryption.ts\<close>, the sending half of \<open>queries.ts\<close>, \<open>scheduled.ts\<close>,
  \<open>permissions.ts\<close>): a private chat carries text only as ciphertext, and whatever cannot be encrypted
  is not sent.
\<close>

subsection \<open>encryption.ts\<close>

definition requireE2EESession :: "('st, 'pub, 'wel, 'msg, 'env) platform \<Rightarrow> ('st, 'env, e2ee_session) e2ee" where
  "requireE2EESession P =
     io_bind (io_get (\<lambda>w. session (e2ee_vars w))) (\<lambda>running. case running of
        Some s \<Rightarrow> io_ret s
      | None \<Rightarrow>
          io_bind (io_get authUser) (\<lambda>userId.
          io_bind (if truthy userId then io_default (initE2EE P (the userId)) None else io_ret None) (\<lambda>started.
            case started of
              None \<Rightarrow> io_throw (UserFacingError (T ''common.e2ee.unavailable'' []))
            | Some s \<Rightarrow> io_ret s)))"

definition encryptPrivateText ::
  "('st, 'pub, 'wel, 'msg, 'env) platform \<Rightarrow> string \<Rightarrow> string option \<Rightarrow> string
    \<Rightarrow> ('st, 'env, e2ee_session \<times> encrypted_body) e2ee" where
  "encryptPrivateText P chatId peerUserId txt =
     io_bind (requireE2EESession P) (\<lambda>s.
       if \<not> truthy peerUserId then io_throw (UserFacingError (T ''common.e2ee.peerUnknown'' []))
       else io_bind
         (io_catch (encryptForChat P s chatId (the peerUserId) txt) (\<lambda>err. case err of
             UserFacingError m \<Rightarrow> io_throw (UserFacingError m)
           | _ \<Rightarrow> io_throw (UserFacingError (T ''common.e2ee.encryptFailed'' []))))
         (\<lambda>body. io_ret (s, body)))"

subsection \<open>Sending\<close>

record send_args =
  sa_text :: string
  sa_replyTo :: "string option"
  sa_attachmentIds :: "string list option"
  sa_threadRootId :: "string option"

definition encrypted_send :: "encrypted_body \<Rightarrow> send_body" where
  "encrypted_send b = empty_body\<lparr>sb_ciphertext := Some (eb_ciphertext b), sb_alg := Some (eb_alg b),
     sb_epoch := Some (eb_epoch b), sb_contentKind := Some 1\<rparr>"

definition sendRequest ::
  "('st, 'pub, 'wel, 'msg, 'env) platform \<Rightarrow> chat_type \<Rightarrow> string \<Rightarrow> send_body \<Rightarrow> ('st, 'env, message) e2ee" where
  "sendRequest P chatType chatId body = api (SendMessage chatType chatId body) (srv_send P chatType chatId body)"

definition sendMessage ::
  "('st, 'pub, 'wel, 'msg, 'env) platform \<Rightarrow> chat_type \<Rightarrow> string \<Rightarrow> string option \<Rightarrow> send_args \<Rightarrow> ('st, 'env, message) e2ee" where
  "sendMessage P chatType chatId peerUserId args =
     (if chatType \<noteq> Private \<or> sa_text args = ''''
      then sendRequest P chatType chatId (empty_body\<lparr>sb_text := Some (sa_text args), sb_replyTo := sa_replyTo args,
             sb_attachmentIds := sa_attachmentIds args, sb_threadRootId := sa_threadRootId args\<rparr>)
      else
        io_bind (encryptPrivateText P chatId peerUserId (sa_text args)) (\<lambda>(s, enc).
        io_bind (cacheOutgoingPlaintext P s (eb_ciphertext enc) (sa_text args) None) (\<lambda>_.
        io_bind (sendRequest P chatType chatId ((encrypted_send enc)\<lparr>sb_replyTo := sa_replyTo args,
                   sb_attachmentIds := sa_attachmentIds args\<rparr>)) (\<lambda>message.
        io_bind (adoptOutgoingPlaintext P s (eb_ciphertext enc) (m_id message) (m_expiresAt message)) (\<lambda>_.
        io_ret (message\<lparr>m_text := Some (sa_text args), m_encrypted := True\<rparr>))))))"

subsection \<open>Forwarding\<close>

record forward_target =
  ft_chatType :: chat_type
  ft_chatId :: string
  ft_peerUserId :: "string option"

definition unforwardable :: "message \<Rightarrow> bool" where
  "unforwardable m \<longleftrightarrow> m_undecryptable m \<or> (m_encrypted m \<and> \<not> truthy (m_text m))"

definition text_of :: "message \<Rightarrow> string" where
  "text_of m = (case m_text m of Some t \<Rightarrow> t | None \<Rightarrow> '''')"

definition encryptServerSide ::
  "('st, 'pub, 'wel, 'msg, 'env) platform \<Rightarrow> forward_target \<Rightarrow> message \<Rightarrow> (string, encrypted_body) jsmap
    \<Rightarrow> ('st, 'env, (string, encrypted_body) jsmap) e2ee" where
  "encryptServerSide P target m enc =
     (if truthy (m_text m)
      then io_bind (encryptPrivateText P (ft_chatId target) (ft_peerUserId target) (text_of m)) (\<lambda>(s, body).
             io_ret (AList.update (m_id m) body enc))
      else io_ret enc)"

definition encryptClientSide ::
  "('st, 'pub, 'wel, 'msg, 'env) platform \<Rightarrow> forward_target \<Rightarrow> message \<Rightarrow> (message \<times> encrypted_body option) list
    \<Rightarrow> ('st, 'env, (message \<times> encrypted_body option) list) e2ee" where
  "encryptClientSide P target m sends =
     (if ft_chatType target = Private
      then io_bind (encryptPrivateText P (ft_chatId target) (ft_peerUserId target) (text_of m)) (\<lambda>(s, body).
             io_ret (sends @ [(m, Some body)]))
      else io_ret (sends @ [(m, None)]))"

text \<open>Everything that has to be encrypted, before anything is sent.\<close>

definition forwardEncrypt ::
  "('st, 'pub, 'wel, 'msg, 'env) platform \<Rightarrow> forward_target \<Rightarrow> message list \<Rightarrow> message list
    \<Rightarrow> ('st, 'env, (string, encrypted_body) jsmap \<times> (message \<times> encrypted_body option) list) e2ee" where
  "forwardEncrypt P target plaintext encrypted =
     io_bind (if ft_chatType target = Private then io_for (encryptServerSide P target) plaintext [] else io_ret []) (\<lambda>enc.
     io_bind (io_for (encryptClientSide P target) encrypted []) (\<lambda>sends.
     io_ret (enc, sends)))"

definition forwardOne ::
  "('st, 'pub, 'wel, 'msg, 'env) platform \<Rightarrow> forward_target \<Rightarrow> message \<times> encrypted_body option \<Rightarrow> unit \<Rightarrow> ('st, 'env, unit) e2ee" where
  "forwardOne P target mb u = (case mb of (m, body) \<Rightarrow> (case body of
      Some b \<Rightarrow>
        io_bind (sendRequest P (ft_chatType target) (ft_chatId target)
                   ((encrypted_send b)\<lparr>sb_forwardedFromMessageId := Some (m_id m)\<rparr>)) (\<lambda>message.
        io_bind (io_get (\<lambda>w. session (e2ee_vars w))) (\<lambda>s. case s of
           None \<Rightarrow> io_ret ()
         | Some s \<Rightarrow> cachePlaintext P s (m_id message) (text_of m) (m_expiresAt message)))
    | None \<Rightarrow>
        io_bind (sendRequest P (ft_chatType target) (ft_chatId target)
                   (empty_body\<lparr>sb_text := Some (text_of m), sb_forwardedFromMessageId := Some (m_id m)\<rparr>)) (\<lambda>_.
        io_ret ())))"

definition forwardMessages ::
  "('st, 'pub, 'wel, 'msg, 'env) platform \<Rightarrow> forward_target \<Rightarrow> message list \<Rightarrow> ('st, 'env, unit) e2ee" where
  "forwardMessages P target messages =
     (let able = filter (\<lambda>m. \<not> unforwardable m) messages;
          plaintext = filter (\<lambda>m. \<not> m_encrypted m) able;
          encrypted = filter m_encrypted able
      in if plaintext = [] \<and> encrypted = [] then io_throw (JsError ''common.forward.nothingToForward'')
         else
           io_bind (forwardEncrypt P target plaintext encrypted) (\<lambda>(enc, sends).
           io_bind (io_for (forwardOne P target) sends ()) (\<lambda>_.
           if plaintext = [] then io_ret ()
           else let encs = (if ft_chatType target = Private then Some enc else None);
                    ids = map m_id plaintext
                in api (ForwardMessages ids (ft_chatType target) (ft_chatId target) encs)
                     (srv_forward P ids (ft_chatType target) (ft_chatId target) encs))))"

subsection \<open>scheduled.ts\<close>

definition pendingForChat :: "scheduled_message list \<Rightarrow> chat_type \<Rightarrow> string \<Rightarrow> scheduled_message list" where
  "pendingForChat lst chatType chatId =
     filter (\<lambda>m. sm_status m = PendingStatus \<and> sm_chatType m = chatType \<and> sm_chatId m = chatId) lst"

definition scheduledDisplayText :: "scheduled_message \<Rightarrow> ('st, 'env, string option) e2ee" where
  "scheduledDisplayText m = (case sm_text m of
      Some t \<Rightarrow> io_ret (Some t)
    | None \<Rightarrow>
        if \<not> truthy (sm_ciphertext m) then io_ret None
        else io_bind (io_get (\<lambda>w. session (e2ee_vars w))) (\<lambda>s. case s of
            None \<Rightarrow> io_ret None | Some s \<Rightarrow> cachedScheduledPlaintext s (sm_id m)))"

definition scheduleRequest ::
  "('st, 'pub, 'wel, 'msg, 'env) platform \<Rightarrow> schedule_body \<Rightarrow> ('st, 'env, scheduled_message) e2ee" where
  "scheduleRequest P b = api (ScheduleMessage b) (srv_schedule P b)"

definition scheduleMessage ::
  "('st, 'pub, 'wel, 'msg, 'env) platform \<Rightarrow> chat_type \<Rightarrow> string \<Rightarrow> string option \<Rightarrow> send_args \<Rightarrow> string
    \<Rightarrow> ('st, 'env, scheduled_message) e2ee" where
  "scheduleMessage P chatType chatId peerUserId args sendAt =
     (if chatType \<noteq> Private \<or> sa_text args = ''''
      then scheduleRequest P \<lparr>sch_chatType = chatType, sch_chatId = chatId,
             sch_body = empty_body\<lparr>sb_text := Some (sa_text args), sb_replyTo := sa_replyTo args,
               sb_attachmentIds := sa_attachmentIds args\<rparr>, sch_sendAt = sendAt\<rparr>
      else
        io_bind (encryptPrivateText P chatId peerUserId (sa_text args)) (\<lambda>(s, enc).
        io_bind (scheduleRequest P \<lparr>sch_chatType = chatType, sch_chatId = chatId,
             sch_body = (encrypted_send enc)\<lparr>sb_replyTo := sa_replyTo args, sb_attachmentIds := sa_attachmentIds args\<rparr>,
             sch_sendAt = sendAt\<rparr>) (\<lambda>scheduled.
        io_bind (cacheScheduledPlaintext s (sm_id scheduled) (sa_text args)) (\<lambda>_.
        io_ret scheduled))))"

definition updateRequest ::
  "('st, 'pub, 'wel, 'msg, 'env) platform \<Rightarrow> scheduled_message \<Rightarrow> send_body \<Rightarrow> ('st, 'env, scheduled_message) e2ee" where
  "updateRequest P m b = api (UpdateScheduled (sm_id m) (sm_chatType m) b) (srv_updateScheduled P (sm_id m) b)"

text \<open>The mutation functions of \<open>useEditScheduledMessage\<close> and \<open>useCancelScheduled\<close>.\<close>

definition editScheduledMessage ::
  "('st, 'pub, 'wel, 'msg, 'env) platform \<Rightarrow> scheduled_message \<Rightarrow> string \<Rightarrow> string option \<Rightarrow> ('st, 'env, scheduled_message) e2ee" where
  "editScheduledMessage P m txt peerUserId =
     (if sm_chatType m = Private
      then io_bind (encryptPrivateText P (sm_chatId m) peerUserId txt) (\<lambda>(s, enc).
           io_bind (updateRequest P m (encrypted_send enc)) (\<lambda>res.
           io_bind (cacheScheduledPlaintext s (sm_id m) txt) (\<lambda>_. io_ret res)))
      else updateRequest P m (empty_body\<lparr>sb_text := Some txt\<rparr>))"

definition cancelScheduled ::
  "('st, 'pub, 'wel, 'msg, 'env) platform \<Rightarrow> string \<Rightarrow> ('st, 'env, unit) e2ee" where
  "cancelScheduled P i =
     io_bind (api (CancelScheduled i) (srv_cancelScheduled P i)) (\<lambda>res.
     io_bind (io_get (\<lambda>w. session (e2ee_vars w))) (\<lambda>s. case s of
        None \<Rightarrow> io_ret res
      | Some s \<Rightarrow> io_bind (io_ignore (dropScheduledPlaintext s i)) (\<lambda>_. io_ret res)))"

definition canEditMessage :: "message \<Rightarrow> string \<Rightarrow> bool" where
  "canEditMessage m viewerId \<longleftrightarrow> m_senderId m = viewerId \<and> \<not> m_pending m \<and> \<not> m_failed m \<and> \<not> m_encrypted m \<and> m_chatType m \<noteq> Private"

subsection \<open>Starting a session and encrypting, under any frame\<close>

text \<open>
  \<open>e2ee_boot_frame\<close> extends \<open>e2ee_frame\<close> to relations that also tolerate the start of a session: they
  hold for every session and allow the module variables and any account's database to change.
\<close>

locale e2ee_boot_frame =
  fixes R :: "('st, 'env) world \<Rightarrow> ('st, 'env) world \<Rightarrow> bool"
  assumes every_session: "e2ee_frame R s"
    and frame_vars: "R w (w\<lparr>e2ee_vars := m\<rparr>)"
    and frame_db: "R w (w\<lparr>stores := st\<rparr>)"
begin

sublocale each: e2ee_frame R s for s
  by (rule every_session)

lemma b_boot_ev [intro!]: "each.framed (boot_ev e)"
  unfolding boot_ev_def by (intro each.framed_mod frame_vars)

lemma b_open [intro!]: "each.framed (openIdentity P db)"
proof -
  have "each.framed (\<lambda>w. case loadOrCreateIdentity fresh (stores w db) of Inl e \<Rightarrow> (Inl e, w)
       | Inr (i, store) \<Rightarrow> (Inr i, w\<lparr>stores := (stores w)(db := store)\<rparr>))" for fresh
    by (auto simp: each.framed_def each.frame_refl frame_db split: sum.splits)
  then show ?thesis unfolding openIdentity_def by (intro each.framed_bind each.framed_pure each.framed_option each.f_on_env)
qed

lemma b_init [intro!]: "each.framed (initE2EE P u)"
proof (rule each.framedI)
  fix w r w' assume run: "initE2EE P u w = (r, w')"
  obtain ans m where call: "initE2EE_call u (e2ee_vars w) = (ans, m)" by fastforce
  let ?m = "io_catch (io_bind (bootstrapE2EE P u) (\<lambda>s. io_ret (Some s))) (\<lambda>_. io_bind (boot_ev BootFailed) (\<lambda>_. io_ret None))"
  have "each.framed ?m"
    unfolding bootstrapE2EE_def Let_def by (auto simp del: io_eval)
  moreover have "R w (w\<lparr>e2ee_vars := m\<rparr>)" by (rule frame_vars)
  ultimately show "R w w'"
    using run call by (cases ans) (auto simp: initE2EE_def intro: each.frame_trans each.framedD)
qed

lemma b_encrypt [intro!]: "each.framed (requireE2EESession P)" "each.framed (encryptPrivateText P c u t)"
proof -
  show req: "each.framed (requireE2EESession P)"
    unfolding requireE2EESession_def by (auto simp del: io_eval)
  have rethrow: "each.framed (case err of UserFacingError m \<Rightarrow> io_throw (UserFacingError m)
           | _ \<Rightarrow> io_throw (UserFacingError (T ''common.e2ee.encryptFailed'' [])))" for err
    by (cases err) (auto simp del: io_eval)
  show "each.framed (encryptPrivateText P c u t)"
    unfolding encryptPrivateText_def
    by (intro each.framed_bind each.framed_if each.framed_catch each.framed_pure each.f_encrypt req rethrow)
qed

end

interpretation silent_boot: e2ee_boot_frame silent
  by unfold_locales (auto simp: silent_def)

subsection \<open>Fail closed\<close>

text \<open>A request that would hand the server readable text of a private chat.\<close>

fun leaks :: "api_call \<Rightarrow> bool" where
  "leaks (SendMessage t c b) = (t = Private \<and> truthy (sb_text b))"
| "leaks (ScheduleMessage b) = (sch_chatType b = Private \<and> truthy (sb_text (sch_body b)))"
| "leaks (UpdateScheduled i t b) = (t = Private \<and> truthy (sb_text b))"
| "leaks (ForwardMessages is t c e) = (t = Private \<and> e = None)"
| "leaks _ = False"

definition sealed :: "('st, 'env) world \<Rightarrow> ('st, 'env) world \<Rightarrow> bool" where
  "sealed w w' \<longleftrightarrow> (\<exists>l. apiLog w' = apiLog w @ l \<and> list_all (\<lambda>(a, ok). \<not> leaks a) l)"

lemma e2ee_call_tight: "e2ee_call a \<Longrightarrow> \<not> leaks a"
  by (cases a) auto

interpretation sealed_boot: e2ee_boot_frame sealed
proof unfold_locales
  show "sealed u v \<Longrightarrow> sealed v w \<Longrightarrow> sealed u w" for u v w :: "('a, 'b) world"
    by (auto simp: sealed_def)
qed (auto simp: sealed_def dest: e2ee_call_tight)

lemma sealed_api [intro!]: "\<not> leaks a \<Longrightarrow> sealed_boot.each.framed (api a m)"
  by (rule sealed_boot.each.framedI) (auto simp: sealed_def elim!: api_E)

lemma encrypted_send_text [simp]: "sb_text (encrypted_send b) = None"
  by (simp add: encrypted_send_def empty_body_def)

lemma sealed_send: "sealed_boot.each.framed (sendMessage P t c u args)"
  unfolding sendMessage_def sendRequest_def
  by (auto simp del: io_eval)

lemma sealed_schedule: "sealed_boot.each.framed (scheduleMessage P t c u args at)"
  unfolding scheduleMessage_def scheduleRequest_def by (auto simp del: io_eval)

lemma sealed_edit: "sealed_boot.each.framed (editScheduledMessage P m t u)"
  unfolding editScheduledMessage_def updateRequest_def by (auto simp del: io_eval)

lemma clientSide_bodies:
  assumes "io_for (encryptClientSide P target) ms acc w = (Inr sends, w')" and "ft_chatType target = Private"
    and "\<forall>x \<in> set acc. snd x \<noteq> None"
  shows "\<forall>x \<in> set sends. snd x \<noteq> None"
  using assms(1,3)
proof (induction ms arbitrary: acc w)
  case (Cons m ms)
  from Cons.prems(1) obtain mid v where "encryptClientSide P target m acc w = (Inr mid, v)"
    and rest: "io_for (encryptClientSide P target) ms mid v = (Inr sends, w')" by (auto elim!: io_bind_Inr_E)
  then have "\<forall>x \<in> set mid. snd x \<noteq> None"
    using Cons.prems(2) assms(2) by (fastforce simp: encryptClientSide_def elim!: io_bind_Inr_E)
  with Cons.IH rest show ?case by blast
qed auto

lemma sealed_forwardEncrypt [intro!]: "sealed_boot.each.framed (forwardEncrypt P target ps es)"
  unfolding forwardEncrypt_def encryptServerSide_def encryptClientSide_def by (auto simp del: io_eval)

lemma sealed_forwardOne:
  "ft_chatType target = Private \<Longrightarrow> snd mb \<noteq> None \<Longrightarrow> sealed_boot.each.framed (forwardOne P target mb u)"
  by (cases mb; cases "snd mb") (auto simp: forwardOne_def sendRequest_def simp del: io_eval)

lemma sealed_forwardOne_group:
  "ft_chatType target = Group \<Longrightarrow> sealed_boot.each.framed (forwardOne P target mb u)"
  unfolding forwardOne_def sendRequest_def by (cases mb) (auto simp del: io_eval split: option.splits)

lemma sealed_forwardSends:
  "ft_chatType target = Private \<Longrightarrow> \<forall>x \<in> set sends. snd x \<noteq> None \<Longrightarrow> sealed_boot.each.framed (io_for (forwardOne P target) sends u)"
proof (induction sends arbitrary: u)
  case (Cons mb sends)
  then have "sealed_boot.each.framed (forwardOne P target mb u)" for u by (intro sealed_forwardOne) auto
  with Cons show ?case by (simp only: io_for.simps, intro sealed_boot.each.framed_bind) auto
qed (auto simp del: io_eval)

lemma sealed_forward: "sealed w (snd (forwardMessages P target messages w))"
proof -
  define able where "able = filter (\<lambda>m. \<not> unforwardable m) messages"
  let ?ps = "filter (\<lambda>m. \<not> m_encrypted m) able" and ?es = "filter m_encrypted able"
  let ?encs = "\<lambda>enc. if ft_chatType target = Private then Some enc else None"
  let ?last = "\<lambda>enc. if ?ps = [] then io_ret () else
      api (ForwardMessages (map m_id ?ps) (ft_chatType target) (ft_chatId target) (?encs enc))
        (srv_forward P (map m_id ?ps) (ft_chatType target) (ft_chatId target) (?encs enc))"
  let ?rest = "\<lambda>(enc, sends). io_bind (io_for (forwardOne P target) sends ()) (\<lambda>_. ?last enc)"
  show ?thesis
  proof (cases "?ps = [] \<and> ?es = []")
    case True
    then show ?thesis by (simp add: forwardMessages_def able_def [symmetric] sealed_boot.each.frame_refl)
  next
    case False
    then have eq: "forwardMessages P target messages = io_bind (forwardEncrypt P target ?ps ?es) ?rest"
      unfolding forwardMessages_def able_def [symmetric] Let_def by auto
    obtain r v where enc: "forwardEncrypt P target ?ps ?es w = (r, v)" by fastforce
    have wv: "sealed w v" by (rule sealed_boot.each.framedD [OF sealed_forwardEncrypt enc])
    show ?thesis
    proof (cases r)
      case (Inl e)
      with enc wv show ?thesis by (simp add: eq io_bind_def [of "forwardEncrypt _ _ _ _"])
    next
      case (Inr a)
      obtain encs sends where a: "a = (encs, sends)" by fastforce
      have last: "sealed_boot.each.framed (?last encs)"
        by (auto simp del: io_eval intro: sealed_api)
      have "sealed_boot.each.framed (io_for (forwardOne P target) sends ())"
      proof (cases "ft_chatType target")
        case Private
        with enc Inr a have "\<forall>x \<in> set sends. snd x \<noteq> None"
          by (auto simp: forwardEncrypt_def elim!: io_bind_Inr_E dest!: clientSide_bodies)
        with Private show ?thesis by (rule sealed_forwardSends)
      next
        case Group
        then show ?thesis by (intro sealed_boot.each.framed_for sealed_forwardOne_group)
      qed
      with last have "sealed_boot.each.framed (?rest a)" unfolding a by (auto simp del: io_eval)
      then have rest: "sealed v (snd (?rest a v))" by (rule sealed_boot.each.framed_snd)
      have same: "snd (forwardMessages P target messages w) = snd (?rest a v)"
        using enc Inr by (simp add: eq io_bind_def [of "forwardEncrypt _ _ _ _"])
      show ?thesis unfolding same by (rule sealed_boot.each.frame_trans [OF wv rest])
    qed
  qed
qed


subsection \<open>What cannot be encrypted is not sent\<close>

lemma requireE2EESession_throws:
  assumes "requireE2EESession P v = (Inl x, v')"
  shows "\<exists>m. x = UserFacingError m"
  using assms io_default_returns [of "initE2EE P (the (authUser v))" None v]
  by (auto simp: requireE2EESession_def elim!: io_bind_Inl_E split: option.splits if_splits)

lemma encryptPrivateText_throws:
  assumes "encryptPrivateText P c u t w = (Inl e, w')"
  shows "\<exists>m. e = UserFacingError m"
proof -
  have enc: "\<exists>m. x = UserFacingError m" if "io_catch (encryptForChat P s c p t) (\<lambda>err. case err of
             UserFacingError m \<Rightarrow> io_throw (UserFacingError m)
           | _ \<Rightarrow> io_throw (UserFacingError (T ''common.e2ee.encryptFailed'' []))) v = (Inl x, v')"
    for s p x v v'
    using that by (auto elim!: io_catch_E split: js_error.splits)
  from assms show ?thesis
    unfolding encryptPrivateText_def
    by (auto elim!: io_bind_Inl_E dest: requireE2EESession_throws enc split: if_splits)
qed

lemma encryptPrivateText_silent: "encryptPrivateText P c u t w = (r, w') \<Longrightarrow> silent w w'"
  by (rule silent_frame.framedD [OF silent_boot.b_encrypt(2)])

text \<open>
  C3. Fail closed: when the text of a private message cannot be encrypted (no session, unknown peer, a
  peer without keys, a refused or failed handshake, a crypto error), sending and scheduling end with an
  error made for the user, in exactly the state the failed encryption left, and no request carrying a
  message has been made.
\<close>

theorem failed_encryption_sends_nothing:
  assumes "encryptPrivateText P c u (sa_text args) w = (Inl e, w')" and "sa_text args \<noteq> ''''"
  shows "sendMessage P Private c u args w = (Inl e, w') \<and> scheduleMessage P Private c u args sendAt w = (Inl e, w') \<and>
    (\<exists>m. e = UserFacingError m) \<and>
    (\<exists>l. apiLog w' = apiLog w @ l \<and> list_all (\<lambda>(a, ok). e2ee_call a) l)"
  using assms encryptPrivateText_throws [OF assms(1)] encryptPrivateText_silent [OF assms(1)]
  by (auto simp: sendMessage_def scheduleMessage_def io_bind_eval silent_def)

definition sample_args :: send_args where
  "sample_args = \<lparr>sa_text = ''hi'', sa_replyTo = None, sa_attachmentIds = None, sa_threadRootId = None\<rparr>"

definition running_world :: "(bytes, int) world" where
  "running_world = sample_world\<lparr>e2ee_vars := \<lparr>session = Some sample_session,
     initPromise = Some (Settled sample_session), initUserId = Some ''u1''\<rparr>\<rparr>"

theorem failed_encryption_sends_nothing_witness:
  "sendMessage sample_platform Private ''c1'' None sample_args running_world =
      (Inl (UserFacingError (T ''common.e2ee.peerUnknown'' [])), running_world) \<and>
   (\<exists>l. apiLog running_world = apiLog running_world @ l \<and> list_all (\<lambda>(a, ok). e2ee_call a) l)"
proof -
  have "encryptPrivateText sample_platform ''c1'' None (sa_text sample_args) running_world =
      (Inl (UserFacingError (T ''common.e2ee.peerUnknown'' [])), running_world)"
    by (simp add: encryptPrivateText_def requireE2EESession_def io_bind_def running_world_def)
  from failed_encryption_sends_nothing [OF this, of undefined] show ?thesis
    by (simp add: sample_args_def)
qed

text \<open>
  Forwarding is all or nothing on the encryption side: if any text that must be encrypted cannot be,
  nothing is forwarded at all: no message request has been made, whatever was encrypted before it.
\<close>

theorem forward_encrypts_before_sending:
  assumes "forwardEncrypt P target (filter (\<lambda>m. \<not> m_encrypted m) able) (filter m_encrypted able) w = (Inl e, w')"
    and "able = filter (\<lambda>m. \<not> unforwardable m) messages" and "able \<noteq> []"
  shows "forwardMessages P target messages w = (Inl e, w') \<and>
    (\<exists>l. apiLog w' = apiLog w @ l \<and> list_all (\<lambda>(a, ok). e2ee_call a) l)"
proof
  have "\<not> (filter (\<lambda>m. \<not> m_encrypted m) able = [] \<and> filter m_encrypted able = [])"
    using assms(3) by (cases able) auto
  then show "forwardMessages P target messages w = (Inl e, w')"
    using assms(1) unfolding forwardMessages_def Let_def assms(2) [symmetric] by (auto simp: io_bind_eval)
  have "silent_frame.framed (forwardEncrypt P target ps es)" for ps es
    unfolding forwardEncrypt_def encryptServerSide_def encryptClientSide_def by (auto simp del: io_eval)
  from silent_frame.framedD [OF this assms(1)]
  show "\<exists>l. apiLog w' = apiLog w @ l \<and> list_all (\<lambda>(a, ok). e2ee_call a) l" by (simp add: silent_def)
qed

theorem forward_encrypts_before_sending_witness:
  "forwardMessages sample_platform \<lparr>ft_chatType = Private, ft_chatId = ''c1'', ft_peerUserId = None\<rparr>
      [sample_message\<lparr>m_text := Some ''hi''\<rparr>] running_world =
    (Inl (UserFacingError (T ''common.e2ee.peerUnknown'' [])), running_world) \<and>
   (\<exists>l. apiLog running_world = apiLog running_world @ l \<and> list_all (\<lambda>(a, ok). e2ee_call a) l)"
proof (rule forward_encrypts_before_sending)
  let ?able = "[sample_message\<lparr>m_text := Some ''hi''\<rparr>]"
  show "forwardEncrypt sample_platform \<lparr>ft_chatType = Private, ft_chatId = ''c1'', ft_peerUserId = None\<rparr>
      (filter (\<lambda>m. \<not> m_encrypted m) ?able) (filter m_encrypted ?able) running_world =
    (Inl (UserFacingError (T ''common.e2ee.peerUnknown'' [])), running_world)"
    by (simp add: forwardEncrypt_def encryptServerSide_def encryptPrivateText_def requireE2EESession_def io_bind_def
        running_world_def sample_message_def)
  show "?able = filter (\<lambda>m. \<not> unforwardable m) ?able" by (simp add: unforwardable_def sample_message_def)
qed simp

subsection \<open>The sender's own copy\<close>

text \<open>With a session up, encryption uses it and leaves it up.\<close>

lemma encryptPrivateText_session:
  assumes "session (e2ee_vars w) = Some s" and "encryptPrivateText P c u t w = (Inr (s', enc), w')"
  shows "s' = s" and "own_only s w w'"
proof -
  have req: "requireE2EESession P w = (Inr s, w)"
    using assms(1) by (simp add: requireE2EESession_def io_bind_def)
  with assms(2) show "s' = s"
    by (auto simp: encryptPrivateText_def io_bind_def [of "requireE2EESession P"] elim!: io_bind_Inr_E split: if_splits)
  from req assms(2) have "encryptForChat P s c (the u) t w = (Inr enc, w')"
    by (auto simp: encryptPrivateText_def io_bind_def [of "requireE2EESession P"] elim!: io_bind_Inr_E io_catch_E
        split: if_splits js_error.splits)
  then show "own_only s w w'" by (rule own_frame.framedD [OF own_frame.f_encrypt(2)])
qed

lemma hydrate_outgoing:
  assumes "held w s (ciphertextKey P x) = Some (entry (stamp_of P e) t)" and "held w s (msg_name (m_id m)) = None"
    and "m_ciphertext m = Some x" and "x \<noteq> ''''" and "\<not> m_isDeleted m"
  shows "fst (hydrateMessage P s m w) = Inr (shown m t)"
  using assms
  by (simp add: hydrateMessage_def Let_def io_bind_def cachedPlaintext_eval adoptOutgoingPlaintext_eval)

text \<open>
  C4. A sender never loses the text of a message that may have gone out. If a private send fails after
  its request was made (a lost answer, a crash of the request), the text is already on disk under the
  digest of the ciphertext: when the message turns up in the history after all, hydrating it shows the
  text that was typed, newlines and all.
\<close>

theorem lost_answer_keeps_own_text:
  assumes "session (e2ee_vars w) = Some s" and "sa_text args \<noteq> ''''"
    and "sendMessage P Private c u args w = (Inl e, w')"
    and "(SendMessage Private c b, False) \<in> set (drop (length (apiLog w)) (apiLog w'))"
    and "m_ciphertext m = sb_ciphertext b" and "truthy (m_ciphertext m)" and "\<not> m_isDeleted m"
    and "held w' s (msg_name (m_id m)) = None"
  shows "fst (hydrateMessage P s m w') = Inr (shown m (sa_text args))"
proof -
  obtain r1 w1 where enc: "encryptPrivateText P c u (sa_text args) w = (r1, w1)" by fastforce
  from encryptPrivateText_silent [OF this] obtain l1 where l1: "apiLog w1 = apiLog w @ l1" "list_all (\<lambda>(a, ok). e2ee_call a) l1"
    by (auto simp: silent_def)
  show ?thesis
  proof (cases r1)
    case (Inl err)
    with enc assms(2,3) have "w' = w1" by (simp add: sendMessage_def io_bind_def)
    with l1 assms(4) show ?thesis by (auto simp: list_all_iff)
  next
    case (Inr a)
    obtain s' body where a: "a = (s', body)" by fastforce
    with enc Inr encryptPrivateText_session(1) [OF assms(1)] have s': "s' = s" by blast
    let ?b = "(encrypted_send body)\<lparr>sb_replyTo := sa_replyTo args, sb_attachmentIds := sa_attachmentIds args\<rparr>"
    let ?key = "ciphertextKey P (eb_ciphertext body)"
    let ?w2 = "snd (store_put s ?key (entry (stamp_of P None) (sa_text args)) w1)"
    obtain r3 w3 where send: "sendRequest P Private c ?b ?w2 = (r3, w3)" by fastforce
    have r3: "r3 = Inl e" "w' = w3"
      using assms(2,3) enc Inr a s' send
      by (cases r3; auto simp: sendMessage_def io_bind_def cacheOutgoingPlaintext_def adoptOutgoingPlaintext_eval Let_def
          split: option.splits)+
    have log: "apiLog w' = apiLog w @ l1 @ [(SendMessage Private c ?b, False)]" and disk: "stores w' = stores ?w2"
      using send r3 l1 by (auto simp: sendRequest_def elim!: api_E)
    from log assms(4) l1(2) have "b = ?b" by (auto simp: list_all_iff)
    then have "m_ciphertext m = Some (eb_ciphertext body)" using assms(5) by (simp add: encrypted_send_def empty_body_def)
    moreover have "held w' s ?key = Some (entry (stamp_of P None) (sa_text args))" by (simp add: disk)
    ultimately show ?thesis using assms(6-8) by (intro hydrate_outgoing) auto
  qed
qed

definition losing_platform :: "(bytes, bytes, bytes, bytes, int) platform" where
  "losing_platform = sample_platform\<lparr>srv_send := (\<lambda>t c b e. (Inl (JsError ''network''), e))\<rparr>"

definition joined_world :: "(bytes, int) world" where
  "joined_world = running_world\<lparr>states := [stateKey sample_session ''c1'' \<mapsto> [7]]\<rparr>"

theorem lost_answer_keeps_own_text_witness:
  "\<exists>w'. sendMessage losing_platform Private ''c1'' (Some ''u2'') sample_args joined_world = (Inl (JsError ''network''), w') \<and>
     fst (hydrateMessage losing_platform sample_session (sample_message\<lparr>m_ciphertext := Some (utf8dec [3, 105, 106])\<rparr>) w') =
       Inr (shown (sample_message\<lparr>m_ciphertext := Some (utf8dec [3, 105, 106])\<rparr>) (sa_text sample_args))"
proof -
  let ?b = "(encrypted_send \<lparr>eb_ciphertext = utf8dec [3, 105, 106], eb_alg = 1, eb_epoch = 1\<rparr>)
      \<lparr>sb_replyTo := None, sb_attachmentIds := None\<rparr>"
  let ?m = "sample_message\<lparr>m_ciphertext := Some (utf8dec [3, 105, 106])\<rparr>"
  have hi: "utf8 ''hi'' = [104, 105]" by (simp add: utf8_def)
  have up: "session (e2ee_vars joined_world) = Some sample_session" by (simp add: joined_world_def running_world_def)
  obtain w' where run: "sendMessage losing_platform Private ''c1'' (Some ''u2'') sample_args joined_world = (Inl (JsError ''network''), w')"
    and log: "apiLog w' = [(SendMessage Private ''c1'' ?b, False)]"
    and msg: "held w' sample_session (msg_name ''m1'') = None"
    by (simp add: sendMessage_def encryptPrivateText_def requireE2EESession_def encryptForChat_def loadState_def
        io_bind_def io_catch_def encryptMessage_def on_env_def saveState_eval cacheOutgoingPlaintext_def sendRequest_def
        api_def losing_platform_def joined_world_def running_world_def sample_args_def hi KISY_E2EE_ALG_def sample_defs)
  have "fst (hydrateMessage losing_platform sample_session ?m w') = Inr (shown ?m (sa_text sample_args))"
  proof (rule lost_answer_keeps_own_text [OF up _ run, where b = ?b])
    show "(SendMessage Private ''c1'' ?b, False) \<in> set (drop (length (apiLog joined_world)) (apiLog w'))"
      by (simp add: log joined_world_def running_world_def sample_world_def)
    show "held w' sample_session (msg_name (m_id ?m)) = None" by (simp add: msg sample_message_def)
  qed (simp_all add: sample_args_def sample_message_def encrypted_send_def empty_body_def utf8dec_def)
  with run show ?thesis by blast
qed

subsection \<open>A forwarded plaintext message leaves no readable copy\<close>

text \<open>The names under which readable text is kept.\<close>

definition text_name :: "string \<Rightarrow> bool" where
  "text_name n \<longleftrightarrow> prefix ''msg/'' n \<or> prefix CT_PREFIX n \<or> prefix ''sched/'' n"

abbreviation textless where "textless s m \<equiv> kept (others s (\<lambda>n. \<not> text_name n)) m"

lemma no_text [simp]:
  "\<not> text_name (mls_name c)" "\<not> text_name (hs_name c)" "\<not> text_name (kp_name k)" "\<not> text_name POOL_INDEX"
  by (simp_all add: text_name_def mls_name_def hs_name_def kp_name_def POOL_INDEX_def CT_PREFIX_def)

lemma textless_state [intro!]: "textless s (loadState P s c)" "textless s (saveState P s c g)"
  unfolding loadState_def saveState_def set_state_def
  by (auto simp del: io_eval intro!: kept_mod kept_others_put)

lemma textless_drop [intro!]: "textless s (dropKeyPackage s n)" "textless s (localKeyPackages P s)"
  unfolding dropKeyPackage_def readPoolIndex_def writePoolIndex_def localKeyPackages_def loadKeyPackage_def
  by (auto simp del: io_eval intro!: kept_others_put kept_others_remove)

lemma textless_try [intro!]: "textless s (tryPackages P s c p pool)"
  by (induction pool) (auto simp del: io_eval)

lemma textless_join [intro!]: "textless s (joinFromWelcome P s wel pool)" "textless s (ackWelcome P s i)"
  unfolding joinFromWelcome_def ackWelcome_def by (auto simp del: io_eval)

lemma textless_adopt [intro!]: "textless s (adoptFrom P s pool wels)"
  by (induction wels) (auto simp del: io_eval)

lemma textless_adoptPeer [intro!]: "textless s (adoptPeerChat P s c)"
  unfolding adoptPeerChat_def Let_def by (auto simp del: io_eval)

lemma textless_tries [intro!]: "textless s (awaitTries P s c i n)"
  by (induction n) (auto simp del: io_eval intro!: kept_mod)

lemma textless_encrypt [intro!]: "textless s (encryptForChat P s c u t)"
  unfolding encryptForChat_def initiateChat_def joinOrRefuse_def awaitJoin_def publishCommit_def finishCommit_def
    publish_def Let_def
  by (auto simp del: io_eval)

lemma encryptPrivateText_textless:
  assumes "session (e2ee_vars w) = Some s" and "encryptPrivateText P c u t w = (r, w')"
  shows "session (e2ee_vars w') = Some s \<and> others s (\<lambda>n. \<not> text_name n) w' = others s (\<lambda>n. \<not> text_name n) w"
proof -
  let ?m = "if \<not> truthy u then io_throw (UserFacingError (T ''common.e2ee.peerUnknown'' []))
       else io_bind
         (io_catch (encryptForChat P s c (the u) t) (\<lambda>err. case err of
             UserFacingError m \<Rightarrow> io_throw (UserFacingError m)
           | _ \<Rightarrow> io_throw (UserFacingError (T ''common.e2ee.encryptFailed'' []))))
         (\<lambda>body. io_ret (s, body))"
  have run: "?m w = (r, w')"
    using assms by (simp add: encryptPrivateText_def requireE2EESession_def io_bind_def [of "io_bind _ _"] io_bind_def [of "io_get _"])
  have err: "textless s (case e of UserFacingError m \<Rightarrow> io_throw (UserFacingError m)
           | _ \<Rightarrow> io_throw (UserFacingError (T ''common.e2ee.encryptFailed'' [])))"
    "own_frame.framed s (case e of UserFacingError m \<Rightarrow> io_throw (UserFacingError m)
           | _ \<Rightarrow> io_throw (UserFacingError (T ''common.e2ee.encryptFailed'' [])))" for e
    by (cases e; auto simp del: io_eval)+
  have "textless s ?m" using err(1) by (intro kept_intros textless_encrypt)
  moreover have "own_frame.framed s ?m"
    using err(2) by (intro own_frame.framed_if own_frame.framed_pure own_frame.framed_bind own_frame.framed_catch own_frame.f_encrypt)
  ultimately show ?thesis
    using run assms(1) by (auto dest!: keptD own_frame.framedD simp: own_only_def)
qed

lemma encryptServerSide_textless:
  assumes "io_for (encryptServerSide P target) ms enc w = (r, w')" and "session (e2ee_vars w) = Some s"
  shows "session (e2ee_vars w') = Some s \<and> others s (\<lambda>n. \<not> text_name n) w' = others s (\<lambda>n. \<not> text_name n) w"
  using assms
proof (induction ms arbitrary: enc w)
  case (Cons m ms)
  obtain r1 v where one: "encryptServerSide P target m enc w = (r1, v)" by fastforce
  have v: "session (e2ee_vars v) = Some s \<and> others s (\<lambda>n. \<not> text_name n) v = others s (\<lambda>n. \<not> text_name n) w"
  proof (cases "truthy (m_text m)")
    case False
    with one Cons.prems(2) show ?thesis by (simp add: encryptServerSide_def)
  next
    case True
    obtain r2 v2 where e: "encryptPrivateText P (ft_chatId target) (ft_peerUserId target) (text_of m) w = (r2, v2)" by fastforce
    with one True have "v = v2" by (cases r2) (auto simp: encryptServerSide_def io_bind_def)
    with encryptPrivateText_textless [OF Cons.prems(2) e] show ?thesis by simp
  qed
  show ?case
  proof (cases r1)
    case (Inl e)
    with Cons.prems one v show ?thesis by (simp add: io_bind_def)
  next
    case (Inr enc')
    with Cons.prems(1) one have "io_for (encryptServerSide P target) ms enc' v = (r, w')" by (simp add: io_bind_def)
    from Cons.IH [OF this] v show ?thesis by simp
  qed
qed simp

text \<open>
  C29. Forwarding messages that are not encrypted into a private chat stores no readable copy: after
  \<open>forwardMessages\<close> on such messages, whatever its outcome, not one entry of the message, outgoing or
  scheduled text caches has changed. The texts were encrypted by this device, which cannot open its own
  ciphertexts, so the forwarded messages stay unreadable to their own sender.
\<close>

theorem forward_plaintext_keeps_no_copy:
  assumes "session (e2ee_vars w) = Some s" and "ft_chatType target = Private"
    and "\<forall>m \<in> set messages. \<not> m_encrypted m"
    and "forwardMessages P target messages w = (r, w')" and "text_name n"
  shows "held w' s n = held w s n"
proof -
  define able where "able = filter (\<lambda>m. \<not> unforwardable m) messages"
  have enc: "filter m_encrypted able = []" "filter (\<lambda>m. \<not> m_encrypted m) able = able"
    using assms(3) by (auto simp: able_def filter_empty_conv intro!: filter_cong)
  show ?thesis
  proof (cases "able = []")
    case True
    with assms(4) enc show ?thesis by (simp add: forwardMessages_def able_def [symmetric])
  next
    case False
    obtain r1 v where e: "io_for (encryptServerSide P target) able [] w = (r1, v)" by fastforce
    note same = encryptServerSide_textless [OF e assms(1)]
    have "stores w' = stores v"
    proof (cases r1)
      case (Inl x)
      with assms(2,4) enc False e show ?thesis
        by (simp add: forwardMessages_def able_def [symmetric] forwardEncrypt_def io_bind_def)
    next
      case (Inr encs)
      with assms(2,4) enc False e
      have "api (ForwardMessages (map m_id able) Private (ft_chatId target) (Some encs))
          (srv_forward P (map m_id able) Private (ft_chatId target) (Some encs)) v = (r, w')"
        by (simp add: forwardMessages_def able_def [symmetric] forwardEncrypt_def io_bind_def Let_def)
      then show ?thesis by (auto elim!: api_E)
    qed
    with same assms(5) show ?thesis by (auto dest!: othersD [where n = n])
  qed
qed

theorem forward_plaintext_keeps_no_copy_witness:
  "\<exists>w'. forwardMessages sample_platform \<lparr>ft_chatType = Private, ft_chatId = ''c1'', ft_peerUserId = Some ''u2''\<rparr>
       [sample_message\<lparr>m_text := Some ''hi''\<rparr>] joined_world = (Inr (), w') \<and>
     length (apiLog w') = 1 \<and>
     held w' sample_session (ciphertextKey sample_platform (utf8dec [3, 105, 106])) = None"
proof -
  let ?t = "\<lparr>ft_chatType = Private, ft_chatId = ''c1'', ft_peerUserId = Some ''u2''\<rparr>"
  let ?ms = "[sample_message\<lparr>m_text := Some ''hi''\<rparr>]"
  have up: "session (e2ee_vars joined_world) = Some sample_session" by (simp add: joined_world_def running_world_def)
  obtain w' where run: "forwardMessages sample_platform ?t ?ms joined_world = (Inr (), w')" and len: "length (apiLog w') = 1"
    by (simp add: forwardMessages_def unforwardable_def forwardEncrypt_def encryptServerSide_def text_of_def
        encryptPrivateText_def requireE2EESession_def encryptForChat_def loadState_def
        io_bind_def io_catch_def encryptMessage_def on_env_def saveState_eval Let_def
        api_def joined_world_def running_world_def sample_defs)
  have "held w' sample_session (ciphertextKey sample_platform (utf8dec [3, 105, 106])) =
      held joined_world sample_session (ciphertextKey sample_platform (utf8dec [3, 105, 106]))"
    by (rule forward_plaintext_keeps_no_copy [OF up _ _ run])
      (simp_all add: sample_message_def text_name_def ciphertextKey_def CT_PREFIX_def)
  moreover have "held joined_world sample_session n = None" for n
    by (simp add: joined_world_def running_world_def sample_world_def)
  ultimately show ?thesis using run len by auto
qed

text \<open>
  A scheduled private message stays readable to its author: after scheduling succeeds, the text shown
  for it is the text typed, and when the scheduler's message arrives, hydrating it shows that text too and
  moves it to the message.
\<close>

theorem scheduled_text_round_trip:
  assumes "session (e2ee_vars w) = Some s" and "sa_text args \<noteq> ''''"
    and "scheduleMessage P Private c u args sendAt w = (Inr sm, w')"
    and "sm_text sm = None" and "truthy (sm_ciphertext sm)"
    and "m_scheduledId m = Some (sm_id sm)" and "sm_id sm \<noteq> ''''"
    and "truthy (m_ciphertext m)" and "\<not> m_isDeleted m" and "held w' s (msg_name (m_id m)) = None"
    and "held w' s (ciphertextKey P (the (m_ciphertext m))) = None"
  shows "fst (scheduledDisplayText sm w') = Inr (Some (sa_text args)) \<and>
    (\<exists>w''. hydrateMessage P s m w' = (Inr (shown m (sa_text args)), w'') \<and>
      held w'' s (sched_name (sm_id sm)) = None \<and>
      held w'' s (msg_name (m_id m)) = Some (entry (stamp_of P (m_expiresAt m)) (sa_text args)))"
proof -
  from assms(2,3) obtain s1 enc v1 v2 where enc: "encryptPrivateText P c u (sa_text args) w = (Inr (s1, enc), v1)"
    and req: "scheduleRequest P \<lparr>sch_chatType = Private, sch_chatId = c,
             sch_body = (encrypted_send enc)\<lparr>sb_replyTo := sa_replyTo args, sb_attachmentIds := sa_attachmentIds args\<rparr>,
             sch_sendAt = sendAt\<rparr> v1 = (Inr sm, v2)"
    and w': "w' = snd (cacheScheduledPlaintext s1 (sm_id sm) (sa_text args) v2)"
    by (auto simp: scheduleMessage_def elim!: io_bind_Inr_E)
  have s1: "s1 = s" by (rule encryptPrivateText_session(1) [OF assms(1) enc])
  have "session (e2ee_vars v1) = Some s" using encryptPrivateText_textless [OF assms(1) enc] by simp
  then have "session (e2ee_vars w') = Some s"
    using req by (auto simp: w' scheduleRequest_def cacheScheduledPlaintext_def elim!: api_E)
  moreover have "held w' s (sched_name (sm_id sm)) = Some (utf8 (sa_text args))"
    by (simp add: w' s1 cacheScheduledPlaintext_def)
  ultimately show ?thesis
    using assms(4-11)
    by (simp add: scheduledDisplayText_def cachedScheduledPlaintext_def io_bind_def hydrateMessage_def Let_def
        cachedPlaintext_eval adoptOutgoingPlaintext_eval adoptScheduledPlaintext_eval)
qed

definition scheduling_platform :: "(bytes, bytes, bytes, bytes, int) platform" where
  "scheduling_platform = sample_platform\<lparr>srv_schedule := (\<lambda>b. sample_ok (sample_scheduled\<lparr>sm_ciphertext := sb_ciphertext (sch_body b)\<rparr>))\<rparr>"

theorem scheduled_text_round_trip_witness:
  "\<exists>w' sm. scheduleMessage scheduling_platform Private ''c1'' (Some ''u2'') sample_args ''2026-01-02'' joined_world = (Inr sm, w') \<and>
     fst (scheduledDisplayText sm w') = Inr (Some (sa_text sample_args))"
proof -
  let ?m = "sample_message\<lparr>m_ciphertext := Some ''zz'', m_scheduledId := Some ''s1''\<rparr>"
  have hi: "utf8 ''hi'' = [104, 105]" by (simp add: utf8_def)
  have up: "session (e2ee_vars joined_world) = Some sample_session" by (simp add: joined_world_def running_world_def)
  obtain w' sm where run: "scheduleMessage scheduling_platform Private ''c1'' (Some ''u2'') sample_args ''2026-01-02'' joined_world = (Inr sm, w')"
    and sm: "sm_text sm = None" "truthy (sm_ciphertext sm)" "sm_id sm = ''s1''"
    and none: "held w' sample_session (msg_name ''m1'') = None"
      "held w' sample_session (ciphertextKey scheduling_platform ''zz'') = None"
    by (simp add: scheduleMessage_def scheduleRequest_def encryptPrivateText_def requireE2EESession_def encryptForChat_def
        loadState_def cacheScheduledPlaintext_def encrypted_send_def empty_body_def
        io_bind_def io_catch_def encryptMessage_def on_env_def saveState_eval Let_def utf8dec_def
        api_def scheduling_platform_def joined_world_def running_world_def sample_args_def hi sample_defs)
  have "fst (scheduledDisplayText sm w') = Inr (Some (sa_text sample_args)) \<and>
    (\<exists>w''. hydrateMessage scheduling_platform sample_session ?m w' = (Inr (shown ?m (sa_text sample_args)), w'') \<and>
      held w'' sample_session (sched_name (sm_id sm)) = None \<and>
      held w'' sample_session (msg_name (m_id ?m)) = Some (entry (stamp_of scheduling_platform (m_expiresAt ?m)) (sa_text sample_args)))"
    by (rule scheduled_text_round_trip [OF up _ run sm(1,2)]) (simp_all add: sm none sample_args_def sample_message_def)
  with run show ?thesis by blast
qed

end
