(* ===== verification/Chat_Lock.thy ===== *)
theory Chat_Lock
  imports Kisy_Prelude
begin

text \<open>
  \<open>withChatLock\<close> of \<open>entities/e2ee/chats.ts\<close>: every operation on a chat's MLS state runs as one task of a
  chain of promises kept per device and chat. A task is its position in the order of calls; \<open>lt_prev\<close> is
  the promise its \<open>then(fn, fn)\<close> is attached to. Tasks of all chats interleave freely: a task that waits
  begins at some later moment once that promise has settled, and a running one settles, either way, at
  some moment after its awaits. This is what lets the rest of the development treat an operation under
  the lock as one function.
\<close>

datatype phase = Waiting | Running | Fulfilled | Rejected

record lock_task =
  lt_key :: string
  lt_prev :: "nat option"
  lt_phase :: phase

record lock_world =
  lw_tasks :: "lock_task list"
  lw_locks :: "string \<rightharpoonup> nat"

definition withChatLock :: "string \<Rightarrow> lock_world \<Rightarrow> lock_world" where
  "withChatLock key w =
     (let prev = lw_locks w key;
          next = length (lw_tasks w)
      in w\<lparr>lw_tasks := lw_tasks w @ [\<lparr>lt_key = key, lt_prev = prev, lt_phase = Waiting\<rparr>],
           lw_locks := (lw_locks w)(key \<mapsto> next)\<rparr>)"

definition settled :: "lock_world \<Rightarrow> nat option \<Rightarrow> bool" where
  "settled w p = (case p of None \<Rightarrow> True | Some m \<Rightarrow> lt_phase (lw_tasks w ! m) \<in> {Fulfilled, Rejected})"

definition set_phase :: "nat \<Rightarrow> phase \<Rightarrow> lock_world \<Rightarrow> lock_world" where
  "set_phase n p w = w\<lparr>lw_tasks := (lw_tasks w)[n := (lw_tasks w ! n)\<lparr>lt_phase := p\<rparr>]\<rparr>"

inductive lock_step :: "lock_world \<Rightarrow> lock_world \<Rightarrow> bool" where
  call: "lock_step w (withChatLock key w)"
| begins: "n < length (lw_tasks w) \<Longrightarrow> lt_phase (lw_tasks w ! n) = Waiting \<Longrightarrow> settled w (lt_prev (lw_tasks w ! n))
    \<Longrightarrow> lock_step w (set_phase n Running w)"
| ends: "n < length (lw_tasks w) \<Longrightarrow> lt_phase (lw_tasks w ! n) = Running \<Longrightarrow> r \<in> {Fulfilled, Rejected}
    \<Longrightarrow> lock_step w (set_phase n r w)"

definition lock_start :: lock_world where
  "lock_start = \<lparr>lw_tasks = [], lw_locks = Map.empty\<rparr>"

inductive_cases lock_stepE: "lock_step w w'"

subsection \<open>The chain invariant\<close>

text \<open>The last of the first \<open>n\<close> calls on a key.\<close>

fun last_call :: "lock_task list \<Rightarrow> string \<Rightarrow> nat \<Rightarrow> nat option" where
  "last_call ts k 0 = None"
| "last_call ts k (Suc n) = (if lt_key (ts ! n) = k then Some n else last_call ts k n)"

lemma last_call_cong:
  "(\<And>i. i < n \<Longrightarrow> lt_key (ts ! i) = lt_key (ts' ! i)) \<Longrightarrow> last_call ts k n = last_call ts' k n"
  by (induction n) auto

lemma last_call_bounds: "last_call ts k n = Some m \<Longrightarrow> m < n \<and> lt_key (ts ! m) = k \<and> (\<forall>i. m < i \<and> i < n \<longrightarrow> lt_key (ts ! i) \<noteq> k)"
  by (induction n) (auto split: if_splits simp: less_Suc_eq)

lemma last_call_None: "last_call ts k n = None \<longleftrightarrow> (\<forall>i < n. lt_key (ts ! i) \<noteq> k)"
  by (induction n) (auto simp: less_Suc_eq)

definition lock_inv :: "lock_world \<Rightarrow> bool" where
  "lock_inv w \<longleftrightarrow>
     (\<forall>k. lw_locks w k = last_call (lw_tasks w) k (length (lw_tasks w))) \<and>
     (\<forall>n < length (lw_tasks w). lt_prev (lw_tasks w ! n) = last_call (lw_tasks w) (lt_key (lw_tasks w ! n)) n) \<and>
     (\<forall>n < length (lw_tasks w). lt_phase (lw_tasks w ! n) \<noteq> Waiting \<longrightarrow> settled w (lt_prev (lw_tasks w ! n)))"

lemma lock_invD:
  assumes "lock_inv w"
  shows "lw_locks w k = last_call (lw_tasks w) k (length (lw_tasks w))"
    and "n < length (lw_tasks w) \<Longrightarrow> lt_prev (lw_tasks w ! n) = last_call (lw_tasks w) (lt_key (lw_tasks w ! n)) n"
    and "n < length (lw_tasks w) \<Longrightarrow> lt_phase (lw_tasks w ! n) \<noteq> Waiting \<Longrightarrow> settled w (lt_prev (lw_tasks w ! n))"
  using assms unfolding lock_inv_def by blast+

text \<open>Setting a phase changes no key and no promise, and unsettles nothing.\<close>

lemma nth_set_phase:
  "n < length (lw_tasks w) \<Longrightarrow> lw_tasks (set_phase n p w) ! i = (if i = n then (lw_tasks w ! n)\<lparr>lt_phase := p\<rparr> else lw_tasks w ! i)"
  by (simp add: set_phase_def nth_list_update)

lemma lock_inv_phase:
  assumes "lock_inv w" and n: "n < length (lw_tasks w)"
    and "settled w (lt_prev (lw_tasks w ! n))"
    and "lt_phase (lw_tasks w ! n) \<in> {Waiting, Running}"
  shows "lock_inv (set_phase n p w)"
proof -
  let ?w = "set_phase n p w"
  have key: "lt_key (lw_tasks ?w ! i) = lt_key (lw_tasks w ! i)" and prev: "lt_prev (lw_tasks ?w ! i) = lt_prev (lw_tasks w ! i)" for i
    using n by (simp_all add: nth_set_phase)
  have len: "length (lw_tasks ?w) = length (lw_tasks w)" and locks: "lw_locks ?w = lw_locks w"
    by (simp_all add: set_phase_def)
  have last: "last_call (lw_tasks ?w) k i = last_call (lw_tasks w) k i" for k i
    by (rule last_call_cong) (simp add: key)
  have keep: "settled w q \<Longrightarrow> settled ?w q" for q
    using assms(4) n by (auto simp: settled_def nth_set_phase split: option.splits)
  show ?thesis
    unfolding lock_inv_def len locks last key prev
  proof (intro conjI allI impI)
    fix i assume "i < length (lw_tasks w)" and "lt_phase (lw_tasks ?w ! i) \<noteq> Waiting"
    then show "settled ?w (lt_prev (lw_tasks w ! i))"
      using lock_invD(3) [OF assms(1)] assms(3) n by (cases "i = n") (auto simp: nth_set_phase intro: keep)
  qed (use lock_invD [OF assms(1)] in simp_all)
qed

lemma lock_inv_call:
  assumes "lock_inv w"
  shows "lock_inv (withChatLock key w)"
proof -
  let ?w = "withChatLock key w" and ?n = "length (lw_tasks w)"
  have tasks: "lw_tasks ?w = lw_tasks w @ [\<lparr>lt_key = key, lt_prev = lw_locks w key, lt_phase = Waiting\<rparr>]"
    and locks: "lw_locks ?w = (lw_locks w)(key \<mapsto> ?n)"
    by (simp_all add: withChatLock_def Let_def)
  have last: "last_call (lw_tasks ?w) k i = last_call (lw_tasks w) k i" if "i \<le> ?n" for k i
    using that by (intro last_call_cong) (auto simp: tasks nth_append)
  have prev: "p < ?n" if "lt_prev (lw_tasks w ! i) = Some p" "i < ?n" for i p
    using that lock_invD(2) [OF assms] last_call_bounds by fastforce
  show ?thesis
    unfolding lock_inv_def
  proof (intro conjI allI impI)
    show "lw_locks ?w k = last_call (lw_tasks ?w) k (length (lw_tasks ?w))" for k
      using lock_invD(1) [OF assms, of k] last [of ?n k] by (simp add: tasks locks nth_append)
  next
    fix i assume i: "i < length (lw_tasks ?w)"
    show "lt_prev (lw_tasks ?w ! i) = last_call (lw_tasks ?w) (lt_key (lw_tasks ?w ! i)) i"
      using i lock_invD(1,2) [OF assms] last [of i] by (cases "i = ?n") (auto simp: tasks nth_append)
  next
    fix i assume i: "i < length (lw_tasks ?w)" and "lt_phase (lw_tasks ?w ! i) \<noteq> Waiting"
    then have "i < ?n" "settled w (lt_prev (lw_tasks w ! i))"
      using lock_invD(3) [OF assms, of i] by (cases "i = ?n"; auto simp: tasks nth_append)+
    with prev [of i] show "settled ?w (lt_prev (lw_tasks ?w ! i))"
      by (auto simp: settled_def tasks nth_append split: option.splits)
  qed
qed

lemma lock_inv_reachable: "lock_step\<^sup>*\<^sup>* lock_start w \<Longrightarrow> lock_inv w"
proof (induction rule: rtranclp_induct)
  case base
  show ?case by (simp add: lock_inv_def lock_start_def)
next
  case (step y z)
  from step.hyps(2) step.IH show ?case
  proof (cases rule: lock_step.cases)
    case (ends n r)
    then have "settled y (lt_prev (lw_tasks y ! n))"
      using lock_invD(3) [OF step.IH, of n] by simp
    with ends step.IH show ?thesis by (auto intro: lock_inv_phase)
  qed (auto intro: lock_inv_call lock_inv_phase)
qed

subsection \<open>What the lock gives\<close>

text \<open>Once a task has begun, every earlier task of its chat has settled.\<close>

lemma earlier_settled:
  assumes "lock_inv w" and "n < length (lw_tasks w)" and "lt_phase (lw_tasks w ! n) \<noteq> Waiting"
    and "m < n" and "lt_key (lw_tasks w ! m) = lt_key (lw_tasks w ! n)"
  shows "lt_phase (lw_tasks w ! m) \<in> {Fulfilled, Rejected}"
  using assms(2-5)
proof (induction n rule: less_induct)
  case (less n)
  let ?k = "lt_key (lw_tasks w ! n)"
  obtain p where p: "last_call (lw_tasks w) ?k n = Some p"
    using less.prems(3,4) last_call_None [of "lw_tasks w" ?k n] by (cases "last_call (lw_tasks w) ?k n") auto
  note b = last_call_bounds [OF p]
  have over: "lt_phase (lw_tasks w ! p) \<in> {Fulfilled, Rejected}"
    using lock_invD(2,3) [OF assms(1) less.prems(1)] less.prems(2) p by (simp add: settled_def)
  show ?case
  proof (cases "m = p")
    case True
    with over show ?thesis by simp
  next
    case False
    with b less.prems(3,4) have "m < p" by (metis linorder_neqE_nat)
    then show ?thesis using less.IH [of p] b over less.prems by auto
  qed
qed

lemma waiting_can_begin:
  assumes "lock_inv w" and "n < length (lw_tasks w)" and "lt_phase (lw_tasks w ! n) = Waiting"
    and "\<And>m. m < length (lw_tasks w) \<Longrightarrow> lt_key (lw_tasks w ! m) = k \<Longrightarrow> lt_phase (lw_tasks w ! m) \<noteq> Running"
    and "lt_key (lw_tasks w ! n) = k"
  shows "\<exists>m \<le> n. lt_key (lw_tasks w ! m) = k \<and> lock_step w (set_phase m Running w)"
  using assms(2,3,5)
proof (induction n rule: less_induct)
  case (less n)
  show ?case
  proof (cases "settled w (lt_prev (lw_tasks w ! n))")
    case True
    with less.prems show ?thesis by (intro exI [of _ n]) (auto intro: lock_step.begins)
  next
    case False
    then obtain p where "lt_prev (lw_tasks w ! n) = Some p" and ph: "lt_phase (lw_tasks w ! p) \<notin> {Fulfilled, Rejected}"
      by (auto simp: settled_def split: option.splits)
    then have "last_call (lw_tasks w) k n = Some p" using lock_invD(2) [OF assms(1) less.prems(1)] less.prems(3) by simp
    note b = last_call_bounds [OF this]
    with less.prems assms(4) [of p] ph have "lt_phase (lw_tasks w ! p) = Waiting"
      by (cases "lt_phase (lw_tasks w ! p)") auto
    with less.IH [of p] b less.prems obtain m where "m \<le> p" "lt_key (lw_tasks w ! m) = k" "lock_step w (set_phase m Running w)"
      by auto
    with b show ?thesis by (intro exI [of _ m]) auto
  qed
qed

text \<open>
  C6. The chat lock: in every reachable moment, of the tasks on one device and chat (1) at most one is
  running, (2) tasks begin in the order they were called, each after all earlier ones have settled,
  and (3) whenever one waits and none runs, one of them can begin, whatever happened to the earlier ones:
  a rejected operation does not block the chat.
\<close>

theorem chat_lock_serialises:
  assumes "lock_step\<^sup>*\<^sup>* lock_start w"
  shows "(\<forall>m < length (lw_tasks w). \<forall>n < length (lw_tasks w). lt_key (lw_tasks w ! m) = lt_key (lw_tasks w ! n) \<longrightarrow>
      lt_phase (lw_tasks w ! m) = Running \<longrightarrow> lt_phase (lw_tasks w ! n) = Running \<longrightarrow> m = n) \<and>
    (\<forall>n < length (lw_tasks w). \<forall>m < n. lt_key (lw_tasks w ! m) = lt_key (lw_tasks w ! n) \<longrightarrow>
      lt_phase (lw_tasks w ! n) \<noteq> Waiting \<longrightarrow> lt_phase (lw_tasks w ! m) \<in> {Fulfilled, Rejected}) \<and>
    (\<forall>n < length (lw_tasks w). lt_phase (lw_tasks w ! n) = Waiting \<longrightarrow>
      (\<exists>m < length (lw_tasks w). lt_key (lw_tasks w ! m) = lt_key (lw_tasks w ! n) \<and>
        (lt_phase (lw_tasks w ! m) = Running \<or> lock_step w (set_phase m Running w))))"
proof -
  have inv: "lock_inv w" using assms by (rule lock_inv_reachable)
  have mutex: "m = n" if "m < length (lw_tasks w)" "n < length (lw_tasks w)" "lt_key (lw_tasks w ! m) = lt_key (lw_tasks w ! n)"
    "lt_phase (lw_tasks w ! m) = Running" "lt_phase (lw_tasks w ! n) = Running" for m n
    using that earlier_settled [OF inv, of n m] earlier_settled [OF inv, of m n] by (cases m n rule: linorder_cases) auto
  have progress: "\<exists>m < length (lw_tasks w). lt_key (lw_tasks w ! m) = lt_key (lw_tasks w ! n) \<and>
      (lt_phase (lw_tasks w ! m) = Running \<or> lock_step w (set_phase m Running w))"
    if n: "n < length (lw_tasks w)" "lt_phase (lw_tasks w ! n) = Waiting" for n
  proof (rule ccontr)
    assume "\<not> ?thesis"
    then have none: "\<And>m. m < length (lw_tasks w) \<Longrightarrow> lt_key (lw_tasks w ! m) = lt_key (lw_tasks w ! n) \<Longrightarrow>
        lt_phase (lw_tasks w ! m) \<noteq> Running \<and> \<not> lock_step w (set_phase m Running w)" by blast
    then obtain m where "m \<le> n" "lt_key (lw_tasks w ! m) = lt_key (lw_tasks w ! n)" "lock_step w (set_phase m Running w)"
      using waiting_can_begin [OF inv n, of "lt_key (lw_tasks w ! n)"] by blast
    with none [of m] n show False by simp
  qed
  show ?thesis using mutex progress earlier_settled [OF inv] by blast
qed

definition lock_example :: lock_world where
  "lock_example = set_phase 1 Running (set_phase 0 Rejected (set_phase 0 Running (withChatLock ''d1/c1'' (withChatLock ''d1/c1'' lock_start))))"

lemma lock_example_reachable: "lock_step\<^sup>*\<^sup>* lock_start lock_example"
proof -
  let ?w2 = "withChatLock ''d1/c1'' (withChatLock ''d1/c1'' lock_start)"
  have "lock_step lock_start (withChatLock ''d1/c1'' lock_start)" "lock_step (withChatLock ''d1/c1'' lock_start) ?w2"
    by (rule lock_step.call)+
  moreover have "lock_step ?w2 (set_phase 0 Running ?w2)"
    by (rule lock_step.begins) (simp_all add: withChatLock_def lock_start_def settled_def)
  moreover have "lock_step (set_phase 0 Running ?w2) (set_phase 0 Rejected (set_phase 0 Running ?w2))"
    by (rule lock_step.ends) (simp_all add: withChatLock_def lock_start_def set_phase_def)
  moreover have "lock_step (set_phase 0 Rejected (set_phase 0 Running ?w2)) lock_example"
    unfolding lock_example_def
    by (rule lock_step.begins) (simp_all add: withChatLock_def lock_start_def set_phase_def settled_def)
  ultimately show ?thesis by (meson converse_rtranclp_into_rtranclp rtranclp.rtrancl_refl)
qed

theorem chat_lock_serialises_witness:
  "length (lw_tasks lock_example) = 2 \<and> lt_phase (lw_tasks lock_example ! 1) = Running \<and>
   lt_phase (lw_tasks lock_example ! 0) \<in> {Fulfilled, Rejected}"
proof -
  have "length (lw_tasks lock_example) = 2" "lt_phase (lw_tasks lock_example ! 1) = Running"
    "lt_key (lw_tasks lock_example ! 0) = lt_key (lw_tasks lock_example ! 1)"
    by (simp_all add: lock_example_def withChatLock_def lock_start_def set_phase_def)
  with chat_lock_serialises [OF lock_example_reachable] show ?thesis
    by (metis one_less_numeral_iff phase.distinct(1) semiring_norm(76) zero_less_one)
qed

end
