(* ===== verification/Http_Client.thy ===== *)
theory Http_Client
  imports Api_Envelope Json
begin

text \<open>
  The HTTP client: \<open>shared/lib/native.ts\<close> (what differs between a browser tab and the packaged app, and
  the token store) and \<open>shared/api/client.ts\<close> (one request, the exchange of an expired access token, the
  envelope of every answer).

  The browser's \<open>fetch\<close> is a parameter: it gets the request and answers a response, or \<open>None\<close> when the
  promise rejects because the server was never reached. A response's body is given by what
  \<open>JSON.parse\<close> makes of its text. TypeScript casts \<open>data\<close> to the type the caller names; \<open>payload\<close> has one
  constructor for each answer the modelled callers read, and reading a field of another answer is the
  \<open>TypeError\<close> JavaScript raises.
\<close>

subsection \<open>Runtime and storage\<close>

record native_tokens =
  accessToken :: string
  accessExpiresAt :: string
  refreshToken :: string
  refreshExpires :: string

text \<open>
  \<open>localStorage\<close>: every access throws when the store is disabled, and \<open>setItem\<close> throws when it is full.
\<close>

record local_storage =
  ls_items :: "string \<rightharpoonup> string"
  ls_disabled :: bool
  ls_full :: bool

definition ls_getItem :: "string \<Rightarrow> local_storage \<Rightarrow> js_error + string option" where
  "ls_getItem k s = (if ls_disabled s then Inl (JsError ''SecurityError'') else Inr (ls_items s k))"

definition ls_setItem :: "string \<Rightarrow> string \<Rightarrow> local_storage \<Rightarrow> js_error + local_storage" where
  "ls_setItem k v s = (if ls_disabled s then Inl (JsError ''SecurityError'')
     else if ls_full s then Inl (JsError ''QuotaExceededError'')
     else Inr (s\<lparr>ls_items := (ls_items s)(k \<mapsto> v)\<rparr>))"

definition ls_removeItem :: "string \<Rightarrow> local_storage \<Rightarrow> js_error + local_storage" where
  "ls_removeItem k s = (if ls_disabled s then Inl (JsError ''SecurityError'')
     else Inr (s\<lparr>ls_items := (ls_items s)(k := None)\<rparr>))"

text \<open>\<open>try { write } catch {}\<close>: a write that throws leaves the store as it was.\<close>

definition ls_try :: "(local_storage \<Rightarrow> js_error + local_storage) \<Rightarrow> local_storage \<Rightarrow> local_storage" where
  "ls_try write s = (case write s of Inl e \<Rightarrow> s | Inr s' \<Rightarrow> s')"

record client_cfg =
  cfg_native :: bool
  cfg_nativeOrigin :: "string option"
  cfg_apiBase :: "string option"
  cfg_lang :: string
  cfg_t :: "string \<Rightarrow> string"

definition isNative :: "client_cfg \<Rightarrow> bool" where
  "isNative C = cfg_native C"

definition apiOrigin :: "client_cfg \<Rightarrow> string" where
  "apiOrigin C =
     (if \<not> isNative C then ''''
      else case cfg_nativeOrigin C of
        None \<Rightarrow> ''''
      | Some origin \<Rightarrow> (if origin \<noteq> [] \<and> last origin = CHR ''/'' then butlast origin else origin))"

definition TOKEN_KEY :: string where
  "TOKEN_KEY = ''kisy.native.tokens''"

definition json_of_tokens :: "native_tokens \<Rightarrow> json" where
  "json_of_tokens t = JObj [(''accessToken'', JStr (accessToken t)), (''accessExpiresAt'', JStr (accessExpiresAt t)),
     (''refreshToken'', JStr (refreshToken t)), (''refreshExpires'', JStr (refreshExpires t))]"

definition str_field :: "(string \<times> json) list \<Rightarrow> string \<Rightarrow> string" where
  "str_field kvs k = (case map_of kvs k of Some (JStr s) \<Rightarrow> s | _ \<Rightarrow> '''')"

definition tokens_of_json :: "json \<Rightarrow> native_tokens" where
  "tokens_of_json j = (let kvs = (case j of JObj kvs \<Rightarrow> kvs | _ \<Rightarrow> []) in
     \<lparr>accessToken = str_field kvs ''accessToken'', accessExpiresAt = str_field kvs ''accessExpiresAt'',
      refreshToken = str_field kvs ''refreshToken'', refreshExpires = str_field kvs ''refreshExpires''\<rparr>)"

definition loadTokens :: "local_storage \<Rightarrow> native_tokens option" where
  "loadTokens s = (case ls_getItem TOKEN_KEY s of
      Inl e \<Rightarrow> None
    | Inr raw \<Rightarrow> (if truthy raw then map_option tokens_of_json (json_parse (the raw)) else None))"

definition saveTokens :: "native_tokens option \<Rightarrow> local_storage \<Rightarrow> local_storage" where
  "saveTokens t = ls_try (case t of
      Some t \<Rightarrow> ls_setItem TOKEN_KEY (stringify (json_of_tokens t))
    | None \<Rightarrow> ls_removeItem TOKEN_KEY)"

subsection \<open>Requests and answers\<close>

datatype http_method = GET | POST | PUT | PATCH | DELETE

datatype credentials = Omit | Include

datatype req_body = JsonBody json | BlobBody bytes

record req_init =
  ri_method :: http_method
  ri_body :: "req_body option"
  ri_headers :: "(string, string) jsmap"

record http_request =
  rq_url :: string
  rq_method :: http_method
  rq_credentials :: credentials
  rq_headers :: "(string, string) jsmap"
  rq_body :: "req_body option"

datatype payload =
    UserData user "quarantine option" "native_tokens option"
  | TokenData "native_tokens option"
  | OtherData string

record api_error_body =
  eb_code :: string
  eb_message :: string

record api_envelope =
  en_success :: bool
  en_data :: "payload option"
  en_error :: "api_error_body option"
  en_requestId :: "string option"

datatype http_body = Unreadable | NoBody | NotJson | JsonText api_envelope

record http_response =
  re_status :: int
  re_body :: http_body
  re_retryAfter :: "string option"

definition re_ok :: "http_response \<Rightarrow> bool" where
  "re_ok r \<longleftrightarrow> 200 \<le> re_status r \<and> re_status r \<le> 299"

text \<open>
  The client's world: its storage, the version header, the answers so far of \<open>fetch\<close> (\<open>None\<close> for a
  rejected promise) and the state of the outside.
\<close>

record 'env client =
  storage :: local_storage
  appVersionHeader :: "string option"
  fetchLog :: "(http_request \<times> http_response option) list"
  outside :: 'env

type_synonym 'env fetch = "http_request \<Rightarrow> 'env \<Rightarrow> http_response option \<times> 'env"

definition setAppVersionHeader :: "string option \<Rightarrow> ('env, 'z) client_scheme \<Rightarrow> ('env, 'z) client_scheme" where
  "setAppVersionHeader v w = w\<lparr>appVersionHeader := v\<rparr>"

definition nativeAuthHeaders :: "client_cfg \<Rightarrow> ('env, 'z) client_scheme \<Rightarrow> (string, string) jsmap" where
  "nativeAuthHeaders C w =
     (if \<not> isNative C then []
      else [(''X-Kisy-Client'', ''native'')]
        @ (if truthy (appVersionHeader w) then [(''X-Kisy-App-Version'', the (appVersionHeader w))] else [])
        @ (case loadTokens (storage w) of
             Some t \<Rightarrow> (if accessToken t \<noteq> '''' then [(''Authorization'', ''Bearer '' @ accessToken t)] else [])
           | None \<Rightarrow> []))"

definition DELETED_ACCOUNT_NAME :: string where
  "DELETED_ACCOUNT_NAME = map char_of [0xD0, 0xA3, 0xD0, 0xB4, 0xD0, 0xB0, 0xD0, 0xBB, 0xD1, 0x91, 0xD0, 0xBD, 0xD0, 0xBD,
     0xD1, 0x8B, 0xD0, 0xB9, 0x20, 0xD0, 0xB0, 0xD0, 0xBA, 0xD0, 0xBA, 0xD0, 0xB0, 0xD1, 0x83, 0xD0, 0xBD, 0xD1, 0x82 :: nat]"

definition localizeDeletedNames :: "client_cfg \<Rightarrow> string \<Rightarrow> string" where
  "localizeDeletedNames C value = (if value = DELETED_ACCOUNT_NAME then cfg_t C ''common.deletedAccount'' else value)"

text \<open>\<open>JSON.parse\<close> applies its reviver to every string value of the answer.\<close>

definition revive_user :: "(string \<Rightarrow> string) \<Rightarrow> user \<Rightarrow> user" where
  "revive_user f u = u\<lparr>u_id := f (u_id u), u_username := f (u_username u), u_displayName := f (u_displayName u),
     u_avatarUrl := map_option f (u_avatarUrl u), u_lastSeen := map_option f (u_lastSeen u),
     u_createdAt := f (u_createdAt u), u_verifiedAt := map_option f (u_verifiedAt u)\<rparr>"

definition revive_tokens :: "(string \<Rightarrow> string) \<Rightarrow> native_tokens \<Rightarrow> native_tokens" where
  "revive_tokens f t = \<lparr>accessToken = f (accessToken t), accessExpiresAt = f (accessExpiresAt t),
     refreshToken = f (refreshToken t), refreshExpires = f (refreshExpires t)\<rparr>"

fun revive :: "(string \<Rightarrow> string) \<Rightarrow> payload \<Rightarrow> payload" where
  "revive f (UserData u q t) = UserData (revive_user f u) (map_option (q_until_update f) q) (map_option (revive_tokens f) t)"
| "revive f (TokenData t) = TokenData (map_option (revive_tokens f) t)"
| "revive f (OtherData s) = OtherData (f s)"

definition revive_envelope :: "(string \<Rightarrow> string) \<Rightarrow> api_envelope \<Rightarrow> api_envelope" where
  "revive_envelope f e = e\<lparr>en_data := map_option (revive f) (en_data e),
     en_error := map_option (\<lambda>b. \<lparr>eb_code = f (eb_code b), eb_message = f (eb_message b)\<rparr>) (en_error e),
     en_requestId := map_option f (en_requestId e)\<rparr>"

subsection \<open>One request\<close>

type_synonym ('env, 'z, 'a) http = "(('env, 'z) client_scheme, js_error, 'a) io"

definition http_fetch :: "'env fetch \<Rightarrow> http_request \<Rightarrow> ('env, 'z, http_response) http" where
  "http_fetch F rq w = (case F rq (outside w) of (answer, env') \<Rightarrow>
     (case answer of None \<Rightarrow> Inl (JsError ''Failed to fetch'') | Some r \<Rightarrow> Inr r,
      w\<lparr>fetchLog := fetchLog w @ [(rq, answer)], outside := env'\<rparr>))"

definition API_BASE_URL :: "client_cfg \<Rightarrow> string" where
  "API_BASE_URL C = (case cfg_apiBase C of Some b \<Rightarrow> b | None \<Rightarrow> ''/api/v1'')"

definition base_headers :: "client_cfg \<Rightarrow> ('env, 'z) client_scheme \<Rightarrow> (string, string) jsmap" where
  "base_headers C w = fold (\<lambda>(k, v). AList.update k v) (nativeAuthHeaders C w)
     [(''Content-Type'', ''application/json''), (''X-Kisy-Lang'', cfg_lang C)]"

datatype refresh_outcome = RefreshOk | Rejected | Unreachable

definition refreshRequest :: "client_cfg \<Rightarrow> ('env, 'z) client_scheme \<Rightarrow> http_request" where
  "refreshRequest C w = \<lparr>rq_url = apiOrigin C @ API_BASE_URL C @ ''/auth/refresh'', rq_method = POST,
     rq_credentials = (if isNative C then Omit else Include),
     rq_headers = base_headers C w,
     rq_body = (if isNative C
       then Some (JsonBody (JObj [(''refreshToken'',
              JStr (case loadTokens (storage w) of Some t \<Rightarrow> refreshToken t | None \<Rightarrow> ''''))]))
       else None)\<rparr>"

text \<open>
  What becomes of the exchange's answer. \<open>envelope.data?.tokens\<close> of an answer of another shape is
  \<open>undefined\<close>.
\<close>

fun payload_tokens :: "payload \<Rightarrow> native_tokens option" where
  "payload_tokens (UserData u q t) = t"
| "payload_tokens (TokenData t) = t"
| "payload_tokens (OtherData s) = None"

definition envelope_tokens :: "api_envelope \<Rightarrow> native_tokens option" where
  "envelope_tokens e = Option.bind (en_data e) payload_tokens"

definition refreshAnswer :: "client_cfg \<Rightarrow> http_response \<Rightarrow> local_storage \<Rightarrow> refresh_outcome \<times> local_storage" where
  "refreshAnswer C r s =
     (if re_status r \<ge> 500 then (Unreachable, s)
      else if \<not> re_ok r then (Rejected, if isNative C then saveTokens None s else s)
      else case re_body r of
        JsonText e \<Rightarrow> (RefreshOk, case envelope_tokens e of Some t \<Rightarrow> saveTokens (Some t) s | None \<Rightarrow> s)
      | _ \<Rightarrow> (Unreachable, s))"

definition refreshSession :: "client_cfg \<Rightarrow> 'env fetch \<Rightarrow> ('env, 'z, refresh_outcome) http" where
  "refreshSession C F w = io_catch (io_bind (http_fetch F (refreshRequest C w)) (\<lambda>r w.
       case refreshAnswer C r (storage w) of (out, s) \<Rightarrow> (Inr out, w\<lparr>storage := s\<rparr>)))
     (\<lambda>_. io_ret Unreachable) w"

definition requestOf :: "client_cfg \<Rightarrow> string \<Rightarrow> req_init \<Rightarrow> ('env, 'z) client_scheme \<Rightarrow> http_request" where
  "requestOf C path init w = \<lparr>rq_url = apiOrigin C @ API_BASE_URL C @ path, rq_method = ri_method init,
     rq_credentials = (if isNative C then Omit else Include),
     rq_headers = fold (\<lambda>(k, v). AList.update k v) (ri_headers init) (base_headers C w),
     rq_body = ri_body init\<rparr>"

text \<open>\<open>Number(header) || 0\<close>: an absent or unreadable header counts as no wait.\<close>

definition retry_after :: "string option \<Rightarrow> int" where
  "retry_after h = (case h of None \<Rightarrow> 0 | Some s \<Rightarrow> (case js_number s of Some n \<Rightarrow> n | None \<Rightarrow> 0))"

definition readEnvelope :: "client_cfg \<Rightarrow> http_response \<Rightarrow> js_error + payload option" where
  "readEnvelope C r =
     (case re_body r of
        Unreadable \<Rightarrow> Inl (JsError ''TypeError'')
      | NotJson \<Rightarrow> Inl (JsError ''SyntaxError'')
      | body \<Rightarrow>
          let envelope = (case body of
                JsonText e \<Rightarrow> (if cfg_lang C = ''ru'' then e else revive_envelope (localizeDeletedNames C) e)
              | _ \<Rightarrow> \<lparr>en_success = re_ok r, en_data = None, en_error = None, en_requestId = None\<rparr>) in
          if \<not> en_success envelope \<or> \<not> re_ok r
          then Inl (ApiErr \<lparr>ae_code = (case en_error envelope of Some e \<Rightarrow> eb_code e | None \<Rightarrow> ''INTERNAL_ERROR''),
                 ae_message = (case en_error envelope of Some e \<Rightarrow> eb_message e | None \<Rightarrow> ''Unexpected error''),
                 ae_requestId = (case en_requestId envelope of Some i \<Rightarrow> i | None \<Rightarrow> ''''),
                 ae_status = re_status r, ae_retryAfter = retry_after (re_retryAfter r)\<rparr>)
          else Inr (en_data envelope))"

function request :: "client_cfg \<Rightarrow> 'env fetch \<Rightarrow> string \<Rightarrow> req_init \<Rightarrow> bool \<Rightarrow> ('env, 'z, payload option) http" where
  "request C F path init allowRefresh =
     io_bind (\<lambda>w. http_fetch F (requestOf C path init w) w) (\<lambda>response.
       if re_status response = 401 \<and> allowRefresh \<and> \<not> prefix ''/auth/'' path
       then io_bind (refreshSession C F) (\<lambda>outcome. case outcome of
              RefreshOk \<Rightarrow> request C F path init False
            | Unreachable \<Rightarrow> io_throw (ApiErr \<lparr>ae_code = ''NETWORK_ERROR'', ae_message = cfg_t C ''common.session.refreshFailed'',
                ae_requestId = '''', ae_status = 0, ae_retryAfter = 0\<rparr>)
            | Rejected \<Rightarrow> io_of (readEnvelope C response))
       else io_of (readEnvelope C response))"
  by pat_completeness auto

termination request
  by (relation "measure (\<lambda>(C, F, path, init, allow). if allow then 1 else 0)") auto

declare request.simps [simp del]

definition body_of :: "json option \<Rightarrow> req_body option" where
  "body_of b = map_option JsonBody b"

definition api_get :: "client_cfg \<Rightarrow> 'env fetch \<Rightarrow> string \<Rightarrow> ('env, 'z, payload option) http" where
  "api_get C F path = request C F path \<lparr>ri_method = GET, ri_body = None, ri_headers = []\<rparr> True"

definition api_post :: "client_cfg \<Rightarrow> 'env fetch \<Rightarrow> string \<Rightarrow> json option \<Rightarrow> ('env, 'z, payload option) http" where
  "api_post C F path b = request C F path \<lparr>ri_method = POST, ri_body = body_of b, ri_headers = []\<rparr> True"

definition api_put :: "client_cfg \<Rightarrow> 'env fetch \<Rightarrow> string \<Rightarrow> json option \<Rightarrow> ('env, 'z, payload option) http" where
  "api_put C F path b = request C F path \<lparr>ri_method = PUT, ri_body = body_of b, ri_headers = []\<rparr> True"

definition api_patch :: "client_cfg \<Rightarrow> 'env fetch \<Rightarrow> string \<Rightarrow> json option \<Rightarrow> ('env, 'z, payload option) http" where
  "api_patch C F path b = request C F path \<lparr>ri_method = PATCH, ri_body = body_of b, ri_headers = []\<rparr> True"

definition api_del :: "client_cfg \<Rightarrow> 'env fetch \<Rightarrow> string \<Rightarrow> json option \<Rightarrow> ('env, 'z, payload option) http" where
  "api_del C F path b = request C F path \<lparr>ri_method = DELETE, ri_body = body_of b, ri_headers = []\<rparr> True"

definition api_postBlob :: "client_cfg \<Rightarrow> 'env fetch \<Rightarrow> string \<Rightarrow> string \<Rightarrow> bytes \<Rightarrow> ('env, 'z, payload option) http" where
  "api_postBlob C F path type blob = request C F path
     \<lparr>ri_method = POST, ri_body = Some (BlobBody blob), ri_headers = [(''Content-Type'', type)]\<rparr> True"

definition api_putBlob :: "client_cfg \<Rightarrow> 'env fetch \<Rightarrow> string \<Rightarrow> bytes \<Rightarrow> ('env, 'z, payload option) http" where
  "api_putBlob C F path blob = request C F path
     \<lparr>ri_method = PUT, ri_body = Some (BlobBody blob), ri_headers = [(''Content-Type'', ''application/octet-stream'')]\<rparr> True"


subsection \<open>The token store\<close>

lemma tokens_json [simp]: "tokens_of_json (json_of_tokens t) = t"
  by (simp add: tokens_of_json_def json_of_tokens_def str_field_def)

lemma stringify_nonempty [simp]: "stringify v \<noteq> []"
  using stringify_hd by blast

lemma load_save_tokens:
  assumes "\<not> ls_disabled s" and "\<not> ls_full s"
  shows "loadTokens (saveTokens (Some t) s) = Some t"
  using assms by (simp add: loadTokens_def saveTokens_def ls_try_def ls_setItem_def ls_getItem_def)

lemma load_cleared_tokens: "loadTokens (saveTokens None s) = None \<or> ls_disabled s"
  by (simp add: loadTokens_def saveTokens_def ls_try_def ls_removeItem_def ls_getItem_def)

text \<open>A store that refuses to be written keeps what it has: nothing thrown reaches the caller.\<close>

lemma saveTokens_refused: "ls_disabled s \<Longrightarrow> saveTokens t s = s"
  "ls_full s \<Longrightarrow> saveTokens (Some t') s = s"
  by (cases t; simp add: saveTokens_def ls_try_def ls_setItem_def ls_removeItem_def)+

subsection \<open>What a request does\<close>

lemma http_fetch_E:
  assumes "http_fetch F rq w = (r, w')"
  obtains answer where "fetchLog w' = fetchLog w @ [(rq, answer)]" and "storage w' = storage w"
    and "appVersionHeader w' = appVersionHeader w"
    and "r = (case answer of None \<Rightarrow> Inl (JsError ''Failed to fetch'') | Some x \<Rightarrow> Inr x)"
    and "client.more w' = client.more w"
  using assms by (auto simp: http_fetch_def split: prod.splits)

lemma refreshSession_E:
  assumes "refreshSession C F w = (r, w')"
  obtains (lost) "r = Inr Unreachable" and "fetchLog w' = fetchLog w @ [(refreshRequest C w, None)]"
      and "storage w' = storage w" and "client.more w' = client.more w"
  | (answered) x out where "r = Inr out" and "fetchLog w' = fetchLog w @ [(refreshRequest C w, Some x)]"
      and "refreshAnswer C x (storage w) = (out, storage w')" and "client.more w' = client.more w"
proof -
  obtain q v where f: "http_fetch F (refreshRequest C w) w = (q, v)" by fastforce
  from http_fetch_E [OF this] obtain answer where v: "fetchLog v = fetchLog w @ [(refreshRequest C w, answer)]"
    "storage v = storage w" "q = (case answer of None \<Rightarrow> Inl (JsError ''Failed to fetch'') | Some x \<Rightarrow> Inr x)"
    "client.more v = client.more w"
    by metis
  show thesis
  proof (cases answer)
    case None
    with assms f v show thesis
      by (intro lost) (auto simp: refreshSession_def io_catch_def io_bind_def)
  next
    case (Some x)
    with assms f v show thesis
      by (cases "refreshAnswer C x (storage w)")
        (auto simp: refreshSession_def io_catch_def io_bind_def intro: answered)
  qed
qed

text \<open>The three ways a request can go: answered, stopped at the renewal, renewed and replayed.\<close>

lemma request_unrenewed:
  assumes "\<not> (allow \<and> \<not> prefix ''/auth/'' path)"
  shows "\<exists>a. fetchLog (snd (request C F path init allow w)) = fetchLog w @ [(requestOf C path init w, a)] \<and>
    storage (snd (request C F path init allow w)) = storage w"
proof -
  obtain q v where f: "http_fetch F (requestOf C path init w) w = (q, v)" by fastforce
  from http_fetch_E [OF this] obtain a where "fetchLog v = fetchLog w @ [(requestOf C path init w, a)]" "storage v = storage w"
    by metis
  with f assms show ?thesis
    by (cases q) (auto simp: request.simps io_bind_def)
qed

lemma request_cases:
  fixes w :: "('env, 'z) client_scheme"
  assumes "request C F path init True w = (r, w')"
  obtains (answered) a where "fetchLog w' = fetchLog w @ [(requestOf C path init w, a)]" and "storage w' = storage w"
      and "r = (case a of None \<Rightarrow> Inl (JsError ''Failed to fetch'') | Some x \<Rightarrow> readEnvelope C x)"
      and "\<And>x. a = Some x \<Longrightarrow> re_status x = 401 \<Longrightarrow> prefix ''/auth/'' path"
  | (stopped) x a and v :: "('env, 'z) client_scheme" where "re_status x = 401" and "\<not> prefix ''/auth/'' path" and "storage v = storage w"
      and "fetchLog w' = fetchLog w @ [(requestOf C path init w, Some x), (refreshRequest C v, a)]"
      and "case a of None \<Rightarrow> storage w' = storage w \<and> (\<exists>e. r = Inl (ApiErr e) \<and> ae_status e = 0)
        | Some y \<Rightarrow> (refreshAnswer C y (storage w) = (Unreachable, storage w') \<and> (\<exists>e. r = Inl (ApiErr e) \<and> ae_status e = 0))
            \<or> refreshAnswer C y (storage w) = (Rejected, storage w') \<and> r = readEnvelope C x"
  | (replayed) x y a and v u :: "('env, 'z) client_scheme" where "re_status x = 401" and "\<not> prefix ''/auth/'' path" and "storage v = storage w"
      and "fetchLog w' = fetchLog w @ [(requestOf C path init w, Some x), (refreshRequest C v, Some y), (requestOf C path init u, a)]"
      and "refreshAnswer C y (storage w) = (RefreshOk, storage w')" and "storage u = storage w'"
      and "r = (case a of None \<Rightarrow> Inl (JsError ''Failed to fetch'') | Some x \<Rightarrow> readEnvelope C x)"
proof -
  obtain q v where f: "http_fetch F (requestOf C path init w) w = (q, v)" by fastforce
  from http_fetch_E [OF this] obtain a where v: "fetchLog v = fetchLog w @ [(requestOf C path init w, a)]" "storage v = storage w"
    "q = (case a of None \<Rightarrow> Inl (JsError ''Failed to fetch'') | Some x \<Rightarrow> Inr x)"
    by metis
  show thesis
  proof (cases "\<exists>x. a = Some x \<and> re_status x = 401 \<and> \<not> prefix ''/auth/'' path")
    case False
    with assms f v show thesis
      by (intro answered [of a]) (cases a; auto simp: request.simps io_bind_def split: if_splits)+
  next
    case True
    then obtain x where x: "a = Some x" "re_status x = 401" "\<not> prefix ''/auth/'' path" by blast
    obtain o1 z where rf: "refreshSession C F v = (o1, z)" by fastforce
    from this show thesis
    proof (cases rule: refreshSession_E)
      case lost
      with x v f rf assms show thesis
        by (intro stopped [of x v None]) (auto simp: request.simps [of C F path init True] io_bind_def)
    next
      case (answered y out)
      show thesis
      proof (cases out)
        case RefreshOk
        obtain q3 w3 where g: "http_fetch F (requestOf C path init z) z = (q3, w3)" by fastforce
        from http_fetch_E [OF this] obtain a3 where w3: "fetchLog w3 = fetchLog z @ [(requestOf C path init z, a3)]"
          "storage w3 = storage z" "q3 = (case a3 of None \<Rightarrow> Inl (JsError ''Failed to fetch'') | Some x \<Rightarrow> Inr x)"
          by metis
        have run: "request C F path init True w = request C F path init False z"
          using x v f rf answered(1) RefreshOk by (simp add: request.simps [of C F path init True] io_bind_def)
        then have "w' = w3" "r = (case a3 of None \<Rightarrow> Inl (JsError ''Failed to fetch'') | Some x \<Rightarrow> readEnvelope C x)"
          using assms g w3(3) by (cases a3; simp add: request.simps [of C F path init False] io_bind_def)+
        with x v w3 answered RefreshOk show thesis by (intro replayed [of x v y z a3]) auto
      next
        case Rejected
        with x v f rf assms answered show thesis
          by (intro stopped [of x v "Some y"]) (auto simp: request.simps [of C F path init True] io_bind_def)
      next
        case Unreachable
        with x v f rf assms answered show thesis
          by (intro stopped [of x v "Some y"]) (auto simp: request.simps [of C F path init True] io_bind_def)
      qed
    qed
  qed
qed


definition refreshUrl :: "client_cfg \<Rightarrow> string" where
  "refreshUrl C = apiOrigin C @ API_BASE_URL C @ ''/auth/refresh''"

lemma refreshRequest_url [simp]: "rq_url (refreshRequest C w) = refreshUrl C"
  by (simp add: refreshRequest_def refreshUrl_def)

lemma requestOf_same [simp]:
  "rq_url (requestOf C path init w) = apiOrigin C @ API_BASE_URL C @ path"
  "rq_method (requestOf C path init w) = ri_method init" "rq_body (requestOf C path init w) = ri_body init"
  by (simp_all add: requestOf_def)

lemma refreshAnswer_ok: "refreshAnswer C y s = (RefreshOk, s') \<Longrightarrow> re_ok y \<and> re_status y < 500"
  by (auto simp: refreshAnswer_def re_ok_def split: if_splits http_body.splits option.splits)

lemma refreshAnswer_storage: "refreshAnswer C y s = (out, s') \<Longrightarrow> s' \<noteq> s \<Longrightarrow> re_status y < 500"
  by (auto simp: refreshAnswer_def split: if_splits)

lemma refreshAnswer_drops:
  assumes "refreshAnswer C y s = (out, s')" and "loadTokens s \<noteq> None" and "loadTokens s' = None"
  shows "isNative C \<and> re_status y < 500 \<and> \<not> re_ok y"
proof -
  have kept: "loadTokens (saveTokens (Some t) s) \<noteq> None" for t
    using assms(2) load_save_tokens [of s t] saveTokens_refused by (metis option.distinct(1))
  show ?thesis
    using assms kept by (auto simp del: not_None_eq simp: refreshAnswer_def split: if_splits http_body.splits option.splits)
qed

text \<open>
  C20. A request costs at most three exchanges with the server. It is sent; only an answer 401 to a path
  outside \<open>/auth/\<close> is followed by one exchange of the refresh token; and only when that exchange succeeded
  is the request replayed, once, with the same address, method and body.
\<close>

theorem request_renews_at_most_once:
  "\<exists>l. fetchLog (snd (request C F path init True w)) = fetchLog w @ l \<and>
     ((\<exists>a. l = [(requestOf C path init w, a)]) \<or>
      (\<exists>x q a. l = [(requestOf C path init w, Some x), (q, a)] \<and> re_status x = 401 \<and>
         \<not> prefix ''/auth/'' path \<and> rq_url q = refreshUrl C) \<or>
      (\<exists>x q y p a. l = [(requestOf C path init w, Some x), (q, Some y), (p, a)] \<and> re_status x = 401 \<and>
         \<not> prefix ''/auth/'' path \<and> rq_url q = refreshUrl C \<and> re_ok y \<and>
         rq_url p = apiOrigin C @ API_BASE_URL C @ path \<and> rq_method p = ri_method init \<and> rq_body p = ri_body init))"
proof -
  obtain r w' where "request C F path init True w = (r, w')" by fastforce
  then show ?thesis
  proof (cases rule: request_cases)
    case (stopped x a v)
    then show ?thesis using \<open>request C F path init True w = (r, w')\<close> by auto
  next
    case (replayed x y a v u)
    then show ?thesis using \<open>request C F path init True w = (r, w')\<close> refreshAnswer_ok [OF replayed(5)] by auto
  qed (use \<open>request C F path init True w = (r, w')\<close> in simp)
qed


definition sample_cfg :: client_cfg where
  "sample_cfg = \<lparr>cfg_native = True, cfg_nativeOrigin = Some ''https://kisy/'', cfg_apiBase = None, cfg_lang = ''ru'',
     cfg_t = (\<lambda>k. k)\<rparr>"

definition sample_tokens :: "string \<Rightarrow> native_tokens" where
  "sample_tokens s = \<lparr>accessToken = ''a'' @ s, accessExpiresAt = ''t'', refreshToken = ''r'' @ s, refreshExpires = ''t''\<rparr>"

definition sample_client :: "nat client" where
  "sample_client = \<lparr>storage = \<lparr>ls_items = [TOKEN_KEY \<mapsto> stringify (json_of_tokens (sample_tokens ''1''))],
     ls_disabled = False, ls_full = False\<rparr>, appVersionHeader = None, fetchLog = [], outside = 0\<rparr>"

text \<open>A server that answers with the given statuses in turn, the second time with new tokens.\<close>

definition scripted_fetch :: "int list \<Rightarrow> nat fetch" where
  "scripted_fetch statuses rq n = (Some \<lparr>re_status = statuses ! n,
     re_body = JsonText \<lparr>en_success = True, en_data = Some (TokenData (Some (sample_tokens ''2''))), en_error = None,
       en_requestId = None\<rparr>, re_retryAfter = None\<rparr>, Suc n)"

lemma sample_client_tokens: "loadTokens (storage sample_client) = Some (sample_tokens ''1'')"
  by (simp add: loadTokens_def ls_getItem_def sample_client_def)

lemmas request_eval = request.simps [of _ _ _ _ True] request.simps [of _ _ _ _ False] io_bind_def io_catch_def
  http_fetch_def refreshSession_def refreshAnswer_def re_ok_def


text \<open>Object spread: later headers win.\<close>

lemma spread_headers: "map_of (fold (\<lambda>(k, v). AList.update k v) xs m) = map_of m ++ map_of (rev xs)"
proof (induction xs arbitrary: m)
  case (Cons x xs)
  then show ?case by (cases x) (auto simp: map_add_def split: option.splits)
qed simp

text \<open>
  In the app, the replay carries the renewed token: when the exchange brings new tokens and the
  store takes them, the replayed request is authorised by the new access token and the tokens stay
  stored for the requests after it.
\<close>

theorem replay_carries_new_token:
  fixes w :: "('env, 'z) client_scheme"
  assumes "isNative C" and "\<not> ls_disabled (storage w)" and "\<not> ls_full (storage w)"
    and "request C F path init True w = (r, w')"
    and "fetchLog w' = fetchLog w @ [(q1, a1), (q2, Some y), (q3, a3)]"
    and "re_body y = JsonText e" and "envelope_tokens e = Some t" and "accessToken t \<noteq> ''''"
    and "map_of (ri_headers init) ''Authorization'' = None"
  shows "map_of (rq_headers q3) ''Authorization'' = Some (''Bearer '' @ accessToken t) \<and> loadTokens (storage w') = Some t"
proof -
  from assms(4) obtain u :: "('env, 'z) client_scheme" where u: "requestOf C path init u = q3" "storage u = storage w'"
    "refreshAnswer C y (storage w) = (RefreshOk, storage w')"
    using assms(5) by (cases rule: request_cases) auto
  from u(3) assms have "storage w' = saveTokens (Some t) (storage w)"
    by (auto simp: refreshAnswer_def split: if_splits)
  then have loaded: "loadTokens (storage w') = Some t" using load_save_tokens assms(2,3) by simp
  then have "map_of (rev (nativeAuthHeaders C u)) ''Authorization'' = Some (''Bearer '' @ accessToken t)"
    using assms u by (auto simp: nativeAuthHeaders_def)
  moreover have "map_of (rev (ri_headers init)) ''Authorization'' = None"
    using assms(9) by (simp add: map_of_eq_None_iff)
  ultimately have "map_of (rq_headers (requestOf C path init u)) ''Authorization'' = Some (''Bearer '' @ accessToken t)"
    by (simp add: requestOf_def base_headers_def spread_headers map_add_def)
  with u loaded show ?thesis by simp
qed

theorem replay_carries_new_token_witness:
  "\<exists>q1 a1 q2 y q3 a3 w'. snd (request sample_cfg (scripted_fetch [401, 200, 200]) ''/users/me''
       \<lparr>ri_method = GET, ri_body = None, ri_headers = []\<rparr> True sample_client) = w' \<and>
     fetchLog w' = [(q1, a1), (q2, Some y), (q3, a3)] \<and>
     map_of (rq_headers q3) ''Authorization'' = Some ''Bearer a2'' \<and> loadTokens (storage w') = Some (sample_tokens ''2'')"
proof -
  let ?init = "\<lparr>ri_method = GET, ri_body = None, ri_headers = []\<rparr>"
  let ?e = "\<lparr>en_success = True, en_data = Some (TokenData (Some (sample_tokens ''2''))), en_error = None, en_requestId = None\<rparr>"
  obtain r w' where run: "request sample_cfg (scripted_fetch [401, 200, 200]) ''/users/me'' ?init True sample_client = (r, w')"
    by fastforce
  then obtain q1 a1 q2 y q3 a3 where log: "fetchLog w' = fetchLog sample_client @ [(q1, a1), (q2, Some y), (q3, a3)]"
    and y: "re_body y = JsonText ?e"
    by (auto simp: request_eval scripted_fetch_def sample_client_def)
  have t: "envelope_tokens ?e = Some (sample_tokens ''2'')" by (simp add: envelope_tokens_def)
  have n: "isNative sample_cfg" "\<not> ls_disabled (storage sample_client)" "\<not> ls_full (storage sample_client)"
    by (simp_all add: isNative_def sample_cfg_def sample_client_def)
  from replay_carries_new_token [OF n run log y t] run log show ?thesis
    by (auto simp: sample_client_def sample_tokens_def)
qed


subsection \<open>Concurrent renewals\<close>

text \<open>
  \<open>refreshInFlight ??= (async () => ...)()\<close> over all interleavings: a caller that finds no exchange under
  way starts one, any other awaits the promise it finds; the exchange settles at some later moment and
  its \<open>finally\<close> clears the variable. \<open>fl_open\<close> are the exchanges on the wire.
\<close>

record flight =
  fl_refreshInFlight :: "nat option"
  fl_open :: "nat list"
  fl_started :: nat
  fl_waiting :: "(nat \<times> nat) list"
  fl_answers :: "(nat \<times> refresh_outcome) list"

definition refreshSession_call :: "nat \<Rightarrow> flight \<Rightarrow> flight" where
  "refreshSession_call caller s = (case fl_refreshInFlight s of
      Some p \<Rightarrow> s\<lparr>fl_waiting := fl_waiting s @ [(caller, p)]\<rparr>
    | None \<Rightarrow> let p = fl_started s in
        s\<lparr>fl_refreshInFlight := Some p, fl_open := p # fl_open s, fl_started := p + 1,
          fl_waiting := fl_waiting s @ [(caller, p)]\<rparr>)"

definition refreshSession_settle :: "nat \<Rightarrow> refresh_outcome \<Rightarrow> flight \<Rightarrow> flight" where
  "refreshSession_settle p out s = s\<lparr>fl_refreshInFlight := None, fl_open := removeAll p (fl_open s),
     fl_waiting := filter (\<lambda>(c, q). q \<noteq> p) (fl_waiting s),
     fl_answers := fl_answers s @ map (\<lambda>(c, q). (c, out)) (filter (\<lambda>(c, q). q = p) (fl_waiting s))\<rparr>"

inductive flight_step :: "flight \<Rightarrow> flight \<Rightarrow> bool" where
  calls: "flight_step s (refreshSession_call c s)"
| settles: "p \<in> set (fl_open s) \<Longrightarrow> flight_step s (refreshSession_settle p out s)"

definition flight_start :: flight where
  "flight_start = \<lparr>fl_refreshInFlight = None, fl_open = [], fl_started = 0, fl_waiting = [], fl_answers = []\<rparr>"

definition flight_inv :: "flight \<Rightarrow> bool" where
  "flight_inv s \<longleftrightarrow> fl_open s = (case fl_refreshInFlight s of None \<Rightarrow> [] | Some p \<Rightarrow> [p]) \<and>
     list_all (\<lambda>(c, p). fl_refreshInFlight s = Some p) (fl_waiting s)"

lemma flight_inv_reachable: "flight_step\<^sup>*\<^sup>* flight_start s \<Longrightarrow> flight_inv s"
proof (induction rule: rtranclp_induct)
  case base
  show ?case by (simp add: flight_inv_def flight_start_def)
next
  case (step s t)
  from step.hyps(2) step.IH show ?case
    by cases (auto simp: flight_inv_def refreshSession_call_def refreshSession_settle_def Let_def list_all_iff
        split: option.splits)
qed

text \<open>
  C19. However many requests meet an expired token at once, at most one exchange of the refresh token is
  on the wire, everyone waiting waits for that one, and when it settles each of them is answered with its
  outcome and a later caller starts afresh.
\<close>

theorem refresh_single_flight:
  assumes "flight_step\<^sup>*\<^sup>* flight_start s"
  shows "length (fl_open s) \<le> 1 \<and>
    (fl_open s = [p] \<longrightarrow>
      fl_answers (refreshSession_settle p out s) = fl_answers s @ map (\<lambda>(c, q). (c, out)) (fl_waiting s) \<and>
      fl_waiting (refreshSession_settle p out s) = [] \<and> fl_refreshInFlight (refreshSession_settle p out s) = None)"
proof -
  have inv: "flight_inv s" using assms by (rule flight_inv_reachable)
  then have "length (fl_open s) \<le> 1" by (auto simp: flight_inv_def split: option.splits)
  moreover have "filter (\<lambda>(c, q). q = p) (fl_waiting s) = fl_waiting s" "filter (\<lambda>(c, q). q \<noteq> p) (fl_waiting s) = []"
    if "fl_open s = [p]"
    using inv that by (auto simp: flight_inv_def list_all_iff filter_empty_conv intro!: filter_True split: option.splits)
  ultimately show ?thesis by (simp add: refreshSession_settle_def)
qed

theorem refresh_single_flight_witness:
  "fl_open (refreshSession_call 8 (refreshSession_call 7 flight_start)) = [0] \<and>
   fl_answers (refreshSession_settle 0 RefreshOk (refreshSession_call 8 (refreshSession_call 7 flight_start))) =
     [(7, RefreshOk), (8, RefreshOk)]"
proof -
  let ?s = "refreshSession_call 8 (refreshSession_call 7 flight_start)"
  have "flight_step\<^sup>*\<^sup>* flight_start ?s"
    by (meson flight_step.calls rtranclp.rtrancl_into_rtrancl rtranclp.rtrancl_refl)
  from refresh_single_flight [OF this, of 0 RefreshOk] show ?thesis
    by (simp add: refreshSession_call_def flight_start_def Let_def)
qed


subsection \<open>What requests leave alone\<close>

lemma kept_more_request [intro!]:
  "kept client.more (request C (F :: 'env fetch) path init allow :: ('env, 'z, payload option) http)"
proof -
  have fetch: "kept client.more (\<lambda>w. http_fetch F (rq w) w)" for rq :: "('env, 'z) client_scheme \<Rightarrow> http_request"
    by (rule keeps_frame.framedI) (auto simp: keeps_def elim!: http_fetch_E)
  have refresh: "kept client.more (refreshSession C F :: ('env, 'z, refresh_outcome) http)"
    by (rule keeps_frame.framedI) (auto simp: keeps_def elim!: refreshSession_E)
  have last: "kept client.more (request C F path init False :: ('env, 'z, payload option) http)"
    by (subst request.simps) (auto simp del: io_eval intro!: fetch)
  show ?thesis
  proof (cases allow)
    case True
    show ?thesis unfolding True
      by (subst request.simps) (auto simp del: io_eval intro!: fetch refresh last split: refresh_outcome.split)
  qed (use last in simp)
qed

lemmas api_defs = api_get_def api_post_def api_put_def api_patch_def api_del_def api_postBlob_def api_putBlob_def

lemma request_more [simp]: "client.more (snd (request C F path init allow w)) = client.more w"
  using keeps_frame.framed_snd [OF kept_more_request] by (simp add: keeps_def)

text \<open>A failure that counts as a refusal of the session carries a status the server answered with.\<close>

lemma readEnvelope_refusal: "readEnvelope C x = Inl e \<Longrightarrow> isAuthFailure e \<Longrightarrow> re_status x \<in> {401, 403}"
  by (auto simp: readEnvelope_def isAuthFailure_def Let_def split: http_body.splits if_splits)

definition refusals :: "(http_request \<times> http_response option) list \<Rightarrow> http_response list" where
  "refusals l = [y. (q, Some y) \<leftarrow> l, re_status y \<in> {401, 403}]"

lemma request_refusal:
  assumes "request C F path init True w = (Inl e, w')" and "isAuthFailure e"
  shows "refusals (drop (length (fetchLog w)) (fetchLog w')) \<noteq> []"
  using assms(1)
proof (cases rule: request_cases)
  case (answered a)
  then obtain x where "a = Some x" using assms(2) by (cases a) (auto simp: isAuthFailure_def)
  with answered assms(2) have "re_status x \<in> {401, 403}" using readEnvelope_refusal [of C x e] by simp
  with answered \<open>a = Some x\<close> show ?thesis by (simp add: refusals_def)
next
  case (replayed x y a v u)
  then show ?thesis by (simp add: refusals_def)
qed (simp add: refusals_def)

lemma request_log: "\<exists>l. fetchLog (snd (request C F path init True w)) = fetchLog w @ l \<and> length l \<le> 3"
proof -
  obtain r w' where run: "request C F path init True w = (r, w')" by fastforce
  from this show ?thesis
    by (cases rule: request_cases) (simp_all add: run)
qed


end
