(* ===== verification/Auth_Store.thy ===== *)
theory Auth_Store
  imports Http_Client
begin

text \<open>
  Signing in and out: \<open>shared/store/auth.ts\<close> with what it calls, \<open>authApi\<close> and \<open>usersApi.me\<close> of
  \<open>shared/api/endpoints.ts\<close>, the tick of \<open>shared/lib/consent.ts\<close> and \<open>forgetNativePushDevice\<close> of
  \<open>shared/lib/nativePush.ts\<close>. The page extends the HTTP client's world by the store's fields and the
  module variable \<open>pageOwner\<close>; \<open>reloads\<close> counts the calls of \<open>reloadPage\<close> and \<open>waited\<close> lists the delays.
\<close>

datatype auth_status = Loading | Authenticated | Anonymous | OfflineStatus

record 'env page = "'env client" +
  a_user :: "user option"
  a_status :: auth_status
  a_quarantine :: "quarantine option"
  pageOwner :: "string option"
  reloads :: nat
  waited :: "nat list"

type_synonym ('env, 'a) page_io = "('env page, js_error, 'a) io"

definition RETRY_DELAYS_MS :: "nat list" where
  "RETRY_DELAYS_MS = [400, 800, 1600, 3200]"

definition io_finally :: "('w, 'e, 'a) io \<Rightarrow> ('w \<Rightarrow> 'w) \<Rightarrow> ('w, 'e, 'a) io" where
  "io_finally m f w = (case m w of (r, w') \<Rightarrow> (r, f w'))"

subsection \<open>The tick of the consent screen\<close>

record acceptance =
  privacyVersion :: string
  rulesVersion :: string

definition currentAcceptance :: acceptance where
  "currentAcceptance = \<lparr>privacyVersion = ''2026-10-08'', rulesVersion = ''2026-10-08.2''\<rparr>"

definition CONSENT_KEY :: string where
  "CONSENT_KEY = ''kisy.consent''"

definition json_of_acceptance :: "acceptance \<Rightarrow> (string \<times> json) list" where
  "json_of_acceptance a = [(''privacyVersion'', JStr (privacyVersion a)), (''rulesVersion'', JStr (rulesVersion a))]"

definition hasLocalConsent :: "acceptance \<Rightarrow> local_storage \<Rightarrow> bool" where
  "hasLocalConsent now s = (case ls_getItem CONSENT_KEY s of
      Inl e \<Rightarrow> False
    | Inr raw \<Rightarrow> truthy raw \<and> (case json_parse (the raw) of
        Some (JObj kvs) \<Rightarrow> map_of kvs ''privacyVersion'' = Some (JStr (privacyVersion now)) \<and>
                          map_of kvs ''rulesVersion'' = Some (JStr (rulesVersion now))
      | _ \<Rightarrow> False))"

definition saveLocalConsent :: "acceptance \<Rightarrow> local_storage \<Rightarrow> local_storage" where
  "saveLocalConsent now = ls_try (ls_setItem CONSENT_KEY (stringify (JObj (json_of_acceptance now))))"

definition clearLocalConsent :: "local_storage \<Rightarrow> local_storage" where
  "clearLocalConsent = ls_try (ls_removeItem CONSENT_KEY)"

subsection \<open>Endpoints\<close>

definition type_error :: js_error where
  "type_error = JsError ''TypeError''"

text \<open>\<open>res.tokens\<close> of a missing answer is a \<open>TypeError\<close>.\<close>

definition keepTokens :: "payload option \<Rightarrow> ('env, payload) page_io" where
  "keepTokens res = (case res of
      None \<Rightarrow> io_throw type_error
    | Some d \<Rightarrow> io_bind (io_mod (\<lambda>w. case payload_tokens d of
          Some t \<Rightarrow> w\<lparr>storage := saveTokens (Some t) (storage w)\<rparr> | None \<Rightarrow> w)) (\<lambda>_. io_ret d))"

definition authApi_login :: "client_cfg \<Rightarrow> 'env fetch \<Rightarrow> string \<Rightarrow> string \<Rightarrow> ('env, payload) page_io" where
  "authApi_login C F username password =
     io_bind (api_post C F ''/auth/login'' (Some (JObj [(''username'', JStr username), (''password'', JStr password)]))) keepTokens"

definition authApi_register ::
  "client_cfg \<Rightarrow> 'env fetch \<Rightarrow> string \<Rightarrow> string \<Rightarrow> string \<Rightarrow> string \<Rightarrow> string \<Rightarrow> ('env, payload) page_io" where
  "authApi_register C F inviteToken username displayName password turnstileToken =
     io_bind (api_post C F ''/auth/register'' (Some (JObj ([(''inviteToken'', JStr inviteToken), (''username'', JStr username),
        (''displayName'', JStr displayName), (''password'', JStr password), (''turnstileToken'', JStr turnstileToken)]
        @ json_of_acceptance currentAcceptance)))) keepTokens"

definition authApi_logout :: "client_cfg \<Rightarrow> 'env fetch \<Rightarrow> ('env, payload option) page_io" where
  "authApi_logout C F = io_finally (api_post C F ''/auth/logout'' None) (\<lambda>w. w\<lparr>storage := saveTokens None (storage w)\<rparr>)"

definition usersApi_me :: "client_cfg \<Rightarrow> 'env fetch \<Rightarrow> ('env, user \<times> quarantine option) page_io" where
  "usersApi_me C F = io_bind (api_get C F ''/users/me'') (\<lambda>d. case d of
      Some (UserData u q t) \<Rightarrow> io_ret (u, q)
    | _ \<Rightarrow> io_throw type_error)"

definition PUSH_TOKEN_KEY :: string where
  "PUSH_TOKEN_KEY = ''kisy.native.pushToken''"

definition storedToken :: "local_storage \<Rightarrow> string option" where
  "storedToken s = (case ls_getItem PUSH_TOKEN_KEY s of Inl e \<Rightarrow> None | Inr t \<Rightarrow> t)"

definition pushApi_unregisterDevice :: "client_cfg \<Rightarrow> 'env fetch \<Rightarrow> string \<Rightarrow> ('env, payload option) page_io" where
  "pushApi_unregisterDevice C F token = api_post C F ''/push/device/unregister'' (Some (JObj [(''token'', JStr token)]))"

definition forgetNativePushDevice :: "client_cfg \<Rightarrow> 'env fetch \<Rightarrow> ('env, unit) page_io" where
  "forgetNativePushDevice C F =
     (if \<not> isNative C then io_ret ()
      else io_bind (io_get (\<lambda>w. storedToken (storage w))) (\<lambda>token.
        if \<not> truthy token then io_ret ()
        else io_ignore (pushApi_unregisterDevice C F (the token))))"

subsection \<open>The store's operations\<close>

definition claimPage :: "string \<Rightarrow> ('env, bool) page_io" where
  "claimPage userId w =
     (if pageOwner w \<noteq> None \<and> pageOwner w \<noteq> Some userId
      then (Inr False, w\<lparr>reloads := reloads w + 1\<rparr>)
      else (Inr True, w\<lparr>pageOwner := Some userId\<rparr>))"

fun bootstrap_from :: "client_cfg \<Rightarrow> 'env fetch \<Rightarrow> nat list \<Rightarrow> ('env, unit) page_io" where
  "bootstrap_from C F delays = io_catch
     (io_bind (usersApi_me C F) (\<lambda>(user, quarantine).
      io_bind (claimPage (u_id user)) (\<lambda>claimed.
        if \<not> claimed then io_ret ()
        else io_mod (\<lambda>w. w\<lparr>a_user := Some user, a_quarantine := quarantine, a_status := Authenticated\<rparr>))))
     (\<lambda>err. if isAuthFailure err then io_mod (\<lambda>w. w\<lparr>a_user := None, a_status := Anonymous\<rparr>)
            else case delays of
              [] \<Rightarrow> io_mod (\<lambda>w. w\<lparr>a_user := None, a_status := OfflineStatus\<rparr>)
            | d # ds \<Rightarrow> io_bind (io_mod (\<lambda>w. w\<lparr>waited := waited w @ [d]\<rparr>)) (\<lambda>_. bootstrap_from C F ds))"

declare bootstrap_from.simps [simp del]

definition bootstrap :: "client_cfg \<Rightarrow> 'env fetch \<Rightarrow> ('env, unit) page_io" where
  "bootstrap C F = io_bind (io_mod (\<lambda>w. w\<lparr>a_status := Loading\<rparr>)) (\<lambda>_. bootstrap_from C F RETRY_DELAYS_MS)"

text \<open>What \<open>login\<close> and \<open>register\<close> do with the answer; \<open>user.id\<close> of another answer is a \<open>TypeError\<close>.\<close>

definition enter :: "payload \<Rightarrow> ('env, unit) page_io" where
  "enter d = (case d of
      UserData user q t \<Rightarrow> io_bind (claimPage (u_id user)) (\<lambda>claimed.
        if \<not> claimed then io_ret () else io_mod (\<lambda>w. w\<lparr>a_user := Some user, a_status := Authenticated\<rparr>))
    | _ \<Rightarrow> io_throw type_error)"

definition login :: "client_cfg \<Rightarrow> 'env fetch \<Rightarrow> string \<Rightarrow> string \<Rightarrow> ('env, unit) page_io" where
  "login C F username password = io_bind (authApi_login C F username password) enter"

definition register ::
  "client_cfg \<Rightarrow> 'env fetch \<Rightarrow> string \<Rightarrow> string \<Rightarrow> string \<Rightarrow> string \<Rightarrow> string \<Rightarrow> ('env, unit) page_io" where
  "register C F inviteToken username displayName password turnstileToken =
     io_bind (authApi_register C F inviteToken username displayName password turnstileToken) enter"

definition logout :: "client_cfg \<Rightarrow> 'env fetch \<Rightarrow> ('env, unit) page_io" where
  "logout C F = io_finally
     (io_bind (forgetNativePushDevice C F) (\<lambda>_. io_bind (authApi_logout C F) (\<lambda>_. io_ret ())))
     (\<lambda>w. w\<lparr>a_user := None, a_status := Anonymous, storage := clearLocalConsent (storage w),
            reloads := reloads w + (if pageOwner w \<noteq> None then 1 else 0)\<rparr>)"

definition setUser :: "user \<Rightarrow> ('env, unit) page_io" where
  "setUser user = io_mod (\<lambda>w. w\<lparr>a_user := Some user\<rparr>)"

subsection \<open>What the requests of the store leave alone\<close>

lemma page_more:
  assumes "client.more w' = client.more w"
  shows "a_user w' = a_user w" "a_status w' = a_status w" "a_quarantine w' = a_quarantine w"
    "pageOwner w' = pageOwner w" "reloads w' = reloads w" "waited w' = waited w"
  using assms by (cases w, cases w', simp)+

lemma kept_more_api [intro!]:
  "kept client.more (api_post C F path b)" "kept client.more (api_get C F path)"
  by (auto simp: api_defs)

lemma kept_more_keepTokens [intro!]: "kept client.more (keepTokens res)"
  unfolding keepTokens_def by (auto simp del: io_eval intro!: kept_mod split: option.split)

lemma kept_more_sign [intro!]:
  "kept client.more (authApi_login C F u p)" "kept client.more (authApi_register C F i u d p t)"
  "kept client.more (usersApi_me C F)" "kept client.more (forgetNativePushDevice C F)"
  unfolding authApi_login_def authApi_register_def usersApi_me_def forgetNativePushDevice_def pushApi_unregisterDevice_def
  by (auto simp del: io_eval split: option.split payload.split)

lemma usersApi_me_log:
  "\<exists>l. fetchLog (snd (usersApi_me C F w)) = fetchLog w @ l \<and> length l \<le> 3"
proof -
  let ?m = "request C F ''/users/me'' \<lparr>ri_method = GET, ri_body = None, ri_headers = []\<rparr> True"
  have "snd (usersApi_me C F w) = snd (?m w)"
    by (auto simp: usersApi_me_def api_get_def io_bind_def split: prod.splits sum.splits option.splits payload.splits)
  then show ?thesis using request_log by metis
qed

lemma usersApi_me_refusal:
  assumes "usersApi_me C F w = (Inl e, w')" and "isAuthFailure e"
  shows "refusals (drop (length (fetchLog w)) (fetchLog w')) \<noteq> []"
  using assms(1) unfolding usersApi_me_def api_get_def
proof (cases rule: io_bind_Inl_E)
  case 1
  then show ?thesis using assms(2) by (rule request_refusal)
next
  case (2 d v)
  then have "e = type_error" by (auto split: option.splits payload.splits)
  then show ?thesis using assms(2) by (simp add: isAuthFailure_def type_error_def)
qed

subsection \<open>Restoring a session\<close>

definition fresh_log :: "'env page \<Rightarrow> 'env page \<Rightarrow> (http_request \<times> http_response option) list" where
  "fresh_log w w' = drop (length (fetchLog w)) (fetchLog w')"

lemma refusals_append [simp]: "refusals (l @ m) = refusals l @ refusals m"
  by (simp add: refusals_def)


lemma bootstrap_from_shown:
  assumes "usersApi_me C F w = (Inr (user, q), v)"
  shows "bootstrap_from C F delays w = (Inr (), if pageOwner w \<noteq> None \<and> pageOwner w \<noteq> Some (u_id user)
      then v\<lparr>reloads := reloads v + 1\<rparr>
      else v\<lparr>pageOwner := Some (u_id user), a_user := Some user, a_quarantine := q, a_status := Authenticated\<rparr>)"
proof -
  have "pageOwner v = pageOwner w"
    using keptD [OF kept_more_sign(3) assms] by (rule page_more)
  with assms show ?thesis
    by (subst bootstrap_from.simps) (simp add: io_catch_def io_bind_def claimPage_def)
qed

lemma bootstrap_from_failed:
  assumes "usersApi_me C F w = (Inl e, v)"
  shows "bootstrap_from C F delays w =
    (if isAuthFailure e then (Inr (), v\<lparr>a_user := None, a_status := Anonymous\<rparr>)
     else case delays of [] \<Rightarrow> (Inr (), v\<lparr>a_user := None, a_status := OfflineStatus\<rparr>)
       | d # ds \<Rightarrow> bootstrap_from C F ds (v\<lparr>waited := waited v @ [d]\<rparr>))"
  using assms by (subst bootstrap_from.simps) (simp add: io_catch_def io_bind_def split: list.splits)

lemma bootstrap_from_run:
  assumes "bootstrap_from C F delays w = (r, w')"
  shows "r = Inr () \<and> (\<exists>l ds. fetchLog w' = fetchLog w @ l \<and> length l \<le> 3 * (length delays + 1) \<and>
     prefix ds delays \<and> waited w' = waited w @ ds \<and>
     ((a_status w' = Anonymous \<and> refusals l \<noteq> []) \<or> a_status w' = Authenticated \<or>
      (a_status w' = OfflineStatus \<and> ds = delays) \<or> (a_status w' = a_status w \<and> reloads w' = reloads w + 1)))"
  using assms
proof (induction delays arbitrary: w)
  case Nil
  obtain q v where me: "usersApi_me C F w = (q, v)" by fastforce
  obtain l where l: "fetchLog v = fetchLog w @ l" "length l \<le> 3" using usersApi_me_log [of C F w] me by auto
  have more: "client.more v = client.more w" using keptD [OF kept_more_sign(3) me] .
  show ?case
  proof (cases q)
    case (Inr x)
    with me have "usersApi_me C F w = (Inr (fst x, snd x), v)" by simp
    from bootstrap_from_shown [OF this, of "[]"] Nil l page_more [OF more] show ?thesis by auto
  next
    case (Inl e)
    with me have "usersApi_me C F w = (Inl e, v)" by simp
    from bootstrap_from_failed [OF this, of "[]"] usersApi_me_refusal [OF this] Nil l page_more [OF more] show ?thesis
      by (auto split: if_splits)
  qed
next
  case (Cons d ds)
  obtain q v where me: "usersApi_me C F w = (q, v)" by fastforce
  obtain l where l: "fetchLog v = fetchLog w @ l" "length l \<le> 3" using usersApi_me_log [of C F w] me by auto
  have more: "client.more v = client.more w" using keptD [OF kept_more_sign(3) me] .
  show ?case
  proof (cases q)
    case (Inr x)
    with me have "usersApi_me C F w = (Inr (fst x, snd x), v)" by simp
    from bootstrap_from_shown [OF this, of "d # ds"] Cons.prems l page_more [OF more] show ?thesis
      by (auto split: if_splits)
  next
    case (Inl e)
    with me have failed: "usersApi_me C F w = (Inl e, v)" by simp
    show ?thesis
    proof (cases "isAuthFailure e")
      case True
      with bootstrap_from_failed [OF failed, of "d # ds"] usersApi_me_refusal [OF failed] Cons.prems l page_more [OF more]
      show ?thesis by auto
    next
      case False
      with bootstrap_from_failed [OF failed, of "d # ds"] Cons.prems
      have "bootstrap_from C F ds (v\<lparr>waited := waited v @ [d]\<rparr>) = (r, w')" by simp
      from Cons.IH [OF this] obtain l' ds' where rest: "r = Inr ()" "fetchLog w' = fetchLog v @ l'"
        "length l' \<le> 3 * (length ds + 1)" "prefix ds' ds" "waited w' = waited v @ d # ds'"
        "(a_status w' = Anonymous \<and> refusals l' \<noteq> []) \<or> a_status w' = Authenticated \<or>
         (a_status w' = OfflineStatus \<and> ds' = ds) \<or> (a_status w' = a_status v \<and> reloads w' = reloads v + 1)"
        by auto
      then show ?thesis using l page_more [OF more]
        by (intro conjI exI [of _ "l @ l'"] exI [of _ "d # ds'"]) auto
    qed
  qed
qed

text \<open>
  C17. Restoring the session on start always comes to an end, after at most five rounds of requests, and
  only the server can sign the person out: the page ends signed out only if some request was answered
  401 or 403; it ends offline only after every delay of the schedule was waited out.
\<close>

theorem bootstrap_signs_out_only_on_refusal:
  "fst (bootstrap C F w) = Inr () \<and> length (fresh_log w (snd (bootstrap C F w))) \<le> 15 \<and>
   (a_status (snd (bootstrap C F w)) = Anonymous \<longrightarrow> refusals (fresh_log w (snd (bootstrap C F w))) \<noteq> []) \<and>
   (a_status (snd (bootstrap C F w)) = OfflineStatus \<longrightarrow> waited (snd (bootstrap C F w)) = waited w @ RETRY_DELAYS_MS) \<and>
   (a_status (snd (bootstrap C F w)) = Loading \<longrightarrow> reloads (snd (bootstrap C F w)) = reloads w + 1)"
proof -
  let ?w = "w\<lparr>a_status := Loading\<rparr>"
  obtain r w' where run: "bootstrap_from C F RETRY_DELAYS_MS ?w = (r, w')" by fastforce
  then have "bootstrap C F w = (r, w')" by (simp add: bootstrap_def io_bind_def)
  moreover from bootstrap_from_run [OF run] obtain l ds where "r = Inr ()" "fetchLog w' = fetchLog w @ l"
    "length l \<le> 3 * (length RETRY_DELAYS_MS + 1)" "waited w' = waited w @ ds"
    "(a_status w' = Anonymous \<and> refusals l \<noteq> []) \<or> a_status w' = Authenticated \<or>
     (a_status w' = OfflineStatus \<and> ds = RETRY_DELAYS_MS) \<or> (a_status w' = Loading \<and> reloads w' = reloads w + 1)"
    by auto
  ultimately show ?thesis by (auto simp: fresh_log_def RETRY_DELAYS_MS_def)
qed


definition sample_page :: "nat page" where
  "sample_page = client.extend sample_client \<lparr>a_user = None, a_status = Loading, a_quarantine = None,
     pageOwner = None, reloads = 0, waited = []\<rparr>"

definition dead_fetch :: "nat fetch" where
  "dead_fetch rq n = (None, n)"

lemma dead_me: "\<exists>v. usersApi_me C dead_fetch w = (Inl (JsError ''Failed to fetch''), v)"
  by (simp add: usersApi_me_def api_get_def request.simps io_bind_def http_fetch_def dead_fetch_def)

lemma dead_bootstrap: "a_status (snd (bootstrap_from C dead_fetch delays w)) = OfflineStatus"
proof (induction delays arbitrary: w)
  case Nil
  obtain v where "usersApi_me C dead_fetch w = (Inl (JsError ''Failed to fetch''), v)" using dead_me by blast
  from bootstrap_from_failed [OF this] show ?case by (simp add: isAuthFailure_def)
next
  case (Cons d ds)
  obtain v where "usersApi_me C dead_fetch w = (Inl (JsError ''Failed to fetch''), v)" using dead_me by blast
  from bootstrap_from_failed [OF this] Cons.IH show ?case by (simp add: isAuthFailure_def)
qed

theorem bootstrap_signs_out_only_on_refusal_witness:
  "a_status (snd (bootstrap sample_cfg dead_fetch sample_page)) = OfflineStatus \<and>
   waited (snd (bootstrap sample_cfg dead_fetch sample_page)) = [400, 800, 1600, 3200]"
proof -
  have "a_status (snd (bootstrap sample_cfg dead_fetch sample_page)) = OfflineStatus"
    by (simp add: bootstrap_def io_bind_def dead_bootstrap)
  with bootstrap_signs_out_only_on_refusal [of sample_cfg dead_fetch sample_page] show ?thesis
    by (simp add: RETRY_DELAYS_MS_def sample_page_def client.defs page.defs)
qed

subsection \<open>One page, one account\<close>

datatype auth_op = OpBootstrap | OpLogin string string | OpRegister string string string string string
  | OpLogout | OpSetUser user

definition run_auth :: "client_cfg \<Rightarrow> 'env fetch \<Rightarrow> auth_op \<Rightarrow> 'env page \<Rightarrow> 'env page" where
  "run_auth C F opn w = snd ((case opn of
      OpBootstrap \<Rightarrow> bootstrap C F
    | OpLogin u p \<Rightarrow> login C F u p
    | OpRegister i u d p t \<Rightarrow> register C F i u d p t
    | OpLogout \<Rightarrow> logout C F
    | OpSetUser user \<Rightarrow> setUser user) w)"

definition owned :: "string \<Rightarrow> 'env page \<Rightarrow> bool" where
  "owned i w \<longleftrightarrow> pageOwner w = Some i \<and> (\<forall>u. a_user w = Some u \<longrightarrow> u_id u = i)"

definition stays_owned :: "string \<Rightarrow> 'env page \<Rightarrow> 'env page \<Rightarrow> bool" where
  "stays_owned i w w' \<longleftrightarrow> (owned i w \<longrightarrow> owned i w')"

interpretation owner_frame: io_frame "stays_owned i" for i
  by unfold_locales (auto simp: stays_owned_def)

lemma owned_more: "kept client.more m \<Longrightarrow> owner_frame.framed i m"
proof (rule owner_frame.framedI)
  fix w r w' assume "kept client.more m" "m w = (r, w')"
  then have "client.more w' = client.more w" by (rule keptD)
  from page_more(1,4) [OF this] show "stays_owned i w w'" by (simp add: stays_owned_def owned_def)
qed

text \<open>Claiming the page and showing the account, as \<open>bootstrap\<close>, \<open>login\<close> and \<open>register\<close> do.\<close>

lemma owned_claim:
  assumes "\<And>w. a_user (f w) = Some user \<and> pageOwner (f w) = pageOwner w"
  shows "owner_frame.framed i (io_bind (claimPage (u_id user)) (\<lambda>ok. if \<not> ok then io_ret () else io_mod f))"
  using assms by (intro owner_frame.framedI)
    (auto simp: stays_owned_def owned_def io_bind_def claimPage_def split: if_splits)

lemma owned_signed_out: "owner_frame.framed i (io_mod (\<lambda>w. w\<lparr>a_user := None, a_status := st\<rparr>))"
  by (rule owner_frame.framed_mod) (simp add: stays_owned_def owned_def)

lemma owned_enter: "owner_frame.framed i (enter d)"
  unfolding enter_def by (cases d) (auto simp del: io_eval intro!: owned_claim)

lemma owned_bootstrap_from: "owner_frame.framed i (bootstrap_from C F delays)"
proof (induction delays)
  case Nil
  show ?case
    by (subst bootstrap_from.simps)
      (auto simp del: io_eval intro!: owned_more [OF kept_more_sign(3)] owned_claim owned_signed_out)
next
  case (Cons d ds)
  have wait: "owner_frame.framed i (io_mod (\<lambda>w. w\<lparr>waited := waited w @ [d]\<rparr>))"
    by (rule owner_frame.framed_mod) (simp add: stays_owned_def owned_def)
  show ?case
    by (subst bootstrap_from.simps)
      (auto simp del: io_eval intro!: owned_more [OF kept_more_sign(3)] owned_claim owned_signed_out wait Cons.IH)
qed

lemma kept_more_logout: "kept client.more (io_bind (forgetNativePushDevice C F) (\<lambda>_. io_bind (authApi_logout C F) (\<lambda>_. io_ret ())))"
proof -
  have "kept client.more (authApi_logout C F)"
    unfolding authApi_logout_def io_finally_def
    by (rule keeps_frame.framedI) (auto simp: keeps_def split: prod.splits dest!: keptD [OF kept_more_api(1)])
  then show ?thesis by (auto simp del: io_eval)
qed

lemma run_auth_owned:
  assumes "owned i w" and "\<And>u. opn = OpSetUser u \<Longrightarrow> u_id u = i"
  shows "owned i (run_auth C F opn w)"
proof (cases opn)
  case OpBootstrap
  have "owner_frame.framed i (bootstrap C F)"
    unfolding bootstrap_def
    by (auto simp del: io_eval intro!: owner_frame.framed_mod owned_bootstrap_from) (simp add: stays_owned_def owned_def)
  from owner_frame.framed_snd [OF this, of w] assms OpBootstrap show ?thesis
    by (simp add: run_auth_def stays_owned_def)
next
  case (OpLogin u p)
  have "owner_frame.framed i (login C F u p)"
    unfolding login_def by (auto simp del: io_eval intro!: owned_more [OF kept_more_sign(1)] owned_enter)
  from owner_frame.framed_snd [OF this, of w] assms OpLogin show ?thesis
    by (simp add: run_auth_def stays_owned_def)
next
  case (OpRegister v u d p t)
  have "owner_frame.framed i (register C F v u d p t)"
    unfolding register_def by (auto simp del: io_eval intro!: owned_more [OF kept_more_sign(2)] owned_enter)
  from owner_frame.framed_snd [OF this, of w] assms OpRegister show ?thesis
    by (simp add: run_auth_def stays_owned_def)
next
  case OpLogout
  obtain r v where m: "io_bind (forgetNativePushDevice C F) (\<lambda>_. io_bind (authApi_logout C F) (\<lambda>_. io_ret ())) w = (r, v)"
    by fastforce
  from page_more [OF keptD [OF kept_more_logout m]] assms OpLogout m show ?thesis
    by (simp add: run_auth_def logout_def io_finally_def owned_def)
next
  case (OpSetUser u)
  with assms show ?thesis by (simp add: run_auth_def setUser_def owned_def)
qed

text \<open>
  C13. The page's memory belongs to one account. Once it has been claimed for an account, no sequence of
  restores, sign-ins, registrations and sign-outs, whatever the server answers, makes it show another
  one; a sign-in the server answered with another account reloads the page instead.
\<close>

theorem page_belongs_to_one_account:
  assumes "owned i w" and "\<And>u. OpSetUser u \<in> set ops \<Longrightarrow> u_id u = i"
  shows "owned i (fold (run_auth C F) ops w) \<and>
    (authApi_login C F name pw (fold (run_auth C F) ops w) = (Inr (UserData u q t), v) \<and> u_id u \<noteq> i \<longrightarrow>
      login C F name pw (fold (run_auth C F) ops w) = (Inr (), v\<lparr>reloads := reloads v + 1\<rparr>))"
proof -
  have all: "owned i (fold (run_auth C F) ops w)" using assms
  proof (induction ops arbitrary: w)
    case (Cons a ops)
    then have "owned i (run_auth C F a w)" by (intro run_auth_owned) auto
    with Cons show ?case by simp
  qed simp
  have "login C F name pw (fold (run_auth C F) ops w) = (Inr (), v\<lparr>reloads := reloads v + 1\<rparr>)"
    if run: "authApi_login C F name pw (fold (run_auth C F) ops w) = (Inr (UserData u q t), v)" and "u_id u \<noteq> i"
  proof -
    from page_more(4) [OF keptD [OF kept_more_sign(1) run]] all have "pageOwner v = Some i" by (simp add: owned_def)
    with that show ?thesis by (auto simp: login_def io_bind_def enter_def claimPage_def)
  qed
  with all show ?thesis by blast
qed


definition sample_user :: "string \<Rightarrow> user" where
  "sample_user i = \<lparr>u_id = i, u_username = i, u_displayName = i, u_roleLevel = None, u_accountKind = Basic,
     u_avatarUrl = None, u_status = Online, u_isActive = True, u_lastSeen = None, u_createdAt = ''t'',
     u_mustChangePassword = False, u_displayNameNeedsChange = False, u_consentRequired = False, u_verifiedAt = None\<rparr>"

definition user_fetch :: "user \<Rightarrow> quarantine option \<Rightarrow> nat fetch" where
  "user_fetch u q rq n = (Some \<lparr>re_status = 200, re_body = JsonText \<lparr>en_success = True, en_data = Some (UserData u q None),
     en_error = None, en_requestId = None\<rparr>, re_retryAfter = None\<rparr>, n)"

lemma user_fetch_login:
  "\<exists>v. authApi_login sample_cfg (user_fetch u q) n p w = (Inr (UserData u q None), v) \<and> client.more v = client.more w"
proof -
  obtain v where "authApi_login sample_cfg (user_fetch u q) n p w = (Inr (UserData u q None), v)"
    by (simp add: authApi_login_def api_post_def request.simps io_bind_def http_fetch_def user_fetch_def keepTokens_def
        readEnvelope_def re_ok_def sample_cfg_def Let_def)
  with keptD [OF kept_more_sign(1) this] show ?thesis by blast
qed

theorem page_belongs_to_one_account_witness:
  "\<exists>w v. w = fold (run_auth sample_cfg (user_fetch (sample_user ''u2'') None)) [OpLogout, OpLogin ''b'' ''pw'']
       (sample_page\<lparr>pageOwner := Some ''u1'', a_user := Some (sample_user ''u1'')\<rparr>) \<and> owned ''u1'' w \<and>
     login sample_cfg (user_fetch (sample_user ''u2'') None) ''b'' ''pw'' w = (Inr (), v\<lparr>reloads := reloads v + 1\<rparr>)"
proof -
  let ?F = "user_fetch (sample_user ''u2'') None" and ?ops = "[OpLogout, OpLogin ''b'' ''pw'']"
  let ?w = "sample_page\<lparr>pageOwner := Some ''u1'', a_user := Some (sample_user ''u1'')\<rparr>"
  let ?x = "fold (run_auth sample_cfg ?F) ?ops ?w"
  have own: "owned ''u1'' ?w" by (simp add: owned_def sample_user_def)
  obtain v where "authApi_login sample_cfg ?F ''b'' ''pw'' ?x = (Inr (UserData (sample_user ''u2'') None None), v)"
    using user_fetch_login by blast
  with page_belongs_to_one_account [OF own, of ?ops sample_cfg ?F "''b''" "''pw''" "sample_user ''u2''" None None v]
  have "owned ''u1'' ?x" "login sample_cfg ?F ''b'' ''pw'' ?x = (Inr (), v\<lparr>reloads := reloads v + 1\<rparr>)"
    by (simp_all add: sample_user_def del: fold_simps)
  then show ?thesis by blast
qed


subsection \<open>Signing out\<close>

lemma save_disabled [simp]: "ls_disabled (saveTokens t s) = ls_disabled s"
  by (cases t) (simp_all add: saveTokens_def ls_try_def ls_setItem_def ls_removeItem_def)

lemma refreshAnswer_disabled: "refreshAnswer C y s = (out, s') \<Longrightarrow> ls_disabled s' = ls_disabled s"
  by (auto simp: refreshAnswer_def split: if_splits http_body.splits option.splits)

lemma kept_disabled_request: "kept (\<lambda>w. ls_disabled (storage w)) (request C F path init True)"
proof (rule keeps_frame.framedI)
  fix w r w' assume "request C F path init True w = (r, w')"
  then show "keeps (\<lambda>w. ls_disabled (storage w)) w w'"
    by (cases rule: request_cases) (auto simp: keeps_def dest: refreshAnswer_disabled split: option.splits)
qed

lemma kept_disabled_forget: "kept (\<lambda>w. ls_disabled (storage w)) (forgetNativePushDevice C F)"
  unfolding forgetNativePushDevice_def pushApi_unregisterDevice_def api_post_def
  by (auto simp del: io_eval intro!: kept_disabled_request)

lemma forgetNativePushDevice_returns: "fst (forgetNativePushDevice C F w) = Inr ()"
  by (simp add: forgetNativePushDevice_def io_bind_def io_ignore_returns)

lemma consent_cleared: "\<not> ls_disabled s \<Longrightarrow> \<not> hasLocalConsent now (clearLocalConsent s)"
  by (simp add: hasLocalConsent_def clearLocalConsent_def ls_try_def ls_removeItem_def ls_getItem_def)

lemma tokens_clearConsent [simp]: "loadTokens (clearLocalConsent s) = loadTokens s"
  by (simp add: loadTokens_def clearLocalConsent_def ls_try_def ls_removeItem_def ls_getItem_def TOKEN_KEY_def CONSENT_KEY_def)

text \<open>
  Signing out cannot stop half way: whether or not the server was reached, the page shows nobody and,
  the storage working, the tokens and the consent tick of the person leaving are gone and a page that
  held their data reloads.
\<close>

theorem logout_forgets_everything:
  assumes "\<not> ls_disabled (storage w)" and "logout C F w = (r, w')"
  shows "a_user w' = None \<and> a_status w' = Anonymous \<and> loadTokens (storage w') = None \<and>
    \<not> hasLocalConsent now (storage w') \<and> reloads w' = reloads w + (if pageOwner w \<noteq> None then 1 else 0)"
proof -
  obtain v where v: "forgetNativePushDevice C F w = (Inr (), v)"
    by (metis forgetNativePushDevice_returns prod.collapse)
  obtain r1 v1 where p: "api_post C F ''/auth/logout'' None v = (r1, v1)" by fastforce
  let ?v2 = "v1\<lparr>storage := saveTokens None (storage v1)\<rparr>"
  have m: "snd (io_bind (forgetNativePushDevice C F) (\<lambda>_. io_bind (authApi_logout C F) (\<lambda>_. io_ret ())) w) = ?v2"
    using v p by (cases r1) (simp_all add: io_bind_def authApi_logout_def io_finally_def)
  then have w': "w' = ?v2\<lparr>a_user := None, a_status := Anonymous, storage := clearLocalConsent (storage ?v2),
      reloads := reloads ?v2 + (if pageOwner ?v2 \<noteq> None then 1 else 0)\<rparr>"
    using assms(2) by (auto simp: logout_def io_finally_def split: prod.splits)
  have dis: "\<not> ls_disabled (storage v1)"
    using keptD [OF kept_disabled_forget v] keptD [OF kept_disabled_request p [unfolded api_post_def]] assms(1) by simp
  have "client.more ?v2 = client.more w"
    using keptD [OF kept_more_sign(4) v] keptD [OF kept_more_api(1) p] by simp
  from page_more(4,5) [OF this] load_cleared_tokens [of "storage v1"] consent_cleared [of "saveTokens None (storage v1)"] dis w'
  show ?thesis by simp
qed

theorem logout_forgets_everything_witness:
  "let w' = snd (logout sample_cfg dead_fetch (sample_page\<lparr>pageOwner := Some ''u1'', a_user := Some (sample_user ''u1'')\<rparr>))
   in a_user w' = None \<and> loadTokens (storage w') = None \<and> reloads w' = 1"
proof -
  let ?w = "sample_page\<lparr>pageOwner := Some ''u1'', a_user := Some (sample_user ''u1'')\<rparr>"
  have "\<not> ls_disabled (storage ?w)" by (simp add: sample_page_def sample_client_def client.defs page.defs)
  moreover obtain r w' where "logout sample_cfg dead_fetch ?w = (r, w')" by fastforce
  ultimately show ?thesis
    using logout_forgets_everything [of ?w sample_cfg dead_fetch r w'] by (simp add: sample_page_def client.defs page.defs)
qed

subsection \<open>Findings\<close>

text \<open>
  Registering and signing in never set the hold: whatever hold the server reports with the new
  account, the store keeps the value it had, \<open>null\<close> on a fresh page, until the next page load.
\<close>

theorem register_shows_no_hold:
  "a_quarantine (snd (register C F i u d p t w)) = a_quarantine w \<and> a_quarantine (snd (login C F u p w)) = a_quarantine w"
proof -
  have claim: "kept a_quarantine (claimPage j)" for j
    by (rule keeps_frame.framedI) (auto simp: keeps_def claimPage_def split: if_splits)
  have en: "kept a_quarantine (enter x)" for x
    unfolding enter_def by (cases x) (auto simp del: io_eval intro!: claim kept_mod)
  have api: "kept a_quarantine m" if "kept client.more m" for m :: "('a, payload) page_io"
    by (rule keeps_frame.framedI) (auto simp: keeps_def dest!: keptD [OF that] page_more(3))
  have "kept a_quarantine (register C F i u d p t)" "kept a_quarantine (login C F u p)"
    unfolding register_def login_def by (auto simp del: io_eval intro!: en api)
  then show ?thesis by (auto dest: keeps_frame.framed_snd simp: keeps_def)
qed

text \<open>
  The tick survives until the documents change: after saving, the consent screen is open for the same
  versions and for no other.
\<close>

theorem consent_round_trip:
  assumes "\<not> ls_disabled s" and "\<not> ls_full s"
  shows "hasLocalConsent now (saveLocalConsent a s) \<longleftrightarrow> now = a"
  using assms
  by (cases a; cases now)
    (auto simp: hasLocalConsent_def saveLocalConsent_def ls_try_def ls_setItem_def ls_getItem_def json_of_acceptance_def
      simp del: stringify.simps)

theorem consent_round_trip_witness:
  "hasLocalConsent currentAcceptance (saveLocalConsent currentAcceptance (storage sample_client))"
  using consent_round_trip [of "storage sample_client" currentAcceptance currentAcceptance] by (simp add: sample_client_def)


end
