(* ===== verification/Ws_Client.thy ===== *)
theory Ws_Client
  imports Http_Client
begin

text \<open>
  The WebSocket client, \<open>shared/ws/client.ts\<close>. The class's fields are a record; every socket it ever
  created is kept, in order of creation, with its ready state, whether its \<open>onclose\<close> is still attached and
  what was sent over it. What the browser does (a socket opens, closes with a code, fails, brings a
  frame; a timer fires; the awaited token exchange settles) are events beside the calls of the methods,
  in any order; an event that cannot happen in a state leaves it as it is. \<open>close()\<close> on a socket only starts
  the closing, its close event comes later, and a socket told to close never opens.
\<close>

datatype ready_state = Connecting | Open | Closing | Closed

record socket =
  so_url :: string
  so_state :: ready_state
  so_onclose :: bool
  so_sent :: "string list"

record ws_client =
  socks :: "socket list"
  current :: "nat option"
  handlers :: "nat list"
  openHandlers :: "nat list"
  reconnectDelay :: nat
  shouldRun :: bool
  closedBeforeOpen :: bool
  queue :: "string list"
  timers :: "(bool \<times> nat) list"
  renewals :: nat
  delivered :: "(nat \<times> string) list"
  openings :: "nat list"
  wire :: "string list"

definition ws_start :: ws_client where
  "ws_start = \<lparr>socks = [], current = None, handlers = [], openHandlers = [], reconnectDelay = 1000, shouldRun = False,
     closedBeforeOpen = True, queue = [], timers = [], renewals = 0, delivered = [], openings = [], wire = []\<rparr>"

definition CLOSE_REPLACED :: int where
  "CLOSE_REPLACED = 4002"

subsection \<open>The address\<close>

definition unreserved :: "char \<Rightarrow> bool" where
  "unreserved c \<longleftrightarrow> (let n = of_char c :: nat in
     (48 \<le> n \<and> n \<le> 57) \<or> (65 \<le> n \<and> n \<le> 90) \<or> (97 \<le> n \<and> n \<le> 122) \<or> c \<in> set ''-_.!~*()'' \<or> n = 39)"

definition upper_hex :: "nat \<Rightarrow> char" where
  "upper_hex d = char_of (if d < 10 then 48 + d else 55 + d)"

definition encodeURIComponent :: "string \<Rightarrow> string" where
  "encodeURIComponent s = concat (map (\<lambda>c. if unreserved c then [c]
     else [CHR ''%'', upper_hex (of_char c div 16), upper_hex (of_char c mod 16)]) s)"

record ws_cfg =
  wc_base :: "string option"
  wc_protocol :: string
  wc_host :: string

definition WS_BASE :: "ws_cfg \<Rightarrow> string" where
  "WS_BASE W = (case wc_base W of Some b \<Rightarrow> b | None \<Rightarrow> ''/ws'')"

definition resolveUrl :: "client_cfg \<Rightarrow> ws_cfg \<Rightarrow> local_storage \<Rightarrow> string" where
  "resolveUrl C W s =
     (if isNative C then
        let origin = (if prefix ''http'' (apiOrigin C) then ''ws'' @ drop 4 (apiOrigin C) else apiOrigin C);
            token = (case loadTokens s of Some t \<Rightarrow> accessToken t | None \<Rightarrow> '''')
        in origin @ WS_BASE W @ ''?access_token='' @ encodeURIComponent token
      else if prefix ''ws'' (WS_BASE W) then WS_BASE W
      else (if wc_protocol W = ''https:'' then ''wss:'' else ''ws:'') @ ''//'' @ wc_host W @ WS_BASE W)"

subsection \<open>Methods\<close>

definition is_open :: "ws_client \<Rightarrow> nat option \<Rightarrow> bool" where
  "is_open c s = (case s of None \<Rightarrow> False | Some i \<Rightarrow> i < length (socks c) \<and> so_state (socks c ! i) = Open)"

definition upd_sock :: "nat \<Rightarrow> (socket \<Rightarrow> socket) \<Rightarrow> ws_client \<Rightarrow> ws_client" where
  "upd_sock i f c = c\<lparr>socks := (socks c)[i := f (socks c ! i)]\<rparr>"

text \<open>\<open>socket.close()\<close>: no effect on a socket that is closing or closed.\<close>

definition start_close :: "socket \<Rightarrow> socket" where
  "start_close s = (if so_state s \<in> {Connecting, Open} then s\<lparr>so_state := Closing\<rparr> else s)"

definition ws_open :: "string \<Rightarrow> ws_client \<Rightarrow> ws_client" where
  "ws_open url c =
     (if \<not> shouldRun c then c
      else c\<lparr>socks := socks c @ [\<lparr>so_url = url, so_state = Connecting, so_onclose = True, so_sent = []\<rparr>],
             current := Some (length (socks c))\<rparr>)"

definition connect :: "string \<Rightarrow> ws_client \<Rightarrow> ws_client" where
  "connect url c = ws_open url (c\<lparr>shouldRun := True\<rparr>)"

definition ensureConnected :: "string \<Rightarrow> ws_client \<Rightarrow> ws_client" where
  "ensureConnected url c =
     (if \<not> shouldRun c then c
      else if is_open c (current c) then c
      else
        let c1 = c\<lparr>reconnectDelay := 1000\<rparr>;
            c2 = (case current c1 of
                    Some i \<Rightarrow> upd_sock i (\<lambda>s. start_close (s\<lparr>so_onclose := False\<rparr>)) (c1\<lparr>current := None\<rparr>)
                  | None \<Rightarrow> c1)
        in ws_open url c2)"

definition sock_send :: "nat \<Rightarrow> string \<Rightarrow> ws_client \<Rightarrow> ws_client" where
  "sock_send i frame c = (upd_sock i (\<lambda>s. s\<lparr>so_sent := so_sent s @ [frame]\<rparr>) c)\<lparr>wire := wire c @ [frame]\<rparr>"

definition ws_send :: "string \<Rightarrow> ws_client \<Rightarrow> ws_client" where
  "ws_send payload c =
     (if is_open c (current c) then sock_send (the (current c)) payload c
      else c\<lparr>queue := queue c @ [payload]\<rparr>)"

definition set_add :: "'a \<Rightarrow> 'a list \<Rightarrow> 'a list" where
  "set_add x xs = (if x \<in> set xs then xs else xs @ [x])"

definition subscribe :: "nat \<Rightarrow> ws_client \<Rightarrow> ws_client" where
  "subscribe h c = c\<lparr>handlers := set_add h (handlers c)\<rparr>"

definition unsubscribe :: "nat \<Rightarrow> ws_client \<Rightarrow> ws_client" where
  "unsubscribe h c = c\<lparr>handlers := removeAll h (handlers c)\<rparr>"

definition onOpen :: "nat \<Rightarrow> ws_client \<Rightarrow> ws_client" where
  "onOpen h c = c\<lparr>openHandlers := set_add h (openHandlers c)\<rparr>"

definition offOpen :: "nat \<Rightarrow> ws_client \<Rightarrow> ws_client" where
  "offOpen h c = c\<lparr>openHandlers := removeAll h (openHandlers c)\<rparr>"

definition disconnect :: "ws_client \<Rightarrow> ws_client" where
  "disconnect c =
     (let c1 = c\<lparr>shouldRun := False, queue := []\<rparr>
      in (case current c1 of Some i \<Rightarrow> upd_sock i start_close c1 | None \<Rightarrow> c1)\<lparr>current := None\<rparr>)"

subsection \<open>The socket's callbacks\<close>

definition onopen :: "nat \<Rightarrow> ws_client \<Rightarrow> ws_client" where
  "onopen i c =
     (let c1 = upd_sock i (\<lambda>s. s\<lparr>so_state := Open\<rparr>) c;
          c2 = c1\<lparr>reconnectDelay := 1000, closedBeforeOpen := False\<rparr>;
          c3 = fold (sock_send i) (queue c2) c2
      in c3\<lparr>queue := [], openings := openings c3 @ openHandlers c3\<rparr>)"

text \<open>
  \<open>for (const h of this.handlers) h(parsed)\<close> inside a \<open>try\<close>: a handler that throws ends the round.
  \<open>parses\<close> says which frames are JSON, \<open>throws\<close> which handler throws on which frame.
\<close>

fun reached :: "(nat \<Rightarrow> bool) \<Rightarrow> nat list \<Rightarrow> nat list" where
  "reached throws [] = []"
| "reached throws (h # hs) = h # (if throws h then [] else reached throws hs)"

definition onmessage :: "(string \<Rightarrow> bool) \<Rightarrow> (string \<Rightarrow> nat \<Rightarrow> bool) \<Rightarrow> string \<Rightarrow> ws_client \<Rightarrow> ws_client" where
  "onmessage parses throws frame c =
     (if \<not> parses frame then c
      else c\<lparr>delivered := delivered c @ map (\<lambda>h. (h, frame)) (reached (throws frame) (handlers c))\<rparr>)"

definition onclose :: "int \<Rightarrow> ws_client \<Rightarrow> ws_client" where
  "onclose code c0 =
     (let c = c0\<lparr>current := None\<rparr> in
      if \<not> shouldRun c then c
      else if code = CLOSE_REPLACED then c\<lparr>closedBeforeOpen := True\<rparr>
      else c\<lparr>closedBeforeOpen := True, reconnectDelay := min (reconnectDelay c * 2) 15000,
             timers := timers c @ [(closedBeforeOpen c, reconnectDelay c)]\<rparr>)"

definition timer_fires :: "string \<Rightarrow> nat \<Rightarrow> ws_client \<Rightarrow> ws_client" where
  "timer_fires url k c =
     (let renewFirst = fst (timers c ! k);
          c1 = c\<lparr>timers := take k (timers c) @ drop (Suc k) (timers c)\<rparr>
      in if \<not> renewFirst then ws_open url c1 else c1\<lparr>renewals := renewals c1 + 1\<rparr>)"

definition renewal_settles :: "string \<Rightarrow> refresh_outcome \<Rightarrow> ws_client \<Rightarrow> ws_client" where
  "renewal_settles url outcome c =
     (let c1 = c\<lparr>renewals := renewals c - 1\<rparr> in if outcome \<noteq> Rejected then ws_open url c1 else c1)"

subsection \<open>Histories\<close>

datatype ws_event =
    Connect string | EnsureConnected string | Disconnect | Send string
  | Subscribe nat | Unsubscribe nat | OnOpen nat | OffOpen nat
  | SockOpens nat | SockFails nat | SockCloses nat int | SockBrings nat string
  | TimerFires nat string | RenewalSettles refresh_outcome string

fun ws_step :: "(string \<Rightarrow> bool) \<Rightarrow> (string \<Rightarrow> nat \<Rightarrow> bool) \<Rightarrow> ws_event \<Rightarrow> ws_client \<Rightarrow> ws_client" where
  "ws_step parses throws (Connect url) c = connect url c"
| "ws_step parses throws (EnsureConnected url) c = ensureConnected url c"
| "ws_step parses throws Disconnect c = disconnect c"
| "ws_step parses throws (Send f) c = ws_send f c"
| "ws_step parses throws (Subscribe h) c = subscribe h c"
| "ws_step parses throws (Unsubscribe h) c = unsubscribe h c"
| "ws_step parses throws (OnOpen h) c = onOpen h c"
| "ws_step parses throws (OffOpen h) c = offOpen h c"
| "ws_step parses throws (SockOpens i) c =
     (if i < length (socks c) \<and> so_state (socks c ! i) = Connecting then onopen i c else c)"
| "ws_step parses throws (SockFails i) c =
     (if i < length (socks c) \<and> so_state (socks c ! i) \<noteq> Closed then upd_sock i start_close c else c)"
| "ws_step parses throws (SockCloses i code) c =
     (if i < length (socks c) \<and> so_state (socks c ! i) \<noteq> Closed
      then let c1 = upd_sock i (\<lambda>s. s\<lparr>so_state := Closed\<rparr>) c
           in if so_onclose (socks c ! i) then onclose code c1 else c1
      else c)"
| "ws_step parses throws (SockBrings i f) c =
     (if i < length (socks c) \<and> so_state (socks c ! i) = Open then onmessage parses throws f c else c)"
| "ws_step parses throws (TimerFires k url) c = (if k < length (timers c) then timer_fires url k c else c)"
| "ws_step parses throws (RenewalSettles out url) c = (if renewals c > 0 then renewal_settles url out c else c)"

subsection \<open>Order of frames\<close>

lemma upd_sock_fields [simp]:
  "current (upd_sock i f c) = current c" "queue (upd_sock i f c) = queue c" "wire (upd_sock i f c) = wire c"
  "shouldRun (upd_sock i f c) = shouldRun c" "timers (upd_sock i f c) = timers c" "renewals (upd_sock i f c) = renewals c"
  "reconnectDelay (upd_sock i f c) = reconnectDelay c" "length (socks (upd_sock i f c)) = length (socks c)"
  by (simp_all add: upd_sock_def)

lemma is_open_fields [simp]:
  "is_open (c\<lparr>queue := q\<rparr>) s = is_open c s" "is_open (c\<lparr>current := t\<rparr>) s = is_open c s"
  "is_open (c\<lparr>reconnectDelay := d\<rparr>) s = is_open c s" "is_open (c\<lparr>shouldRun := b\<rparr>) s = is_open c s"
  "is_open (c\<lparr>handlers := hs\<rparr>) s = is_open c s" "is_open (c\<lparr>openHandlers := hs\<rparr>) s = is_open c s"
  "is_open (c\<lparr>delivered := dl\<rparr>) s = is_open c s" "is_open (c\<lparr>timers := ts\<rparr>) s = is_open c s"
  "is_open (c\<lparr>renewals := n\<rparr>) s = is_open c s" "is_open (c\<lparr>closedBeforeOpen := b\<rparr>) s = is_open c s"
  "is_open (c\<lparr>wire := l\<rparr>) s = is_open c s" "is_open (c\<lparr>openings := os\<rparr>) s = is_open c s" "\<not> is_open c None"
  by (simp_all add: is_open_def split: option.splits)

lemma is_open_close: "is_open (upd_sock i start_close c) s \<Longrightarrow> is_open c s"
  "is_open (upd_sock i (\<lambda>s. start_close (s\<lparr>so_onclose := b\<rparr>)) c) s \<Longrightarrow> is_open c s"
  "is_open (upd_sock i (\<lambda>s. s\<lparr>so_state := Closed\<rparr>) c) s \<Longrightarrow> is_open c s"
  by (auto simp: is_open_def upd_sock_def start_close_def nth_upd split: option.splits if_splits)

lemma sock_send_fields [simp]:
  "current (sock_send i f c) = current c" "queue (sock_send i f c) = queue c" "wire (sock_send i f c) = wire c @ [f]"
  "shouldRun (sock_send i f c) = shouldRun c" "timers (sock_send i f c) = timers c" "renewals (sock_send i f c) = renewals c"
  "reconnectDelay (sock_send i f c) = reconnectDelay c" "length (socks (sock_send i f c)) = length (socks c)"
  "is_open (sock_send i f c) s = is_open c s"
  by (auto simp: sock_send_def is_open_def upd_sock_def nth_upd split: option.splits if_splits)

lemma flush_fields [simp]:
  "current (fold (sock_send i) q c) = current c" "wire (fold (sock_send i) q c) = wire c @ q"
  "shouldRun (fold (sock_send i) q c) = shouldRun c" "timers (fold (sock_send i) q c) = timers c"
  "renewals (fold (sock_send i) q c) = renewals c" "reconnectDelay (fold (sock_send i) q c) = reconnectDelay c"
  "length (socks (fold (sock_send i) q c)) = length (socks c)"
  by (induction q arbitrary: c) simp_all

text \<open>While the current socket is open nothing waits in the queue.\<close>

definition flushed :: "ws_client \<Rightarrow> bool" where
  "flushed c \<longleftrightarrow> (is_open c (current c) \<longrightarrow> queue c = [])"

lemma ws_open_fields [simp]:
  "wire (ws_open url c) = wire c" "queue (ws_open url c) = queue c" "shouldRun (ws_open url c) = shouldRun c"
  "timers (ws_open url c) = timers c" "renewals (ws_open url c) = renewals c" "reconnectDelay (ws_open url c) = reconnectDelay c"
  by (simp_all add: ws_open_def)

lemma flushed_open: "flushed c \<Longrightarrow> flushed (ws_open url c)"
  by (simp add: ws_open_def flushed_def is_open_def)

fun sends :: "ws_event \<Rightarrow> string list" where
  "sends (Send f) = [f]"
| "sends _ = []"

lemma flushed_step: "flushed c \<Longrightarrow> flushed (ws_step parses throws e c)"
proof (cases e)
  case (Connect url)
  then show "flushed c \<Longrightarrow> ?thesis" by (simp add: connect_def flushed_open flushed_def ws_open_def is_open_def)
next
  case (EnsureConnected url)
  then show "flushed c \<Longrightarrow> ?thesis"
    by (auto simp: ensureConnected_def flushed_def Let_def ws_open_def is_open_def split: option.splits)
next
  case (SockOpens i)
  then show "flushed c \<Longrightarrow> ?thesis" by (simp add: onopen_def Let_def flushed_def)
next
  case (SockFails i)
  then show "flushed c \<Longrightarrow> ?thesis" by (auto simp: flushed_def dest: is_open_close)
next
  case (SockCloses i code)
  then show "flushed c \<Longrightarrow> ?thesis" by (auto simp: flushed_def onclose_def Let_def dest: is_open_close)
next
  case (TimerFires k url)
  then show "flushed c \<Longrightarrow> ?thesis"
    by (auto simp: timer_fires_def Let_def flushed_def ws_open_def is_open_def split: option.splits)
next
  case (RenewalSettles out url)
  then show "flushed c \<Longrightarrow> ?thesis"
    by (auto simp: renewal_settles_def Let_def flushed_def ws_open_def is_open_def split: option.splits)
qed (auto simp: flushed_def disconnect_def ws_send_def subscribe_def unsubscribe_def onOpen_def offOpen_def onmessage_def Let_def
    split: option.splits)

lemma ordered_step:
  assumes "flushed c" and "e \<noteq> Disconnect"
  shows "wire (ws_step parses throws e c) @ queue (ws_step parses throws e c) = wire c @ queue c @ sends e"
  using assms
  by (cases e)
    (auto simp: connect_def ensureConnected_def ws_send_def subscribe_def unsubscribe_def onOpen_def offOpen_def onopen_def
      onmessage_def onclose_def timer_fires_def renewal_settles_def flushed_def Let_def split: option.splits)

text \<open>
  C18. Frames leave in the order they were handed over and none is lost or doubled: over any history of
  calls, socket openings, failures, closings, timers and renewals in which the client is not told to
  disconnect, what went out over all sockets followed by what still waits is exactly what was sent.
\<close>

theorem frames_leave_in_order:
  assumes "Disconnect \<notin> set evs"
  shows "let c = fold (ws_step parses throws) evs ws_start in wire c @ queue c = concat (map sends evs)"
proof -
  have "flushed c \<Longrightarrow> Disconnect \<notin> set evs \<Longrightarrow>
      wire (fold (ws_step parses throws) evs c) @ queue (fold (ws_step parses throws) evs c) = wire c @ queue c @ concat (map sends evs)"
    for c
  proof (induction evs arbitrary: c)
    case (Cons e evs)
    then show ?case
      using flushed_step [of c parses throws e] ordered_step [of c e parses throws] by (auto simp: append_assoc [symmetric] simp del: append_assoc)
  qed simp
  from this [of ws_start] assms show ?thesis by (simp add: ws_start_def flushed_def)
qed


definition plain_step :: "ws_event \<Rightarrow> ws_client \<Rightarrow> ws_client" where
  "plain_step = ws_step (\<lambda>f. True) (\<lambda>f h. False)"

lemmas ws_eval = plain_step_def ws_start_def connect_def ensureConnected_def disconnect_def ws_open_def ws_send_def
  sock_send_def onopen_def onclose_def onmessage_def timer_fires_def renewal_settles_def upd_sock_def is_open_def start_close_def
  subscribe_def onOpen_def set_add_def CLOSE_REPLACED_def

theorem frames_leave_in_order_witness:
  "let c = fold (ws_step (\<lambda>f. True) (\<lambda>f h. False))
       [Connect ''ws'', Send ''a'', SockOpens 0, Send ''b'', SockCloses 0 1006, Send ''c''] ws_start
   in wire c = [''a'', ''b''] \<and> wire c @ queue c = [''a'', ''b'', ''c'']"
  using frames_leave_in_order [of "[Connect ''ws'', Send ''a'', SockOpens 0, Send ''b'', SockCloses 0 1006, Send ''c'']"
      "\<lambda>f. True" "\<lambda>f h. False"]
  by (simp add: ws_eval Let_def)

subsection \<open>When the client dials\<close>

text \<open>The backoff stays within a second and fifteen.\<close>

definition delay_ok :: "ws_client \<Rightarrow> bool" where
  "delay_ok c \<longleftrightarrow> reconnectDelay c \<in> {1000, 2000, 4000, 8000, 15000} \<and> snd ` set (timers c) \<subseteq> {1000, 2000, 4000, 8000, 15000}"

lemma delay_step: "delay_ok c \<Longrightarrow> delay_ok (ws_step parses throws e c)"
  by (cases e)
    (auto simp: delay_ok_def connect_def ensureConnected_def disconnect_def ws_send_def subscribe_def unsubscribe_def onOpen_def
      offOpen_def onopen_def onmessage_def onclose_def timer_fires_def renewal_settles_def Let_def ws_open_def
      dest: in_set_takeD in_set_dropD split: option.splits if_splits)

text \<open>The number of sockets ever created, and that a stopped client creates none.\<close>

definition dialled :: "ws_client \<Rightarrow> nat" where
  "dialled c = length (socks c)"

fun is_connect :: "ws_event \<Rightarrow> bool" where
  "is_connect (Connect url) = True"
| "is_connect _ = False"

lemma flush_dialled [simp]: "dialled (fold (sock_send i) q c) = dialled c"
  by (simp add: dialled_def)

lemma stopped_step:
  assumes "\<not> shouldRun c" and "\<not> is_connect e"
  shows "\<not> shouldRun (ws_step parses throws e c) \<and> dialled (ws_step parses throws e c) = dialled c"
  using assms
  by (cases e)
    (auto simp: dialled_def ensureConnected_def disconnect_def ws_send_def subscribe_def unsubscribe_def onOpen_def
      offOpen_def onopen_def onmessage_def onclose_def timer_fires_def renewal_settles_def Let_def ws_open_def split: option.splits)

lemma disconnect_fields [simp]: "\<not> shouldRun (disconnect c)" "dialled (disconnect c) = dialled c"
  by (auto simp: disconnect_def Let_def dialled_def split: option.splits)

text \<open>
  The client dials only within its schedule: over any history every pending retry waits between one
  and fifteen seconds, and once told to disconnect the client creates no socket, whatever sockets,
  timers and renewals still report, until it is told to connect again.
\<close>

theorem ws_dials_within_schedule:
  "let c = fold (ws_step parses throws) evs ws_start in
     reconnectDelay c \<in> {1000, 2000, 4000, 8000, 15000} \<and> snd ` set (timers c) \<subseteq> {1000, 2000, 4000, 8000, 15000} \<and>
     dialled (fold (ws_step parses throws) (filter (\<lambda>e. \<not> is_connect e) later) (disconnect c)) = dialled c"
proof -
  let ?c = "fold (ws_step parses throws) evs ws_start"
  have "delay_ok (fold (ws_step parses throws) es c)" if "delay_ok c" for es c
    using that by (induction es arbitrary: c) (simp_all add: delay_step)
  moreover have "delay_ok ws_start" by (simp add: delay_ok_def ws_start_def)
  ultimately have "delay_ok ?c" by blast
  moreover have "dialled (fold (ws_step parses throws) (filter (\<lambda>e. \<not> is_connect e) es) c) = dialled c"
    if "\<not> shouldRun c" for es c
    using that by (induction es arbitrary: c) (auto simp: stopped_step)
  ultimately show ?thesis by (simp add: delay_ok_def Let_def)
qed

text \<open>
  A socket the server replaced stays down: with no other socket alive and nothing pending, the close
  with code \<open>CLOSE_REPLACED\<close> is followed by no dialling until the person returns.
\<close>

definition quiet_client :: "ws_client \<Rightarrow> bool" where
  "quiet_client c \<longleftrightarrow> timers c = [] \<and> renewals c = 0 \<and> list_all (\<lambda>s. so_state s = Closed) (socks c)"

fun returns :: "ws_event \<Rightarrow> bool" where
  "returns (Connect url) = True"
| "returns (EnsureConnected url) = True"
| "returns _ = False"

lemma quiet_step:
  assumes "quiet_client c" and "\<not> returns e"
  shows "quiet_client (ws_step parses throws e c) \<and> dialled (ws_step parses throws e c) = dialled c"
proof -
  have closed: "so_state (socks c ! i) = Closed" if "i < length (socks c)" for i
    using assms(1) that by (simp add: quiet_client_def list_all_length)
  have same: "(socks c)[i := start_close (socks c ! i)] = socks c" for i
    using closed by (cases "i < length (socks c)") (simp_all add: start_close_def list_update_beyond)
  show ?thesis using assms closed same
    by (cases e)
      (auto simp: quiet_client_def dialled_def disconnect_def ws_send_def is_open_def subscribe_def unsubscribe_def onOpen_def offOpen_def
        Let_def upd_sock_def split: option.splits)
qed

theorem replaced_socket_stays_down:
  assumes "timers c = []" and "renewals c = 0" and "i < length (socks c)"
    and "list_all (\<lambda>s. so_state s = Closed) ((socks c)[i := (socks c ! i)\<lparr>so_state := Closed\<rparr>])"
    and "list_all (\<lambda>e. \<not> returns e) later"
  shows "dialled (fold (ws_step parses throws) (SockCloses i CLOSE_REPLACED # later) c) = dialled c"
proof -
  let ?c = "ws_step parses throws (SockCloses i CLOSE_REPLACED) c"
  have start: "quiet_client ?c \<and> dialled ?c = dialled c"
  proof (cases "so_state (socks c ! i) = Closed")
    case True
    then have "(socks c)[i := (socks c ! i)\<lparr>so_state := Closed\<rparr>] = socks c"
      by (metis list_update_id socket.surjective socket.update_convs(2))
    with assms True show ?thesis by (simp add: quiet_client_def)
  next
    case False
    with assms show ?thesis by (auto simp: quiet_client_def dialled_def onclose_def upd_sock_def Let_def)
  qed
  have "dialled (fold (ws_step parses throws) es d) = dialled d" if "quiet_client d" "list_all (\<lambda>e. \<not> returns e) es" for es d
    using that by (induction es arbitrary: d) (auto simp: quiet_step)
  with start assms(5) show ?thesis by simp
qed

subsection \<open>Finding: a second live socket\<close>

text \<open>
  The client can hold two live sockets at once. A socket drops, its retry is scheduled; the person
  returns to the app and \<open>ensureConnected\<close> dials at once; then the retry fires and dials again. Both
  sockets open, both are listened to, and an event the server sends to both is handled twice.
\<close>

definition double_dial :: "ws_event list" where
  "double_dial = [Connect ''ws'', Subscribe 7, SockOpens 0, SockCloses 0 1006, EnsureConnected ''ws'', SockOpens 1,
     TimerFires 0 ''ws'', SockOpens 2, SockBrings 1 ''e'', SockBrings 2 ''e'']"

text \<open>
  The client can hold two live sockets at once: after a drop, a return to the app while the retry is
  pending, and the retry firing, two sockets are open and a frame sent to both is handled twice.
\<close>

theorem ws_second_live_socket:
  "let c = fold (ws_step (\<lambda>f. True) (\<lambda>f h. False)) double_dial ws_start in
     so_state (socks c ! 1) = Open \<and> so_state (socks c ! 2) = Open \<and> delivered c = [(7, ''e''), (7, ''e'')]"
  by (simp add: double_dial_def ws_eval Let_def)


end
