(* ===== verification/Message_Cache.thy ===== *)
theory Message_Cache
  imports Sample_Platform
begin

text \<open>
  The message list a chat shows (\<open>useMessageCacheWriter\<close> and \<open>flattenMessages\<close> of
  \<open>entities/message/queries.ts\<close>): pages of messages, newest first, written by three sources that know
  nothing of each other: the page loader, the optimistic send with its answer, and the socket's echo.
  A list that was never loaded is \<open>None\<close>. Touching \<open>pages[0]\<close> of a list without pages throws.
\<close>

type_synonym page_cache = "message_page list option"

definition flattenMessages :: "page_cache \<Rightarrow> message list" where
  "flattenMessages pages = (case pages of None \<Rightarrow> [] | Some ps \<Rightarrow> rev (concat (map p_items ps)))"

definition present :: "string \<Rightarrow> message_page list \<Rightarrow> bool" where
  "present i pages \<longleftrightarrow> (\<exists>p \<in> set pages. \<exists>m \<in> set (p_items p). m_id m = i)"

definition prepend :: "message \<Rightarrow> message_page list \<Rightarrow> js_error + message_page list" where
  "prepend msg pages = (case pages of
      [] \<Rightarrow> Inl (JsError ''TypeError'')
    | p # ps \<Rightarrow> Inr (p\<lparr>p_items := msg # p_items p\<rparr> # ps))"

definition fresh_page :: "message \<Rightarrow> message_page list" where
  "fresh_page msg = [\<lparr>p_items = [msg], p_nextCursor = None, p_hasMore = False\<rparr>]"

definition cache_insert :: "message \<Rightarrow> page_cache \<Rightarrow> js_error + page_cache" where
  "cache_insert msg old = (case old of
      None \<Rightarrow> Inr None
    | Some pages \<Rightarrow> if present (m_id msg) pages then Inr old else sum_bind (prepend msg pages) (\<lambda>ps. Inr (Some ps)))"

definition cache_insertThread :: "message \<Rightarrow> page_cache \<Rightarrow> js_error + page_cache" where
  "cache_insertThread msg old = (case old of
      None \<Rightarrow> Inr (Some (fresh_page msg))
    | Some pages \<Rightarrow> if present (m_id msg) pages then Inr old else sum_bind (prepend msg pages) (\<lambda>ps. Inr (Some ps)))"

definition cache_patch :: "string \<Rightarrow> (message \<Rightarrow> message) \<Rightarrow> page_cache \<Rightarrow> page_cache" where
  "cache_patch messageId fn old =
     map_option (map (\<lambda>p. p\<lparr>p_items := map (\<lambda>m. if m_id m = messageId then fn m else m) (p_items p)\<rparr>)) old"

definition cache_insertPending :: "message \<Rightarrow> page_cache \<Rightarrow> js_error + page_cache" where
  "cache_insertPending msg old = (case old of
      None \<Rightarrow> Inr (Some (fresh_page msg))
    | Some pages \<Rightarrow> sum_bind (prepend msg pages) (\<lambda>ps. Inr (Some ps)))"

text \<open>The \<open>filter\<close> of \<open>resolvePending\<close>, which keeps the first message with the real id over all pages.\<close>

fun keep_first :: "string \<Rightarrow> bool \<Rightarrow> message list \<Rightarrow> message list \<times> bool" where
  "keep_first i seen [] = ([], seen)"
| "keep_first i seen (m # ms) =
     (if m_id m \<noteq> i then let (rest, s) = keep_first i seen ms in (m # rest, s)
      else if seen then keep_first i seen ms
      else let (rest, s) = keep_first i True ms in (m # rest, s))"

fun resolve_pages :: "string \<Rightarrow> message \<Rightarrow> bool \<Rightarrow> message_page list \<Rightarrow> message_page list" where
  "resolve_pages tempId real seenReal [] = []"
| "resolve_pages tempId real seenReal (p # ps) =
     (let swapped = map (\<lambda>m. if m_id m = tempId then real else m) (p_items p);
          (items, seen) = keep_first (m_id real) seenReal swapped
      in p\<lparr>p_items := items\<rparr> # resolve_pages tempId real seen ps)"

definition cache_resolvePending :: "string \<Rightarrow> message \<Rightarrow> page_cache \<Rightarrow> page_cache" where
  "cache_resolvePending tempId real old = map_option (resolve_pages tempId real False) old"

definition cache_remove :: "string \<Rightarrow> page_cache \<Rightarrow> page_cache" where
  "cache_remove messageId old = map_option (map (\<lambda>p. p\<lparr>p_items := filter (\<lambda>m. m_id m \<noteq> messageId) (p_items p)\<rparr>)) old"

subsection \<open>The list as one sequence\<close>

definition items :: "page_cache \<Rightarrow> message list" where
  "items c = (case c of None \<Rightarrow> [] | Some ps \<Rightarrow> concat (map p_items ps))"

lemma items_simps [simp]: "items None = []" "items (Some ps) = concat (map p_items ps)"
  by (simp_all add: items_def)

lemma flatten_items: "flattenMessages c = rev (items c)"
  by (cases c) (simp_all add: flattenMessages_def)

lemma present_items: "present i ps \<longleftrightarrow> i \<in> m_id ` set (concat (map p_items ps))"
  by (auto simp: present_def)

lemma items_prepend: "prepend msg ps = Inr ps' \<Longrightarrow> concat (map p_items ps') = msg # concat (map p_items ps)"
  by (cases ps) (auto simp: prepend_def)

lemma items_insert:
  "cache_insert msg c = Inr c' \<Longrightarrow>
     items c' = (if c = None \<or> m_id msg \<in> m_id ` set (items c) then items c else msg # items c)"
  by (cases c) (auto simp: cache_insert_def present_items sum_bind_def dest!: items_prepend split: if_splits sum.splits)

lemma items_insertPending: "cache_insertPending msg c = Inr c' \<Longrightarrow> items c' = msg # items c"
  by (cases c) (auto simp: cache_insertPending_def fresh_page_def sum_bind_def dest!: items_prepend split: sum.splits)

lemma items_remove: "items (cache_remove i c) = filter (\<lambda>m. m_id m \<noteq> i) (items c)"
proof (cases c)
  case (Some ps)
  then show ?thesis by (induction ps arbitrary: c) (auto simp: cache_remove_def)
qed (simp add: cache_remove_def)

lemma items_patch: "items (cache_patch i f c) = map (\<lambda>m. if m_id m = i then f m else m) (items c)"
proof (cases c)
  case (Some ps)
  then show ?thesis by (induction ps arbitrary: c) (auto simp: cache_patch_def)
qed (simp add: cache_patch_def)

lemma keep_first_append:
  "keep_first i seen (xs @ ys) =
     (let (a, s) = keep_first i seen xs; (b, s') = keep_first i s ys in (a @ b, s'))"
  by (induction i seen xs rule: keep_first.induct) (auto simp: Let_def split: prod.splits)

lemma items_resolve_pages:
  "concat (map p_items (resolve_pages t r seen ps)) =
     fst (keep_first (m_id r) seen (map (\<lambda>m. if m_id m = t then r else m) (concat (map p_items ps))))"
  by (induction t r seen ps rule: resolve_pages.induct) (auto simp: Let_def keep_first_append split: prod.splits)

lemma items_resolve:
  "items (cache_resolvePending t r c) = fst (keep_first (m_id r) False (map (\<lambda>m. if m_id m = t then r else m) (items c)))"
  by (cases c) (simp_all add: cache_resolvePending_def items_resolve_pages)

lemma keep_first_ids: "set (fst (keep_first i seen ms)) \<subseteq> set ms"
  "i \<notin> m_id ` set ms \<Longrightarrow> keep_first i seen ms = (ms, seen)"
  "seen \<Longrightarrow> fst (keep_first i seen ms) = filter (\<lambda>m. m_id m \<noteq> i) ms"
  "\<not> seen \<Longrightarrow> i \<in> m_id ` set ms \<Longrightarrow> \<exists>xs m ys. ms = xs @ m # ys \<and> m_id m = i \<and> i \<notin> m_id ` set xs \<and>
     fst (keep_first i seen ms) = xs @ m # filter (\<lambda>m. m_id m \<noteq> i) ys"
  subgoal by (induction i seen ms rule: keep_first.induct) (auto simp: Let_def split: prod.splits)
  subgoal by (induction i seen ms rule: keep_first.induct) (auto simp: Let_def)
  subgoal by (induction i seen ms rule: keep_first.induct) (auto simp: Let_def split: prod.splits)
  subgoal
  proof (induction ms)
    case (Cons m ms)
    show ?case
    proof (cases "m_id m = i")
      case True
      have "fst (keep_first i True ms) = filter (\<lambda>m. m_id m \<noteq> i) ms"
        by (induction ms) (auto simp: Let_def split: prod.splits)
      with True Cons.prems(1) show ?thesis
        by (rule_tac x = "[]" in exI, rule_tac x = m in exI, rule_tac x = ms in exI) (auto simp: Let_def split: prod.splits)
    next
      case False
      with Cons obtain xs x ys where "ms = xs @ x # ys" "m_id x = i" "i \<notin> m_id ` set xs"
        "fst (keep_first i seen ms) = xs @ x # filter (\<lambda>m. m_id m \<noteq> i) ys" by auto
      with False Cons.prems(1) show ?thesis
        by (rule_tac x = "m # xs" in exI, rule_tac x = x in exI, rule_tac x = ys in exI) (auto simp: Let_def split: prod.splits)
    qed
  qed simp
  done

subsection \<open>One bubble per message\<close>

text \<open>
  C25. The optimistic bubble, the server's answer and the socket's echo add up to one message in either
  order: showing a pending bubble and then receiving the echo and the answer, or the answer and the echo,
  leaves the list with the real message once in front, the bubble gone and everything else as it was.
\<close>

theorem echo_and_answer_leave_one_message:
  assumes "c \<noteq> Some []" and "m_id temp \<notin> m_id ` set (items c)" and "m_id real \<notin> m_id ` set (items c)"
    and "m_id temp \<noteq> m_id real"
  shows "\<exists>c1 c2 c3. cache_insertPending temp c = Inr c1 \<and>
    cache_insert real c1 = Inr c2 \<and> items (cache_resolvePending (m_id temp) real c2) = real # items c \<and>
    cache_insert real (cache_resolvePending (m_id temp) real c1) = Inr c3 \<and> items c3 = real # items c"
proof -
  obtain p ps where p: "cache_insertPending temp c = Inr (Some (p # ps))"
    using assms(1) by (cases c) (auto simp: cache_insertPending_def fresh_page_def prepend_def neq_Nil_conv)
  let ?c1 = "Some (p # ps)"
  have i1: "items ?c1 = temp # items c" by (rule items_insertPending [OF p])
  have "\<not> present (m_id real) (p # ps)"
    using i1 assms(3,4) by (simp add: present_items)
  then obtain c2 where c2: "cache_insert real ?c1 = Inr c2" by (auto simp: cache_insert_def prepend_def)
  have "m_id real \<notin> m_id ` set (items ?c1)" unfolding i1 using assms(3,4) by auto
  then have "items c2 = real # temp # items c"
    using items_insert [OF c2] unfolding i1 by simp
  moreover have swap: "map (\<lambda>m. if m_id m = m_id temp then real else m) (items c) = items c"
    by (rule map_idI) (metis assms(2) image_eqI)
  ultimately have r2: "items (cache_resolvePending (m_id temp) real c2) = real # items c"
    using assms(3,4) by (simp add: items_resolve keep_first_ids(2))
  have r1: "items (cache_resolvePending (m_id temp) real ?c1) = real # items c"
    unfolding items_resolve i1 using assms(3) swap by (simp add: keep_first_ids(2))
  then have "m_id real \<in> m_id ` set (items (cache_resolvePending (m_id temp) real ?c1))" by simp
  moreover obtain ps' where "cache_resolvePending (m_id temp) real ?c1 = Some ps'"
    by (simp add: cache_resolvePending_def)
  ultimately have ps': "cache_resolvePending (m_id temp) real ?c1 = Some ps'" "present (m_id real) ps'"
    by (simp_all add: present_items del: resolve_pages.simps)
  then have "cache_insert real (cache_resolvePending (m_id temp) real ?c1) = Inr (Some ps')"
    by (simp add: cache_insert_def)
  with p c2 r2 r1 ps' show ?thesis by auto
qed

theorem echo_and_answer_leave_one_message_witness:
  "\<exists>c1 c2 c3. cache_insertPending (sample_message\<lparr>m_id := ''tmp''\<rparr>) None = Inr c1 \<and>
    cache_insert sample_message c1 = Inr c2 \<and> items (cache_resolvePending ''tmp'' sample_message c2) = [sample_message] \<and>
    cache_insert sample_message (cache_resolvePending ''tmp'' sample_message c1) = Inr c3 \<and> items c3 = [sample_message]"
  using echo_and_answer_leave_one_message [of None "sample_message\<lparr>m_id := ''tmp''\<rparr>" sample_message]
  by (simp add: sample_message_def)

datatype cache_op =
    CInsert message
  | CPending message
  | CResolve string message
  | CPatch string "message \<Rightarrow> message"
  | CRemove string

fun cache_step :: "cache_op \<Rightarrow> page_cache \<Rightarrow> page_cache" where
  "cache_step (CInsert m) c = (case cache_insert m c of Inl e \<Rightarrow> c | Inr c' \<Rightarrow> c')"
| "cache_step (CPending m) c = (case cache_insertPending m c of Inl e \<Rightarrow> c | Inr c' \<Rightarrow> c')"
| "cache_step (CResolve t r) c = cache_resolvePending t r c"
| "cache_step (CPatch i f) c = cache_patch i f c"
| "cache_step (CRemove i) c = cache_remove i c"

text \<open>A pending bubble carries a new random id, and a patch does not change the id.\<close>

fun cache_op_ok :: "page_cache \<Rightarrow> cache_op \<Rightarrow> bool" where
  "cache_op_ok c (CPending m) = (m_id m \<notin> m_id ` set (items c))"
| "cache_op_ok c (CPatch i f) = (\<forall>m \<in> set (items c). m_id (f m) = m_id m)"
| "cache_op_ok c _ = True"

fun cache_ops_ok :: "page_cache \<Rightarrow> cache_op list \<Rightarrow> bool" where
  "cache_ops_ok c [] = True"
| "cache_ops_ok c (op # ops) = (cache_op_ok c op \<and> cache_ops_ok (cache_step op c) ops)"

lemma distinct_resolve:
  assumes "distinct (map m_id ms)"
  shows "distinct (map m_id (fst (keep_first (m_id r) False (map (\<lambda>m. if m_id m = t then r else m) ms))))"
proof (cases "m_id r \<in> m_id ` set (map (\<lambda>m. if m_id m = t then r else m) ms)")
  case True
  let ?g = "\<lambda>m. if m_id m = t then r else m"
  obtain xs m ys where split: "map ?g ms = xs @ m # ys" and m: "m_id m = m_id r" "m_id r \<notin> m_id ` set xs"
    and out: "fst (keep_first (m_id r) False (map ?g ms)) = xs @ m # filter (\<lambda>m. m_id m \<noteq> m_id r) ys"
    using keep_first_ids(4) [OF _ True, of False] by blast
  have "filter (\<lambda>m. m_id m \<noteq> m_id r) (map ?g ms) = filter (\<lambda>m. m_id m \<noteq> m_id r \<and> m_id m \<noteq> t) ms"
    by (induction ms) auto
  moreover have "filter (\<lambda>m. m_id m \<noteq> m_id r) xs = xs"
    by (rule filter_True) (metis m(2) image_eqI)
  ultimately have "xs @ filter (\<lambda>m. m_id m \<noteq> m_id r) ys = filter (\<lambda>m. m_id m \<noteq> m_id r \<and> m_id m \<noteq> t) ms"
    using split m(1) by simp
  moreover have "distinct (map m_id (filter (\<lambda>m. m_id m \<noteq> m_id r \<and> m_id m \<noteq> t) ms))"
    using assms by (rule distinct_map_filter)
  ultimately have "distinct (map m_id (xs @ filter (\<lambda>m. m_id m \<noteq> m_id r) ys))" by simp
  then show ?thesis unfolding out using m by auto
next
  case False
  let ?g = "\<lambda>m. if m_id m = t then r else m"
  have "\<forall>m \<in> set ms. m_id m \<noteq> t" using False by (auto simp: image_iff split: if_splits)
  then have "map ?g ms = ms" by (intro map_idI) auto
  with False assms show ?thesis by (simp add: keep_first_ids(2))
qed

lemma cache_step_distinct:
  assumes "distinct (map m_id (items c))" and "cache_op_ok c op"
  shows "distinct (map m_id (items (cache_step op c)))"
proof (cases op)
  case (CInsert m)
  show ?thesis
  proof (cases "cache_insert m c")
    case (Inr c')
    with items_insert [OF this] assms CInsert show ?thesis by auto
  qed (use assms CInsert in simp)
next
  case (CPending m)
  show ?thesis
  proof (cases "cache_insertPending m c")
    case (Inr c')
    with items_insertPending [OF this] assms CPending show ?thesis by auto
  qed (use assms CPending in simp)
next
  case (CResolve t r)
  with assms show ?thesis by (simp add: items_resolve distinct_resolve)
next
  case (CPatch i f)
  have "map m_id (items (cache_patch i f c)) = map m_id (items c)"
    unfolding items_patch map_map using assms(2) CPatch by (intro map_cong) auto
  with assms CPatch show ?thesis by simp
next
  case (CRemove i)
  with assms show ?thesis by (simp add: items_remove distinct_map_filter)
qed

text \<open>
  C26. A chat's list never shows a message twice: from a list with distinct ids, any sequence of inserts,
  pending bubbles with new ids, answers, patches and removals keeps the ids distinct, and the flattened
  list drawn on the screen is the pages' content oldest first.
\<close>

theorem message_list_ids_distinct:
  assumes "distinct (map m_id (items c))" and "cache_ops_ok c ops"
  shows "distinct (map m_id (flattenMessages (fold cache_step ops c)))"
  using assms
proof (induction ops arbitrary: c)
  case Nil
  then show ?case by (simp add: flatten_items rev_map [symmetric])
next
  case (Cons op ops)
  then show ?case using cache_step_distinct [of c op] by simp
qed

theorem message_list_ids_distinct_witness:
  "distinct (map m_id (flattenMessages (fold cache_step
     [CPending (sample_message\<lparr>m_id := ''tmp''\<rparr>), CInsert sample_message, CResolve ''tmp'' sample_message, CRemove ''x''] None)))"
  by (rule message_list_ids_distinct) simp_all

end
