(* ===== verification/Client_Stores.thy ===== *)
theory Client_Stores
  imports Kisy_Prelude
begin

text \<open>
  The small stores of \<open>shared/store\<close>: who is online, who is typing, how far the other side has read, and
  unsent drafts. A JavaScript object used as a dictionary is a map; ISO timestamps are compared as
  strings, as the code does. The typing store's timeouts are kept with their key and deadline; each
  fires at its deadline unless it was cleared.
\<close>

subsection \<open>Presence\<close>

definition setOnline :: "string \<Rightarrow> bool \<Rightarrow> string set \<Rightarrow> string set" where
  "setOnline userId isOnline online = (if isOnline then insert userId online else online - {userId})"

subsection \<open>Typing\<close>

record typing_store =
  byChat :: "string \<rightharpoonup> string set"
  typing_timers :: "(string \<times> string) \<rightharpoonup> nat"

definition typing_start :: "nat \<Rightarrow> string \<Rightarrow> string \<Rightarrow> typing_store \<Rightarrow> typing_store" where
  "typing_start now chatId userId s =
     s\<lparr>typing_timers := (typing_timers s)((chatId, userId) \<mapsto> now + 4000),
       byChat := (byChat s)(chatId \<mapsto> insert userId (case byChat s chatId of Some us \<Rightarrow> us | None \<Rightarrow> {}))\<rparr>"

definition typing_stop :: "string \<Rightarrow> string \<Rightarrow> typing_store \<Rightarrow> typing_store" where
  "typing_stop chatId userId s = (case byChat s chatId of
      None \<Rightarrow> s
    | Some us \<Rightarrow> s\<lparr>byChat := (byChat s)(chatId \<mapsto> us - {userId})\<rparr>)"

text \<open>A timeout's callback; a timeout that has fired is gone.\<close>

definition typing_timeout :: "nat \<Rightarrow> string \<Rightarrow> string \<Rightarrow> typing_store \<Rightarrow> typing_store" where
  "typing_timeout now chatId userId s =
     (if typing_timers s (chatId, userId) = Some now
      then typing_stop chatId userId (s\<lparr>typing_timers := (typing_timers s)((chatId, userId) := None)\<rparr>)
      else s)"

definition is_typing :: "typing_store \<Rightarrow> string \<Rightarrow> string \<Rightarrow> bool" where
  "is_typing s chatId userId \<longleftrightarrow> (case byChat s chatId of Some us \<Rightarrow> userId \<in> us | None \<Rightarrow> False)"

text \<open>An indicator always has a pending timeout: a lost \<open>typing.stopped\<close> cannot leave it stuck.\<close>

definition typing_expires :: "typing_store \<Rightarrow> bool" where
  "typing_expires s \<longleftrightarrow> (\<forall>c u. is_typing s c u \<longrightarrow> typing_timers s (c, u) \<noteq> None)"

lemma typing_expires_start: "typing_expires s \<Longrightarrow> typing_expires (typing_start now c u s)"
  by (auto simp: typing_expires_def typing_start_def is_typing_def split: option.splits if_splits)

lemma typing_expires_stop: "typing_expires s \<Longrightarrow> typing_expires (typing_stop c u s)"
  by (auto simp: typing_expires_def typing_stop_def is_typing_def split: option.splits if_splits)

lemma typing_expires_timeout: "typing_expires s \<Longrightarrow> typing_expires (typing_timeout now c u s)"
  by (auto simp: typing_expires_def typing_timeout_def typing_stop_def is_typing_def split: option.splits if_splits)

lemma typing_timeout_ends:
  "typing_timers s (c, u) = Some now \<Longrightarrow> \<not> is_typing (typing_timeout now c u s) c u"
  by (auto simp: typing_timeout_def typing_stop_def is_typing_def split: option.splits)

subsection \<open>Read receipts\<close>

definition receipt_advance :: "string \<Rightarrow> string \<Rightarrow> (string \<rightharpoonup> string) \<Rightarrow> (string \<rightharpoonup> string)" where
  "receipt_advance chatId stamp otherReadAt = (case otherReadAt chatId of
      Some cur \<Rightarrow> (if cur \<noteq> '''' \<and> cur \<ge> stamp then otherReadAt else otherReadAt(chatId \<mapsto> stamp))
    | None \<Rightarrow> otherReadAt(chatId \<mapsto> stamp))"

definition receipt_seed :: "string \<Rightarrow> string option \<Rightarrow> (string \<rightharpoonup> string) \<Rightarrow> (string \<rightharpoonup> string)" where
  "receipt_seed chatId stamp otherReadAt = (case stamp of
      None \<Rightarrow> otherReadAt
    | Some stamp \<Rightarrow> (if stamp = '''' then otherReadAt else receipt_advance chatId stamp otherReadAt))"

definition read_position :: "(string \<rightharpoonup> string) \<Rightarrow> string \<Rightarrow> string" where
  "read_position r c = (case r c of Some stamp \<Rightarrow> stamp | None \<Rightarrow> '''')"

lemma nil_least: "([] :: 'a :: linorder list) \<le> xs"
  by (cases xs) (simp_all add: list_le_def list_less_def)

lemma read_position_advance:
  "read_position (receipt_advance c stamp r) d = (if d = c then max (read_position r c) stamp else read_position r d)"
  by (auto simp: receipt_advance_def read_position_def max_def nil_least not_le split: option.splits dest: less_imp_le)

lemma read_position_seed:
  "read_position (receipt_seed c stamp r) d =
     (if d = c then max (read_position r c) (case stamp of Some i \<Rightarrow> i | None \<Rightarrow> '''') else read_position r d)"
proof -
  have "max x [] = x" for x :: string
    using nil_least [of x] by (simp add: max_def)
  then show ?thesis
    by (auto simp: receipt_seed_def read_position_advance split: option.splits)
qed

subsection \<open>Drafts\<close>

definition setDraft :: "string \<Rightarrow> string \<Rightarrow> (string \<rightharpoonup> string) \<Rightarrow> (string \<rightharpoonup> string)" where
  "setDraft chatId txt drafts = (if txt = '''' then (if chatId \<notin> dom drafts then drafts else drafts(chatId := None))
     else drafts(chatId \<mapsto> txt))"

definition clearDraft :: "string \<Rightarrow> (string \<rightharpoonup> string) \<Rightarrow> (string \<rightharpoonup> string)" where
  "clearDraft chatId drafts = (if chatId \<notin> dom drafts then drafts else drafts(chatId := None))"

lemma setDraft_read: "setDraft c t d c = (if t = '''' then None else Some t)" "c' \<noteq> c \<Longrightarrow> setDraft c t d c' = d c'"
  by (auto simp: setDraft_def)

lemma clearDraft_read: "clearDraft c d c' = (if c' = c then None else d c')"
  by (auto simp: clearDraft_def)

end
