(* ===== verification/Realtime.thy ===== *)
theory Realtime
  imports E2ee_Reading Message_Cache Client_Stores
begin

text \<open>
  Server events into the caches: \<open>shared/ws/events.ts\<close> and the routing of \<open>app/useRealtime.ts\<close>. The query
  cache is what the handlers touch of it: the page lists by query key, the chat list, and the keys
  invalidated so far. The end-to-end encryption world is the one of the \<open>E2ee\<close> theories; a page's state
  is the two together. A promise nobody awaits (\<open>void f()\<close>) keeps the effects it made before it failed.
\<close>

type_synonym query_key = "string list"

fun chat_type_name :: "chat_type \<Rightarrow> string" where
  "chat_type_name Private = ''private''"
| "chat_type_name Group = ''group''"

definition messageKeys_list :: "chat_type \<Rightarrow> string \<Rightarrow> query_key" where
  "messageKeys_list chatType chatId = [''messages'', chat_type_name chatType, chatId]"

definition messageKeys_pinned :: "chat_type \<Rightarrow> string \<Rightarrow> query_key" where
  "messageKeys_pinned chatType chatId = [''pinned'', chat_type_name chatType, chatId]"

definition messageKeys_thread :: "string \<Rightarrow> query_key" where
  "messageKeys_thread rootId = [''thread'', rootId]"

record rt =
  qc_pages :: "query_key \<Rightarrow> page_cache"
  qc_chats :: "chat list option"
  qc_invalid :: "query_key list"
  rt_user :: "user option"
  rt_online :: "string set"
  rt_typing :: typing_store
  rt_otherReadAt :: "string \<rightharpoonup> string"
  rt_closedPushes :: "string list"

definition invalidateQueries :: "query_key \<Rightarrow> rt \<Rightarrow> rt" where
  "invalidateQueries k r = r\<lparr>qc_invalid := qc_invalid r @ [k]\<rparr>"

definition setQueryData :: "query_key \<Rightarrow> (page_cache \<Rightarrow> js_error + page_cache) \<Rightarrow> rt \<Rightarrow> js_error + rt" where
  "setQueryData k f r = sum_bind (f (qc_pages r k)) (\<lambda>c. Inr (r\<lparr>qc_pages := (qc_pages r)(k := c)\<rparr>))"

text \<open>\<open>setQueriesData\<close> with a key prefix rewrites every cached query under it.\<close>

definition setQueriesData :: "query_key \<Rightarrow> (page_cache \<Rightarrow> page_cache) \<Rightarrow> rt \<Rightarrow> rt" where
  "setQueriesData pre f r = r\<lparr>qc_pages := (\<lambda>k. if prefix pre k then f (qc_pages r k) else qc_pages r k)\<rparr>"

definition setChats :: "(chat list \<Rightarrow> chat list) \<Rightarrow> rt \<Rightarrow> rt" where
  "setChats f r = r\<lparr>qc_chats := map_option f (qc_chats r)\<rparr>"

subsection \<open>Helpers of the routing\<close>

definition refreshGroups :: "rt \<Rightarrow> rt" where
  "refreshGroups r = fold invalidateQueries
     [[''groups''], [''groups'', ''directory''], [''group-requests''], [''group-viewer''], [''group-sanctions'']] r"

definition refreshAfterGap :: "rt \<Rightarrow> rt" where
  "refreshAfterGap r = refreshGroups (fold invalidateQueries [[''messages''], [''chats''], [''notifications'']] r)"

definition openChat :: "string option \<Rightarrow> rt \<Rightarrow> rt" where
  "openChat activeChatId r = (case activeChatId of
      None \<Rightarrow> r
    | Some i \<Rightarrow> (if i = '''' then r else setChats (map (\<lambda>c. if c_id c = i then c\<lparr>c_unreadCount := 0\<rparr> else c)) r))"

definition handleUserUpdated :: "user \<Rightarrow> string \<Rightarrow> rt \<Rightarrow> rt" where
  "handleUserUpdated updated meId r =
     (let r1 = (if u_id updated = meId then r\<lparr>rt_user := Some updated\<rparr> else r);
          r2 = setChats (map (\<lambda>c. if c_otherUserId c = u_id updated then c\<lparr>c_otherUser := Some updated\<rparr> else c)) r1
      in invalidateQueries [''group-members''] r2)"

definition handleMessageRead :: "string \<Rightarrow> chat_type \<Rightarrow> string \<Rightarrow> string \<Rightarrow> rt \<Rightarrow> rt" where
  "handleMessageRead nowIso chatType chatId messageId r =
     (let stamp = (case find (\<lambda>m. m_id m = messageId) (items (qc_pages r (messageKeys_list chatType chatId))) of
             Some m \<Rightarrow> m_createdAt m | None \<Rightarrow> nowIso)
      in r\<lparr>rt_otherReadAt := receipt_advance chatId stamp (rt_otherReadAt r)\<rparr>)"

definition removeMessage :: "chat_type \<Rightarrow> string \<Rightarrow> string \<Rightarrow> rt \<Rightarrow> rt" where
  "removeMessage chatType chatId messageId r =
     (let k = messageKeys_list chatType chatId;
          r1 = r\<lparr>qc_pages := (qc_pages r)(k := cache_remove messageId (qc_pages r k))\<rparr>
      in setQueriesData [''thread''] (cache_remove messageId) r1)"

definition patchMessage :: "chat_type \<Rightarrow> string \<Rightarrow> string \<Rightarrow> (message \<Rightarrow> message) \<Rightarrow> rt \<Rightarrow> rt" where
  "patchMessage chatType chatId messageId fn r =
     (let k = messageKeys_list chatType chatId;
          r1 = r\<lparr>qc_pages := (qc_pages r)(k := cache_patch messageId fn (qc_pages r k))\<rparr>
      in setQueriesData [''thread''] (cache_patch messageId fn) r1)"

text \<open>The chat list when a message of someone else arrives: an unknown chat asks for a fresh list.\<close>

definition raiseChat :: "message \<Rightarrow> string option \<Rightarrow> rt \<Rightarrow> rt" where
  "raiseChat msg activeChatId r = (case qc_chats r of
      None \<Rightarrow> r
    | Some prev \<Rightarrow> (case find (\<lambda>c. c_id c = m_chatId msg) prev of
          None \<Rightarrow> invalidateQueries [''chats''] r
        | Some c \<Rightarrow>
            let idx = length (takeWhile (\<lambda>c. c_id c \<noteq> m_chatId msg) prev);
                isActive = (activeChatId = Some (m_chatId msg));
                updated = c\<lparr>c_unreadCount := (if isActive then 0 else c_unreadCount c + 1)\<rparr>;
                rest = take idx prev @ drop (Suc idx) prev
            in r\<lparr>qc_chats := Some (updated # rest)\<rparr>))"

text \<open>What follows once the message is readable; the first write that throws ends it.\<close>

definition threadBump :: "message \<Rightarrow> message \<Rightarrow> message" where
  "threadBump msg root = root\<lparr>m_threadReplyCount := Some ((case m_threadReplyCount root of Some n \<Rightarrow> n | None \<Rightarrow> 0) + 1),
     m_threadLastReplyAt := Some (m_createdAt msg)\<rparr>"

definition placeMessage :: "message \<Rightarrow> string \<Rightarrow> string option \<Rightarrow> rt \<Rightarrow> js_error option \<times> rt" where
  "placeMessage msg meId activeChatId r0 =
     (let r = (if truthy (m_scheduledId msg) \<and> m_senderId msg = meId then invalidateQueries [''scheduled-messages''] r0 else r0) in
      if truthy (m_threadRootId msg) then
        let rootId = the (m_threadRootId msg) in
        (case setQueryData (messageKeys_thread rootId) (cache_insert msg) r of
           Inl e \<Rightarrow> (Some e, r)
         | Inr r' \<Rightarrow> (None, patchMessage (m_chatType msg) (m_chatId msg) rootId (threadBump msg) r'))
      else
        (case setQueryData (messageKeys_list (m_chatType msg) (m_chatId msg)) (cache_insert msg) r of
           Inl e \<Rightarrow> (Some e, r)
         | Inr r' \<Rightarrow> (None, if m_senderId msg \<noteq> meId then raiseChat msg activeChatId r' else r')))"

type_synonym ('st, 'env) page_state = "('st, 'env) world \<times> rt"

definition handleMessageCreated ::
  "('st, 'pub, 'wel, 'msg, 'env) platform \<Rightarrow> message \<Rightarrow> string \<Rightarrow> string option \<Rightarrow> ('st, 'env) page_state \<Rightarrow> ('st, 'env) page_state" where
  "handleMessageCreated P raw meId activeChatId pg =
     (case session (e2ee_vars (fst pg)) of
        Some s \<Rightarrow>
          if truthy (m_ciphertext raw) then
            (case hydrateMessage P s raw (fst pg) of
               (Inl e, w) \<Rightarrow> (w, snd pg)
             | (Inr msg, w) \<Rightarrow>
                 if m_undecryptable msg \<and> m_senderId raw = meId then (w, snd pg)
                 else (w, snd (placeMessage msg meId activeChatId (snd pg))))
          else (fst pg, snd (placeMessage raw meId activeChatId (snd pg)))
      | None \<Rightarrow> (fst pg, snd (placeMessage raw meId activeChatId (snd pg))))"

subsection \<open>The events\<close>

record typing_data =
  td_chatType :: chat_type
  td_chatId :: string
  td_userId :: string

datatype server_event =
    MessageCreated message
  | MessageUpdated message
  | MessageDeleted chat_type string string bool
  | MessageRead typing_data string
  | TypingStarted typing_data
  | TypingStopped typing_data
  | UserOnline string
  | UserOffline string
  | UserUpdated user
  | ReactionAdded typing_data string string
  | ReactionRemoved typing_data string string
  | NotificationCreated
  | NotificationRevoked string
  | BoardChanged string
  | CalendarChanged string
  | GroupChanged string
  | RatingChanged
  | PollChanged
  | E2eeHandshake chat_type string
  | E2eeWelcome chat_type string string
  | E2eeDeviceAdded chat_type string string string
  | CallEvent string
  | ErrorEvent string

text \<open>A floating promise of the encryption code: its effects, and what \<open>then\<close> does with its value.\<close>

definition float_e2ee :: "('st, 'env, 'a) e2ee \<Rightarrow> ('a \<Rightarrow> rt \<Rightarrow> rt) \<Rightarrow> ('st, 'env) page_state \<Rightarrow> ('st, 'env) page_state" where
  "float_e2ee m k pg = (case m (fst pg) of (Inl e, w) \<Rightarrow> (w, snd pg) | (Inr a, w) \<Rightarrow> (w, k a (snd pg)))"

definition with_session :: "(e2ee_session \<Rightarrow> ('st, 'env) page_state \<Rightarrow> ('st, 'env) page_state) \<Rightarrow> ('st, 'env) page_state \<Rightarrow> ('st, 'env) page_state" where
  "with_session f pg = (case session (e2ee_vars (fst pg)) of Some s \<Rightarrow> f s pg | None \<Rightarrow> pg)"

definition applyUpdate :: "message \<Rightarrow> message \<Rightarrow> message" where
  "applyUpdate upd m = m\<lparr>m_text := m_text upd, m_editedAt := m_editedAt upd, m_pinnedAt := m_pinnedAt upd\<rparr>"

fun route ::
  "('st, 'pub, 'wel, 'msg, 'env) platform \<Rightarrow> nat \<Rightarrow> string \<Rightarrow> string \<Rightarrow> string option \<Rightarrow> server_event
    \<Rightarrow> ('st, 'env) page_state \<Rightarrow> ('st, 'env) page_state" where
  "route P now nowIso meId active (MessageCreated raw) pg = handleMessageCreated P raw meId active pg"
| "route P now nowIso meId active (E2eeWelcome t c d) pg = with_session (\<lambda>s.
     float_e2ee (processWelcomes P s) (\<lambda>joined. fold (\<lambda>chatId. invalidateQueries (messageKeys_list Private chatId)) joined)) pg"
| "route P now nowIso meId active (E2eeDeviceAdded t c d u) pg = with_session (\<lambda>s.
     float_e2ee (addDeviceToChat P s c d u) (\<lambda>added. if added then invalidateQueries (messageKeys_list Private c) else id)) pg"
| "route P now nowIso meId active (E2eeHandshake t c) pg = with_session (\<lambda>s.
     float_e2ee (processChatHandshake P s t c) (\<lambda>_. id)) pg"
| "route P now nowIso meId active (MessageUpdated upd) pg =
     apsnd (\<lambda>r. invalidateQueries (messageKeys_pinned (m_chatType upd) (m_chatId upd))
       (patchMessage (m_chatType upd) (m_chatId upd) (m_id upd) (applyUpdate upd) r)) pg"
| "route P now nowIso meId active (MessageDeleted t c i gone) pg =
     (let pg1 = with_session (\<lambda>s. float_e2ee (dropPlaintext s i) (\<lambda>_. id)) pg in
      if gone then apsnd (\<lambda>r. invalidateQueries (messageKeys_pinned t c) (removeMessage t c i r)) pg1
      else apsnd (patchMessage t c i (\<lambda>m. m\<lparr>m_isDeleted := True, m_text := None\<rparr>)) pg1)"
| "route P now nowIso meId active (MessageRead d i) pg =
     (if td_userId d \<noteq> meId then apsnd (handleMessageRead nowIso (td_chatType d) (td_chatId d) i) pg else pg)"
| "route P now nowIso meId active (ReactionAdded d i e) pg = apsnd (invalidateQueries (messageKeys_list (td_chatType d) (td_chatId d))) pg"
| "route P now nowIso meId active (ReactionRemoved d i e) pg = apsnd (invalidateQueries (messageKeys_list (td_chatType d) (td_chatId d))) pg"
| "route P now nowIso meId active (TypingStarted d) pg =
     (if td_userId d \<noteq> meId then apsnd (\<lambda>r. r\<lparr>rt_typing := typing_start now (td_chatId d) (td_userId d) (rt_typing r)\<rparr>) pg else pg)"
| "route P now nowIso meId active (TypingStopped d) pg =
     apsnd (\<lambda>r. r\<lparr>rt_typing := typing_stop (td_chatId d) (td_userId d) (rt_typing r)\<rparr>) pg"
| "route P now nowIso meId active (UserOnline u) pg = apsnd (\<lambda>r. r\<lparr>rt_online := setOnline u True (rt_online r)\<rparr>) pg"
| "route P now nowIso meId active (UserOffline u) pg = apsnd (\<lambda>r. r\<lparr>rt_online := setOnline u False (rt_online r)\<rparr>) pg"
| "route P now nowIso meId active (UserUpdated u) pg = apsnd (handleUserUpdated u meId) pg"
| "route P now nowIso meId active (GroupChanged g) pg = apsnd refreshGroups pg"
| "route P now nowIso meId active RatingChanged pg = apsnd (invalidateQueries [''rating'']) pg"
| "route P now nowIso meId active PollChanged pg = apsnd (invalidateQueries [''polls'']) pg"
| "route P now nowIso meId active NotificationCreated pg = apsnd (invalidateQueries [''notifications'']) pg"
| "route P now nowIso meId active (NotificationRevoked a) pg =
     apsnd (\<lambda>r. (invalidateQueries [''notifications''] r)\<lparr>rt_closedPushes := rt_closedPushes r @ [a]\<rparr>) pg"
| "route P now nowIso meId active (BoardChanged g) pg = apsnd (invalidateQueries [''board'', g]) pg"
| "route P now nowIso meId active (CalendarChanged g) pg = apsnd (invalidateQueries [''calendar'', g]) pg"
| "route P now nowIso meId active (CallEvent e) pg = pg"
| "route P now nowIso meId active (ErrorEvent e) pg = pg"

subsection \<open>What the writes do to a cached list\<close>

lemma messageKeys_distinct [simp]: "\<not> prefix [''thread''] (messageKeys_list t c)" "prefix [''thread''] (messageKeys_thread i)"
  by (simp_all add: messageKeys_list_def messageKeys_thread_def)

definition touched :: "chat_type \<Rightarrow> string \<Rightarrow> query_key \<Rightarrow> bool" where
  "touched t c k \<longleftrightarrow> k = messageKeys_list t c \<or> prefix [''thread''] k"

lemma pages_patch: "qc_pages (patchMessage t c i fn r) k = (if touched t c k then cache_patch i fn (qc_pages r k) else qc_pages r k)"
  by (auto simp: patchMessage_def setQueriesData_def touched_def Let_def)

lemma pages_remove: "qc_pages (removeMessage t c i r) k = (if touched t c k then cache_remove i (qc_pages r k) else qc_pages r k)"
  by (auto simp: removeMessage_def setQueriesData_def touched_def Let_def)

lemma invalidate_fields [simp]:
  "qc_pages (invalidateQueries k r) = qc_pages r" "qc_chats (invalidateQueries k r) = qc_chats r"
  "rt_otherReadAt (invalidateQueries k r) = rt_otherReadAt r"
  by (simp_all add: invalidateQueries_def)

lemma invalidate_all [simp]:
  "qc_pages (fold (\<lambda>x. invalidateQueries (f x)) ks r) = qc_pages r"
  "rt_otherReadAt (fold (\<lambda>x. invalidateQueries (f x)) ks r) = rt_otherReadAt r"
  by (induction ks arbitrary: r) simp_all

lemma chats_fields [simp]: "qc_pages (setChats f r) = qc_pages r" "rt_otherReadAt (setChats f r) = rt_otherReadAt r"
  by (simp_all add: setChats_def)

lemma patch_receipts [simp]:
  "rt_otherReadAt (patchMessage t c i fn r) = rt_otherReadAt r" "rt_otherReadAt (removeMessage t c i r) = rt_otherReadAt r"
  "rt_otherReadAt (raiseChat msg a r) = rt_otherReadAt r" "qc_pages (raiseChat msg a r) = qc_pages r"
  by (auto simp: patchMessage_def removeMessage_def setQueriesData_def raiseChat_def Let_def split: option.splits)

lemma groups_fields [simp]: "qc_pages (refreshGroups r) = qc_pages r" "rt_otherReadAt (refreshGroups r) = rt_otherReadAt r"
  by (simp_all add: refreshGroups_def)

lemma user_fields [simp]: "qc_pages (handleUserUpdated u i r) = qc_pages r" "rt_otherReadAt (handleUserUpdated u i r) = rt_otherReadAt r"
  by (simp_all add: handleUserUpdated_def Let_def)

lemma read_fields [simp]: "qc_pages (handleMessageRead n t c i r) = qc_pages r"
  by (simp add: handleMessageRead_def Let_def)

lemma apsnd_snd [simp]: "snd (apsnd f pg) = f (snd pg)" "fst (apsnd f pg) = fst pg"
  by (cases pg; simp)+

text \<open>The events of the encryption code change only which queries are stale.\<close>

lemma floated:
  assumes "\<And>a r. g (k a r) = g r"
  shows "g (snd (float_e2ee m k pg)) = g (snd pg)"
  using assms by (simp add: float_e2ee_def split: prod.splits sum.splits)

lemma in_session:
  assumes "\<And>s. g (snd (f s pg)) = g (snd pg)"
  shows "g (snd (with_session f pg)) = g (snd pg)"
  using assms by (simp add: with_session_def split: option.splits)

lemma e2ee_event_rt:
  assumes "ev = E2eeWelcome t c d \<or> ev = E2eeDeviceAdded t c d u \<or> ev = E2eeHandshake t c"
    and "\<And>k r. g (invalidateQueries k r) = g r"
  shows "g (snd (route P now at_iso me a ev pg)) = g (snd pg)"
proof -
  have "g (fold (\<lambda>x. invalidateQueries (f x)) ks r) = g r" for f :: "string \<Rightarrow> query_key" and ks r
    using assms(2) by (induction ks arbitrary: r) simp_all
  then show ?thesis using assms by (auto intro!: in_session floated)
qed

lemma dropped_rt: "g (snd (with_session (\<lambda>s. float_e2ee (dropPlaintext s i) (\<lambda>_. id)) pg)) = g (snd pg)"
  by (intro in_session floated) simp

lemma created_rt:
  "snd (handleMessageCreated P raw me a pg) = snd pg \<or>
   (\<exists>msg. snd (handleMessageCreated P raw me a pg) = snd (placeMessage msg me a (snd pg)))"
  by (auto simp: handleMessageCreated_def split: option.splits prod.splits sum.splits)

lemma place_receipts [simp]: "rt_otherReadAt (snd (placeMessage msg me a r)) = rt_otherReadAt r"
  by (auto simp: placeMessage_def Let_def setQueryData_def sum_bind_def split: sum.splits)

subsection \<open>Read receipts\<close>

record moment =
  mo_now :: nat
  mo_iso :: string
  mo_active :: "string option"
  mo_event :: server_event

definition route_at :: "('st, 'pub, 'wel, 'msg, 'env) platform \<Rightarrow> string \<Rightarrow> moment \<Rightarrow> ('st, 'env) page_state \<Rightarrow> ('st, 'env) page_state" where
  "route_at P meId m = route P (mo_now m) (mo_iso m) meId (mo_active m) (mo_event m)"

lemma route_receipts:
  "read_position (rt_otherReadAt (snd pg)) c \<le> read_position (rt_otherReadAt (snd (route P now at_iso me a ev pg))) c"
proof (cases ev)
  case (MessageCreated raw)
  then show ?thesis using created_rt [of P raw me a pg] by auto
next
  case (MessageDeleted t d i gone)
  then show ?thesis by (simp add: Let_def dropped_rt [where g = rt_otherReadAt])
next
  case (MessageRead d i)
  then show ?thesis by (simp add: handleMessageRead_def Let_def read_position_advance)
next
  case (E2eeHandshake t d)
  then show ?thesis by (simp del: route.simps add: e2ee_event_rt [where g = rt_otherReadAt])
next
  case (E2eeWelcome t d i)
  then show ?thesis by (simp del: route.simps add: e2ee_event_rt [where g = rt_otherReadAt])
next
  case (E2eeDeviceAdded t d i u)
  then show ?thesis by (simp del: route.simps add: e2ee_event_rt [where g = rt_otherReadAt])
qed simp_all

text \<open>
  A read tick never goes back to a sent tick: over any sequence of server events, in any order and
  with whatever the rest of the page does, the position up to which the other side has read a chat
  only grows.
\<close>

theorem read_position_never_regresses:
  "read_position (rt_otherReadAt (snd pg)) c \<le> read_position (rt_otherReadAt (snd (fold (route_at P me) ms pg))) c"
proof (induction ms arbitrary: pg)
  case (Cons m ms)
  have "read_position (rt_otherReadAt (snd pg)) c \<le> read_position (rt_otherReadAt (snd (route_at P me m pg))) c"
    unfolding route_at_def by (rule route_receipts)
  also have "\<dots> \<le> read_position (rt_otherReadAt (snd (fold (route_at P me) (m # ms) pg))) c"
    using Cons.IH by simp
  finally show ?case .
qed simp


subsection \<open>Deletion\<close>

lemma mks_get_removed: "mks_get (mks_remove n st) n = None"
  by (simp add: mks_get_def mks_remove_def)



definition shown_message :: message where
  "shown_message = sample_message\<lparr>m_ciphertext := Some ''x'', m_text := Some ''hi'', m_encrypted := True\<rparr>"

definition sample_chat :: "string \<Rightarrow> chat" where
  "sample_chat i = \<lparr>c_id = i, c_otherUserId = i, c_otherUser = None, c_unreadCount = 2, c_otherLastReadAt = None, c_createdAt = ''t''\<rparr>"

definition sample_rt :: rt where
  "sample_rt = \<lparr>qc_pages = (\<lambda>k. if k = messageKeys_list Private ''c1''
       then Some [\<lparr>p_items = [shown_message], p_nextCursor = None, p_hasMore = False\<rparr>] else None),
     qc_chats = Some [sample_chat ''c0'', sample_chat ''c1''], qc_invalid = [], rt_user = None, rt_online = {},
     rt_typing = \<lparr>byChat = Map.empty, typing_timers = Map.empty\<rparr>, rt_otherReadAt = Map.empty, rt_closedPushes = []\<rparr>"

definition listening_world :: "(bytes, int) world" where
  "listening_world = sample_world\<lparr>e2ee_vars := \<lparr>session = Some sample_session, initPromise = None, initUserId = None\<rparr>,
     stores := (\<lambda>_. [(msg_name ''m1'', [1, 2])])\<rparr>"


subsection \<open>Arrival\<close>

lemma takeWhile_found:
  assumes "find P xs = Some x"
  shows "length (takeWhile (Not \<circ> P) xs) < length xs" "xs ! length (takeWhile (Not \<circ> P) xs) = x" "P x"
  using assms by (induction xs) (auto split: if_splits)

lemma unique_split:
  assumes "distinct (map f xs)" and "n < length xs" and "f (xs ! n) = i"
  shows "take n xs @ drop (Suc n) xs = filter (\<lambda>x. f x \<noteq> i) xs"
proof -
  define ys z zs where "ys = take n xs" and "z = xs ! n" and "zs = drop (Suc n) xs"
  then have xs: "xs = ys @ z # zs" using id_take_nth_drop [OF assms(2)] by simp
  have z: "f z = i" using assms(3) by (simp add: z_def)
  have "distinct (map f (ys @ z # zs))" using assms(1) by (simp only: xs)
  with z have "\<forall>x \<in> set ys \<union> set zs. f x \<noteq> i" by (auto simp: image_iff)
  then have "filter (\<lambda>x. f x \<noteq> i) (ys @ z # zs) = ys @ zs" using z by (simp add: filter_id_conv)
  then show ?thesis unfolding xs [symmetric] by (simp add: ys_def zs_def)
qed

text \<open>
  A readable message of someone else lands in three places at once and nowhere else: at the end of the
  chat's loaded list unless it is already there, and its chat moves to the top of the chat list with one
  more unread message, or none if that chat is open on screen; the other chats keep their order.
\<close>

theorem arriving_message_is_placed:
  assumes "\<not> truthy (m_threadRootId msg)" and "\<not> truthy (m_scheduledId msg)" and "m_senderId msg \<noteq> me"
    and "qc_pages r (messageKeys_list (m_chatType msg) (m_chatId msg)) = Some (p # ps)"
    and "qc_chats r = Some prev" and "distinct (map c_id prev)" and "find (\<lambda>c. c_id c = m_chatId msg) prev = Some c"
    and "placeMessage msg me active r = (e, r')"
  shows "e = None \<and>
    flattenMessages (qc_pages r' (messageKeys_list (m_chatType msg) (m_chatId msg))) =
      (let old = flattenMessages (Some (p # ps)) in if m_id msg \<in> m_id ` set old then old else old @ [msg]) \<and>
    qc_chats r' = Some (c\<lparr>c_unreadCount := if active = Some (m_chatId msg) then 0 else c_unreadCount c + 1\<rparr>
      # filter (\<lambda>x. c_id x \<noteq> m_chatId msg) prev) \<and>
    (\<forall>k. k \<noteq> messageKeys_list (m_chatType msg) (m_chatId msg) \<longrightarrow> qc_pages r' k = qc_pages r k)"
proof -
  let ?k = "messageKeys_list (m_chatType msg) (m_chatId msg)"
  have "\<exists>c'. cache_insert msg (Some (p # ps)) = Inr c'"
    by (simp add: cache_insert_def prepend_def sum_bind_def)
  then obtain c' where ins: "cache_insert msg (Some (p # ps)) = Inr c'" by blast
  let ?r1 = "r\<lparr>qc_pages := (qc_pages r)(?k := c')\<rparr>"
  have run: "e = None" "r' = raiseChat msg active ?r1"
    using assms(1-4,8) ins by (auto simp: placeMessage_def setQueryData_def sum_bind_def Let_def)
  have list: "flattenMessages c' = (let old = flattenMessages (Some (p # ps)) in if m_id msg \<in> m_id ` set old then old else old @ [msg])"
    using items_insert [OF ins] by (auto simp: flatten_items Let_def)
  let ?n = "length (takeWhile (\<lambda>c. c_id c \<noteq> m_chatId msg) prev)"
  have found: "?n < length prev" "prev ! ?n = c" "c_id c = m_chatId msg"
    using takeWhile_found [OF assms(7)] by (simp_all add: comp_def)
  have "take ?n prev @ drop (Suc ?n) prev = filter (\<lambda>x. c_id x \<noteq> m_chatId msg) prev"
    by (rule unique_split [OF assms(6) found(1)]) (simp add: found)
  then have "qc_chats (raiseChat msg active ?r1) = Some (c\<lparr>c_unreadCount := if active = Some (m_chatId msg) then 0 else c_unreadCount c + 1\<rparr>
      # filter (\<lambda>x. c_id x \<noteq> m_chatId msg) prev)"
    using assms(5,7) by (simp add: raiseChat_def Let_def)
  with run list show ?thesis by simp
qed

theorem arriving_message_is_placed_witness:
  "let msg = sample_message\<lparr>m_id := ''m2'', m_senderId := ''u2'', m_text := Some ''yo''\<rparr>; r' = snd (placeMessage msg ''u1'' None sample_rt) in
     flattenMessages (qc_pages r' (messageKeys_list Private ''c1'')) = [shown_message, msg] \<and>
     qc_chats r' = Some [(sample_chat ''c1'')\<lparr>c_unreadCount := 3\<rparr>, sample_chat ''c0'']"
proof -
  let ?msg = "sample_message\<lparr>m_id := ''m2'', m_senderId := ''u2'', m_text := Some ''yo''\<rparr>"
  let ?p = "\<lparr>p_items = [shown_message], p_nextCursor = None, p_hasMore = False\<rparr>"
  let ?prev = "[sample_chat ''c0'', sample_chat ''c1'']"
  obtain e r' where "placeMessage ?msg ''u1'' None sample_rt = (e, r')" by fastforce
  with arriving_message_is_placed [of ?msg "''u1''" sample_rt ?p "[]" ?prev "sample_chat ''c1''" None e r']
  show ?thesis
    by (simp add: sample_rt_def sample_message_def sample_chat_def shown_message_def flattenMessages_def Let_def)
qed

subsection \<open>Finding: an update of an encrypted message\<close>

text \<open>
  An update event wipes the text of an encrypted message: the server, which has no text for it, sends
  \<open>null\<close>, and the handler copies it over the decrypted one. The new expiry the event carries is dropped,
  and the cached plaintext keeps the stamp it had.
\<close>

theorem update_event_blanks_encrypted_message:
  assumes "m \<in> set (items (qc_pages (snd pg) (messageKeys_list (m_chatType upd) (m_chatId upd))))"
    and "m_id upd = m_id m" and "m_text upd = None"
  shows "fst (route P now at_iso me a (MessageUpdated upd) pg) = fst pg \<and>
    (\<exists>m' \<in> set (items (qc_pages (snd (route P now at_iso me a (MessageUpdated upd) pg))
        (messageKeys_list (m_chatType upd) (m_chatId upd)))).
       m_id m' = m_id m \<and> m_text m' = None \<and> m_expiresAt m' = m_expiresAt m \<and> m_encrypted m' = m_encrypted m)"
  using assms
  by (intro conjI bexI [of _ "applyUpdate upd m"])
    (auto simp: pages_patch touched_def items_patch applyUpdate_def)

theorem update_event_blanks_encrypted_message_witness:
  "let upd = sample_message\<lparr>m_ciphertext := Some ''x'', m_pinnedAt := Some ''t'', m_expiresAt := Some ''t''\<rparr>;
       r' = snd (route sample_platform 0 ''t'' ''u1'' None (MessageUpdated upd) (listening_world, sample_rt)) in
     m_text shown_message = Some ''hi'' \<and>
     (\<exists>m' \<in> set (items (qc_pages r' (messageKeys_list Private ''c1''))). m_id m' = ''m1'' \<and> m_text m' = None \<and> m_expiresAt m' = None)"
proof -
  let ?upd = "sample_message\<lparr>m_ciphertext := Some ''x'', m_pinnedAt := Some ''t'', m_expiresAt := Some ''t''\<rparr>"
  let ?r = "snd (route sample_platform 0 ''t'' ''u1'' None (MessageUpdated ?upd) (listening_world, sample_rt))"
  have f: "m_chatType ?upd = Private" "m_chatId ?upd = ''c1''" "m_id ?upd = m_id shown_message" "m_text ?upd = None"
    "m_id shown_message = ''m1''" "m_expiresAt shown_message = None" "m_text shown_message = Some ''hi''"
    by (simp_all add: sample_message_def shown_message_def)
  have "shown_message \<in> set (items (qc_pages (snd (listening_world, sample_rt)) (messageKeys_list (m_chatType ?upd) (m_chatId ?upd))))"
    unfolding f by (simp add: sample_rt_def)
  from update_event_blanks_encrypted_message [OF this f(3,4), of sample_platform 0 "''t''" "''u1''" None]
  have "\<exists>m' \<in> set (items (qc_pages ?r (messageKeys_list Private ''c1''))). m_id m' = ''m1'' \<and> m_text m' = None \<and> m_expiresAt m' = None"
    unfolding f by auto
  with f(7) show ?thesis by (simp only: Let_def)
qed


end
