(* ===== verification/Call_Session.thy ===== *)
theory Call_Session
  imports Kisy_Prelude
begin

text \<open>
  One-to-one audio calls: \<open>features/call/useCall.ts\<close>. The hook's references are the fields of a record;
  sessions, peer connections and microphones are objects the code keeps hold of across its awaits, so
  they live in lists and are named by their position. Every \<open>await\<close> is a task with the local variables
  the code after it uses; a task settles at any later moment, successfully or not, in any order with
  user actions, server events, timers and reports of the browser. An operation on a closed peer
  connection always fails. WebRTC's own work (what a description says, where packets go) is not modelled;
  descriptions and candidates are opaque strings.
\<close>

subsection \<open>State\<close>

record call_peer =
  peer_id :: string
  peer_displayName :: string
  peer_avatarUrl :: "string option"

datatype call_phase = Idle | Outgoing | Incoming | ConnectingPhase | Active | Ended

datatype call_role = Caller | Callee

datatype conn_state = ConnNew | ConnConnecting | ConnConnected | ConnDisconnected | ConnFailed | ConnClosed

datatype audio_route = Earpiece | Loudspeaker | Wired | Bluetooth

record call_view =
  v_phase :: call_phase
  v_peer :: "call_peer option"
  v_role :: "call_role option"
  v_muted :: bool
  v_conn :: "conn_state option"
  v_error :: "string option"
  v_endedReason :: "string option"
  v_startedAt :: "nat option"
  v_speaker :: bool
  v_audioRoute :: "audio_route option"
  v_reconnecting :: bool

definition idleView :: call_view where
  "idleView = \<lparr>v_phase = Idle, v_peer = None, v_role = None, v_muted = False, v_conn = None, v_error = None,
     v_endedReason = None, v_startedAt = None, v_speaker = False, v_audioRoute = None, v_reconnecting = False\<rparr>"

text \<open>The timers of a recovery, each with whether it is still set.\<close>

record recovery =
  rc_start :: bool
  rc_giveUp :: bool
  rc_retry :: bool

record call_session =
  cs_callId :: string
  cs_role :: call_role
  cs_peer :: call_peer
  cs_chatId :: string
  cs_pc :: "nat option"
  cs_localStream :: "nat option"
  cs_remoteSet :: bool
  cs_pendingIce :: "string list"
  cs_offerSdp :: "string option"
  cs_established :: bool
  cs_recovery :: "recovery option"

datatype signaling = Stable | HaveLocalOffer | HaveRemoteOffer

record peer_connection =
  pc_callId :: string
  pc_attached :: bool
  pc_closed :: bool
  pc_signaling :: signaling
  pc_added :: "string list"

record microphone =
  mic_live :: bool
  mic_enabled :: bool

datatype call_frame =
    CallInvite string string string
  | CallAnswer string
  | CallIce string string
  | CallRenegotiateOffer string
  | CallRenegotiateAnswer string
  | CallReject string
  | CallCancel string
  | CallHangup string

datatype ringing = Silent | RingOutgoing | RingIncoming

record native_decision =
  nd_accept :: bool
  nd_callId :: string

datatype after_pending = ThenNothing | ThenDecision native_decision | ThenPickUp

text \<open>The awaits, each with what the code after it uses.\<close>

datatype task =
    StartMic call_peer string string
  | StartIce call_peer string string nat
  | StartOffer nat nat
  | StartLocal nat nat
  | AcceptMic nat bool
  | AcceptIce nat nat
  | AcceptRemote nat nat
  | AcceptAnswer nat nat
  | AcceptLocal nat nat
  | AnsweredRemote nat nat
  | RestartIce nat nat
  | RestartRollback nat nat
  | RestartOffer nat nat
  | RestartLocal nat nat
  | AnswerIce nat nat
  | AnswerRemote nat nat
  | AnswerAnswer nat nat
  | AnswerLocal nat nat
  | RenegotiateRemote nat nat
  | ConnectedRollback nat nat
  | PendingCall after_pending
  | TakeDecision
  | RestReject string

record call_state =
  c_sessions :: "call_session list"
  c_current :: "nat option"
  c_pcs :: "peer_connection list"
  c_mics :: "microphone list"
  c_view :: call_view
  c_ring :: ringing
  c_sent :: "call_frame list"
  c_tasks :: "task list"
  c_handledNative :: "(bool \<times> string) set"
  c_deferredAnswer :: "string option"
  c_endTimer :: bool
  c_visible :: bool

definition call_start :: call_state where
  "call_start = \<lparr>c_sessions = [], c_current = None, c_pcs = [], c_mics = [], c_view = idleView, c_ring = Silent,
     c_sent = [], c_tasks = [], c_handledNative = {}, c_deferredAnswer = None, c_endTimer = False, c_visible = True\<rparr>"

subsection \<open>Small writes\<close>

definition upd_session :: "nat \<Rightarrow> (call_session \<Rightarrow> call_session) \<Rightarrow> call_state \<Rightarrow> call_state" where
  "upd_session s f c = c\<lparr>c_sessions := (c_sessions c)[s := f (c_sessions c ! s)]\<rparr>"

definition upd_pc :: "nat \<Rightarrow> (peer_connection \<Rightarrow> peer_connection) \<Rightarrow> call_state \<Rightarrow> call_state" where
  "upd_pc p f c = c\<lparr>c_pcs := (c_pcs c)[p := f (c_pcs c ! p)]\<rparr>"

definition upd_mic :: "nat \<Rightarrow> (microphone \<Rightarrow> microphone) \<Rightarrow> call_state \<Rightarrow> call_state" where
  "upd_mic m f c = c\<lparr>c_mics := (c_mics c)[m := f (c_mics c ! m)]\<rparr>"

definition send_frame :: "call_frame \<Rightarrow> call_state \<Rightarrow> call_state" where
  "send_frame f c = c\<lparr>c_sent := c_sent c @ [f]\<rparr>"

definition setView :: "(call_view \<Rightarrow> call_view) \<Rightarrow> call_state \<Rightarrow> call_state" where
  "setView f c = c\<lparr>c_view := f (c_view c)\<rparr>"

text \<open>A view update that leaves a finished or absent call alone.\<close>

definition unless_over :: "(call_view \<Rightarrow> call_view) \<Rightarrow> call_view \<Rightarrow> call_view" where
  "unless_over f v = (if v_phase v = Idle \<or> v_phase v = Ended then v else f v)"

definition await :: "task \<Rightarrow> call_state \<Rightarrow> call_state" where
  "await t c = c\<lparr>c_tasks := c_tasks c @ [t]\<rparr>"

definition ring :: "ringing \<Rightarrow> call_state \<Rightarrow> call_state" where
  "ring r c = c\<lparr>c_ring := r\<rparr>"

definition current_id :: "call_state \<Rightarrow> string option" where
  "current_id c = map_option (\<lambda>s. cs_callId (c_sessions c ! s)) (c_current c)"

subsection \<open>Ending\<close>

definition stopRecovery :: "nat \<Rightarrow> call_state \<Rightarrow> call_state" where
  "stopRecovery s c = upd_session s (\<lambda>x. x\<lparr>cs_recovery := None\<rparr>) c"

definition close_pc :: "nat \<Rightarrow> call_state \<Rightarrow> call_state" where
  "close_pc p = upd_pc p (\<lambda>x. x\<lparr>pc_attached := False, pc_closed := True\<rparr>)"

definition stop_mic :: "nat \<Rightarrow> call_state \<Rightarrow> call_state" where
  "stop_mic m = upd_mic m (\<lambda>x. x\<lparr>mic_live := False\<rparr>)"

definition cleanupMedia :: "call_state \<Rightarrow> call_state" where
  "cleanupMedia c0 =
     (let c = ring Silent c0 in
      case c_current c of
        None \<Rightarrow> c
      | Some s \<Rightarrow>
          let x = c_sessions c ! s;
              c1 = stopRecovery s c;
              c2 = (case cs_pc x of Some p \<Rightarrow> close_pc p c1 | None \<Rightarrow> c1)
          in (case cs_localStream x of Some m \<Rightarrow> stop_mic m c2 | None \<Rightarrow> c2))"

definition teardown :: "call_state \<Rightarrow> call_state" where
  "teardown c = (cleanupMedia c)\<lparr>c_current := None, c_view := idleView\<rparr>"

definition finishWith :: "string \<Rightarrow> bool \<Rightarrow> call_state \<Rightarrow> call_state" where
  "finishWith message isError c = (cleanupMedia c)\<lparr>c_current := None,
     c_view := idleView\<lparr>v_phase := Ended, v_endedReason := Some message, v_error := (if isError then Some message else None)\<rparr>,
     c_endTimer := True\<rparr>"

definition end_timer_fires :: "call_state \<Rightarrow> call_state" where
  "end_timer_fires c = setView (\<lambda>v. if v_phase v = Ended then idleView else v) (c\<lparr>c_endTimer := False\<rparr>)"

text \<open>\<open>addIceCandidate\<close> on a closed connection rejects and the rejection is ignored.\<close>

definition add_candidates :: "nat \<Rightarrow> string list \<Rightarrow> call_state \<Rightarrow> call_state" where
  "add_candidates p cands = upd_pc p (\<lambda>x. if pc_closed x then x else x\<lparr>pc_added := pc_added x @ cands\<rparr>)"

definition flushIce :: "nat \<Rightarrow> call_state \<Rightarrow> call_state" where
  "flushIce s c = (case cs_pc (c_sessions c ! s) of
      None \<Rightarrow> c
    | Some p \<Rightarrow> upd_session s (\<lambda>x. x\<lparr>cs_pendingIce := []\<rparr>) (add_candidates p (cs_pendingIce (c_sessions c ! s)) c))"

definition remote_set :: "nat \<Rightarrow> call_state \<Rightarrow> call_state" where
  "remote_set s c = flushIce s (upd_session s (\<lambda>x. x\<lparr>cs_remoteSet := True\<rparr>) c)"

definition makePc :: "string \<Rightarrow> call_state \<Rightarrow> call_state" where
  "makePc callId c = c\<lparr>c_pcs := c_pcs c @ [\<lparr>pc_callId = callId, pc_attached = True, pc_closed = False, pc_signaling = Stable, pc_added = []\<rparr>]\<rparr>"

text \<open>\<open>getMic\<close>: the text for a refusal, by the name of the exception.\<close>

definition mic_error :: "string \<Rightarrow> string" where
  "mic_error name =
     (if name = ''NotAllowedError'' \<or> name = ''SecurityError'' then ''hub.call.micDenied''
      else if name = ''NotFoundError'' \<or> name = ''DevicesNotFoundError'' then ''hub.call.micNotFound''
      else ''hub.call.micUnavailable'')"

definition open_mic :: "call_state \<Rightarrow> call_state" where
  "open_mic c = c\<lparr>c_mics := c_mics c @ [\<lparr>mic_live = True, mic_enabled = True\<rparr>]\<rparr>"

subsection \<open>Actions of the person\<close>

definition startCall :: "call_peer \<Rightarrow> string \<Rightarrow> string \<Rightarrow> call_state \<Rightarrow> call_state" where
  "startCall peer chatId callId c =
     (if c_current c \<noteq> None then c
      else await (StartMic peer chatId callId)
        (setView (\<lambda>_. idleView\<lparr>v_phase := Outgoing, v_peer := Some peer, v_role := Some Caller\<rparr>) c))"

definition accept :: "bool \<Rightarrow> call_state \<Rightarrow> call_state" where
  "accept auto c = (case c_current c of
      None \<Rightarrow> c
    | Some s \<Rightarrow>
        if cs_role (c_sessions c ! s) \<noteq> Callee then c
        else if cs_pc (c_sessions c ! s) \<noteq> None then c
        else await (AcceptMic s auto) (ring Silent c))"

definition reject :: "call_state \<Rightarrow> call_state" where
  "reject c = (case c_current c of
      None \<Rightarrow> c
    | Some s \<Rightarrow> teardown (send_frame (CallReject (cs_callId (c_sessions c ! s))) c))"

definition hangup :: "call_state \<Rightarrow> call_state" where
  "hangup c = (case c_current c of
      None \<Rightarrow> c
    | Some s \<Rightarrow>
        let i = cs_callId (c_sessions c ! s)
        in teardown (send_frame (if v_phase (c_view c) = Outgoing then CallCancel i else CallHangup i) c))"

definition toggleSpeaker :: "call_state \<Rightarrow> call_state" where
  "toggleSpeaker c = setView (\<lambda>v. v\<lparr>v_speaker := \<not> v_speaker v\<rparr>) c"

definition toggleMute :: "call_state \<Rightarrow> call_state" where
  "toggleMute c = (case Option.bind (c_current c) (\<lambda>s. cs_localStream (c_sessions c ! s)) of
      None \<Rightarrow> c
    | Some m \<Rightarrow>
        let c1 = upd_mic m (\<lambda>x. x\<lparr>mic_enabled := \<not> mic_enabled x\<rparr>) c
        in setView (\<lambda>v. v\<lparr>v_muted := \<not> mic_enabled (c_mics c1 ! m)\<rparr>) c1)"

definition audioRoute_reported :: "audio_route \<Rightarrow> bool \<Rightarrow> call_state \<Rightarrow> call_state" where
  "audioRoute_reported route speaker c =
     (let c1 = (if v_phase (c_view c) = ConnectingPhase \<or> v_phase (c_view c) = Active then ring Silent c else c)
      in setView (unless_over (\<lambda>v. v\<lparr>v_audioRoute := Some route, v_speaker := speaker\<rparr>)) c1)"

subsection \<open>Incoming calls\<close>

record call_incoming =
  ci_callId :: string
  ci_from :: call_peer
  ci_chatId :: string
  ci_sdp :: string

definition onIncoming :: "call_incoming \<Rightarrow> call_state \<Rightarrow> call_state" where
  "onIncoming data c =
     (if c_current c \<noteq> None then send_frame (CallReject (ci_callId data)) c
      else ring RingIncoming (setView (\<lambda>_. idleView\<lparr>v_phase := Incoming, v_peer := Some (ci_from data), v_role := Some Callee\<rparr>)
        (c\<lparr>c_sessions := c_sessions c @ [\<lparr>cs_callId = ci_callId data, cs_role = Callee, cs_peer = ci_from data,
             cs_chatId = ci_chatId data, cs_pc = None, cs_localStream = None, cs_remoteSet = False, cs_pendingIce = [],
             cs_offerSdp = Some (ci_sdp data), cs_established = False, cs_recovery = None\<rparr>],
           c_current := Some (length (c_sessions c))\<rparr>)))"

text \<open>What follows \<open>await resumePending()\<close> in each of its callers.\<close>

fun after_resume :: "after_pending \<Rightarrow> call_state \<Rightarrow> call_state" where
  "after_resume ThenNothing c = c"
| "after_resume (ThenDecision d) c =
     (if current_id c \<noteq> Some (nd_callId d) then c
      else if \<not> c_visible c then c\<lparr>c_deferredAnswer := Some (nd_callId d)\<rparr>
      else accept True c)"
| "after_resume ThenPickUp c =
     (case c_deferredAnswer c of
        Some held \<Rightarrow>
          if held \<noteq> '''' \<and> c_visible c then
            let c1 = c\<lparr>c_deferredAnswer := None\<rparr>
            in if current_id c1 = Some held then accept True c1 else await TakeDecision c1
          else await TakeDecision c
      | None \<Rightarrow> await TakeDecision c)"

definition resumePending :: "after_pending \<Rightarrow> call_state \<Rightarrow> call_state" where
  "resumePending k c = (if c_current c \<noteq> None then after_resume k c else await (PendingCall k) c)"

definition pending_answered :: "after_pending \<Rightarrow> call_incoming option \<Rightarrow> call_state \<Rightarrow> call_state" where
  "pending_answered k call c =
     after_resume k (case call of
        None \<Rightarrow> c
      | Some d \<Rightarrow> (if c_current c \<noteq> None then c
          else onIncoming (d\<lparr>ci_from := (ci_from d)\<lparr>peer_avatarUrl := None\<rparr>\<rparr>) c))"

definition applyNativeDecision :: "native_decision \<Rightarrow> call_state \<Rightarrow> call_state" where
  "applyNativeDecision d c =
     (let seen = (nd_accept d, nd_callId d) in
      if seen \<in> c_handledNative c then c
      else let c1 = c\<lparr>c_handledNative := insert seen (c_handledNative c)\<rparr> in
        if \<not> nd_accept d then await (RestReject (nd_callId d)) c1
        else resumePending (ThenDecision d) c1)"

definition pickUp :: "call_state \<Rightarrow> call_state" where
  "pickUp c = resumePending ThenPickUp c"

subsection \<open>Recovering a dropped connection\<close>

definition restartIce :: "nat \<Rightarrow> call_state \<Rightarrow> call_state" where
  "restartIce s c = (case cs_pc (c_sessions c ! s) of None \<Rightarrow> c | Some p \<Rightarrow> await (RestartIce s p) c)"

definition answerRestart :: "nat \<Rightarrow> call_state \<Rightarrow> call_state" where
  "answerRestart s c = (case cs_pc (c_sessions c ! s) of
      None \<Rightarrow> c
    | Some p \<Rightarrow> await (AnswerIce s p) (upd_session s (\<lambda>x. x\<lparr>cs_remoteSet := False\<rparr>) c))"

definition beginRecovery :: "nat \<Rightarrow> call_state \<Rightarrow> call_state" where
  "beginRecovery s c =
     (if cs_recovery (c_sessions c ! s) \<noteq> None then c
      else upd_session s (\<lambda>x. x\<lparr>cs_recovery := Some \<lparr>rc_start = True, rc_giveUp = False, rc_retry = False\<rparr>\<rparr>) c)"

definition recovery_starts :: "nat \<Rightarrow> call_state \<Rightarrow> call_state" where
  "recovery_starts s c =
     (let x = c_sessions c ! s in
      case cs_recovery x of
        None \<Rightarrow> c
      | Some r \<Rightarrow>
          if c_current c \<noteq> Some s then upd_session s (\<lambda>x. x\<lparr>cs_recovery := Some (r\<lparr>rc_start := False\<rparr>)\<rparr>) c
          else
            let c1 = setView (unless_over (\<lambda>v. v\<lparr>v_reconnecting := True\<rparr>)) c;
                c2 = upd_session s (\<lambda>x. x\<lparr>cs_recovery := Some \<lparr>rc_start = False, rc_giveUp = True, rc_retry = (cs_role x = Caller)\<rparr>\<rparr>) c1
            in if cs_role x = Caller then restartIce s c2 else c2)"

definition recovery_gives_up :: "nat \<Rightarrow> call_state \<Rightarrow> call_state" where
  "recovery_gives_up s c =
     (if c_current c \<noteq> Some s then c
      else finishWith ''hub.call.endLinkLost'' True (send_frame (CallHangup (cs_callId (c_sessions c ! s))) c))"

text \<open>The connection's own reports: a local candidate, a change of its state.\<close>

definition onicecandidate :: "nat \<Rightarrow> string \<Rightarrow> call_state \<Rightarrow> call_state" where
  "onicecandidate p cand c = send_frame (CallIce (pc_callId (c_pcs c ! p)) cand) c"

definition is_current_pc :: "nat \<Rightarrow> call_state \<Rightarrow> bool" where
  "is_current_pc p c \<longleftrightarrow> (case c_current c of None \<Rightarrow> False | Some s \<Rightarrow> cs_pc (c_sessions c ! s) = Some p)"

definition onconnected :: "nat \<Rightarrow> nat \<Rightarrow> call_state \<Rightarrow> call_state" where
  "onconnected now p c =
     (let c1 = (if is_current_pc p c then
            let s = the (c_current c);
                c2 = upd_session s (\<lambda>x. x\<lparr>cs_established := True\<rparr>) c;
                c3 = (if cs_recovery (c_sessions c ! s) \<noteq> None
                      then setView (\<lambda>v. v\<lparr>v_reconnecting := False\<rparr>) (stopRecovery s c2) else c2)
            in if pc_signaling (c_pcs c ! p) = HaveLocalOffer then await (ConnectedRollback s p) c3 else c3
          else c)
      in setView (unless_over (\<lambda>v. v\<lparr>v_phase := Active, v_startedAt := (case v_startedAt v of Some t \<Rightarrow> Some t | None \<Rightarrow> Some now)\<rparr>))
           (ring Silent c1))"

definition onconnectionstatechange :: "nat \<Rightarrow> nat \<Rightarrow> conn_state \<Rightarrow> call_state \<Rightarrow> call_state" where
  "onconnectionstatechange now p st c0 =
     (let c = setView (unless_over (\<lambda>v. v\<lparr>v_conn := Some st\<rparr>)) c0 in
      if st = ConnConnected then onconnected now p c
      else if (st = ConnDisconnected \<or> st = ConnFailed) \<and> is_current_pc p c \<and> cs_established (c_sessions c ! the (c_current c))
      then beginRecovery (the (c_current c)) c
      else if st = ConnFailed then finishWith ''hub.call.endConnectionFailed'' True c
      else c)"

subsection \<open>Server events\<close>

definition on_answered :: "string \<Rightarrow> call_state \<Rightarrow> call_state" where
  "on_answered callId c = (case c_current c of
      None \<Rightarrow> c
    | Some s \<Rightarrow>
        let x = c_sessions c ! s in
        if cs_callId x \<noteq> callId \<or> cs_role x \<noteq> Caller then c
        else case cs_pc x of None \<Rightarrow> c | Some p \<Rightarrow> await (AnsweredRemote s p) (ring Silent c))"

definition on_renegotiate :: "string \<Rightarrow> bool \<Rightarrow> call_state \<Rightarrow> call_state" where
  "on_renegotiate callId isOffer c = (case c_current c of
      None \<Rightarrow> c
    | Some s \<Rightarrow>
        let x = c_sessions c ! s in
        if cs_callId x \<noteq> callId then c
        else case cs_pc x of
          None \<Rightarrow> c
        | Some p \<Rightarrow>
            if isOffer \<and> cs_role x = Callee then answerRestart s c
            else if \<not> isOffer \<and> cs_role x = Caller \<and> pc_signaling (c_pcs c ! p) = HaveLocalOffer
            then await (RenegotiateRemote s p) c
            else c)"

definition on_ice :: "string \<Rightarrow> string \<Rightarrow> call_state \<Rightarrow> call_state" where
  "on_ice callId cand c = (case c_current c of
      None \<Rightarrow> c
    | Some s \<Rightarrow>
        let x = c_sessions c ! s in
        if cs_callId x \<noteq> callId then c
        else case (if cs_remoteSet x then cs_pc x else None) of
          Some p \<Rightarrow> add_candidates p [cand] c
        | None \<Rightarrow> upd_session s (\<lambda>x. x\<lparr>cs_pendingIce := cs_pendingIce x @ [cand]\<rparr>) c)"

datatype call_ending = EndRejected | EndCanceled | EndBusy | EndTimeout | EndEnded

fun ending_text :: "call_ending \<Rightarrow> call_role \<Rightarrow> string" where
  "ending_text EndRejected r = ''hub.call.endDeclined''"
| "ending_text EndCanceled r = ''hub.call.endCanceled''"
| "ending_text EndBusy r = ''hub.call.endBusy''"
| "ending_text EndTimeout r = (if r = Caller then ''hub.call.endNoAnswer'' else ''hub.call.endMissed'')"
| "ending_text EndEnded r = ''hub.call.endEnded''"

definition on_ending :: "call_ending \<Rightarrow> string \<Rightarrow> call_state \<Rightarrow> call_state" where
  "on_ending e callId c = (case c_current c of
      None \<Rightarrow> c
    | Some s \<Rightarrow>
        let x = c_sessions c ! s in
        if cs_callId x = callId then finishWith (ending_text e (cs_role x)) False c else c)"

definition unmount :: "call_state \<Rightarrow> call_state" where
  "unmount c = (cleanupMedia c)\<lparr>c_endTimer := False\<rparr>"


subsection \<open>The code after each await\<close>

datatype outcome = Done | Failed string | GotCall "call_incoming option" | GotDecision "native_decision option"

definition pc_ok :: "nat \<Rightarrow> outcome \<Rightarrow> call_state \<Rightarrow> bool" where
  "pc_ok p out c \<longleftrightarrow> out = Done \<and> \<not> pc_closed (c_pcs c ! p)"

definition signal :: "nat \<Rightarrow> signaling \<Rightarrow> call_state \<Rightarrow> call_state" where
  "signal p st = upd_pc p (\<lambda>x. x\<lparr>pc_signaling := st\<rparr>)"

definition failed_name :: "outcome \<Rightarrow> string" where
  "failed_name out = (case out of Failed n \<Rightarrow> n | _ \<Rightarrow> '''')"

definition startCall_mic :: "call_peer \<Rightarrow> string \<Rightarrow> string \<Rightarrow> outcome \<Rightarrow> call_state \<Rightarrow> call_state" where
  "startCall_mic peer chatId callId out c =
     (if out = Done then await (StartIce peer chatId callId (length (c_mics c))) (open_mic c)
      else finishWith (mic_error (failed_name out)) True c)"

definition startCall_ice :: "call_peer \<Rightarrow> string \<Rightarrow> string \<Rightarrow> nat \<Rightarrow> call_state \<Rightarrow> call_state" where
  "startCall_ice peer chatId callId mic c =
     (let p = length (c_pcs c); s = length (c_sessions c);
          c1 = (makePc callId c)\<lparr>c_sessions := c_sessions c @ [\<lparr>cs_callId = callId, cs_role = Caller, cs_peer = peer,
             cs_chatId = chatId, cs_pc = Some p, cs_localStream = Some mic, cs_remoteSet = False, cs_pendingIce = [],
             cs_offerSdp = None, cs_established = False, cs_recovery = None\<rparr>], c_current := Some s\<rparr>
      in await (StartOffer s p) (ring RingOutgoing c1))"

definition startCall_fails :: "call_state \<Rightarrow> call_state" where
  "startCall_fails = finishWith ''hub.call.startFailed'' True"

definition accept_mic :: "nat \<Rightarrow> bool \<Rightarrow> outcome \<Rightarrow> call_state \<Rightarrow> call_state" where
  "accept_mic s auto out c =
     (if out = Done then await (AcceptIce s (length (c_mics c))) (open_mic c)
      else if auto then setView (\<lambda>v. if v_phase v = Idle then v else v\<lparr>v_phase := Incoming\<rparr>) (ring RingIncoming c)
      else finishWith (mic_error (failed_name out)) True (send_frame (CallReject (cs_callId (c_sessions c ! s))) c))"

definition accept_ice :: "nat \<Rightarrow> nat \<Rightarrow> call_state \<Rightarrow> call_state" where
  "accept_ice s mic c =
     (let p = length (c_pcs c);
          c1 = upd_session s (\<lambda>x. x\<lparr>cs_pc := Some p, cs_localStream := Some mic\<rparr>) (makePc (cs_callId (c_sessions c ! s)) c)
      in await (AcceptRemote s p) (setView (\<lambda>v. v\<lparr>v_phase := ConnectingPhase\<rparr>) c1))"

definition accept_fails :: "nat \<Rightarrow> call_state \<Rightarrow> call_state" where
  "accept_fails s c = finishWith ''hub.call.connectFailed'' True (send_frame (CallHangup (cs_callId (c_sessions c ! s))) c)"

fun settle :: "task \<Rightarrow> outcome \<Rightarrow> call_state \<Rightarrow> call_state" where
  "settle (StartMic peer chatId callId) out c = startCall_mic peer chatId callId out c"
| "settle (StartIce peer chatId callId mic) out c = startCall_ice peer chatId callId mic c"
| "settle (StartOffer s p) out c = (if pc_ok p out c then await (StartLocal s p) c else startCall_fails c)"
| "settle (StartLocal s p) out c =
     (if pc_ok p out c
      then let x = c_sessions c ! s in send_frame (CallInvite (cs_callId x) (peer_id (cs_peer x)) (cs_chatId x)) (signal p HaveLocalOffer c)
      else startCall_fails c)"
| "settle (AcceptMic s auto) out c = accept_mic s auto out c"
| "settle (AcceptIce s mic) out c = accept_ice s mic c"
| "settle (AcceptRemote s p) out c =
     (if pc_ok p out c then await (AcceptAnswer s p) (remote_set s (signal p HaveRemoteOffer c)) else accept_fails s c)"
| "settle (AcceptAnswer s p) out c = (if pc_ok p out c then await (AcceptLocal s p) c else accept_fails s c)"
| "settle (AcceptLocal s p) out c =
     (if pc_ok p out c then send_frame (CallAnswer (cs_callId (c_sessions c ! s))) (signal p Stable c) else accept_fails s c)"
| "settle (AnsweredRemote s p) out c =
     (if pc_ok p out c then setView (\<lambda>v. v\<lparr>v_phase := ConnectingPhase\<rparr>) (remote_set s (signal p Stable c))
      else finishWith ''hub.call.endConnectionFailed'' True c)"
| "settle (RestartIce s p) out c =
     (if c_current c \<noteq> Some s \<or> pc_closed (c_pcs c ! p) then c
      else await (if pc_signaling (c_pcs c ! p) = HaveLocalOffer then RestartRollback s p else RestartOffer s p) c)"
| "settle (RestartRollback s p) out c = (if pc_ok p out c then await (RestartOffer s p) (signal p Stable c) else c)"
| "settle (RestartOffer s p) out c =
     (if pc_ok p out c then await (RestartLocal s p) (upd_session s (\<lambda>x. x\<lparr>cs_remoteSet := False\<rparr>) c) else c)"
| "settle (RestartLocal s p) out c =
     (if pc_ok p out c then send_frame (CallRenegotiateOffer (cs_callId (c_sessions c ! s))) (signal p HaveLocalOffer c) else c)"
| "settle (AnswerIce s p) out c = (if c_current c \<noteq> Some s \<or> pc_closed (c_pcs c ! p) then c else await (AnswerRemote s p) c)"
| "settle (AnswerRemote s p) out c =
     (if pc_ok p out c then await (AnswerAnswer s p) (remote_set s (signal p HaveRemoteOffer c)) else c)"
| "settle (AnswerAnswer s p) out c = (if pc_ok p out c then await (AnswerLocal s p) c else c)"
| "settle (AnswerLocal s p) out c =
     (if pc_ok p out c then send_frame (CallRenegotiateAnswer (cs_callId (c_sessions c ! s))) (signal p Stable c) else c)"
| "settle (RenegotiateRemote s p) out c = (if pc_ok p out c then remote_set s (signal p Stable c) else c)"
| "settle (ConnectedRollback s p) out c =
     (if pc_ok p out c then upd_session s (\<lambda>x. x\<lparr>cs_remoteSet := True, cs_pendingIce := []\<rparr>) (signal p Stable c) else c)"
| "settle (PendingCall k) out c = pending_answered k (case out of GotCall call \<Rightarrow> call | _ \<Rightarrow> None) c"
| "settle TakeDecision out c = (case out of GotDecision (Some d) \<Rightarrow> applyNativeDecision d c | _ \<Rightarrow> c)"
| "settle (RestReject callId) out c = (if current_id c = Some callId then teardown c else c)"

subsection \<open>Histories\<close>

datatype call_event =
    StartCall call_peer string string | Accept bool | Reject | Hangup | ToggleMute | ToggleSpeaker
  | AudioRoute audio_route bool | Settles nat outcome
  | CallIncoming call_incoming | CallAnswered string | CallRenegotiate string bool | CallIceEvent string string
  | CallEnding call_ending string
  | PcCandidate nat string | PcState nat nat conn_state
  | RecoveryStarts nat | RecoveryGivesUp nat | RecoveryRetries nat
  | EndTimer | PickUp | NativeDecision native_decision | Visibility bool | Unmount

definition recovery_timer :: "(recovery \<Rightarrow> bool) \<Rightarrow> nat \<Rightarrow> call_state \<Rightarrow> bool" where
  "recovery_timer f s c \<longleftrightarrow> s < length (c_sessions c) \<and> (case cs_recovery (c_sessions c ! s) of Some r \<Rightarrow> f r | None \<Rightarrow> False)"

fun call_step :: "call_event \<Rightarrow> call_state \<Rightarrow> call_state" where
  "call_step (StartCall peer chatId callId) c = startCall peer chatId callId c"
| "call_step (Accept auto) c = accept auto c"
| "call_step Reject c = reject c"
| "call_step Hangup c = hangup c"
| "call_step ToggleMute c = toggleMute c"
| "call_step ToggleSpeaker c = toggleSpeaker c"
| "call_step (AudioRoute r sp) c = audioRoute_reported r sp c"
| "call_step (Settles k out) c = (if k < length (c_tasks c)
     then settle (c_tasks c ! k) out (c\<lparr>c_tasks := take k (c_tasks c) @ drop (Suc k) (c_tasks c)\<rparr>) else c)"
| "call_step (CallIncoming d) c = onIncoming d c"
| "call_step (CallAnswered i) c = on_answered i c"
| "call_step (CallRenegotiate i isOffer) c = on_renegotiate i isOffer c"
| "call_step (CallIceEvent i cand) c = on_ice i cand c"
| "call_step (CallEnding e i) c = on_ending e i c"
| "call_step (PcCandidate p cand) c =
     (if p < length (c_pcs c) \<and> pc_attached (c_pcs c ! p) then onicecandidate p cand c else c)"
| "call_step (PcState now p st) c =
     (if p < length (c_pcs c) \<and> pc_attached (c_pcs c ! p) then onconnectionstatechange now p st c else c)"
| "call_step (RecoveryStarts s) c = (if recovery_timer rc_start s c then recovery_starts s c else c)"
| "call_step (RecoveryGivesUp s) c = (if recovery_timer rc_giveUp s c then recovery_gives_up s c else c)"
| "call_step (RecoveryRetries s) c = (if recovery_timer rc_retry s c then restartIce s c else c)"
| "call_step EndTimer c = (if c_endTimer c then end_timer_fires c else c)"
| "call_step PickUp c = pickUp c"
| "call_step (NativeDecision d) c = applyNativeDecision d c"
| "call_step (Visibility b) c = (let c1 = c\<lparr>c_visible := b\<rparr> in if b then pickUp c1 else c1)"
| "call_step Unmount c = unmount c"


end
