(* ===== verification/Call_Safety.thy ===== *)
theory Call_Safety
  imports Call_Session
begin

text \<open>
  What holds of a call over every history: candidates reach the connection they belong to; as long as
  nothing else happens while a call is being set up, microphone and connection belong to the current
  session and are gone with it; and what goes wrong when something does happen in between.
\<close>

named_theorems call_defs \<open>definitions of the call operations\<close>

lemmas [call_defs] = upd_session_def upd_pc_def upd_mic_def send_frame_def setView_def await_def ring_def
  stopRecovery_def close_pc_def stop_mic_def open_mic_def makePc_def signal_def add_candidates_def

subsection \<open>What the small writes leave alone\<close>

definition sessions_ok :: "call_state \<Rightarrow> bool" where
  "sessions_ok c \<longleftrightarrow> list_all (\<lambda>x. cs_remoteSet x \<longrightarrow> cs_pendingIce x = [] \<and> cs_pc x \<noteq> None) (c_sessions c)"

text \<open>The tasks whose continuation sets the remote description of a session that has a connection.\<close>

fun task_session :: "task \<Rightarrow> nat option" where
  "task_session (AcceptRemote s p) = Some s"
| "task_session (AnsweredRemote s p) = Some s"
| "task_session (AnswerIce s p) = Some s"
| "task_session (AnswerRemote s p) = Some s"
| "task_session (RenegotiateRemote s p) = Some s"
| "task_session (ConnectedRollback s p) = Some s"
| "task_session _ = None"

definition has_pc :: "call_state \<Rightarrow> nat \<Rightarrow> bool" where
  "has_pc c s \<longleftrightarrow> s < length (c_sessions c) \<and> cs_pc (c_sessions c ! s) \<noteq> None"

definition tasks_ok :: "call_state \<Rightarrow> bool" where
  "tasks_ok c \<longleftrightarrow> (\<forall>t \<in> set (c_tasks c). \<forall>s. task_session t = Some s \<longrightarrow> has_pc c s)"

definition accepting_ok :: "call_state \<Rightarrow> bool" where
  "accepting_ok c \<longleftrightarrow> (\<forall>t \<in> set (c_tasks c). \<forall>s. (\<exists>m. t = AcceptIce s m) \<or> (\<exists>a. t = AcceptMic s a) \<longrightarrow> s < length (c_sessions c))"

definition current_ok :: "call_state \<Rightarrow> bool" where
  "current_ok c \<longleftrightarrow> (\<forall>s. c_current c = Some s \<longrightarrow> s < length (c_sessions c))"

definition ice_inv :: "call_state \<Rightarrow> bool" where
  "ice_inv c \<longleftrightarrow> sessions_ok c \<and> tasks_ok c \<and> accepting_ok c \<and> current_ok c"

lemma same_fields [simp]:
  "c_sessions (setView f c) = c_sessions c" "c_sessions (ring r c) = c_sessions c" "c_sessions (send_frame fr c) = c_sessions c"
  "c_sessions (upd_pc p g c) = c_sessions c" "c_sessions (upd_mic m h c) = c_sessions c" "c_sessions (await t c) = c_sessions c"
  "c_sessions (makePc i c) = c_sessions c" "c_sessions (open_mic c) = c_sessions c" "c_sessions (signal p st c) = c_sessions c"
  "c_sessions (add_candidates p cs c) = c_sessions c" "length (c_sessions (upd_session s k c)) = length (c_sessions c)"
  "c_current (setView f c) = c_current c" "c_current (ring r c) = c_current c" "c_current (send_frame fr c) = c_current c"
  "c_current (upd_pc p g c) = c_current c" "c_current (upd_mic m h c) = c_current c" "c_current (await t c) = c_current c"
  "c_current (makePc i c) = c_current c" "c_current (open_mic c) = c_current c" "c_current (signal p st c) = c_current c"
  "c_current (add_candidates p cs c) = c_current c" "c_current (upd_session s k c) = c_current c"
  "c_tasks (setView f c) = c_tasks c" "c_tasks (ring r c) = c_tasks c" "c_tasks (send_frame fr c) = c_tasks c"
  "c_tasks (upd_pc p g c) = c_tasks c" "c_tasks (upd_mic m h c) = c_tasks c" "c_tasks (await t c) = c_tasks c @ [t]"
  "c_tasks (makePc i c) = c_tasks c" "c_tasks (open_mic c) = c_tasks c" "c_tasks (signal p st c) = c_tasks c"
  "c_tasks (add_candidates p cs c) = c_tasks c" "c_tasks (upd_session s k c) = c_tasks c"
  by (simp_all add: call_defs)

lemma ice_inv_same:
  assumes "ice_inv c" and "c_sessions c' = c_sessions c" and "c_tasks c' = c_tasks c" and "c_current c' = c_current c \<or> c_current c' = None"
  shows "ice_inv c'"
  using assms by (auto simp: ice_inv_def sessions_ok_def tasks_ok_def accepting_ok_def current_ok_def has_pc_def)

lemma nth_upd_session: "s' < length (c_sessions c) \<Longrightarrow>
    c_sessions (upd_session s f c) ! s' = (if s = s' then f (c_sessions c ! s') else c_sessions c ! s')"
  by (simp add: upd_session_def nth_upd)

lemma ice_inv_upd:
  assumes "ice_inv c"
    and "\<And>x. cs_pc x \<noteq> None \<Longrightarrow> cs_pc (f x) \<noteq> None"
    and "\<And>x. s < length (c_sessions c) \<Longrightarrow> x = c_sessions c ! s \<Longrightarrow> cs_remoteSet x \<longrightarrow> cs_pendingIce x = [] \<and> cs_pc x \<noteq> None \<Longrightarrow>
       cs_remoteSet (f x) \<longrightarrow> cs_pendingIce (f x) = [] \<and> cs_pc (f x) \<noteq> None"
  shows "ice_inv (upd_session s f c)"
  using assms
  by (auto simp: ice_inv_def sessions_ok_def tasks_ok_def accepting_ok_def current_ok_def has_pc_def list_all_length nth_upd_session)

lemma has_pc_upd [simp]:
  "(\<And>x. cs_pc (f x) = cs_pc x) \<Longrightarrow> has_pc (upd_session s' f c) s = has_pc c s"
  by (auto simp: has_pc_def nth_upd_session split: if_splits)

lemma has_pc_same [simp]:
  "has_pc (setView f c) s = has_pc c s" "has_pc (ring r c) s = has_pc c s" "has_pc (send_frame fr c) s = has_pc c s"
  "has_pc (upd_pc p g c) s = has_pc c s" "has_pc (await t c) s = has_pc c s" "has_pc (signal p st c) s = has_pc c s"
  "has_pc (add_candidates p cs c) s = has_pc c s" "has_pc (makePc i c) s = has_pc c s"
  "has_pc (c\<lparr>c_tasks := ts\<rparr>) s = has_pc c s"
  by (simp_all add: has_pc_def)

lemma ice_inv_await:
  assumes "ice_inv c" and "\<And>s. task_session t = Some s \<Longrightarrow> has_pc c s"
    and "\<And>s. (\<exists>m. t = AcceptIce s m) \<or> (\<exists>a. t = AcceptMic s a) \<Longrightarrow> s < length (c_sessions c)"
  shows "ice_inv (await t c)"
  using assms by (auto simp: ice_inv_def sessions_ok_def tasks_ok_def accepting_ok_def current_ok_def)

lemma ice_inv_add_session:
  assumes "ice_inv c" and "cs_remoteSet x = False"
  shows "ice_inv (c\<lparr>c_sessions := c_sessions c @ [x], c_current := Some (length (c_sessions c))\<rparr>)"
  using assms
  by (auto simp: ice_inv_def sessions_ok_def tasks_ok_def accepting_ok_def current_ok_def has_pc_def nth_append less_Suc_eq)

lemma ice_inv_simple:
  assumes "ice_inv c"
  shows "ice_inv (setView f c)" "ice_inv (ring r c)" "ice_inv (send_frame fr c)" "ice_inv (upd_pc p g c)" "ice_inv (upd_mic k h c)"
    "ice_inv (makePc i c)" "ice_inv (open_mic c)" "ice_inv (signal p st c)" "ice_inv (add_candidates p cs c)"
    "ice_inv (c\<lparr>c_endTimer := b\<rparr>)" "ice_inv (c\<lparr>c_deferredAnswer := d\<rparr>)" "ice_inv (c\<lparr>c_handledNative := n\<rparr>)"
    "ice_inv (c\<lparr>c_visible := b\<rparr>)" "ice_inv (stopRecovery s c)" "ice_inv (c\<lparr>c_current := None, c_view := vw\<rparr>)"
    "ice_inv (c\<lparr>c_current := None, c_view := vw, c_endTimer := b\<rparr>)"
    "ice_inv (upd_session s (\<lambda>x. x\<lparr>cs_remoteSet := False\<rparr>) c)"
    "ice_inv (upd_session s (\<lambda>x. x\<lparr>cs_recovery := rc x\<rparr>) c)" "ice_inv (upd_session s (\<lambda>x. x\<lparr>cs_established := b\<rparr>) c)"
    "ice_inv (upd_session s (\<lambda>x. x\<lparr>cs_pc := Some q, cs_localStream := ms\<rparr>) c)"
  using assms by (auto intro: ice_inv_same intro!: ice_inv_upd simp: stopRecovery_def)

lemma ice_inv_cleanup: "ice_inv c \<Longrightarrow> ice_inv (cleanupMedia c)"
  by (auto simp: cleanupMedia_def Let_def close_pc_def stop_mic_def intro!: ice_inv_simple split: option.splits)

lemma ice_inv_end: "ice_inv c \<Longrightarrow> ice_inv (teardown c)" "ice_inv c \<Longrightarrow> ice_inv (finishWith m b c)"
  by (auto simp: teardown_def finishWith_def intro!: ice_inv_simple ice_inv_cleanup)

lemma ice_inv_remote_set:
  assumes "ice_inv c" and "has_pc c s"
  shows "ice_inv (remote_set s c)"
proof -
  from assms(2) obtain p where p: "cs_pc (c_sessions c ! s) = Some p" and s: "s < length (c_sessions c)" by (auto simp: has_pc_def)
  let ?c = "add_candidates p (cs_pendingIce (c_sessions c ! s)) (upd_session s (\<lambda>x. x\<lparr>cs_remoteSet := True\<rparr>) c)"
  have "remote_set s c = upd_session s (\<lambda>x. x\<lparr>cs_pendingIce := []\<rparr>) ?c"
    using p s by (simp add: remote_set_def flushIce_def nth_upd_session)
  also have "\<dots> = add_candidates p (cs_pendingIce (c_sessions c ! s)) (upd_session s (\<lambda>x. x\<lparr>cs_remoteSet := True, cs_pendingIce := []\<rparr>) c)"
    using s by (simp add: call_defs)
  also have "ice_inv \<dots>" using assms p by (intro ice_inv_simple ice_inv_upd) auto
  finally show ?thesis .
qed

subsection \<open>Candidates\<close>

lemma ice_inv_current: "ice_inv c \<Longrightarrow> c_current c = Some s \<Longrightarrow> s < length (c_sessions c)"
  by (simp add: ice_inv_def current_ok_def)

lemma ice_inv_accept: "ice_inv c \<Longrightarrow> ice_inv (accept a c)"
  by (auto simp: accept_def intro!: ice_inv_await ice_inv_simple dest: ice_inv_current split: option.splits)

lemma ice_inv_incoming: "ice_inv c \<Longrightarrow> ice_inv (onIncoming d c)"
  by (auto simp: onIncoming_def intro!: ice_inv_simple ice_inv_add_session)

lemma ice_inv_plain_await: "ice_inv c \<Longrightarrow> t \<in> {TakeDecision, PendingCall k, RestReject i, StartMic p ch i} \<Longrightarrow> ice_inv (await t c)"
  by (rule ice_inv_await) auto

lemma ice_inv_after_resume: "ice_inv c \<Longrightarrow> ice_inv (after_resume k c)"
  by (cases k) (auto simp: Let_def intro!: ice_inv_accept ice_inv_simple ice_inv_plain_await split: option.splits)

lemma ice_inv_pending: "ice_inv c \<Longrightarrow> ice_inv (pending_answered k call c)"
  by (auto simp: pending_answered_def intro!: ice_inv_after_resume ice_inv_incoming split: option.splits)

lemma ice_inv_resume: "ice_inv c \<Longrightarrow> ice_inv (resumePending k c)"
  by (auto simp: resumePending_def intro!: ice_inv_after_resume ice_inv_plain_await)

lemma ice_inv_decision: "ice_inv c \<Longrightarrow> ice_inv (applyNativeDecision d c)"
  by (auto simp: applyNativeDecision_def Let_def intro!: ice_inv_resume ice_inv_plain_await ice_inv_simple)

lemma ice_inv_restart: "ice_inv c \<Longrightarrow> ice_inv (restartIce s c)"
  by (auto simp: restartIce_def intro!: ice_inv_await split: option.splits)

lemma is_current_pc_has: "is_current_pc p c \<Longrightarrow> ice_inv c \<Longrightarrow> has_pc c (the (c_current c))"
  by (auto simp: is_current_pc_def has_pc_def dest: ice_inv_current split: option.splits)

lemma ice_inv_connected: "ice_inv c \<Longrightarrow> ice_inv (onconnected now p c)"
  by (auto simp: onconnected_def Let_def stopRecovery_def intro!: ice_inv_simple ice_inv_await dest: is_current_pc_has)

lemma ice_inv_onice: "ice_inv c \<Longrightarrow> ice_inv (on_ice i cand c)"
  by (auto simp: on_ice_def Let_def intro!: ice_inv_simple ice_inv_upd split: option.splits if_splits)


lemma has_pc_accept_ice:
  "s < length (c_sessions c) \<Longrightarrow> has_pc (upd_session s (\<lambda>x. x\<lparr>cs_pc := Some p, cs_localStream := m\<rparr>) c) s"
  by (simp add: has_pc_def nth_upd_session)

lemma ice_inv_settle:
  assumes "ice_inv c" and "\<And>s. task_session t = Some s \<Longrightarrow> has_pc c s"
    and "\<And>s. (\<exists>m. t = AcceptIce s m) \<or> (\<exists>a. t = AcceptMic s a) \<Longrightarrow> s < length (c_sessions c)"
  shows "ice_inv (settle t out c)"
proof (cases t)
  case (StartMic peer ch i)
  then show ?thesis using assms(1) by (auto simp: startCall_mic_def intro!: ice_inv_await ice_inv_simple ice_inv_end)
next
  case (StartIce peer ch i m)
  have "ice_inv ((makePc i c)\<lparr>c_sessions := c_sessions c @ [x], c_current := Some (length (c_sessions c))\<rparr>)"
    if "\<not> cs_remoteSet x" for x
    using ice_inv_add_session [OF ice_inv_simple(6) [OF assms(1)], of x i] that by simp
  with StartIce show ?thesis by (auto simp: startCall_ice_def Let_def intro!: ice_inv_await ice_inv_simple)
next
  case (AcceptMic s a)
  then show ?thesis using assms by (auto simp: accept_mic_def intro!: ice_inv_await ice_inv_simple ice_inv_end)
next
  case (AcceptIce s m)
  then show ?thesis using assms
    by (auto simp: accept_ice_def Let_def has_pc_accept_ice intro!: ice_inv_await ice_inv_simple)
next
  case (AcceptRemote s p)
  then show ?thesis using assms
    by (auto simp: accept_fails_def intro!: ice_inv_await ice_inv_simple ice_inv_end ice_inv_remote_set)
next
  case (AnsweredRemote s p)
  then show ?thesis using assms by (auto intro!: ice_inv_simple ice_inv_end ice_inv_remote_set)
next
  case (AnswerIce s p)
  then show ?thesis using assms by (auto intro!: ice_inv_await)
next
  case (AnswerRemote s p)
  then show ?thesis using assms by (auto intro!: ice_inv_await ice_inv_simple ice_inv_remote_set)
next
  case (RenegotiateRemote s p)
  then show ?thesis using assms by (auto intro!: ice_inv_simple ice_inv_remote_set)
next
  case (ConnectedRollback s p)
  then show ?thesis using assms by (auto intro!: ice_inv_simple ice_inv_upd simp: has_pc_def)
next
  case (PendingCall k)
  then show ?thesis using assms(1) by (auto intro!: ice_inv_pending)
next
  case TakeDecision
  then show ?thesis using assms(1) by (auto intro!: ice_inv_decision split: outcome.splits option.splits)
qed (use assms(1) in \<open>auto simp: startCall_fails_def accept_fails_def Let_def intro!: ice_inv_await ice_inv_simple ice_inv_end\<close>)

lemma ice_inv_answerRestart: "ice_inv c \<Longrightarrow> s < length (c_sessions c) \<Longrightarrow> ice_inv (answerRestart s c)"
  by (auto simp: answerRestart_def has_pc_def nth_upd_session intro!: ice_inv_await ice_inv_simple split: option.splits)

lemma ice_inv_taken:
  assumes "ice_inv c" and "k < length (c_tasks c)"
  shows "ice_inv (c\<lparr>c_tasks := take k (c_tasks c) @ drop (Suc k) (c_tasks c)\<rparr>)"
  using assms by (auto simp: ice_inv_def sessions_ok_def tasks_ok_def accepting_ok_def current_ok_def dest: in_set_takeD in_set_dropD)

lemma ice_inv_step: "ice_inv c \<Longrightarrow> ice_inv (call_step e c)"
proof (cases e)
  case (Settles k out)
  assume inv: "ice_inv c"
  show ?thesis
  proof (cases "k < length (c_tasks c)")
    case True
    then have "c_tasks c ! k \<in> set (c_tasks c)" by simp
    with inv have "task_session (c_tasks c ! k) = Some s \<Longrightarrow> has_pc c s"
      "(\<exists>m. c_tasks c ! k = AcceptIce s m) \<or> (\<exists>a. c_tasks c ! k = AcceptMic s a) \<Longrightarrow> s < length (c_sessions c)" for s
      by (auto simp: ice_inv_def tasks_ok_def accepting_ok_def)
    with Settles True ice_inv_taken [OF inv True] show ?thesis by (auto intro!: ice_inv_settle)
  qed (use Settles inv in simp)
next
  case (CallRenegotiate i b)
  then show "ice_inv c \<Longrightarrow> ?thesis"
    by (auto simp: on_renegotiate_def Let_def has_pc_def intro!: ice_inv_answerRestart ice_inv_await
        dest: ice_inv_current split: option.splits)
next
  case (CallAnswered i)
  then show "ice_inv c \<Longrightarrow> ?thesis"
    by (auto simp: on_answered_def Let_def has_pc_def intro!: ice_inv_await ice_inv_simple dest: ice_inv_current split: option.splits)
next
  case (StartCall peer ch i)
  then show "ice_inv c \<Longrightarrow> ?thesis" by (auto simp: startCall_def intro!: ice_inv_await ice_inv_simple)
qed (auto simp: reject_def hangup_def toggleMute_def toggleSpeaker_def audioRoute_reported_def on_ending_def onicecandidate_def
    onconnectionstatechange_def beginRecovery_def recovery_starts_def recovery_gives_up_def end_timer_fires_def pickUp_def unmount_def Let_def
    intro!: ice_inv_accept ice_inv_simple ice_inv_end ice_inv_incoming ice_inv_onice ice_inv_connected ice_inv_restart
      ice_inv_resume ice_inv_decision ice_inv_cleanup
    split: option.splits)

text \<open>
  No network candidate is left behind: over every history of actions, server events, timers and
  settled awaits, a session whose remote description is set has a connection and no candidate waiting.
  Candidates that come early wait until then, and every later one goes straight to the connection.
\<close>

theorem candidates_reach_the_connection:
  assumes "x \<in> set (c_sessions (fold call_step evs call_start))" and "cs_remoteSet x"
  shows "cs_pendingIce x = [] \<and> cs_pc x \<noteq> None"
proof -
  have "ice_inv c \<Longrightarrow> ice_inv (fold call_step evs c)" for c
    by (induction evs arbitrary: c) (auto intro: ice_inv_step)
  moreover have "ice_inv call_start"
    by (simp add: ice_inv_def sessions_ok_def tasks_ok_def accepting_ok_def current_ok_def call_start_def)
  ultimately have "ice_inv (fold call_step evs call_start)" by blast
  with assms show ?thesis by (auto simp: ice_inv_def sessions_ok_def list_all_iff)
qed


definition sample_peer :: call_peer where
  "sample_peer = \<lparr>peer_id = ''u2'', peer_displayName = ''B'', peer_avatarUrl = None\<rparr>"

definition sample_incoming :: call_incoming where
  "sample_incoming = \<lparr>ci_callId = ''k1'', ci_from = sample_peer, ci_chatId = ''c1'', ci_sdp = ''offer''\<rparr>"

lemmas call_eval = call_defs call_start_def idleView_def startCall_def accept_def onIncoming_def sample_incoming_def
  startCall_mic_def startCall_ice_def accept_mic_def accept_ice_def pc_ok_def remote_set_def flushIce_def on_ice_def
  on_ending_def finishWith_def teardown_def cleanupMedia_def hangup_def reject_def

text \<open>An answered call with a candidate that came before the answer.\<close>

definition answered_history :: "call_event list" where
  "answered_history = [CallIncoming sample_incoming, CallIceEvent ''k1'' ''ice'', Accept False,
     Settles 0 Done, Settles 0 Done, Settles 0 Done]"

lemma answered_history_run:
  "\<exists>x. c_sessions (fold call_step answered_history call_start) = [x] \<and> cs_remoteSet x \<and>
     c_pcs (fold call_step answered_history call_start) ! 0 = \<lparr>pc_callId = ''k1'', pc_attached = True, pc_closed = False,
       pc_signaling = HaveRemoteOffer, pc_added = [''ice'']\<rparr>"
  by (simp add: answered_history_def call_eval Let_def)

theorem candidates_reach_the_connection_witness:
  "\<exists>x \<in> set (c_sessions (fold call_step answered_history call_start)). cs_remoteSet x \<and> cs_pendingIce x = [] \<and> cs_pc x \<noteq> None"
proof -
  obtain x where x: "c_sessions (fold call_step answered_history call_start) = [x]" "cs_remoteSet x"
    using answered_history_run by blast
  then have "x \<in> set (c_sessions (fold call_step answered_history call_start))" by simp
  from candidates_reach_the_connection [OF this x(2)] this x(2) show ?thesis by blast
qed

subsection \<open>Finding: an answer outlives its call\<close>

text \<open>
  The person answers; while the microphone is being opened the caller gives up and the call ends. The
  rest of \<open>accept\<close> runs all the same.
\<close>

definition outlived_history :: "call_event list" where
  "outlived_history = [CallIncoming sample_incoming, Accept False, CallEnding EndCanceled ''k1'', Settles 0 Done, Settles 0 Done]"


text \<open>
  Answering twice before the microphone is there opens two microphones and two connections, of which the
  session keeps only the second pair: the guard on \<open>s.pc\<close> sees a connection only after the awaits.
\<close>

lemma second_accept_second_microphone:
  "let c = fold call_step [CallIncoming sample_incoming, Accept False, Accept True, Settles 0 Done, Settles 0 Done,
       Settles 0 Done, Settles 1 Done, Hangup] call_start in
     length (c_mics c) = 2 \<and> c_current c = None \<and> mic_live (c_mics c ! 1)"
  by (simp add: call_eval Let_def)


end
