(* ===== verification/Call_Media.thy ===== *)
theory Call_Media
  imports Call_Safety
begin

text \<open>
  Who owns the microphone. While \<open>startCall\<close> or \<open>accept\<close> waits for the microphone and the relay settings
  (\<open>is_setup\<close>), the new microphone is held by no session yet. If nothing that starts or ends a call happens
  in those moments (\<open>calm\<close>), every live microphone and open connection belongs to the current session, so
  that ending the call always turns them off.
\<close>

fun is_setup :: "task \<Rightarrow> bool" where
  "is_setup (StartMic p ch i) = True"
| "is_setup (StartIce p ch i m) = True"
| "is_setup (AcceptMic s a) = True"
| "is_setup (AcceptIce s m) = True"
| "is_setup _ = False"

definition setting_up :: "call_state \<Rightarrow> task list" where
  "setting_up c = filter is_setup (c_tasks c)"

text \<open>While a call is being set up, only its own awaits settle and the view may change.\<close>

fun harmless :: "call_event \<Rightarrow> bool" where
  "harmless ToggleMute = True"
| "harmless ToggleSpeaker = True"
| "harmless (AudioRoute r b) = True"
| "harmless (CallIceEvent i cand) = True"
| "harmless (PcCandidate p cand) = True"
| "harmless (CallIncoming d) = False"
| "harmless _ = False"

definition calm_event :: "call_state \<Rightarrow> call_event \<Rightarrow> bool" where
  "calm_event c e \<longleftrightarrow> setting_up c = [] \<or> harmless e \<or>
     (case e of Settles k out \<Rightarrow> k < length (c_tasks c) \<and> is_setup (c_tasks c ! k) | _ \<Rightarrow> False)"

fun calm :: "call_event list \<Rightarrow> call_state \<Rightarrow> bool" where
  "calm [] c = True"
| "calm (e # es) c = (calm_event c e \<and> calm es (call_step e c))"

definition live :: "call_state \<Rightarrow> nat set" where
  "live c = {m. m < length (c_mics c) \<and> mic_live (c_mics c ! m)}"

definition open_pcs :: "call_state \<Rightarrow> nat set" where
  "open_pcs c = {p. p < length (c_pcs c) \<and> \<not> pc_closed (c_pcs c ! p)}"

definition own_mics :: "call_state \<Rightarrow> nat set" where
  "own_mics c = (case c_current c of None \<Rightarrow> {} | Some s \<Rightarrow> set_option (cs_localStream (c_sessions c ! s)))"

definition own_pcs :: "call_state \<Rightarrow> nat set" where
  "own_pcs c = (case c_current c of None \<Rightarrow> {} | Some s \<Rightarrow> set_option (cs_pc (c_sessions c ! s)))"

definition bare :: "call_state \<Rightarrow> nat \<Rightarrow> bool" where
  "bare c s \<longleftrightarrow> c_current c = Some s \<and> s < length (c_sessions c) \<and> cs_pc (c_sessions c ! s) = None"

text \<open>What the pending setup, if any, says about the rest.\<close>

fun setup_ok :: "task list \<Rightarrow> call_state \<Rightarrow> bool" where
  "setup_ok [] c = (live c \<subseteq> own_mics c \<and> open_pcs c \<subseteq> own_pcs c)"
| "setup_ok [StartMic p ch i] c = (c_current c = None \<and> live c = {} \<and> open_pcs c = {})"
| "setup_ok [StartIce p ch i m] c = (c_current c = None \<and> live c \<subseteq> {m} \<and> open_pcs c = {})"
| "setup_ok [AcceptMic s a] c = (bare c s \<and> live c = {} \<and> open_pcs c = {})"
| "setup_ok [AcceptIce s m] c = (bare c s \<and> live c \<subseteq> {m} \<and> open_pcs c = {})"
| "setup_ok _ c = False"

definition streams_ok :: "call_state \<Rightarrow> bool" where
  "streams_ok c \<longleftrightarrow> list_all (\<lambda>x. cs_pc x = None \<longrightarrow> cs_localStream x = None) (c_sessions c)"

definition media_inv :: "call_state \<Rightarrow> bool" where
  "media_inv c \<longleftrightarrow> current_ok c \<and> streams_ok c \<and> setup_ok (setting_up c) c"

subsection \<open>Writes that keep every owner\<close>

definition same_media :: "call_state \<Rightarrow> call_state \<Rightarrow> bool" where
  "same_media c c' \<longleftrightarrow> c_current c' = c_current c \<and>
     map (\<lambda>x. (cs_pc x, cs_localStream x)) (c_sessions c') = map (\<lambda>x. (cs_pc x, cs_localStream x)) (c_sessions c) \<and>
     map pc_closed (c_pcs c') = map pc_closed (c_pcs c) \<and> map mic_live (c_mics c') = map mic_live (c_mics c)"

lemma same_media_refl [simp]: "same_media c c"
  by (simp add: same_media_def)

lemma same_media_trans: "same_media a b \<Longrightarrow> same_media b c \<Longrightarrow> same_media a c"
  by (simp add: same_media_def)

lemma map_eq_nth: "map f xs = map f ys \<Longrightarrow> length xs = length ys \<and> (\<forall>i < length ys. f (xs ! i) = f (ys ! i))"
  by (metis length_map nth_map)

lemma same_media_facts:
  assumes "same_media c c'"
  shows "live c' = live c" "open_pcs c' = open_pcs c" "current_ok c' = current_ok c" "streams_ok c' = streams_ok c"
    and "current_ok c \<Longrightarrow> own_mics c' = own_mics c" "current_ok c \<Longrightarrow> own_pcs c' = own_pcs c" "bare c' s = bare c s"
proof -
  note eqs = assms [unfolded same_media_def]
  have s: "length (c_sessions c') = length (c_sessions c)"
    "\<And>i. i < length (c_sessions c) \<Longrightarrow> cs_pc (c_sessions c' ! i) = cs_pc (c_sessions c ! i) \<and> cs_localStream (c_sessions c' ! i) = cs_localStream (c_sessions c ! i)"
    using map_eq_nth [of _ "c_sessions c'" "c_sessions c"] eqs by auto
  have p: "length (c_pcs c') = length (c_pcs c)" "\<And>i. i < length (c_pcs c) \<Longrightarrow> pc_closed (c_pcs c' ! i) = pc_closed (c_pcs c ! i)"
    using map_eq_nth [of pc_closed "c_pcs c'" "c_pcs c"] eqs by auto
  have m: "length (c_mics c') = length (c_mics c)" "\<And>i. i < length (c_mics c) \<Longrightarrow> mic_live (c_mics c' ! i) = mic_live (c_mics c ! i)"
    using map_eq_nth [of mic_live "c_mics c'" "c_mics c"] eqs by auto
  show "live c' = live c" using m by (auto simp: live_def)
  show "open_pcs c' = open_pcs c" using p by (auto simp: open_pcs_def)
  show "current_ok c' = current_ok c" using s eqs by (simp add: current_ok_def)
  show "streams_ok c' = streams_ok c" using s by (simp add: streams_ok_def list_all_length)
  show "bare c' s = bare c s" using s eqs by (auto simp: bare_def)
  show "current_ok c \<Longrightarrow> own_mics c' = own_mics c" "current_ok c \<Longrightarrow> own_pcs c' = own_pcs c"
    using s eqs by (auto simp: own_mics_def own_pcs_def current_ok_def split: option.splits)
qed

lemma setup_ok_cases:
  assumes "setup_ok ts c"
  obtains (none) "ts = []" | (start_mic) p ch i where "ts = [StartMic p ch i]" | (start_ice) p ch i m where "ts = [StartIce p ch i m]"
  | (accept_mic) s a where "ts = [AcceptMic s a]" | (accept_ice) s m where "ts = [AcceptIce s m]"
  using assms by (cases "(ts, c)" rule: setup_ok.cases) auto

lemma setup_ok_same:
  assumes "same_media c c'" and "current_ok c" and "setup_ok ts c"
  shows "setup_ok ts c'"
  using assms(3)
  by (cases rule: setup_ok_cases) (use assms same_media_facts [OF assms(1)] in \<open>auto simp: same_media_def\<close>)

lemma media_inv_same:
  assumes "media_inv c" and "same_media c c'" and "setting_up c' = setting_up c"
  shows "media_inv c'"
  using assms setup_ok_same [OF assms(2)] same_media_facts [OF assms(2)] by (auto simp: media_inv_def)

lemma same_media_writes [simp]:
  "same_media c (setView f c)" "same_media c (ring r c)" "same_media c (send_frame fr c)" "same_media c (await t c)"
  "same_media c (c\<lparr>c_deferredAnswer := d\<rparr>)" "same_media c (c\<lparr>c_handledNative := n\<rparr>)" "same_media c (c\<lparr>c_endTimer := b\<rparr>)"
  "same_media c (c\<lparr>c_visible := b\<rparr>)" "same_media c (c\<lparr>c_tasks := ts\<rparr>)"
  by (simp_all add: same_media_def call_defs)

lemma map_update_same: "f (g (xs ! i)) = f (xs ! i) \<Longrightarrow> map f (xs[i := g (xs ! i)]) = map f xs"
  by (cases "i < length xs") (simp_all add: map_update list_update_id list_update_beyond list_update_same_conv)

lemma same_media_session: "(\<And>x. cs_pc (f x) = cs_pc x \<and> cs_localStream (f x) = cs_localStream x) \<Longrightarrow> same_media c (upd_session s f c)"
  by (simp add: same_media_def upd_session_def map_update_same)

lemma same_media_pc: "(\<And>x. pc_closed (f x) = pc_closed x) \<Longrightarrow> same_media c (upd_pc p f c)"
  by (simp add: same_media_def upd_pc_def map_update_same)

lemma same_media_mic: "(\<And>x. mic_live (f x) = mic_live x) \<Longrightarrow> same_media c (upd_mic m f c)"
  by (simp add: same_media_def upd_mic_def map_update_same)

text \<open>Keeping media and setup, closed under composition: the shape of every harmless operation.\<close>

definition tame :: "(call_state \<Rightarrow> call_state) \<Rightarrow> bool" where
  "tame f \<longleftrightarrow> (\<forall>c. same_media c (f c) \<and> setting_up (f c) = setting_up c)"

lemma tame_comp: "tame f \<Longrightarrow> tame g \<Longrightarrow> tame (\<lambda>c. f (g c))"
  unfolding tame_def by (metis same_media_trans)

lemma tame_inv: "tame f \<Longrightarrow> media_inv c \<Longrightarrow> media_inv (f c)"
  unfolding tame_def using media_inv_same by blast

lemma setting_up_fields [simp]:
  "setting_up (setView f c) = setting_up c" "setting_up (ring r c) = setting_up c" "setting_up (send_frame fr c) = setting_up c"
  "setting_up (upd_session s g c) = setting_up c" "setting_up (upd_pc p h c) = setting_up c" "setting_up (upd_mic m k c) = setting_up c"
  "setting_up (await t c) = setting_up c @ (if is_setup t then [t] else [])" "setting_up (open_mic c) = setting_up c"
  "setting_up (makePc i c) = setting_up c" "setting_up (signal p st c) = setting_up c" "setting_up (add_candidates p cs c) = setting_up c"
  "setting_up (c\<lparr>c_deferredAnswer := d\<rparr>) = setting_up c" "setting_up (c\<lparr>c_handledNative := n\<rparr>) = setting_up c"
  "setting_up (c\<lparr>c_endTimer := b\<rparr>) = setting_up c" "setting_up (c\<lparr>c_visible := b\<rparr>) = setting_up c"
  "setting_up (stopRecovery s c) = setting_up c" "setting_up (close_pc p c) = setting_up c" "setting_up (stop_mic m c) = setting_up c"
  "setting_up (c\<lparr>c_current := cur, c_view := vw\<rparr>) = setting_up c"
  "setting_up (c\<lparr>c_current := cur, c_view := vw, c_endTimer := b\<rparr>) = setting_up c"
  by (simp_all add: setting_up_def call_defs)

lemma same_media_more [simp]:
  "same_media c (signal p st c)" "same_media c (add_candidates p cs c)" "same_media c (stopRecovery s c)"
  "same_media c (upd_session s (\<lambda>x. x\<lparr>cs_remoteSet := b\<rparr>) c)" "same_media c (upd_session s (\<lambda>x. x\<lparr>cs_pendingIce := q x\<rparr>) c)"
  "same_media c (upd_session s (\<lambda>x. x\<lparr>cs_remoteSet := b, cs_pendingIce := q x\<rparr>) c)"
  "same_media c (upd_session s (\<lambda>x. x\<lparr>cs_recovery := rc x\<rparr>) c)" "same_media c (upd_session s (\<lambda>x. x\<lparr>cs_established := b\<rparr>) c)"
  by (auto simp: signal_def add_candidates_def stopRecovery_def intro!: same_media_session same_media_pc split: if_splits)

lemma media_inv_writes:
  assumes "media_inv c"
  shows "media_inv (setView f c)" "media_inv (ring r c)" "media_inv (send_frame fr c)" "media_inv (signal p st c)"
    "media_inv (add_candidates p cs c)" "media_inv (stopRecovery s c)" "\<not> is_setup t \<Longrightarrow> media_inv (await t c)"
    "media_inv (upd_session s (\<lambda>x. x\<lparr>cs_remoteSet := b\<rparr>) c)" "media_inv (upd_session s (\<lambda>x. x\<lparr>cs_pendingIce := q x\<rparr>) c)"
    "media_inv (upd_session s (\<lambda>x. x\<lparr>cs_remoteSet := b, cs_pendingIce := q x\<rparr>) c)"
    "media_inv (upd_session s (\<lambda>x. x\<lparr>cs_recovery := rc x\<rparr>) c)" "media_inv (upd_session s (\<lambda>x. x\<lparr>cs_established := b\<rparr>) c)"
    "media_inv (c\<lparr>c_deferredAnswer := d\<rparr>)" "media_inv (c\<lparr>c_handledNative := n\<rparr>)" "media_inv (c\<lparr>c_endTimer := b\<rparr>)"
    "media_inv (c\<lparr>c_visible := b\<rparr>)"
  by (rule media_inv_same [OF assms]; simp)+

lemma media_inv_remote_set: "media_inv c \<Longrightarrow> media_inv (remote_set s c)"
  by (auto simp: remote_set_def flushIce_def intro!: media_inv_writes split: option.splits)


subsection \<open>Ending a call\<close>

lemma open_close_pc: "open_pcs (close_pc p c) = open_pcs c - {p}" "live (close_pc p c) = live c"
  by (auto simp: open_pcs_def live_def close_pc_def upd_pc_def nth_upd split: if_splits)

lemma live_stop_mic: "live (stop_mic m c) = live c - {m}" "open_pcs (stop_mic m c) = open_pcs c"
  by (auto simp: open_pcs_def live_def stop_mic_def upd_mic_def nth_upd split: if_splits)

lemma media_fields [simp]:
  "live (c\<lparr>c_current := cur, c_view := vw\<rparr>) = live c" "open_pcs (c\<lparr>c_current := cur, c_view := vw\<rparr>) = open_pcs c"
  "live (c\<lparr>c_current := cur, c_view := vw, c_endTimer := b\<rparr>) = live c"
  "open_pcs (c\<lparr>c_current := cur, c_view := vw, c_endTimer := b\<rparr>) = open_pcs c"
  "live (ring r c) = live c" "open_pcs (ring r c) = open_pcs c" "live (stopRecovery s c) = live c" "open_pcs (stopRecovery s c) = open_pcs c"
  by (simp_all add: live_def open_pcs_def call_defs)

lemma cleanup_media:
  assumes "live c \<subseteq> own_mics c" and "open_pcs c \<subseteq> own_pcs c"
  shows "live (cleanupMedia c) = {}" "open_pcs (cleanupMedia c) = {}"
  using assms by (auto simp: cleanupMedia_def Let_def own_mics_def own_pcs_def open_close_pc live_stop_mic split: option.splits)

lemma cleanup_rest:
  "setting_up (cleanupMedia c) = setting_up c" "c_current (cleanupMedia c) = c_current c"
  "map (\<lambda>x. (cs_pc x, cs_localStream x)) (c_sessions (cleanupMedia c)) = map (\<lambda>x. (cs_pc x, cs_localStream x)) (c_sessions c)"
  by (auto simp: cleanupMedia_def Let_def split: option.splits) (simp_all add: call_defs map_update_same)

lemma streams_ok_map:
  assumes "map (\<lambda>x. (cs_pc x, cs_localStream x)) (c_sessions c') = map (\<lambda>x. (cs_pc x, cs_localStream x)) (c_sessions c)"
  shows "streams_ok c' = streams_ok c"
proof -
  have "streams_ok d = list_all (\<lambda>(p, l). p = None \<longrightarrow> l = None) (map (\<lambda>x. (cs_pc x, cs_localStream x)) (c_sessions d))" for d
    by (simp add: streams_ok_def list.pred_map comp_def)
  with assms show ?thesis by simp
qed

text \<open>Once a call has ended with nothing being set up, every microphone and connection is closed.\<close>

definition silent_end :: "call_state \<Rightarrow> bool" where
  "silent_end c \<longleftrightarrow> c_current c = None \<and> live c = {} \<and> open_pcs c = {} \<and> setting_up c = []"

lemma ended_silent:
  assumes "media_inv c" and "setting_up c = []"
  shows "silent_end (teardown c)" "silent_end (finishWith m b c)" "media_inv (teardown c)" "media_inv (finishWith m b c)"
proof -
  from assms have own: "live c \<subseteq> own_mics c" "open_pcs c \<subseteq> own_pcs c" by (simp_all add: media_inv_def)
  note gone = cleanup_media [OF own] cleanup_rest
  have st: "streams_ok (cleanupMedia c)" using assms(1) streams_ok_map [OF cleanup_rest(3)] by (simp add: media_inv_def)
  show t: "silent_end (teardown c)" and f: "silent_end (finishWith m b c)"
    using gone assms(2) by (simp_all add: silent_end_def teardown_def finishWith_def)
  from t f st show "media_inv (teardown c)" "media_inv (finishWith m b c)"
    by (simp_all add: media_inv_def silent_end_def current_ok_def teardown_def finishWith_def streams_ok_def)
qed

lemma media_inv_cleanup:
  assumes "media_inv c" and "setting_up c = []"
  shows "media_inv (cleanupMedia c)"
proof -
  from assms have own: "live c \<subseteq> own_mics c" "open_pcs c \<subseteq> own_pcs c" by (simp_all add: media_inv_def)
  have "length (c_sessions (cleanupMedia c)) = length (c_sessions c)"
    using arg_cong [OF cleanup_rest(3) [of c], of length] by simp
  with cleanup_media [OF own] cleanup_rest [of c] assms streams_ok_map [OF cleanup_rest(3)] show ?thesis
    by (simp add: media_inv_def current_ok_def)
qed

subsection \<open>Beginning a call\<close>

lemma media_inv_accept:
  assumes "media_inv c" and "setting_up c = []"
  shows "media_inv (accept a c)"
proof (cases "\<exists>s. c_current c = Some s \<and> cs_role (c_sessions c ! s) = Callee \<and> cs_pc (c_sessions c ! s) = None")
  case True
  then obtain s where s: "c_current c = Some s" "cs_role (c_sessions c ! s) = Callee" "cs_pc (c_sessions c ! s) = None" by blast
  let ?c = "await (AcceptMic s a) (ring Silent c)"
  have lt: "s < length (c_sessions c)" using assms(1) s(1) by (simp add: media_inv_def current_ok_def)
  have "cs_localStream (c_sessions c ! s) = None"
    using assms(1) s(3) lt by (simp add: media_inv_def streams_ok_def list_all_length)
  with assms s have none: "live c = {}" "open_pcs c = {}" by (auto simp: media_inv_def own_mics_def own_pcs_def)
  have same: "same_media c ?c" by (meson same_media_trans same_media_writes(2,4))
  from same_media_facts [OF same] none s lt assms have "media_inv ?c" by (simp add: media_inv_def bare_def)
  with s show ?thesis by (simp add: accept_def)
qed (use assms in \<open>auto simp: accept_def split: option.splits\<close>)

lemma media_inv_incoming:
  assumes "media_inv c" and "setting_up c = []"
  shows "media_inv (onIncoming d c)" "setting_up (onIncoming d c) = []"
proof -
  show "setting_up (onIncoming d c) = []" using assms(2) by (simp add: onIncoming_def setting_up_def call_defs)
  show "media_inv (onIncoming d c)"
  proof (cases "c_current c")
    case None
    let ?x = "\<lparr>cs_callId = ci_callId d, cs_role = Callee, cs_peer = ci_from d, cs_chatId = ci_chatId d, cs_pc = None, cs_localStream = None,
      cs_remoteSet = False, cs_pendingIce = [], cs_offerSdp = Some (ci_sdp d), cs_established = False, cs_recovery = None\<rparr>"
    let ?c = "c\<lparr>c_sessions := c_sessions c @ [?x], c_current := Some (length (c_sessions c))\<rparr>"
    from None assms have "live c = {}" "open_pcs c = {}" by (auto simp: media_inv_def own_mics_def own_pcs_def)
    then have "live ?c = {}" "open_pcs ?c = {}" by (simp_all add: live_def open_pcs_def)
    then have "media_inv ?c" using assms by (simp add: media_inv_def current_ok_def streams_ok_def setting_up_def)
    with None show ?thesis by (simp add: onIncoming_def media_inv_writes)
  qed (use assms in \<open>simp add: onIncoming_def media_inv_writes\<close>)
qed

lemma media_inv_resumed:
  assumes "media_inv c" and "setting_up c = []"
  shows "media_inv (after_resume k c)"
proof (cases k)
  case ThenPickUp
  have "media_inv (accept True (c\<lparr>c_deferredAnswer := None\<rparr>))" "media_inv (await TakeDecision (c\<lparr>c_deferredAnswer := None\<rparr>))"
    "media_inv (await TakeDecision c)"
    using assms by (auto intro!: media_inv_accept media_inv_writes)
  with ThenPickUp show ?thesis by (simp add: Let_def split: option.splits)
qed (use assms in \<open>auto intro!: media_inv_accept media_inv_writes\<close>)


lemma media_inv_pending: "media_inv c \<Longrightarrow> setting_up c = [] \<Longrightarrow> media_inv (pending_answered k call c)"
  by (auto simp: pending_answered_def intro!: media_inv_resumed media_inv_incoming split: option.splits)

lemma media_inv_resume: "media_inv c \<Longrightarrow> setting_up c = [] \<Longrightarrow> media_inv (resumePending k c)"
  by (auto simp: resumePending_def intro!: media_inv_resumed media_inv_writes)

lemma media_inv_decision: "media_inv c \<Longrightarrow> setting_up c = [] \<Longrightarrow> media_inv (applyNativeDecision d c)"
  by (auto simp: applyNativeDecision_def Let_def intro!: media_inv_resume media_inv_writes)

lemma media_inv_startCall:
  assumes "media_inv c" and "setting_up c = []"
  shows "media_inv (startCall peer ch i c)"
proof (cases "c_current c")
  case None
  let ?c = "await (StartMic peer ch i) (setView (\<lambda>_. idleView\<lparr>v_phase := Outgoing, v_peer := Some peer, v_role := Some Caller\<rparr>) c)"
  have same: "same_media c ?c" by (meson same_media_trans same_media_writes(1,4))
  from None assms have "live c = {}" "open_pcs c = {}" by (auto simp: media_inv_def own_mics_def own_pcs_def)
  with same_media_facts [OF same] None assms have "media_inv ?c" by (simp add: media_inv_def)
  with None show ?thesis by (simp add: startCall_def)
qed (use assms in \<open>simp add: startCall_def\<close>)

subsection \<open>The awaits of a setup\<close>

lemma live_open_mic: "live (open_mic c) = insert (length (c_mics c)) (live c)" "open_pcs (open_mic c) = open_pcs c"
  by (auto simp: live_def open_pcs_def open_mic_def nth_append less_Suc_eq)

lemma open_makePc: "open_pcs (makePc i c) = insert (length (c_pcs c)) (open_pcs c)" "live (makePc i c) = live c"
  by (auto simp: live_def open_pcs_def makePc_def nth_append less_Suc_eq)

lemma await_media [simp]: "live (await t c) = live c" "open_pcs (await t c) = open_pcs c" "live (setView f c) = live c" "open_pcs (setView f c) = open_pcs c"
  by (simp_all add: live_def open_pcs_def call_defs)

text \<open>The state left once the one setup task has been taken off the list.\<close>

definition setup_taken :: "task \<Rightarrow> call_state \<Rightarrow> bool" where
  "setup_taken t c \<longleftrightarrow> current_ok c \<and> streams_ok c \<and> setting_up c = [] \<and> setup_ok [t] c"

lemma settle_StartMic:
  assumes "setup_taken (StartMic peer ch i) c"
  shows "media_inv (settle (StartMic peer ch i) out c)"
proof (cases "out = Done")
  case True
  then show ?thesis using assms
    by (simp add: setup_taken_def startCall_mic_def media_inv_def live_open_mic current_ok_def streams_ok_def)
next
  case False
  from assms have "media_inv c" by (simp add: setup_taken_def media_inv_def)
  with False assms show ?thesis by (simp add: startCall_mic_def ended_silent setup_taken_def)
qed

lemma settle_StartIce:
  assumes "setup_taken (StartIce peer ch i m) c"
  shows "media_inv (settle (StartIce peer ch i m) out c)"
proof -
  let ?x = "\<lparr>cs_callId = i, cs_role = Caller, cs_peer = peer, cs_chatId = ch, cs_pc = Some (length (c_pcs c)), cs_localStream = Some m,
      cs_remoteSet = False, cs_pendingIce = [], cs_offerSdp = None, cs_established = False, cs_recovery = None\<rparr>"
  let ?c = "(makePc i c)\<lparr>c_sessions := c_sessions c @ [?x], c_current := Some (length (c_sessions c))\<rparr>"
  have "live ?c = live c" "open_pcs ?c = insert (length (c_pcs c)) (open_pcs c)"
    using open_makePc [of i c] by (simp_all add: live_def open_pcs_def)
  moreover have "setting_up ?c = []" using assms by (simp add: setup_taken_def setting_up_def makePc_def)
  ultimately have "media_inv ?c" using assms
    by (auto simp: setup_taken_def media_inv_def current_ok_def streams_ok_def own_mics_def own_pcs_def)
  then show ?thesis by (simp add: startCall_ice_def Let_def media_inv_writes)
qed

lemma settle_AcceptMic:
  assumes "setup_taken (AcceptMic s a) c"
  shows "media_inv (settle (AcceptMic s a) out c)"
proof -
  from assms have "media_inv c" by (simp add: setup_taken_def media_inv_def)
  moreover have "media_inv (await (AcceptIce s (length (c_mics c))) (open_mic c))"
    using assms by (simp add: setup_taken_def media_inv_def live_open_mic current_ok_def streams_ok_def bare_def)
  ultimately show ?thesis using assms
    by (auto simp: accept_mic_def setup_taken_def intro!: media_inv_writes ended_silent)
qed

lemma settle_AcceptIce:
  assumes "setup_taken (AcceptIce s m) c"
  shows "media_inv (settle (AcceptIce s m) out c)"
proof -
  let ?p = "length (c_pcs c)"
  let ?c = "upd_session s (\<lambda>x. x\<lparr>cs_pc := Some ?p, cs_localStream := Some m\<rparr>) (makePc (cs_callId (c_sessions c ! s)) c)"
  have s: "c_current c = Some s" "s < length (c_sessions c)" using assms by (simp_all add: setup_taken_def bare_def)
  have at: "c_sessions ?c ! s = (c_sessions c ! s)\<lparr>cs_pc := Some ?p, cs_localStream := Some m\<rparr>"
    using s(2) by (simp add: nth_upd_session)
  have "live ?c = live c" "open_pcs ?c = insert ?p (open_pcs c)"
    using open_makePc [of "cs_callId (c_sessions c ! s)" c] by (simp_all add: live_def open_pcs_def upd_session_def)
  moreover have "own_mics ?c = {m}" "own_pcs ?c = {?p}" using s(1) at by (simp_all add: own_mics_def own_pcs_def)
  moreover have "streams_ok ?c" using assms by (auto simp: setup_taken_def streams_ok_def list_all_length nth_upd_session)
  ultimately have "media_inv ?c" using assms s by (auto simp: setup_taken_def media_inv_def current_ok_def)
  then show ?thesis by (simp add: accept_ice_def Let_def media_inv_writes)
qed

lemma media_inv_settle_setup: "is_setup t \<Longrightarrow> setup_taken t c \<Longrightarrow> media_inv (settle t out c)"
  by (cases t) (simp_all only: settle_StartMic settle_StartIce settle_AcceptMic settle_AcceptIce is_setup.simps)

lemma media_inv_settle_other:
  assumes "media_inv c" and "setting_up c = []" and "\<not> is_setup t"
  shows "media_inv (settle t out c)"
proof -
  note ends = ended_silent(3,4) [OF assms(1,2)]
  have fails: "media_inv (accept_fails s c)" "media_inv (startCall_fails c)" for s
    using assms ends by (simp_all add: accept_fails_def startCall_fails_def ended_silent media_inv_writes)
  show ?thesis
    using assms ends fails
    by (cases t) (auto simp: Let_def intro!: media_inv_writes media_inv_remote_set media_inv_pending media_inv_decision
        split: outcome.splits option.splits)
qed


subsection \<open>Every calm history\<close>

lemma setting_up_take:
  assumes "k < length (c_tasks c)"
  defines "c1 \<equiv> c\<lparr>c_tasks := take k (c_tasks c) @ drop (Suc k) (c_tasks c)\<rparr>"
  shows "setting_up c = filter is_setup (take k (c_tasks c)) @ (if is_setup (c_tasks c ! k) then [c_tasks c ! k] else [])
      @ filter is_setup (drop (Suc k) (c_tasks c))"
    and "setting_up c1 = filter is_setup (take k (c_tasks c)) @ filter is_setup (drop (Suc k) (c_tasks c))"
proof -
  show "setting_up c1 = filter is_setup (take k (c_tasks c)) @ filter is_setup (drop (Suc k) (c_tasks c))"
    by (simp add: setting_up_def c1_def)
  have "c_tasks c = take k (c_tasks c) @ [c_tasks c ! k] @ drop (Suc k) (c_tasks c)"
    using id_take_nth_drop [OF assms(1)] by simp
  then have "filter is_setup (c_tasks c) = filter is_setup (take k (c_tasks c) @ [c_tasks c ! k] @ drop (Suc k) (c_tasks c))" by simp
  then show "setting_up c = filter is_setup (take k (c_tasks c)) @ (if is_setup (c_tasks c ! k) then [c_tasks c ! k] else [])
      @ filter is_setup (drop (Suc k) (c_tasks c))"
    by (simp add: setting_up_def)
qed

lemma media_inv_settles:
  assumes "media_inv c" and "k < length (c_tasks c)" and "setting_up c = [] \<or> is_setup (c_tasks c ! k)"
  shows "media_inv (settle (c_tasks c ! k) out (c\<lparr>c_tasks := take k (c_tasks c) @ drop (Suc k) (c_tasks c)\<rparr>))"
proof -
  let ?c = "c\<lparr>c_tasks := take k (c_tasks c) @ drop (Suc k) (c_tasks c)\<rparr>" and ?t = "c_tasks c ! k"
  note su = setting_up_take [OF assms(2)] and facts = same_media_facts [OF same_media_writes(9)]
  show ?thesis
  proof (cases "is_setup ?t")
    case True
    have "length (setting_up c) \<le> 1" using assms(1) by (auto simp: media_inv_def elim: setup_ok_cases)
    with su True have one: "setting_up c = [?t]" "setting_up ?c = []" by auto
    with assms(1) have "setup_ok [?t] c" by (simp add: media_inv_def)
    from setup_ok_same [OF same_media_writes(9) _ this] assms(1) one have "setup_taken ?t ?c"
      by (simp add: setup_taken_def media_inv_def facts)
    with True show ?thesis by (rule media_inv_settle_setup)
  next
    case False
    with assms(3) su have "setting_up c = []" "setting_up ?c = []" by auto
    then have "media_inv ?c" using media_inv_same [OF assms(1) same_media_writes(9)] by simp
    with \<open>setting_up ?c = []\<close> False show ?thesis by (intro media_inv_settle_other)
  qed
qed

lemma media_inv_harmless: "harmless e \<Longrightarrow> media_inv c \<Longrightarrow> media_inv (call_step e c)"
proof (cases e)
  case ToggleMute
  have "media_inv (upd_mic m (\<lambda>x. x\<lparr>mic_enabled := b x\<rparr>) c)" if "media_inv c" for m b
    using media_inv_same [OF that same_media_mic] by simp
  then show "media_inv c \<Longrightarrow> ?thesis" using ToggleMute
    by (auto simp: toggleMute_def Let_def intro!: media_inv_writes split: option.splits)
qed (auto simp: toggleSpeaker_def audioRoute_reported_def on_ice_def onicecandidate_def Let_def intro!: media_inv_writes split: option.splits)

lemma media_inv_restart: "media_inv c \<Longrightarrow> media_inv (restartIce s c)" "media_inv c \<Longrightarrow> media_inv (answerRestart s c)"
  by (auto simp: restartIce_def answerRestart_def intro!: media_inv_writes split: option.splits)

lemma media_inv_connected: "media_inv c \<Longrightarrow> media_inv (onconnected now p c)"
  by (auto simp: onconnected_def Let_def intro!: media_inv_writes)

lemma media_inv_step:
  assumes "media_inv c" and "calm_event c e"
  shows "media_inv (call_step e c)"
proof (cases "harmless e")
  case False
  show ?thesis
  proof (cases "\<exists>k out. e = Settles k out")
    case True
    then obtain k out where e: "e = Settles k out" by blast
    show ?thesis using assms False media_inv_settles [OF assms(1), of k out]
      by (auto simp: e calm_event_def)
  next
    case other: False
    with assms(2) False have calm: "setting_up c = []" by (auto simp: calm_event_def split: call_event.splits)
    note ends = ended_silent(3,4)
    show ?thesis using assms(1) calm False other
      by (cases e) (auto simp: reject_def hangup_def on_ending_def on_answered_def on_renegotiate_def
          onconnectionstatechange_def beginRecovery_def recovery_starts_def recovery_gives_up_def end_timer_fires_def pickUp_def unmount_def Let_def
          intro!: media_inv_startCall media_inv_accept media_inv_incoming media_inv_writes media_inv_restart media_inv_connected
            media_inv_resume media_inv_decision media_inv_cleanup ends
          split: option.splits)
  qed
qed (use assms in \<open>simp add: media_inv_harmless\<close>)

lemma calm_media_inv: "calm evs c \<Longrightarrow> media_inv c \<Longrightarrow> media_inv (fold call_step evs c)"
  by (induction evs arbitrary: c) (auto intro: media_inv_step)

lemma media_inv_start: "media_inv call_start"
  by (simp add: media_inv_def current_ok_def streams_ok_def setting_up_def live_def open_pcs_def call_start_def)

text \<open>
  C9. The microphone is on only for the call on screen. Over every history in which nothing that starts
  or ends a call happens while one is being set up, each live microphone and each open connection is the
  current session's, and whenever nothing is being set up, hanging up and every other ending turns all
  of them off.
\<close>

theorem microphone_belongs_to_call:
  assumes "calm evs call_start"
  defines "c \<equiv> fold call_step evs call_start"
  assumes "setting_up c = []"
  shows "live c \<subseteq> own_mics c \<and> open_pcs c \<subseteq> own_pcs c \<and>
    (c_current c = None \<longrightarrow> live c = {} \<and> open_pcs c = {}) \<and>
    live (teardown c) = {} \<and> open_pcs (teardown c) = {} \<and> live (finishWith m b c) = {} \<and> open_pcs (finishWith m b c) = {}"
proof -
  have inv: "media_inv c" unfolding c_def by (rule calm_media_inv [OF assms(1) media_inv_start])
  from ended_silent [OF inv assms(3)] have "silent_end (teardown c)" "silent_end (finishWith m b c)" by simp_all
  moreover from inv assms(3) have "live c \<subseteq> own_mics c" "open_pcs c \<subseteq> own_pcs c" by (simp_all add: media_inv_def)
  moreover have "own_mics c = {}" "own_pcs c = {}" if "c_current c = None" using that by (simp_all add: own_mics_def own_pcs_def)
  ultimately show ?thesis by (auto simp: silent_end_def)
qed

theorem microphone_belongs_to_call_witness:
  "calm answered_history call_start \<and> live (fold call_step answered_history call_start) = {0} \<and>
   live (teardown (fold call_step answered_history call_start)) = {}"
proof -
  let ?c = "fold call_step answered_history call_start"
  have calm: "calm answered_history call_start"
    by (simp add: answered_history_def calm_event_def setting_up_def call_eval Let_def)
  have st: "setting_up ?c = []" by (simp add: answered_history_def setting_up_def call_eval Let_def)
  have "live ?c = {0}" by (auto simp: answered_history_def live_def call_eval Let_def)
  with microphone_belongs_to_call [OF calm st] calm show ?thesis by simp
qed


end
