(* ===== verification/Upload.thy ===== *)
theory Upload
  imports Api_Envelope
begin

text \<open>
  Uploading attachments: \<open>entities/attachment/upload.ts\<close>. The four requests of \<open>attachmentsApi\<close> are the
  parameters of the record \<open>upload_api\<close>, over an outside state of their own; \<open>aborted\<close> says whether the
  caller's signal has been raised in that state. \<open>uw_puts\<close> lists the chunk requests in the order they are
  made, each with whether it succeeded, and \<open>uw_progress\<close> the fractions reported, as numerator and
  denominator.
\<close>

record upload_session =
  us_id :: string
  us_chunkBytes :: nat
  us_declaredBytes :: nat
  us_expiresAt :: string
  us_receivedChunks :: "nat list"

record js_file =
  fi_name :: string
  fi_bytes :: bytes

record 'env upload_api =
  ua_upload :: "js_file \<Rightarrow> 'env \<Rightarrow> (js_error + attachment) \<times> 'env"
  ua_initUpload :: "string \<Rightarrow> nat \<Rightarrow> 'env \<Rightarrow> (js_error + upload_session) \<times> 'env"
  ua_putChunk :: "string \<Rightarrow> nat \<Rightarrow> bytes \<Rightarrow> 'env \<Rightarrow> (js_error + unit) \<times> 'env"
  ua_completeUpload :: "string \<Rightarrow> 'env \<Rightarrow> (js_error + attachment) \<times> 'env"
  ua_aborted :: "'env \<Rightarrow> bool"

record 'env upload_world =
  uw_env :: 'env
  uw_puts :: "(string \<times> nat \<times> bytes \<times> bool) list"
  uw_progress :: "(nat \<times> nat) list"
  uw_completed :: "string list"

type_synonym ('env, 'a) upload_io = "('env upload_world, js_error, 'a) io"

definition SINGLE_SHOT_MAX_BYTES :: nat where
  "SINGLE_SHOT_MAX_BYTES = 4 * 2 ^ 20"

definition CHUNK_RETRIES :: nat where
  "CHUNK_RETRIES = 3"

definition on_uenv :: "('env \<Rightarrow> (js_error + 'a) \<times> 'env) \<Rightarrow> ('env, 'a) upload_io" where
  "on_uenv f w = (case f (uw_env w) of (r, e) \<Rightarrow> (r, w\<lparr>uw_env := e\<rparr>))"

definition onProgress :: "nat \<Rightarrow> nat \<Rightarrow> ('env, unit) upload_io" where
  "onProgress a b = io_mod (\<lambda>w. w\<lparr>uw_progress := uw_progress w @ [(a, b)]\<rparr>)"

definition putChunk :: "'env upload_api \<Rightarrow> string \<Rightarrow> nat \<Rightarrow> bytes \<Rightarrow> ('env, unit) upload_io" where
  "putChunk A i idx chunk w = (case ua_putChunk A i idx chunk (uw_env w) of (r, e) \<Rightarrow>
     (r, w\<lparr>uw_env := e, uw_puts := uw_puts w @ [(i, idx, chunk, \<not> isl r)]\<rparr>))"

text \<open>The retry loop, by the number of attempts left; \<open>lastError\<close> is thrown when none is.\<close>

fun putChunkAttempts :: "'env upload_api \<Rightarrow> string \<Rightarrow> nat \<Rightarrow> bytes \<Rightarrow> nat \<Rightarrow> js_error \<Rightarrow> ('env, unit) upload_io" where
  "putChunkAttempts A i idx chunk 0 lastError = io_throw lastError"
| "putChunkAttempts A i idx chunk (Suc n) lastError =
     io_catch (putChunk A i idx chunk) (\<lambda>err w.
       if ua_aborted A (uw_env w) then (Inl err, w) else putChunkAttempts A i idx chunk n err w)"

definition putChunkWithRetry :: "'env upload_api \<Rightarrow> string \<Rightarrow> nat \<Rightarrow> bytes \<Rightarrow> ('env, unit) upload_io" where
  "putChunkWithRetry A i idx chunk = putChunkAttempts A i idx chunk CHUNK_RETRIES (JsError ''undefined'')"

definition slice :: "nat \<Rightarrow> nat \<Rightarrow> bytes \<Rightarrow> bytes" where
  "slice from to bs = take (to - from) (drop from bs)"

definition chunk_of :: "upload_session \<Rightarrow> bytes \<Rightarrow> nat \<Rightarrow> bytes" where
  "chunk_of u bs idx = slice (idx * us_chunkBytes u) (min ((idx + 1) * us_chunkBytes u) (length bs)) bs"

text \<open>\<open>Math.ceil(size / chunkBytes)\<close>; a chunk size of 0 makes it \<open>Infinity\<close>, which the caller excludes.\<close>

definition chunk_count :: "upload_session \<Rightarrow> bytes \<Rightarrow> nat" where
  "chunk_count u bs = (length bs + us_chunkBytes u - 1) div us_chunkBytes u"

definition uploadChunk ::
  "'env upload_api \<Rightarrow> upload_session \<Rightarrow> bytes \<Rightarrow> nat \<Rightarrow> nat set \<Rightarrow> ('env, nat set) upload_io" where
  "uploadChunk A u bs idx sent =
     (if idx \<in> sent then io_ret sent
      else io_bind (\<lambda>w. if ua_aborted A (uw_env w) then (Inl (JsError ''AbortError''), w) else (Inr (), w)) (\<lambda>_.
           io_bind (putChunkWithRetry A (us_id u) idx (chunk_of u bs idx)) (\<lambda>_.
           let sent' = insert idx sent in
           io_bind (onProgress (card sent') (chunk_count u bs)) (\<lambda>_. io_ret sent'))))"

definition uploadFile :: "'env upload_api \<Rightarrow> js_file \<Rightarrow> ('env, attachment) upload_io" where
  "uploadFile A f =
     (if length (fi_bytes f) \<le> SINGLE_SHOT_MAX_BYTES then
        io_bind (onProgress 0 1) (\<lambda>_.
        io_bind (on_uenv (ua_upload A f)) (\<lambda>att.
        io_bind (onProgress 1 1) (\<lambda>_. io_ret att)))
      else
        io_bind (on_uenv (ua_initUpload A (fi_name f) (length (fi_bytes f)))) (\<lambda>u.
        io_bind (io_for (uploadChunk A u (fi_bytes f)) [0 ..< chunk_count u (fi_bytes f)] (set (us_receivedChunks u))) (\<lambda>_.
        io_bind (io_mod (\<lambda>w. w\<lparr>uw_completed := uw_completed w @ [us_id u]\<rparr>)) (\<lambda>_.
        io_bind (on_uenv (ua_completeUpload A (us_id u))) (\<lambda>att.
        io_bind (onProgress 1 1) (\<lambda>_. io_ret att))))))"

subsection \<open>The chunks are the file\<close>

lemma chunk_take: "chunk_of u bs idx = take (us_chunkBytes u) (drop (idx * us_chunkBytes u) bs)"
proof -
  have "min ((idx + 1) * us_chunkBytes u) (length bs) - idx * us_chunkBytes u = min (us_chunkBytes u) (length bs - idx * us_chunkBytes u)"
    by (auto simp: min_def)
  then show ?thesis by (simp add: chunk_of_def slice_def min_def)
qed

lemma chunks_take: "concat (map (chunk_of u bs) [0 ..< n]) = take (n * us_chunkBytes u) bs"
proof (induction n)
  case (Suc n)
  then show ?case by (simp add: chunk_take take_add [symmetric] add.commute)
qed simp

lemma chunk_count_enough: "us_chunkBytes u > 0 \<Longrightarrow> length bs \<le> chunk_count u bs * us_chunkBytes u"
proof -
  assume pos: "us_chunkBytes u > 0"
  let ?c = "us_chunkBytes u" and ?x = "length bs + us_chunkBytes u - 1"
  have "?x = ?x div ?c * ?c + ?x mod ?c" by simp
  moreover have "?x mod ?c < ?c" using pos by simp
  ultimately show ?thesis using pos unfolding chunk_count_def by linarith
qed

lemma chunks_are_file: "us_chunkBytes u > 0 \<Longrightarrow> concat (map (chunk_of u bs) [0 ..< chunk_count u bs]) = bs"
  using chunks_take [of u bs "chunk_count u bs"] chunk_count_enough [of u bs] by simp

subsection \<open>What an upload does\<close>

lemma putChunkAttempts_run:
  assumes "putChunkAttempts A i idx chunk n e w = (r, w')"
  shows "\<exists>l. uw_puts w' = uw_puts w @ l \<and> length l \<le> n \<and> uw_completed w' = uw_completed w \<and>
    (r = Inr () \<longrightarrow> (i, idx, chunk, True) \<in> set l)"
  using assms
proof (induction n arbitrary: e w)
  case (Suc n)
  obtain r1 w1 where put: "putChunk A i idx chunk w = (r1, w1)" by fastforce
  then have w1: "uw_puts w1 = uw_puts w @ [(i, idx, chunk, \<not> isl r1)]" "uw_completed w1 = uw_completed w"
    by (auto simp: putChunk_def split: prod.splits)
  show ?case
  proof (cases r1)
    case (Inr u)
    with Suc.prems put have "r = Inr ()" "w' = w1" by (auto simp: io_catch_def)
    with w1 Inr show ?thesis by auto
  next
    case (Inl err)
    show ?thesis
    proof (cases "ua_aborted A (uw_env w1)")
      case True
      with Suc.prems put Inl have "r = Inl err" "w' = w1" by (auto simp: io_catch_def)
      with w1 show ?thesis by auto
    next
      case False
      with Suc.prems put Inl have "putChunkAttempts A i idx chunk n err w1 = (r, w')" by (auto simp: io_catch_def)
      from Suc.IH [OF this] w1 show ?thesis by auto
    qed
  qed
qed auto

lemma uploadChunk_run:
  assumes "uploadChunk A u bs idx sent w = (r, w')"
  shows "\<exists>l. uw_puts w' = uw_puts w @ l \<and> length l \<le> CHUNK_RETRIES \<and> uw_completed w' = uw_completed w \<and>
    (\<forall>sent'. r = Inr sent' \<longrightarrow> sent' = insert idx sent \<and> (idx \<in> sent \<or> (us_id u, idx, chunk_of u bs idx, True) \<in> set l))"
proof (cases "idx \<in> sent \<or> ua_aborted A (uw_env w)")
  case True
  with assms show ?thesis by (auto simp: uploadChunk_def io_bind_def split: if_splits)
next
  case False
  obtain r1 w1 where put: "putChunkWithRetry A (us_id u) idx (chunk_of u bs idx) w = (r1, w1)" by fastforce
  from putChunkAttempts_run [OF this [unfolded putChunkWithRetry_def]] obtain l where l: "uw_puts w1 = uw_puts w @ l"
    "length l \<le> CHUNK_RETRIES" "uw_completed w1 = uw_completed w" "r1 = Inr () \<longrightarrow> (us_id u, idx, chunk_of u bs idx, True) \<in> set l"
    by blast
  with assms False put show ?thesis
    by (cases r1) (auto simp: uploadChunk_def io_bind_def onProgress_def Let_def)
qed

lemma uploadChunks_run:
  assumes "io_for (uploadChunk A u bs) idxs sent w = (r, w')"
  shows "\<exists>l. uw_puts w' = uw_puts w @ l \<and> length l \<le> CHUNK_RETRIES * length idxs \<and> uw_completed w' = uw_completed w \<and>
    (r \<noteq> Inl (projl r) \<longrightarrow> (\<forall>idx \<in> set idxs. idx \<in> sent \<or> (us_id u, idx, chunk_of u bs idx, True) \<in> set l))"
  using assms
proof (induction idxs arbitrary: sent w)
  case (Cons idx idxs)
  obtain r1 w1 where one: "uploadChunk A u bs idx sent w = (r1, w1)" by fastforce
  from uploadChunk_run [OF this] obtain l1 where l1: "uw_puts w1 = uw_puts w @ l1" "length l1 \<le> CHUNK_RETRIES"
    "uw_completed w1 = uw_completed w"
    "\<forall>sent'. r1 = Inr sent' \<longrightarrow> sent' = insert idx sent \<and> (idx \<in> sent \<or> (us_id u, idx, chunk_of u bs idx, True) \<in> set l1)"
    by blast
  show ?case
  proof (cases r1)
    case (Inl e)
    with Cons.prems one l1 show ?thesis by (auto simp: io_bind_def intro: exI [of _ l1])
  next
    case (Inr sent')
    with Cons.prems one have "io_for (uploadChunk A u bs) idxs sent' w1 = (r, w')" by (simp add: io_bind_def)
    from Cons.IH [OF this] obtain l2 where "uw_puts w' = uw_puts w1 @ l2" "length l2 \<le> CHUNK_RETRIES * length idxs"
      "uw_completed w' = uw_completed w1"
      "r \<noteq> Inl (projl r) \<longrightarrow> (\<forall>idx \<in> set idxs. idx \<in> sent' \<or> (us_id u, idx, chunk_of u bs idx, True) \<in> set l2)" by blast
    with l1 Inr show ?thesis by (intro exI [of _ "l1 @ l2"]) auto
  qed
qed auto



definition sample_attachment :: attachment where
  "sample_attachment = \<lparr>a_id = ''a1'', a_fileName = ''f'', a_mimeType = ''m'', a_sizeBytes = 1, a_isImage = False, a_url = ''u'',
     a_kind = FileKind, a_durationMs = None, a_waveform = None, a_width = None, a_height = None\<rparr>"

definition sample_upload :: upload_session where
  "sample_upload = \<lparr>us_id = ''up'', us_chunkBytes = SINGLE_SHOT_MAX_BYTES, us_declaredBytes = 0, us_expiresAt = ''t'', us_receivedChunks = [0]\<rparr>"

definition sample_upload_api :: "nat upload_api" where
  "sample_upload_api = \<lparr>ua_upload = (\<lambda>f e. (Inr sample_attachment, e)), ua_initUpload = (\<lambda>n s e. (Inr sample_upload, e)),
     ua_putChunk = (\<lambda>i idx c e. (if e = 0 then Inl (JsError ''network'') else Inr (), e + 1)),
     ua_completeUpload = (\<lambda>i e. (Inr sample_attachment, e)), ua_aborted = (\<lambda>e. False)\<rparr>"

definition sample_file :: js_file where
  "sample_file = \<lparr>fi_name = ''f'', fi_bytes = replicate (SINGLE_SHOT_MAX_BYTES + 1) 7\<rparr>"

lemma sample_chunks: "chunk_count sample_upload (fi_bytes sample_file) = 2"
  by (simp add: chunk_count_def sample_upload_def sample_file_def SINGLE_SHOT_MAX_BYTES_def)



end
