(* ===== verification/Rating.thy ===== *)
theory Rating
  imports Kisy_Prelude "HOL-Library.Multiset"
begin

text \<open>
  The figures of the rating dashboard: \<open>entities/rating/model.ts\<close>, pure functions over the board the server
  sends. Amounts are integers (cents), progress is a percentage. \<open>localeCompare\<close>, \<open>toLocaleLowerCase\<close> and
  the local calendar of a \<open>Date\<close> depend on the browser's language and time zone and are parameters.
  \<open>Math.round(a / b)\<close> is \<open>(2a + b) div 2b\<close>; \<open>Array.sort\<close> is stable.
\<close>

datatype rating_difficulty = Easy | Medium | Hard
datatype rating_status = Backlog | InProgress | TaskDone
datatype project_status = ActiveProject | DoneProject

record rating_assignee =
  ra_id :: string
  ra_displayName :: string
  ra_avatarUrl :: "string option"

record rating_task =
  rt_id :: string
  rt_projectId :: string
  rt_projectTitle :: string
  rt_title :: string
  rt_assignee :: "rating_assignee option"
  rt_progress :: int
  rt_status :: rating_status
  rt_totalProfitKopecks :: int
  rt_createdAt :: string

record rating_project =
  rp_id :: string
  rp_title :: string
  rp_description :: "string option"
  rp_difficulty :: rating_difficulty
  rp_minLevel :: int
  rp_status :: project_status
  rp_createdBy :: string
  rp_totalIncomeKopecks :: int
  rp_totalExpenseKopecks :: int
  rp_totalProfitKopecks :: int
  rp_tasks :: "rating_task list"
  rp_members :: "rating_assignee list"
  rp_createdAt :: string
  rp_updatedAt :: string
  rp_completedAt :: "string option"

record rating_project_money =
  pm_projectId :: string
  pm_title :: string
  pm_incomeKopecks :: int
  pm_expenseKopecks :: int
  pm_profitKopecks :: int

record rating_month =
  mo_month :: string
  mo_incomeKopecks :: int
  mo_expenseKopecks :: int
  mo_profitKopecks :: int

subsection \<open>A stable sort by a comparison function\<close>

fun insert_by :: "('a \<Rightarrow> 'a \<Rightarrow> int) \<Rightarrow> 'a \<Rightarrow> 'a list \<Rightarrow> 'a list" where
  "insert_by cmp x [] = [x]"
| "insert_by cmp x (y # ys) = (if cmp x y \<le> 0 then x # y # ys else y # insert_by cmp x ys)"

definition js_sort :: "('a \<Rightarrow> 'a \<Rightarrow> int) \<Rightarrow> 'a list \<Rightarrow> 'a list" where
  "js_sort cmp xs = foldr (insert_by cmp) xs []"

definition math_round :: "int \<Rightarrow> int \<Rightarrow> int" where
  "math_round a b = (2 * a + b) div (2 * b)"

text \<open>\<open>a || b\<close> on numbers, as comparisons are chained.\<close>

definition or_else :: "int \<Rightarrow> int \<Rightarrow> int" where
  "or_else a b = (if a \<noteq> 0 then a else b)"

subsection \<open>Projects\<close>

datatype project_state = Working | OpenState | IdleState | DoneState

definition projectState :: "rating_project \<Rightarrow> project_state" where
  "projectState p =
     (if rp_status p = DoneProject then DoneState
      else if list_ex (\<lambda>t. rt_status t \<noteq> Backlog) (rp_tasks p) then Working
      else if rp_tasks p \<noteq> [] then OpenState
      else IdleState)"

definition projectProgress :: "rating_project \<Rightarrow> int" where
  "projectProgress p =
     (if rp_status p = DoneProject then 100
      else if rp_tasks p = [] then 0
      else math_round (sum_list (map (\<lambda>t. if rt_status t = TaskDone then 100 else rt_progress t) (rp_tasks p))) (int (length (rp_tasks p))))"

definition projectTeam :: "rating_project \<Rightarrow> rating_assignee list" where
  "projectTeam p =
     (let seen = fold (\<lambda>m. AList.update (ra_id m) m) (rp_members p) [];
          all = fold (\<lambda>t seen. case rt_assignee t of
             Some a \<Rightarrow> (if map_of seen (ra_id a) = None then AList.update (ra_id a) a seen else seen)
           | None \<Rightarrow> seen) (rp_tasks p) seen
      in map snd all)"

record viewer =
  vw_id :: string
  vw_roleLevel :: "int option"

definition MANAGER_MAX_LEVEL :: int where
  "MANAGER_MAX_LEVEL = 4"

definition canCreateProject :: "viewer \<Rightarrow> bool" where
  "canCreateProject me = (case vw_roleLevel me of None \<Rightarrow> False | Some l \<Rightarrow> 1 \<le> l \<and> l \<le> MANAGER_MAX_LEVEL)"

definition canManageProject :: "rating_project \<Rightarrow> viewer \<Rightarrow> bool" where
  "canManageProject p me \<longleftrightarrow> vw_roleLevel me = Some 1 \<or> (canCreateProject me \<and> rp_createdBy p = vw_id me)"

definition canRecordFinance :: "rating_project \<Rightarrow> viewer \<Rightarrow> bool" where
  "canRecordFinance p me \<longleftrightarrow> canManageProject p me \<or> list_ex (\<lambda>m. ra_id m = vw_id me) (rp_members p)"

definition isOnProject :: "rating_project \<Rightarrow> string \<Rightarrow> bool" where
  "isOnProject p meId \<longleftrightarrow> list_ex (\<lambda>m. ra_id m = meId) (rp_members p) \<or>
     list_ex (\<lambda>t. map_option ra_id (rt_assignee t) = Some meId) (rp_tasks p)"

subsection \<open>Figures\<close>

text \<open>A \<open>Date\<close> as the local calendar reads it: \<open>getFullYear\<close> and \<open>getMonth\<close>.\<close>

definition monthKey :: "int \<times> nat \<Rightarrow> string" where
  "monthKey d = show_int (fst d) @ ''-'' @ (let s = show_nat (snd d + 1) in if length s < 2 then CHR ''0'' # s else s)"

record kpi_figures =
  k_projects :: nat
  k_projectsThisMonth :: nat
  k_income :: int
  k_expense :: int
  k_profit :: int
  k_monthIncome :: int
  k_monthExpense :: int
  k_monthProfit :: int

definition kpis :: "(string \<Rightarrow> int \<times> nat) \<Rightarrow> rating_project list \<Rightarrow> rating_month list \<Rightarrow> int \<times> nat \<Rightarrow> kpi_figures" where
  "kpis local projects monthly now =
     (let month = monthKey now;
          thisMonth = find (\<lambda>m. mo_month m = month) monthly;
          (income, expense, n) = fold (\<lambda>p (i, e, n). (i + rp_totalIncomeKopecks p, e + rp_totalExpenseKopecks p,
             if monthKey (local (rp_createdAt p)) = month then n + 1 else n)) projects (0, 0, 0);
          of_month = (\<lambda>f. case thisMonth of Some m \<Rightarrow> f m | None \<Rightarrow> 0)
      in \<lparr>k_projects = length projects, k_projectsThisMonth = n, k_income = income, k_expense = expense,
          k_profit = income - expense, k_monthIncome = of_month mo_incomeKopecks, k_monthExpense = of_month mo_expenseKopecks,
          k_monthProfit = of_month mo_profitKopecks\<rparr>)"

record workload_row =
  wr_assignee :: rating_assignee
  wr_tasks :: int
  wr_progress :: int

definition workload_task :: "rating_task \<Rightarrow> (string, rating_assignee \<times> int \<times> int) jsmap \<Rightarrow> (string, rating_assignee \<times> int \<times> int) jsmap" where
  "workload_task t rows = (case rt_assignee t of
      None \<Rightarrow> rows
    | Some a \<Rightarrow>
        if rt_status t \<noteq> InProgress then rows
        else case (case map_of rows (ra_id a) of Some r \<Rightarrow> r | None \<Rightarrow> (a, 0, 0)) of
          (who, n, s) \<Rightarrow> AList.update (ra_id a) (who, n + 1, s + rt_progress t) rows)"

definition workload_cmp :: "(string \<Rightarrow> string \<Rightarrow> int) \<Rightarrow> workload_row \<Rightarrow> workload_row \<Rightarrow> int" where
  "workload_cmp lc a b = or_else (wr_tasks b - wr_tasks a) (or_else (wr_progress a - wr_progress b)
     (lc (ra_displayName (wr_assignee a)) (ra_displayName (wr_assignee b))))"

definition workload :: "(string \<Rightarrow> string \<Rightarrow> int) \<Rightarrow> rating_project list \<Rightarrow> workload_row list" where
  "workload lc projects = js_sort (workload_cmp lc)
     (map (\<lambda>(k, who, n, s). \<lparr>wr_assignee = who, wr_tasks = n, wr_progress = math_round s n\<rparr>)
       (fold workload_task (concat (map rp_tasks projects)) []))"

definition statusCounts :: "rating_project list \<Rightarrow> project_state \<Rightarrow> nat" where
  "statusCounts projects = fold (\<lambda>p out. out(projectState p := out (projectState p) + 1)) projects (\<lambda>_. 0)"

datatype money_key = ProfitKey | IncomeKey | ExpenseKey

fun MONEY_FIELD :: "money_key \<Rightarrow> rating_project_money \<Rightarrow> int" where
  "MONEY_FIELD ProfitKey = pm_profitKopecks"
| "MONEY_FIELD IncomeKey = pm_incomeKopecks"
| "MONEY_FIELD ExpenseKey = pm_expenseKopecks"

definition topProjects :: "rating_project_money list \<Rightarrow> money_key \<Rightarrow> nat \<Rightarrow> rating_project_money list" where
  "topProjects per key limit = take limit (js_sort (\<lambda>a b. MONEY_FIELD key b - MONEY_FIELD key a) (filter (\<lambda>p. MONEY_FIELD key p \<noteq> 0) per))"

datatype period = MonthPeriod | QuarterPeriod | YearPeriod

record bucket =
  bu_label :: string
  bu_income :: int
  bu_expense :: int
  bu_profit :: int

definition quarter_of :: "string option \<Rightarrow> string" where
  "quarter_of mm = (case Option.bind mm js_number of Some n \<Rightarrow> show_int ((n - 1) div 3 + 1) | None \<Rightarrow> ''NaN'')"

definition bucket_label :: "period \<Rightarrow> string \<Rightarrow> string" where
  "bucket_label p month = (case split_on (CHR ''-'') month of parts \<Rightarrow>
     (case p of MonthPeriod \<Rightarrow> month | YearPeriod \<Rightarrow> hd parts
      | QuarterPeriod \<Rightarrow> hd parts @ ''-Q'' @ quarter_of (case tl parts of [] \<Rightarrow> None | m # _ \<Rightarrow> Some m)))"

definition bucket_add :: "period \<Rightarrow> rating_month \<Rightarrow> (string, bucket) jsmap \<Rightarrow> (string, bucket) jsmap" where
  "bucket_add p m acc =
     (let label = bucket_label p (mo_month m);
          b = (case map_of acc label of Some b \<Rightarrow> b | None \<Rightarrow> \<lparr>bu_label = label, bu_income = 0, bu_expense = 0, bu_profit = 0\<rparr>)
      in AList.update label (b\<lparr>bu_income := bu_income b + mo_incomeKopecks m, bu_expense := bu_expense b + mo_expenseKopecks m,
           bu_profit := bu_profit b + mo_profitKopecks m\<rparr>) acc)"

definition bucketMonthly :: "(string \<Rightarrow> string \<Rightarrow> int) \<Rightarrow> rating_month list \<Rightarrow> period \<Rightarrow> bucket list" where
  "bucketMonthly lc monthly p = js_sort (\<lambda>a b. lc (bu_label a) (bu_label b)) (map snd (fold (bucket_add p) monthly []))"

datatype project_filter = AllProjects | MineProjects | StateProjects project_state

definition filterProjects :: "(string \<Rightarrow> string) \<Rightarrow> rating_project list \<Rightarrow> project_filter \<Rightarrow> string \<Rightarrow> string \<Rightarrow> rating_project list" where
  "filterProjects lower projects f query meId =
     (let q = lower (trim query) in
      filter (\<lambda>p. (case f of MineProjects \<Rightarrow> isOnProject p meId | AllProjects \<Rightarrow> True | StateProjects s \<Rightarrow> projectState p = s) \<and>
        (q = '''' \<or> sublist q (lower (rp_title p)) \<or> sublist q (lower (case rp_description p of Some d \<Rightarrow> d | None \<Rightarrow> '''')))) projects)"

fun state_rank :: "project_state \<Rightarrow> int" where
  "state_rank Working = 0"
| "state_rank OpenState = 1"
| "state_rank IdleState = 2"
| "state_rank DoneState = 3"

definition order_cmp :: "(string \<Rightarrow> string \<Rightarrow> int) \<Rightarrow> rating_project \<Rightarrow> rating_project \<Rightarrow> int" where
  "order_cmp lc a b = (let r = state_rank (projectState a) - state_rank (projectState b) in
     if r \<noteq> 0 then r else lc (rp_updatedAt b) (rp_updatedAt a))"

definition orderProjects :: "(string \<Rightarrow> string \<Rightarrow> int) \<Rightarrow> rating_project list \<Rightarrow> rating_project list" where
  "orderProjects lc projects = js_sort (order_cmp lc) projects"

definition profitShare :: "rating_project_money list \<Rightarrow> (string \<times> int) list" where
  "profitShare per = map (\<lambda>p. (pm_title p, pm_profitKopecks p)) (filter (\<lambda>p. pm_profitKopecks p > 0) per)"

subsection \<open>Sorting\<close>

text \<open>What \<open>Array.sort\<close> needs of a comparison, and what it then gives.\<close>

definition comparator :: "('a \<Rightarrow> 'a \<Rightarrow> int) \<Rightarrow> bool" where
  "comparator cmp \<longleftrightarrow> (\<forall>a b. sgn (cmp a b) = - sgn (cmp b a)) \<and> (\<forall>a b c. cmp a b \<le> 0 \<longrightarrow> cmp b c \<le> 0 \<longrightarrow> cmp a c \<le> 0)"

lemma comparatorD:
  assumes "comparator cmp"
  shows "sgn (cmp a b) = - sgn (cmp b a)" and "cmp a b \<le> 0 \<Longrightarrow> cmp b c \<le> 0 \<Longrightarrow> cmp a c \<le> 0"
  using assms unfolding comparator_def by blast+

lemma comparatorI:
  assumes "\<And>a b. sgn (cmp a b) = - sgn (cmp b a)" and "\<And>a b c. cmp a b \<le> 0 \<Longrightarrow> cmp b c \<le> 0 \<Longrightarrow> cmp a c \<le> 0"
  shows "comparator cmp"
  using assms unfolding comparator_def by blast

lemma comparator_total: "comparator cmp \<Longrightarrow> \<not> cmp a b \<le> 0 \<Longrightarrow> cmp b a \<le> 0"
  unfolding comparator_def by (metis linorder_not_le neg_less_0_iff_less order_less_imp_le sgn_less sgn_greater)

lemma mset_insert_by [simp]: "mset (insert_by cmp x xs) = add_mset x (mset xs)"
  by (induction xs) auto

lemma mset_js_sort [simp]: "mset (js_sort cmp xs) = mset xs"
  unfolding js_sort_def by (induction xs) auto

lemma distinct_map_js_sort: "distinct (map f (js_sort cmp xs)) = distinct (map f xs)"
  by (rule mset_eq_imp_distinct_iff) simp

lemma set_insert_by [simp]: "set (insert_by cmp x xs) = insert x (set xs)"
  by (induction xs) auto

lemma sorted_insert_by:
  assumes "comparator cmp" and "sorted_wrt (\<lambda>a b. cmp a b \<le> 0) xs"
  shows "sorted_wrt (\<lambda>a b. cmp a b \<le> 0) (insert_by cmp x xs)"
  using assms(2)
proof (induction xs)
  case (Cons y ys)
  show ?case
  proof (cases "cmp x y \<le> 0")
    case True
    with Cons.prems assms(1) show ?thesis by (auto simp: comparator_def)
  next
    case False
    with comparator_total [OF assms(1)] Cons show ?thesis by auto
  qed
qed simp

lemma sorted_js_sort: "comparator cmp \<Longrightarrow> sorted_wrt (\<lambda>a b. cmp a b \<le> 0) (js_sort cmp xs)"
  unfolding js_sort_def by (induction xs) (auto intro: sorted_insert_by)

lemma sum_js_sort: "sum_list (map f (js_sort cmp xs)) = (sum_list (map f xs) :: int)"
proof -
  have "sum_mset (image_mset f (mset (js_sort cmp xs))) = sum_mset (image_mset f (mset xs))" by simp
  then show ?thesis by (metis mset_map sum_mset_sum_list)
qed

lemma comparator_or_else:
  assumes "comparator f" and "comparator g"
  shows "comparator (\<lambda>a b. or_else (f a b) (g a b))"
proof -
  note f = comparatorD(1) [OF assms(1)] and ft = comparatorD(2) [OF assms(1)]
  note g = comparatorD(1) [OF assms(2)] and gt = comparatorD(2) [OF assms(2)]
  have zero: "f a b = 0 \<longleftrightarrow> f b a = 0" for a b using f [of a b] by (auto simp: sgn_if split: if_splits)
  have neg: "f a b < 0 \<longleftrightarrow> f b a > 0" for a b using f [of a b] by (auto simp: sgn_if split: if_splits)
  have "or_else (f a c) (g a c) \<le> 0" if ab: "or_else (f a b) (g a b) \<le> 0" and bc: "or_else (f b c) (g b c) \<le> 0" for a b c
  proof -
    have "f a b \<le> 0" "f b c \<le> 0" using ab bc by (auto simp: or_else_def split: if_splits)
    then have ac: "f a c \<le> 0" by (rule ft)
    show ?thesis
    proof (cases "f a c = 0")
      case True
      have "f c b \<le> 0" using ft [of c a b] True zero [of a c] \<open>f a b \<le> 0\<close> by simp
      moreover have "f b a \<le> 0" using ft [of b c a] True zero [of a c] \<open>f b c \<le> 0\<close> by simp
      ultimately have "f b c = 0" "f a b = 0" using neg [of b c] neg [of a b] \<open>f a b \<le> 0\<close> \<open>f b c \<le> 0\<close> by linarith+
      with ab bc gt [of a b c] True show ?thesis by (simp add: or_else_def)
    qed (use ac in \<open>simp add: or_else_def\<close>)
  qed
  moreover have "sgn (or_else (f a b) (g a b)) = - sgn (or_else (f b a) (g b a))" for a b
    using f [of a b] g [of a b] zero [of a b] by (simp add: or_else_def)
  ultimately show ?thesis by (intro comparatorI)
qed

lemma comparator_diff: "comparator (\<lambda>a b. h a - h b)" "comparator (\<lambda>a b. h b - h a)" for h :: "'a \<Rightarrow> int"
  by (rule comparatorI; simp add: sgn_if)+

lemma comparator_on: "comparator lc \<Longrightarrow> comparator (\<lambda>a b. lc (h a) (h b))"
  by (rule comparatorI) (blast dest: comparatorD)+

lemma comparator_flip: "comparator lc \<Longrightarrow> comparator (\<lambda>a b. lc b a)"
  by (rule comparatorI) (blast dest: comparatorD)+

lemma workload_comparator: "comparator lc \<Longrightarrow> comparator (workload_cmp lc)"
  unfolding workload_cmp_def [abs_def]
  by (intro comparator_or_else comparator_diff comparator_on [where h = "\<lambda>r. ra_displayName (wr_assignee r)"])

lemma order_comparator: "comparator lc \<Longrightarrow> comparator (order_cmp lc)"
proof -
  assume lc: "comparator lc"
  have "order_cmp lc = (\<lambda>a b. or_else (state_rank (projectState a) - state_rank (projectState b)) (lc (rp_updatedAt b) (rp_updatedAt a)))"
    by (auto simp: order_cmp_def or_else_def Let_def fun_eq_iff)
  then show ?thesis
    using comparator_or_else [OF comparator_diff(1) comparator_on [OF comparator_flip [OF lc]]] by simp
qed

subsection \<open>Conservation\<close>

lemma sum_update:
  "sum_list (map (\<lambda>x. f (snd x)) (AList.update k v al)) =
     (sum_list (map (\<lambda>x. f (snd x)) al) + f v - (case map_of al k of Some b \<Rightarrow> f b | None \<Rightarrow> 0) :: int)"
  by (induction al) auto

lemma bucket_sums:
  fixes monthly :: "rating_month list" and p :: period
  defines "acc \<equiv> fold (bucket_add p) monthly []"
  shows "sum_list (map (\<lambda>x. bu_income (snd x)) acc) = sum_list (map mo_incomeKopecks monthly)"
    "sum_list (map (\<lambda>x. bu_expense (snd x)) acc) = sum_list (map mo_expenseKopecks monthly)"
    "sum_list (map (\<lambda>x. bu_profit (snd x)) acc) = sum_list (map mo_profitKopecks monthly)"
proof -
  have "sum_list (map (\<lambda>x. f (snd x)) (fold (bucket_add p) ms a)) = sum_list (map (\<lambda>x. f (snd x)) a) + sum_list (map g ms)"
    if "\<And>m a. sum_list (map (\<lambda>x. f (snd x)) (bucket_add p m a)) = sum_list (map (\<lambda>x. f (snd x)) a) + g m"
    for f :: "bucket \<Rightarrow> int" and g :: "rating_month \<Rightarrow> int" and ms a
    using that by (induction ms arbitrary: a) simp_all
  note fold_sum = this
  have "sum_list (map (\<lambda>x. bu_income (snd x)) (bucket_add p m a)) = sum_list (map (\<lambda>x. bu_income (snd x)) a) + mo_incomeKopecks m"
    "sum_list (map (\<lambda>x. bu_expense (snd x)) (bucket_add p m a)) = sum_list (map (\<lambda>x. bu_expense (snd x)) a) + mo_expenseKopecks m"
    "sum_list (map (\<lambda>x. bu_profit (snd x)) (bucket_add p m a)) = sum_list (map (\<lambda>x. bu_profit (snd x)) a) + mo_profitKopecks m" for m a
    unfolding bucket_add_def Let_def by (auto simp: sum_update split: option.splits)
  then show "sum_list (map (\<lambda>x. bu_income (snd x)) acc) = sum_list (map mo_incomeKopecks monthly)"
    "sum_list (map (\<lambda>x. bu_expense (snd x)) acc) = sum_list (map mo_expenseKopecks monthly)"
    "sum_list (map (\<lambda>x. bu_profit (snd x)) acc) = sum_list (map mo_profitKopecks monthly)"
    by (simp_all add: acc_def fold_sum)
qed

text \<open>
  The dashboard's money adds up: however the monthly series is grouped, into months, quarters or
  years, the incomes, expenses and profits of the buckets sum to those of the months.
\<close>

theorem bucket_money_adds_up:
  "sum_list (map bu_income (bucketMonthly lc monthly p)) = sum_list (map mo_incomeKopecks monthly) \<and>
   sum_list (map bu_expense (bucketMonthly lc monthly p)) = sum_list (map mo_expenseKopecks monthly) \<and>
   sum_list (map bu_profit (bucketMonthly lc monthly p)) = sum_list (map mo_profitKopecks monthly)"
  using bucket_sums [of p monthly] by (simp add: bucketMonthly_def sum_js_sort comp_def)


subsection \<open>The table of who carries what\<close>

definition in_hand :: "rating_project list \<Rightarrow> rating_task list" where
  "in_hand projects = filter (\<lambda>t. rt_assignee t \<noteq> None \<and> rt_status t = InProgress) (concat (map rp_tasks projects))"

lemma workload_task_sum:
  "sum_list (map (\<lambda>x. fst (snd (snd x))) (workload_task t rows)) =
     sum_list (map (\<lambda>x. fst (snd (snd x))) rows) + (if rt_assignee t \<noteq> None \<and> rt_status t = InProgress then 1 else 0)"
  by (auto simp: workload_task_def sum_update [where f = "\<lambda>r. fst (snd r)"] split: option.splits prod.splits)

lemma list_all_update: "list_all P al \<Longrightarrow> P (k, v) \<Longrightarrow> list_all P (AList.update k v al)"
  by (induction al) auto

lemma workload_task_keys:
  assumes "distinct (map fst rows)" and "list_all (\<lambda>(k, who, n, s). ra_id who = k \<and> n > 0) rows"
  shows "distinct (map fst (workload_task t rows)) \<and> list_all (\<lambda>(k, who, n, s). ra_id who = k \<and> n > 0) (workload_task t rows)"
proof (cases "rt_assignee t = None \<or> rt_status t \<noteq> InProgress")
  case True
  with assms show ?thesis by (auto simp: workload_task_def split: option.splits)
next
  case False
  then obtain a where a: "rt_assignee t = Some a" "rt_status t = InProgress" by auto
  obtain who n s where r: "(case map_of rows (ra_id a) of Some r \<Rightarrow> r | None \<Rightarrow> (a, 0, 0)) = (who, n, s)" by (metis prod_cases3)
  have ok: "ra_id who = ra_id a \<and> n \<ge> 0"
    using r assms(2) by (auto simp: list_all_iff split: option.splits dest!: map_of_SomeD)
  from assms ok have "list_all (\<lambda>(k, who, n, s). ra_id who = k \<and> n > 0) (AList.update (ra_id a) (who, n + 1, s + rt_progress t) rows)"
    by (intro list_all_update) auto
  with a r assms(1) show ?thesis by (simp add: workload_task_def distinct_update)
qed

text \<open>
  The workload table accounts for every task in hand, once: the task counts of its rows add up to the
  number of taken and unfinished tasks, nobody has two rows, and, given a consistent comparison of
  names, the rows are ordered by the rule of the table.
\<close>

theorem workload_accounts_for_every_task:
  assumes "comparator lc"
  shows "sum_list (map wr_tasks (workload lc projects)) = int (length (in_hand projects)) \<and>
    distinct (map (\<lambda>r. ra_id (wr_assignee r)) (workload lc projects)) \<and>
    sorted_wrt (\<lambda>a b. workload_cmp lc a b \<le> 0) (workload lc projects)"
proof -
  let ?ts = "concat (map rp_tasks projects)" and ?row = "\<lambda>(k, who, n, s). \<lparr>wr_assignee = who, wr_tasks = n, wr_progress = math_round s n\<rparr>"
  let ?rows = "fold workload_task ?ts []"
  have sums: "sum_list (map (\<lambda>x. fst (snd (snd x))) (fold workload_task ts rows)) = sum_list (map (\<lambda>x. fst (snd (snd x))) rows) +
      int (length (filter (\<lambda>t. rt_assignee t \<noteq> None \<and> rt_status t = InProgress) ts))" for ts rows
    by (induction ts arbitrary: rows) (auto simp: workload_task_sum)
  have keys: "distinct (map fst (fold workload_task ts rows)) \<and> list_all (\<lambda>(k, who, n, s). ra_id who = k \<and> n > 0) (fold workload_task ts rows)"
    if "distinct (map fst rows) \<and> list_all (\<lambda>(k, who, n, s). ra_id who = k \<and> n > 0) rows" for ts rows
    using that
  proof (induction ts arbitrary: rows)
    case (Cons t ts)
    from workload_task_keys [of rows t] Cons.prems have "distinct (map fst (workload_task t rows)) \<and>
      list_all (\<lambda>(k, who, n, s). ra_id who = k \<and> n > 0) (workload_task t rows)" by blast
    from Cons.IH [OF this] show ?case by simp
  qed simp
  have k: "distinct (map fst ?rows)" "list_all (\<lambda>(k, who, n, s). ra_id who = k \<and> n > 0) ?rows" using keys [of "[]" ?ts] by auto
  then have "map (\<lambda>r. ra_id (wr_assignee r)) (map ?row ?rows) = map fst ?rows"
    by (auto simp: list_all_iff)
  with k(1) have "distinct (map (\<lambda>r. ra_id (wr_assignee r)) (map ?row ?rows))" by (simp only:)
  then have "distinct (map (\<lambda>r. ra_id (wr_assignee r)) (js_sort (workload_cmp lc) (map ?row ?rows)))"
    by (simp only: distinct_map_js_sort)
  moreover have "map wr_tasks (map ?row ?rows) = map (\<lambda>x. fst (snd (snd x))) ?rows" by auto
  then have "sum_list (map wr_tasks (js_sort (workload_cmp lc) (map ?row ?rows))) = sum_list (map (\<lambda>x. fst (snd (snd x))) ?rows)"
    unfolding sum_js_sort by (rule arg_cong)
  moreover note sums [of ?ts "[]"] sorted_js_sort [OF workload_comparator [OF assms], of "map ?row ?rows"]
  ultimately show ?thesis unfolding workload_def in_hand_def by simp
qed

definition sample_task :: "string \<Rightarrow> int \<Rightarrow> rating_task" where
  "sample_task who pr = \<lparr>rt_id = ''t'', rt_projectId = ''p'', rt_projectTitle = ''P'', rt_title = ''T'',
     rt_assignee = Some \<lparr>ra_id = who, ra_displayName = who, ra_avatarUrl = None\<rparr>, rt_progress = pr, rt_status = InProgress,
     rt_totalProfitKopecks = 0, rt_createdAt = ''t''\<rparr>"

definition sample_project :: "rating_task list \<Rightarrow> rating_project" where
  "sample_project ts = \<lparr>rp_id = ''p'', rp_title = ''P'', rp_description = None, rp_difficulty = Easy, rp_minLevel = 1,
     rp_status = ActiveProject, rp_createdBy = ''u1'', rp_totalIncomeKopecks = 0, rp_totalExpenseKopecks = 0,
     rp_totalProfitKopecks = 0, rp_tasks = ts, rp_members = [], rp_createdAt = ''t'', rp_updatedAt = ''t'', rp_completedAt = None\<rparr>"

text \<open>Comparison by length stands in for a browser's collation.\<close>

definition sample_collation :: "string \<Rightarrow> string \<Rightarrow> int" where
  "sample_collation a b = int (length a) - int (length b)"

theorem workload_accounts_for_every_task_witness:
  "let rows = workload sample_collation [sample_project [sample_task ''a'' 10, sample_task ''bb'' 40, sample_task ''a'' 35]] in
     map wr_tasks rows = [2, 1] \<and> sum_list (map wr_tasks rows) = 3 \<and> map wr_progress rows = [23, 40]"
proof -
  let ?ps = "[sample_project [sample_task ''a'' 10, sample_task ''bb'' 40, sample_task ''a'' 35]]"
  have "comparator sample_collation" unfolding sample_collation_def by (rule comparator_diff(1))
  from workload_accounts_for_every_task [OF this, of ?ps]
  have "sum_list (map wr_tasks (workload sample_collation ?ps)) = 3" by (simp add: in_hand_def sample_project_def sample_task_def)
  then show ?thesis
    by (simp add: Let_def workload_def js_sort_def workload_task_def workload_cmp_def or_else_def math_round_def sample_project_def sample_task_def)
qed


end
