(* ===== verification/Board.thy ===== *)
theory Board
  imports Complex_Main Api_Types "HOL-Library.Multiset"
begin

text \<open>
  The task board of a group: \<open>widgets/board/useCardDrag.ts\<close> (a press, a drag and a drop by pointer events)
  and the optimistic reorder of \<open>widgets/board/BoardView.tsx\<close>. What the browser knows of the page is a
  \<open>board_layout\<close>: the column under a point and the cards shown in a column with the top and height of
  each. Coordinates are reals; \<open>Math.hypot(dx, dy) < n\<close> is compared by squares.
\<close>

record board_card =
  bc_id :: string
  bc_columnId :: string
  bc_title :: string
  bc_description :: "string option"
  bc_position :: int
  bc_assigneeId :: "string option"
  bc_label :: "string option"
  bc_dueDate :: "string option"
  bc_createdBy :: string
  bc_createdAt :: string

record board_column =
  bl_id :: string
  bl_title :: string
  bl_position :: int
  bl_cards :: "board_card list"

record board =
  bd_id :: string
  bd_groupId :: string
  bd_title :: string
  bd_createdBy :: string
  bd_columns :: "board_column list"

subsection \<open>Moving a card within the board\<close>

definition splice_in :: "nat \<Rightarrow> 'a \<Rightarrow> 'a list \<Rightarrow> 'a list" where
  "splice_in i x xs = take i xs @ x # drop i xs"

definition without_card :: "string \<Rightarrow> board_column \<Rightarrow> board_column" where
  "without_card cardId col = col\<lparr>bl_cards := filter (\<lambda>c. bc_id c \<noteq> cardId) (bl_cards col)\<rparr>"

text \<open>The last column that has the card decides which copy is \<open>moved\<close>.\<close>

definition moved_card :: "board \<Rightarrow> string \<Rightarrow> board_card option" where
  "moved_card b cardId =
     find (\<lambda>c. bc_id c = cardId) (concat (map bl_cards (filter (\<lambda>col. \<exists>c \<in> set (bl_cards col). bc_id c = cardId) (rev (bd_columns b)))))"

definition put_in_column :: "string \<Rightarrow> nat \<Rightarrow> board_card \<Rightarrow> board_column \<Rightarrow> board_column" where
  "put_in_column toColumnId toIndex moved col =
     (if bl_id col \<noteq> toColumnId then col
      else col\<lparr>bl_cards := splice_in (min toIndex (length (bl_cards col))) moved (bl_cards col)\<rparr>)"

definition moveInBoard :: "board \<Rightarrow> string \<Rightarrow> string \<Rightarrow> nat \<Rightarrow> board" where
  "moveInBoard b cardId toColumnId toIndex =
     (case moved_card b cardId of
        None \<Rightarrow> b
      | Some moved \<Rightarrow>
          b\<lparr>bd_columns := map (put_in_column toColumnId toIndex (moved\<lparr>bc_columnId := toColumnId\<rparr>))
              (map (without_card cardId) (bd_columns b))\<rparr>)"

subsection \<open>The gesture\<close>

definition START_THRESHOLD_PX :: real where "START_THRESHOLD_PX = 6"
definition EDGE_ZONE_PX :: real where "EDGE_ZONE_PX = 56"
definition EDGE_STEP_PX :: real where "EDGE_STEP_PX = 14"

record card_drag =
  cd_cardId :: string
  cd_fromColumnId :: string
  cd_x :: real
  cd_y :: real
  cd_width :: real
  cd_overColumnId :: "string option"
  cd_overIndex :: nat

record press =
  pr_pointerId :: int
  pr_cardId :: string
  pr_fromColumnId :: string
  pr_startX :: real
  pr_startY :: real
  pr_grabDX :: real
  pr_grabDY :: real
  pr_width :: real

record rect =
  re_left :: real
  re_top :: real
  re_width :: real
  re_height :: real

record board_layout =
  la_columnAt :: "real \<Rightarrow> real \<Rightarrow> string option"
  la_cards :: "string \<Rightarrow> (string \<times> real \<times> real) list"
  la_scroller :: "(real \<times> real) option"
  la_bodyAt :: "real \<Rightarrow> real \<Rightarrow> (real \<times> real) option"

fun slot_at :: "real \<Rightarrow> (string \<times> real \<times> real) list \<Rightarrow> nat" where
  "slot_at y [] = 0"
| "slot_at y ((i, rtop, rheight) # cards) = (if y < rtop + rheight / 2 then 0 else Suc (slot_at y cards))"

definition hitTest :: "board_layout \<Rightarrow> real \<Rightarrow> real \<Rightarrow> (string \<times> nat) option" where
  "hitTest L x y = (case la_columnAt L x y of
     None \<Rightarrow> None
   | Some columnId \<Rightarrow> if columnId = '''' then None else Some (columnId, slot_at y (la_cards L columnId)))"

record drag_state =
  ds_drag :: "card_drag option"
  ds_press :: "press option"
  ds_active :: "card_drag option"
  ds_point :: "real \<times> real"
  ds_raf :: bool
  ds_suppressClick :: bool
  ds_scrolled :: "(real \<times> real) list"

definition drag_start :: drag_state where
  "drag_start = \<lparr>ds_drag = None, ds_press = None, ds_active = None, ds_point = (0, 0), ds_raf = False,
     ds_suppressClick = False, ds_scrolled = []\<rparr>"

definition edge_step :: "real \<Rightarrow> (real \<times> real) option \<Rightarrow> real" where
  "edge_step v r = (case r of None \<Rightarrow> 0 | Some (lo, hi) \<Rightarrow>
     if v < lo + EDGE_ZONE_PX then - EDGE_STEP_PX else if v > hi - EDGE_ZONE_PX then EDGE_STEP_PX else 0)"

definition autoScroll :: "board_layout \<Rightarrow> drag_state \<Rightarrow> drag_state" where
  "autoScroll L s =
     (if ds_active s = None then s\<lparr>ds_raf := False\<rparr>
      else case ds_point s of (x, y) \<Rightarrow>
        s\<lparr>ds_scrolled := ds_scrolled s @ [(edge_step x (la_scroller L), edge_step y (la_bodyAt L x y))], ds_raf := True\<rparr>)"

definition begin_press :: "bool \<Rightarrow> int \<Rightarrow> int \<Rightarrow> real \<Rightarrow> real \<Rightarrow> rect \<Rightarrow> string \<Rightarrow> string \<Rightarrow> drag_state \<Rightarrow> drag_state" where
  "begin_press mouse button pid x y r cardId fromColumnId s =
     (if mouse \<and> button \<noteq> 0 then s
      else s\<lparr>ds_suppressClick := False, ds_press := Some \<lparr>pr_pointerId = pid, pr_cardId = cardId,
             pr_fromColumnId = fromColumnId, pr_startX = x, pr_startY = y, pr_grabDX = x - re_left r,
             pr_grabDY = y - re_top r, pr_width = re_width r\<rparr>\<rparr>)"

definition consumeClick :: "drag_state \<Rightarrow> bool \<times> drag_state" where
  "consumeClick s = (if \<not> ds_suppressClick s then (False, s) else (True, s\<lparr>ds_suppressClick := False\<rparr>))"

definition near :: "press \<Rightarrow> real \<Rightarrow> real \<Rightarrow> bool" where
  "near p x y \<longleftrightarrow> (x - pr_startX p)\<^sup>2 + (y - pr_startY p)\<^sup>2 < START_THRESHOLD_PX\<^sup>2"

definition first_drag :: "press \<Rightarrow> real \<Rightarrow> real \<Rightarrow> (string \<times> nat) option \<Rightarrow> card_drag" where
  "first_drag p x y hit = \<lparr>cd_cardId = pr_cardId p, cd_fromColumnId = pr_fromColumnId p, cd_x = x - pr_grabDX p,
     cd_y = y - pr_grabDY p, cd_width = pr_width p,
     cd_overColumnId = (case hit of None \<Rightarrow> Some (pr_fromColumnId p) | Some (c, i) \<Rightarrow> Some c),
     cd_overIndex = (case hit of None \<Rightarrow> 0 | Some (c, i) \<Rightarrow> i)\<rparr>"

definition next_drag :: "press \<Rightarrow> card_drag \<Rightarrow> real \<Rightarrow> real \<Rightarrow> (string \<times> nat) option \<Rightarrow> card_drag" where
  "next_drag p a x y hit = a\<lparr>cd_x := x - pr_grabDX p, cd_y := y - pr_grabDY p,
     cd_overColumnId := (case hit of None \<Rightarrow> cd_overColumnId a | Some (c, i) \<Rightarrow> Some c),
     cd_overIndex := (case hit of None \<Rightarrow> cd_overIndex a | Some (c, i) \<Rightarrow> i)\<rparr>"

definition drag_move :: "board_layout \<Rightarrow> int \<Rightarrow> real \<Rightarrow> real \<Rightarrow> drag_state \<Rightarrow> drag_state" where
  "drag_move L pid x y s0 = (let s = s0\<lparr>ds_point := (x, y)\<rparr> in
     case ds_press s of
       None \<Rightarrow> s
     | Some p \<Rightarrow>
         if pr_pointerId p \<noteq> pid then s
         else case ds_active s of
           None \<Rightarrow> if near p x y then s
             else let a = first_drag p x y (hitTest L x y) in s\<lparr>ds_active := Some a, ds_drag := Some a, ds_raf := True\<rparr>
         | Some a \<Rightarrow> let a' = next_drag p a x y (hitTest L x y) in s\<lparr>ds_active := Some a', ds_drag := Some a'\<rparr>)"

text \<open>\<open>finish\<close> gives the drop to hand to \<open>onDrop\<close>, if any.\<close>

definition finish :: "bool \<Rightarrow> drag_state \<Rightarrow> (string \<times> string \<times> nat) option \<times> drag_state" where
  "finish commit s =
     (let s' = s\<lparr>ds_raf := False, ds_press := None, ds_active := None\<rparr> in
      case ds_active s of
        None \<Rightarrow> (None, s')
      | Some a \<Rightarrow> (if commit \<and> truthy (cd_overColumnId a) then Some (cd_cardId a, the (cd_overColumnId a), cd_overIndex a) else None,
                   s'\<lparr>ds_suppressClick := True, ds_drag := None\<rparr>))"

subsection \<open>The board view\<close>

record board_view =
  bv_gesture :: drag_state
  bv_board :: "board option"
  bv_moves :: "(string \<times> string \<times> nat) list"
  bv_editCard :: "board_card option"

text \<open>
  The optimistic reorder and the request; a request that fails shows a message and changes nothing, one
  that succeeds has the board fetched again (\<open>Refetched\<close>).
\<close>

definition onDrop :: "string \<Rightarrow> string \<Rightarrow> nat \<Rightarrow> board_view \<Rightarrow> board_view" where
  "onDrop cardId columnId index v =
     v\<lparr>bv_board := map_option (\<lambda>b. moveInBoard b cardId columnId index) (bv_board v),
       bv_moves := bv_moves v @ [(cardId, columnId, index)]\<rparr>"

definition onOpenCard :: "board_card \<Rightarrow> board_view \<Rightarrow> board_view" where
  "onOpenCard c v = (case consumeClick (bv_gesture v) of (swallowed, g) \<Rightarrow>
     if swallowed then v\<lparr>bv_gesture := g\<rparr> else v\<lparr>bv_gesture := g, bv_editCard := Some c\<rparr>)"

datatype board_event =
    PointerDown bool int int real real rect string string
  | PointerMove board_layout int real real
  | PointerUp
  | PointerCancel
  | AnimationFrame board_layout
  | ClickCard board_card
  | MoveFails

fun board_step :: "board_event \<Rightarrow> board_view \<Rightarrow> board_view" where
  "board_step (PointerDown mouse button pid x y r cardId col) v =
     v\<lparr>bv_gesture := begin_press mouse button pid x y r cardId col (bv_gesture v)\<rparr>"
| "board_step (PointerMove L pid x y) v = v\<lparr>bv_gesture := drag_move L pid x y (bv_gesture v)\<rparr>"
| "board_step PointerUp v = (case finish True (bv_gesture v) of
     (None, g) \<Rightarrow> v\<lparr>bv_gesture := g\<rparr>
   | (Some (cardId, col, i), g) \<Rightarrow> onDrop cardId col i (v\<lparr>bv_gesture := g\<rparr>))"
| "board_step PointerCancel v = v\<lparr>bv_gesture := snd (finish False (bv_gesture v))\<rparr>"
| "board_step (AnimationFrame L) v = (if ds_raf (bv_gesture v) then v\<lparr>bv_gesture := autoScroll L (bv_gesture v)\<rparr> else v)"
| "board_step (ClickCard c) v = onOpenCard c v"
| "board_step MoveFails v = v"

subsection \<open>A move keeps every card\<close>

definition column_ids :: "board \<Rightarrow> string list" where
  "column_ids b = map bl_id (bd_columns b)"

definition ids_in :: "board_column list \<Rightarrow> string list" where
  "ids_in cols = concat (map (\<lambda>col. map bc_id (bl_cards col)) cols)"

definition card_ids :: "board \<Rightarrow> string list" where
  "card_ids b = ids_in (bd_columns b)"

lemma ids_in_simps [simp]: "ids_in [] = []" "ids_in (col # cols) = map bc_id (bl_cards col) @ ids_in cols"
  by (simp_all add: ids_in_def)

lemma ids_in_without [simp]: "ids_in (map (without_card c) cols) = filter (\<lambda>i. i \<noteq> c) (ids_in cols)"
  by (induction cols) (simp_all add: without_card_def filter_map comp_def)

lemma column_ids_kept [simp]:
  "bl_id (without_card c col) = bl_id col" "bl_id (put_in_column t i d col) = bl_id col"
  by (simp_all add: without_card_def put_in_column_def)

lemma mset_splice_in [simp]: "mset (splice_in i x xs) = add_mset x (mset xs)"
  by (simp add: splice_in_def mset_append [symmetric])

lemma ids_in_put_elsewhere: "t \<notin> bl_id ` set cols \<Longrightarrow> ids_in (map (put_in_column t i d) cols) = ids_in cols"
  by (induction cols) (auto simp: put_in_column_def)

lemma ids_in_put:
  "distinct (map bl_id cols) \<Longrightarrow> t \<in> bl_id ` set cols \<Longrightarrow>
     mset (ids_in (map (put_in_column t i d) cols)) = add_mset (bc_id d) (mset (ids_in cols))"
proof (induction cols)
  case (Cons col cols)
  show ?case
  proof (cases "bl_id col = t")
    case True
    with Cons.prems(1) have "t \<notin> bl_id ` set cols" by auto
    with True show ?thesis by (simp add: ids_in_put_elsewhere) (simp add: put_in_column_def)
  next
    case False
    with Cons show ?thesis by (auto simp: put_in_column_def)
  qed
qed simp

lemma mset_take_out: "distinct xs \<Longrightarrow> c \<in> set xs \<Longrightarrow> mset xs = add_mset c (mset (filter (\<lambda>i. i \<noteq> c) xs))"
proof (induction xs)
  case (Cons x xs)
  then show ?case
  proof (cases "x = c")
    case True
    with Cons.prems have "filter (\<lambda>i. i \<noteq> c) xs = xs" by (auto simp: filter_id_conv)
    with True show ?thesis by (simp flip: mset_filter)
  qed auto
qed simp

lemma moved_card_Some: "moved_card b c = Some d \<Longrightarrow> bc_id d = c \<and> c \<in> set (card_ids b)"
  by (force simp: moved_card_def find_Some_iff card_ids_def ids_in_def in_set_conv_nth [symmetric] dest!: nth_mem)

lemma moved_card_None: "moved_card b c = None \<longleftrightarrow> c \<notin> set (card_ids b)"
  by (force simp: moved_card_def find_None_iff card_ids_def ids_in_def)

lemma column_ids_move [simp]: "column_ids (moveInBoard b c t i) = column_ids b"
  by (simp add: moveInBoard_def column_ids_def comp_def split: option.split)

lemma card_ids_move:
  assumes "distinct (column_ids b)" and "distinct (card_ids b)" and "t \<in> set (column_ids b)"
  shows "mset (card_ids (moveInBoard b c t i)) = mset (card_ids b)"
proof (cases "moved_card b c")
  case None
  then show ?thesis by (simp add: moveInBoard_def)
next
  case (Some d)
  then have d: "bc_id d = c" "c \<in> set (card_ids b)" by (simp_all add: moved_card_Some)
  let ?cols = "map (without_card c) (bd_columns b)"
  have "distinct (map bl_id ?cols)" "t \<in> bl_id ` set ?cols"
    using assms(1,3) by (auto simp: column_ids_def comp_def image_image)
  from ids_in_put [OF this, of i "d\<lparr>bc_columnId := t\<rparr>"] show ?thesis
    using d mset_take_out [OF assms(2) d(2)] by (simp add: Some moveInBoard_def card_ids_def)
qed

subsection \<open>Gestures over the board\<close>

fun over_board :: "string set \<Rightarrow> board_event \<Rightarrow> bool" where
  "over_board C (PointerDown mouse button pid x y r cardId col) \<longleftrightarrow> col \<in> C"
| "over_board C (PointerMove L pid x y) \<longleftrightarrow> (\<forall>a b c. la_columnAt L a b = Some c \<longrightarrow> c \<in> C)"
| "over_board C e \<longleftrightarrow> True"

definition aims_at :: "string set \<Rightarrow> drag_state \<Rightarrow> bool" where
  "aims_at C g \<longleftrightarrow> (\<forall>p. ds_press g = Some p \<longrightarrow> pr_fromColumnId p \<in> C) \<and>
     (\<forall>a c. ds_active g = Some a \<longrightarrow> cd_overColumnId a = Some c \<longrightarrow> c \<in> C)"

definition replay :: "(string \<times> string \<times> nat) list \<Rightarrow> board \<Rightarrow> board" where
  "replay ms b = fold (\<lambda>(c, t, i) b. moveInBoard b c t i) ms b"

lemma hit_on_board: "\<forall>a b c. la_columnAt L a b = Some c \<longrightarrow> c \<in> C \<Longrightarrow> hitTest L x y = Some (c, i) \<Longrightarrow> c \<in> C"
  by (auto simp: hitTest_def split: option.splits if_splits)

lemma aims_move: "over_board C (PointerMove L pid x y) \<Longrightarrow> aims_at C g \<Longrightarrow> aims_at C (drag_move L pid x y g)"
  using hit_on_board [of L C x y]
  by (auto simp: aims_at_def drag_move_def first_drag_def next_drag_def Let_def split: option.splits prod.splits)

lemma aims_finish: "aims_at C (snd (finish commit g))"
  by (auto simp: aims_at_def finish_def Let_def split: option.splits)

lemma finish_on_board: "aims_at C g \<Longrightarrow> finish commit g = (Some (c, t, i), g') \<Longrightarrow> t \<in> C"
  by (auto simp: aims_at_def finish_def Let_def truthy_def split: option.splits if_splits)

lemma aims_press: "col \<in> C \<Longrightarrow> aims_at C g \<Longrightarrow> aims_at C (begin_press mouse button pid x y r cardId col g)"
  by (auto simp: aims_at_def begin_press_def)

lemma aims_same: "ds_press g' = ds_press g \<Longrightarrow> ds_active g' = ds_active g \<Longrightarrow> aims_at C g \<Longrightarrow> aims_at C g'"
  by (simp add: aims_at_def)

lemma same_gesture:
  "ds_press (autoScroll L g) = ds_press g" "ds_active (autoScroll L g) = ds_active g"
  "ds_press (snd (consumeClick g)) = ds_press g" "ds_active (snd (consumeClick g)) = ds_active g"
  by (simp_all add: autoScroll_def consumeClick_def split: prod.split)

lemma gesture_open: "bv_gesture (onOpenCard c v) = snd (consumeClick (bv_gesture v))"
  by (simp add: onOpenCard_def split: prod.split)

lemma gesture_up: "bv_gesture (board_step PointerUp v) = snd (finish True (bv_gesture v))"
  by (auto simp: onDrop_def split: prod.splits option.splits)

lemma aims_step: "over_board C e \<Longrightarrow> aims_at C (bv_gesture v) \<Longrightarrow> aims_at C (bv_gesture (board_step e v))"
  by (cases e) (auto simp: aims_move aims_finish aims_press gesture_up gesture_open same_gesture
      intro: aims_same simp del: board_step.simps(3) over_board.simps(2))

text \<open>
  \<open>shows_moves C b v\<close>: the board on screen is the one loaded, with the moves sent so far made on it, and
  each of them went to a column of the board.
\<close>

definition shows_moves :: "string set \<Rightarrow> board \<Rightarrow> board_view \<Rightarrow> bool" where
  "shows_moves C b v \<longleftrightarrow> bv_board v = Some (replay (bv_moves v) b) \<and> (\<forall>(c, t, i) \<in> set (bv_moves v). t \<in> C)"

lemma shows_moves_step:
  "aims_at C (bv_gesture v) \<Longrightarrow> shows_moves C b v \<Longrightarrow> shows_moves C b (board_step e v)"
  by (cases e) (auto simp: shows_moves_def onDrop_def onOpenCard_def consumeClick_def replay_def
      dest: finish_on_board split: prod.splits option.splits)

lemma shows_moves_run:
  "aims_at C (bv_gesture v) \<Longrightarrow> shows_moves C b v \<Longrightarrow> list_all (over_board C) evs \<Longrightarrow> shows_moves C b (fold board_step evs v)"
  by (induction evs arbitrary: v) (auto simp: aims_step shows_moves_step)

lemma replay_keeps:
  assumes "distinct (column_ids b)" and "distinct (card_ids b)" and "\<forall>(c, t, i) \<in> set ms. t \<in> set (column_ids b)"
  shows "column_ids (replay ms b) = column_ids b \<and> mset (card_ids (replay ms b)) = mset (card_ids b)"
  using assms
proof (induction ms arbitrary: b)
  case (Cons m ms)
  obtain c t i where m: "m = (c, t, i)" by (cases m)
  let ?b = "moveInBoard b c t i"
  have "mset (card_ids ?b) = mset (card_ids b)" using Cons.prems by (simp add: m card_ids_move)
  then have "distinct (card_ids ?b)" using Cons.prems(2) by (metis mset_eq_imp_distinct_iff)
  with Cons.prems Cons.IH [of ?b] \<open>mset (card_ids ?b) = mset (card_ids b)\<close> show ?case
    by (simp add: m replay_def)
qed (simp add: replay_def)

definition open_board :: "board \<Rightarrow> board_view" where
  "open_board b = \<lparr>bv_gesture = drag_start, bv_board = Some b, bv_moves = [], bv_editCard = None\<rparr>"


definition sample_card :: "string \<Rightarrow> board_card" where
  "sample_card i = \<lparr>bc_id = i, bc_columnId = ''todo'', bc_title = i, bc_description = None, bc_position = 0,
     bc_assigneeId = None, bc_label = None, bc_dueDate = None, bc_createdBy = ''u1'', bc_createdAt = ''t''\<rparr>"

definition sample_column :: board_column where
  "sample_column = \<lparr>bl_id = ''todo'', bl_title = ''To do'', bl_position = 0, bl_cards = map sample_card [''a'', ''b'', ''c'']\<rparr>"

definition sample_board :: board where
  "sample_board = \<lparr>bd_id = ''bd'', bd_groupId = ''g'', bd_title = ''B'', bd_createdBy = ''u1'', bd_columns = [sample_column]\<rparr>"

definition sample_layout :: board_layout where
  "sample_layout = \<lparr>la_columnAt = (\<lambda>x y. Some ''todo''),
     la_cards = (\<lambda>c. [(''a'', 0, 40), (''b'', 50, 40), (''c'', 100, 40)]), la_scroller = None, la_bodyAt = (\<lambda>x y. None)\<rparr>"

definition drag_a_above_c :: "board_event list" where
  "drag_a_above_c = [PointerDown False 0 1 10 10 \<lparr>re_left = 0, re_top = 0, re_width = 100, re_height = 40\<rparr> ''a'' ''todo'',
     PointerMove sample_layout 1 10 95, PointerUp]"

lemmas board_eval = sample_card_def sample_column_def sample_board_def sample_layout_def drag_a_above_c_def open_board_def
  drag_start_def begin_press_def drag_move_def near_def START_THRESHOLD_PX_def first_drag_def hitTest_def finish_def onDrop_def
  moveInBoard_def moved_card_def without_card_def put_in_column_def splice_in_def column_ids_def card_ids_def


subsection \<open>Dropping below in the same column\<close>

lemma slot_between: "\<forall>(i, t, h) \<in> set up. t + h / 2 \<le> y \<Longrightarrow> y < t + h / 2 \<Longrightarrow> slot_at y (up @ (i, t, h) # rest) = length up"
  by (induction up) auto

lemma splice_at: "splice_in (length xs) x (xs @ ys) = xs @ x # ys"
  by (simp add: splice_in_def)

lemma filter_other: "c \<notin> f ` set xs \<Longrightarrow> filter (\<lambda>x. f x \<noteq> c) xs = xs"
  by (auto simp: filter_id_conv)

text \<open>
  A card dragged down within its column lands one place too low. The column still shows the dragged
  card, and the slot under the pointer counts it; the move then counts the places without it. Released
  above a card \<open>d\<close> further down, the card ends below \<open>d\<close>.
\<close>

theorem drop_below_lands_one_too_low:
  assumes "col \<in> set (bd_columns b)" and "bl_cards col = xs @ c # ys @ d # zs" and "distinct (map bc_id (bl_cards col))"
    and "la_cards L (bl_id col) = up @ (bc_id d, t, h) # down" and "map fst up = map bc_id (xs @ c # ys)"
    and "\<forall>(i, t, h) \<in> set up. t + h / 2 \<le> y" and "y < t + h / 2"
    and "la_columnAt L x y = Some (bl_id col)" and "bl_id col \<noteq> ''''" and "hitTest L x y = Some (target, index)"
  shows "target = bl_id col \<and>
    (\<exists>col' \<in> set (bd_columns (moveInBoard b (bc_id c) target index)).
       bl_id col' = bl_id col \<and> map bc_id (bl_cards col') = map bc_id (xs @ ys @ [d, c] @ zs))"
proof -
  have index: "index = length xs + 1 + length ys" and target: "target = bl_id col"
    using assms(4,6-10) slot_between [of up y t h "bc_id d" down] arg_cong [OF assms(5), of length]
    by (auto simp: hitTest_def)
  have "bc_id c \<in> set (card_ids b)"
    using assms(1,2) by (force simp: card_ids_def ids_in_def)
  then obtain moved where moved: "moved_card b (bc_id c) = Some moved" "bc_id moved = bc_id c"
    by (metis moved_card_None moved_card_Some option.exhaust)
  have rest: "bl_cards (without_card (bc_id c) col) = (xs @ ys @ [d]) @ zs"
    using assms(2,3) by (auto simp: without_card_def filter_other)
  let ?col = "put_in_column target index (moved\<lparr>bc_columnId := target\<rparr>) (without_card (bc_id c) col)"
  have "map bc_id (bl_cards ?col) = map bc_id (xs @ ys @ [d, c] @ zs)"
    using splice_at [of "xs @ ys @ [d]" "moved\<lparr>bc_columnId := target\<rparr>" zs]
    by (simp add: put_in_column_def target rest index moved(2))
  moreover have "?col \<in> set (bd_columns (moveInBoard b (bc_id c) target index))"
    using assms(1) by (simp add: moveInBoard_def moved)
  moreover have "bl_id ?col = bl_id col" by simp
  ultimately show ?thesis using target by blast
qed

theorem drop_below_lands_one_too_low_witness:
  "hitTest sample_layout 10 95 = Some (''todo'', 2) \<and>
   (\<exists>col \<in> set (bd_columns (moveInBoard sample_board ''a'' ''todo'' 2)). map bc_id (bl_cards col) = [''b'', ''c'', ''a''])"
proof -
  have hit: "hitTest sample_layout 10 95 = Some (''todo'', 2)" by (simp add: board_eval numeral_2_eq_2)
  have "\<exists>col' \<in> set (bd_columns (moveInBoard sample_board (bc_id (sample_card ''a'')) ''todo'' 2)).
      bl_id col' = bl_id sample_column \<and> map bc_id (bl_cards col') = map bc_id ([] @ [sample_card ''b''] @ [sample_card ''c'', sample_card ''a''] @ [])"
    by (rule conjunct2 [OF drop_below_lands_one_too_low [where L = sample_layout and x = 10 and y = 95 and t = 100 and h = 40
          and up = "[(''a'', 0, 40), (''b'', 50, 40)]" and down = "[]" and target = "''todo''" and index = 2]])
      (simp_all add: hit, simp_all add: sample_card_def sample_column_def sample_board_def sample_layout_def)
  then obtain col' where "col' \<in> set (bd_columns (moveInBoard sample_board ''a'' ''todo'' 2))"
      "map bc_id (bl_cards col') = [''b'', ''c'', ''a'']"
    by (auto simp: sample_card_def simp del: map_eq_Cons_conv)
  with hit show ?thesis by (intro conjI bexI)
qed

end
