(* ===== verification/Uri.thy ===== *)
theory Uri
  imports Api_Types Json
begin

text \<open>
  The URL encodings of the language the client builds its requests with: \<open>encodeURIComponent\<close> and
  \<open>URLSearchParams\<close>, on UTF-8 bytes, with a reader for each and the round trips.
\<close>

definition hex_upper :: "nat \<Rightarrow> char" where
  "hex_upper n = (if n < 10 then char_of (48 + n) else char_of (55 + n))"

definition hex_upper_val :: "char \<Rightarrow> nat" where
  "hex_upper_val c = (if is_digit c then of_char c - 48 else of_char c - 55)"

definition percent :: "char \<Rightarrow> string" where
  "percent c = [CHR 0x25, hex_upper (of_char c div 16), hex_upper (of_char c mod 16)]"

definition is_alnum :: "char \<Rightarrow> bool" where
  "is_alnum c \<longleftrightarrow> (let n = of_char c :: nat in (48 \<le> n \<and> n \<le> 57) \<or> (65 \<le> n \<and> n \<le> 90) \<or> (97 \<le> n \<and> n \<le> 122))"

definition uri_unreserved :: "char \<Rightarrow> bool" where
  "uri_unreserved c \<longleftrightarrow> is_alnum c \<or> of_char c \<in> {0x2D, 0x5F, 0x2E, 0x21, 0x7E, 0x2A, 0x27, 0x28, 0x29 :: nat}"

definition encodeURIComponent :: "string \<Rightarrow> string" where
  "encodeURIComponent s = concat (map (\<lambda>c. if uri_unreserved c then [c] else percent c) s)"

definition form_safe :: "char \<Rightarrow> bool" where
  "form_safe c \<longleftrightarrow> is_alnum c \<or> of_char c \<in> {0x2A, 0x2D, 0x2E, 0x5F :: nat}"

definition form_char :: "char \<Rightarrow> string" where
  "form_char c = (if form_safe c then [c] else if c = CHR 0x20 then [CHR 0x2B] else percent c)"

definition form_encode :: "string \<Rightarrow> string" where
  "form_encode s = concat (map form_char s)"

text \<open>\<open>URLSearchParams.toString()\<close>; a parameter that is never \<open>set\<close> is \<open>None\<close>.\<close>

definition search_params_of :: "(string \<times> string) list \<Rightarrow> string" where
  "search_params_of ps = join_with ''&'' (map (\<lambda>(k, v). form_encode k @ ''='' @ form_encode v) ps)"

definition set_params :: "(string \<times> string option) list \<Rightarrow> (string \<times> string) list" where
  "set_params ps = concat (map (\<lambda>(k, v). case v of None \<Rightarrow> [] | Some v \<Rightarrow> [(k, v)]) ps)"

definition search_params :: "(string \<times> string option) list \<Rightarrow> string" where
  "search_params ps = search_params_of (set_params ps)"

text \<open>Reading a query back: both encodings decode the same way but for \<open>+\<close>.\<close>

fun percent_decode :: "bool \<Rightarrow> string \<Rightarrow> string" where
  "percent_decode form [] = []"
| "percent_decode form (c # cs) =
     (if c = CHR 0x25 then (case cs of
         h # l # rest \<Rightarrow> char_of (16 * hex_upper_val h + hex_upper_val l) # percent_decode form rest
       | _ \<Rightarrow> c # percent_decode form cs)
      else (if form \<and> c = CHR 0x2B then CHR 0x20 else c) # percent_decode form cs)"

definition parse_pair :: "string \<Rightarrow> string \<times> string" where
  "parse_pair s = (case index_of (CHR 0x3D) s of
     None \<Rightarrow> (percent_decode True s, [])
   | Some i \<Rightarrow> (percent_decode True (take i s), percent_decode True (drop (Suc i) s)))"

definition parse_query :: "string \<Rightarrow> (string \<times> string) list" where
  "parse_query s = map parse_pair (filter (\<lambda>p. p \<noteq> []) (split_on (CHR 0x26) s))"

lemma hex_upper_val_digit [simp]: "n < 16 \<Longrightarrow> hex_upper_val (hex_upper n) = n"
  by (auto simp: hex_upper_val_def hex_upper_def is_digit_def)

lemma char_nibbles: "of_char c div 16 < (16 :: nat)" "of_char c mod 16 < (16 :: nat)"
  by (auto simp: of_char_def)

lemma percent_ok: "percent_decode form (percent c @ t) = c # percent_decode form t"
proof -
  have "16 * (of_char c div 16) + of_char c mod 16 = (of_char c :: nat)" by simp
  with char_nibbles [of c] show ?thesis by (simp add: percent_def)
qed

lemma special_chars:
  "c = CHR 0x25 \<Longrightarrow> \<not> uri_unreserved c \<and> \<not> form_safe c" "c = CHR 0x2B \<Longrightarrow> \<not> form_safe c"
  by (simp_all add: uri_unreserved_def form_safe_def is_alnum_def)

lemma uri_round_trip [simp]: "percent_decode False (encodeURIComponent s) = s"
proof (induction s)
  case (Cons c s)
  then show ?case
    using special_chars(1) [of c] percent_ok [of False c] by (auto simp: encodeURIComponent_def)
qed (simp add: encodeURIComponent_def)

lemma form_round_trip: "percent_decode True (form_encode s) = s"
proof (induction s)
  case (Cons c s)
  then show ?case
    using special_chars [of c] percent_ok [of True c] by (auto simp: form_encode_def form_char_def)
qed (simp add: form_encode_def)

lemma hex_upper_alnum: "n < 16 \<Longrightarrow> is_alnum (hex_upper n)"
  by (auto simp: is_alnum_def hex_upper_def Let_def)

definition separators :: "char set" where
  "separators = {CHR ''/'', CHR ''?'', CHR 0x23, CHR 0x26, CHR 0x3D, CHR 0x20}"

lemma not_separator: "is_alnum c \<Longrightarrow> c \<notin> separators" "uri_unreserved c \<Longrightarrow> c \<notin> separators" "form_safe c \<Longrightarrow> c \<notin> separators"
  by (auto simp: is_alnum_def separators_def uri_unreserved_def form_safe_def)

lemma percent_plain: "set (percent c) \<inter> separators = {}"
  using not_separator(1) [OF hex_upper_alnum [OF char_nibbles(1)], of c] not_separator(1) [OF hex_upper_alnum [OF char_nibbles(2)], of c]
  by (auto simp: percent_def separators_def)

lemma form_char_plain: "set (form_char c) \<inter> separators = {}"
  using percent_plain [of c] not_separator(3) [of c] by (auto simp: form_char_def) (simp add: separators_def)

lemma form_encode_plain: "CHR 0x26 \<notin> set (form_encode s)" "CHR 0x3D \<notin> set (form_encode s)"
  using form_char_plain by (fastforce simp: form_encode_def separators_def)+

lemma parse_pair_ok: "parse_pair (form_encode k @ ''='' @ form_encode v) = (k, v)"
  using form_encode_plain(2) [of k] by (simp add: parse_pair_def form_round_trip)

lemma split_on_none: "c \<notin> set s \<Longrightarrow> split_on c s = [s]"
  by (induction s) auto

lemma split_join: "xs \<noteq> [] \<Longrightarrow> \<forall>x \<in> set xs. c \<notin> set x \<Longrightarrow> split_on c (join_with [c] xs) = xs"
proof (induction xs)
  case (Cons x xs)
  then show ?case by (cases xs) (simp_all add: split_on_none split_on_append)
qed simp

lemma query_round_trip [simp]: "parse_query (search_params_of ps) = ps"
proof (cases "ps = []")
  case True
  then show ?thesis by (simp add: parse_query_def search_params_of_def)
next
  case False
  let ?pair = "\<lambda>(k, v). form_encode k @ ''='' @ form_encode v"
  have "split_on (CHR 0x26) (search_params_of ps) = map ?pair ps"
    unfolding search_params_of_def
    using False form_encode_plain(1) by (intro split_join) auto
  moreover have "filter (\<lambda>p. p \<noteq> []) (map ?pair ps) = map ?pair ps"
    by (auto simp: filter_id_conv)
  ultimately show ?thesis
    by (simp add: parse_query_def parse_pair_ok comp_def split_def del: append_Cons)
qed

text \<open>An encoded value has none of the characters that separate the parts of a URL.\<close>

lemma encodeURIComponent_plain: "set (encodeURIComponent s) \<inter> separators = {}"
  using percent_plain not_separator(2) by (fastforce simp: encodeURIComponent_def)

end
