(* ===== verification/Endpoints.thy ===== *)
theory Endpoints
  imports Auth_Store Uri
begin

text \<open>
  The requests of \<open>shared/api/endpoints.ts\<close>. An \<open>api_call\<close> is what a member of one of its objects hands to
  \<open>apiClient\<close>: the path and the method, headers and body; \<open>perform\<close> is the client's run of it. A field that is
  \<open>undefined\<close> is dropped by \<open>JSON.stringify\<close> (\<open>json_fields\<close>); an object the caller passes through whole is
  given by its fields. Enumerations (roles, policies, colours) are the strings they travel as.
\<close>

record api_call =
  ac_path :: string
  ac_init :: req_init

definition json_fields :: "(string \<times> json option) list \<Rightarrow> json" where
  "json_fields fs = JObj (concat (map (\<lambda>(k, v). case v of None \<Rightarrow> [] | Some v \<Rightarrow> [(k, v)]) fs))"

definition json_call :: "http_method \<Rightarrow> string \<Rightarrow> json option \<Rightarrow> api_call" where
  "json_call m path b = \<lparr>ac_path = path, ac_init = \<lparr>ri_method = m, ri_body = body_of b, ri_headers = []\<rparr>\<rparr>"

definition perform :: "client_cfg \<Rightarrow> 'env fetch \<Rightarrow> api_call \<Rightarrow> ('env, 'z, payload option) http" where
  "perform C F call = request C F (ac_path call) (ac_init call) True"

fun chat_type_str :: "chat_type \<Rightarrow> string" where
  "chat_type_str Private = ''private''"
| "chat_type_str Group = ''group''"

text \<open>\<open>if (x) params.set(k, x)\<close>: neither an absent nor an empty value is set; \<open>n ? {n} : {}\<close> drops 0.\<close>

definition present :: "string option \<Rightarrow> string option" where
  "present x = (if truthy x then x else None)"

definition nonempty :: "string \<Rightarrow> string option" where
  "nonempty s = (if s = [] then None else Some s)"

definition nonzero :: "nat option \<Rightarrow> nat option" where
  "nonzero n = (if n = Some 0 then None else n)"

definition optional_query :: "(string \<times> string option) list \<Rightarrow> string" where
  "optional_query ps = (if set_params ps = [] then [] else ''?'' @ search_params ps)"

subsection \<open>Calls with a JSON body or none\<close>

definition logoutAll_call :: api_call where
  "logoutAll_call = json_call POST ''/auth/logout-all'' None"

definition authApi_registrationPolicy :: api_call where
  "authApi_registrationPolicy = json_call GET ''/auth/registration'' None"

definition authApi_changePassword :: "string \<Rightarrow> string \<Rightarrow> api_call" where
  "authApi_changePassword currentPassword newPassword = json_call POST ''/auth/password''
     (Some (json_fields [(''currentPassword'', Some (JStr currentPassword)), (''newPassword'', Some (JStr newPassword))]))"

definition usersApi_acceptConsent :: "(string \<times> json) list \<Rightarrow> api_call" where
  "usersApi_acceptConsent acceptance = json_call POST ''/users/me/consent''
     (Some (json_fields (map (\<lambda>(k, v). (k, Some v)) acceptance)))"

definition usersApi_blocks :: api_call where
  "usersApi_blocks = json_call GET ''/users/me/blocks'' None"

definition usersApi_block :: "string \<Rightarrow> api_call" where
  "usersApi_block userId = json_call POST (''/users/'' @ userId @ ''/block'') None"

definition usersApi_unblock :: "string \<Rightarrow> api_call" where
  "usersApi_unblock userId = json_call DELETE (''/users/'' @ userId @ ''/block'') None"

definition usersApi_deleteAccount :: "string \<Rightarrow> string \<Rightarrow> api_call" where
  "usersApi_deleteAccount password confirm = json_call DELETE ''/users/me''
     (Some (json_fields [(''password'', Some (JStr password)), (''confirm'', Some (JStr confirm))]))"

definition usersApi_updateUsername :: "string \<Rightarrow> api_call" where
  "usersApi_updateUsername username = json_call PATCH ''/users/me''
     (Some (json_fields [(''username'', Some (JStr username))]))"

definition usersApi_updateProfile :: "string option \<Rightarrow> string option \<Rightarrow> api_call" where
  "usersApi_updateProfile displayName username = json_call PATCH ''/users/me''
     (Some (json_fields [(''displayName'', map_option JStr displayName), (''username'', map_option JStr username)]))"

definition usersApi_directory :: "string \<Rightarrow> nat \<Rightarrow> api_call" where
  "usersApi_directory srch limit = json_call GET (''/users/directory?'' @ search_params [(''limit'', Some (show_nat limit)),
      (''search'', nonempty srch)]) None"

definition invitesApi_create :: api_call where
  "invitesApi_create = json_call POST ''/invites'' None"

definition disappearApi_get :: "chat_type \<Rightarrow> string \<Rightarrow> api_call" where
  "disappearApi_get chatType chatId = json_call GET (''/chats/'' @ chat_type_str chatType @ ''/'' @ chatId
      @ ''/disappearing'') None"

definition disappearApi_set :: "chat_type \<Rightarrow> string \<Rightarrow> nat option \<Rightarrow> api_call" where
  "disappearApi_set chatType chatId ttlSeconds = json_call PUT (''/chats/'' @ chat_type_str chatType @ ''/'' @ chatId
      @ ''/disappearing'')
     (Some (json_fields [(''ttlSeconds'', Some (case ttlSeconds of None \<Rightarrow> JNull | Some n \<Rightarrow> JNum n))]))"

definition scheduledApi_list :: api_call where
  "scheduledApi_list = json_call GET ''/messages/scheduled'' None"

definition scheduledApi_update :: "string \<Rightarrow> (string \<times> json) list \<Rightarrow> api_call" where
  "scheduledApi_update i patch = json_call PATCH (''/messages/scheduled/'' @ i)
     (Some (json_fields (map (\<lambda>(k, v). (k, Some v)) patch)))"

definition scheduledApi_cancel :: "string \<Rightarrow> api_call" where
  "scheduledApi_cancel i = json_call DELETE (''/messages/scheduled/'' @ i) None"

definition e2eeApi_registerDevice :: "string \<Rightarrow> string \<Rightarrow> string \<Rightarrow> string option \<Rightarrow> string option \<Rightarrow> api_call" where
  "e2eeApi_registerDevice devId nm ed25519Pub signedBy signature = json_call POST ''/e2ee/devices''
     (Some (json_fields [(''deviceId'', Some (JStr devId)), (''name'', Some (JStr nm)),
      (''ed25519Pub'', Some (JStr ed25519Pub)), (''signedBy'', map_option JStr signedBy),
      (''signature'', map_option JStr signature)]))"

definition e2eeApi_listDevices :: "string \<Rightarrow> api_call" where
  "e2eeApi_listDevices userId = json_call GET (''/e2ee/users/'' @ userId @ ''/devices'') None"

definition e2eeApi_uploadKeyPackages :: "string \<Rightarrow> string list \<Rightarrow> api_call" where
  "e2eeApi_uploadKeyPackages devId keyPackages = json_call POST ''/e2ee/key-packages''
     (Some (json_fields [(''deviceId'', Some (JStr devId)), (''keyPackages'', Some (JArr (map JStr keyPackages)))]))"

definition e2eeApi_countKeyPackages :: "string \<Rightarrow> api_call" where
  "e2eeApi_countKeyPackages devId = json_call GET (''/e2ee/key-packages/count?deviceId='' @ devId) None"

definition e2eeApi_claimKeyPackages :: "string \<Rightarrow> string option \<Rightarrow> string option \<Rightarrow> api_call" where
  "e2eeApi_claimKeyPackages userId excludeDevice onlyDevice = json_call POST (''/e2ee/users/'' @ userId
      @ ''/key-packages/claim'' @ optional_query [(''excludeDevice'', present excludeDevice),
      (''device'', present onlyDevice)]) None"

definition e2eeApi_requestJoin :: "string \<Rightarrow> string \<Rightarrow> api_call" where
  "e2eeApi_requestJoin chatId devId = json_call POST (''/e2ee/chats/'' @ chatId @ ''/join-request'')
     (Some (json_fields [(''deviceId'', Some (JStr devId))]))"

definition e2eeApi_listHandshake :: "chat_type \<Rightarrow> string \<Rightarrow> string option \<Rightarrow> api_call" where
  "e2eeApi_listHandshake chatType chatId afterId = json_call GET (''/e2ee/handshake/'' @ chat_type_str chatType @ ''/''
      @ chatId @ (case present afterId of Some i \<Rightarrow> ''?afterId='' @ i | None \<Rightarrow> [])) None"

definition e2eeApi_listWelcomes :: "string \<Rightarrow> api_call" where
  "e2eeApi_listWelcomes devId = json_call GET (''/e2ee/welcomes?deviceId='' @ devId) None"

definition e2eeApi_ackWelcome :: "string \<Rightarrow> string \<Rightarrow> api_call" where
  "e2eeApi_ackWelcome welcomeId devId = json_call POST (''/e2ee/welcomes/'' @ welcomeId @ ''/ack?deviceId='' @ devId) None"

definition chatMediaApi_list :: "chat_type \<Rightarrow> string \<Rightarrow> string \<Rightarrow> string option \<Rightarrow> nat \<Rightarrow> api_call" where
  "chatMediaApi_list chatType chatId knd cursor limit = json_call GET (''/chats/media?''
      @ search_params [(''chatType'', Some (chat_type_str chatType)), (''chatId'', Some chatId), (''kind'', Some knd),
      (''limit'', Some (show_nat limit)), (''cursor'', present cursor)]) None"

definition chatMediaApi_links :: "chat_type \<Rightarrow> string \<Rightarrow> string option \<Rightarrow> nat \<Rightarrow> api_call" where
  "chatMediaApi_links chatType chatId cursor limit = json_call GET (''/chats/media?''
      @ search_params [(''chatType'', Some (chat_type_str chatType)), (''chatId'', Some chatId), (''kind'', Some ''links''),
      (''limit'', Some (show_nat limit)), (''cursor'', present cursor)]) None"

definition notifPrefsApi_mute :: "chat_type \<Rightarrow> string \<Rightarrow> nat option \<Rightarrow> api_call" where
  "notifPrefsApi_mute chatType chatId untilSeconds = json_call PUT (''/chats/'' @ chat_type_str chatType @ ''/'' @ chatId
      @ ''/mute'')
     (Some (json_fields [(''untilSeconds'', map_option JNum (nonzero untilSeconds))]))"

definition notifPrefsApi_unmute :: "chat_type \<Rightarrow> string \<Rightarrow> api_call" where
  "notifPrefsApi_unmute chatType chatId = json_call DELETE (''/chats/'' @ chat_type_str chatType @ ''/'' @ chatId
      @ ''/mute'') None"

definition notifPrefsApi_listMutes :: api_call where
  "notifPrefsApi_listMutes = json_call GET ''/settings/mutes'' None"

definition notifPrefsApi_getSettings :: api_call where
  "notifPrefsApi_getSettings = json_call GET ''/settings/notifications'' None"

definition notifPrefsApi_updateSettings :: "bool \<Rightarrow> bool \<Rightarrow> string \<Rightarrow> api_call" where
  "notifPrefsApi_updateSettings sound preview groupMode = json_call PUT ''/settings/notifications''
     (Some (json_fields [(''sound'', Some (JBool sound)), (''preview'', Some (JBool preview)),
      (''groupMode'', Some (JStr groupMode))]))"

definition chatFoldersApi_list :: api_call where
  "chatFoldersApi_list = json_call GET ''/folders'' None"

definition chatFoldersApi_create :: "string \<Rightarrow> api_call" where
  "chatFoldersApi_create nm = json_call POST ''/folders''
     (Some (json_fields [(''name'', Some (JStr nm))]))"

definition chatFoldersApi_rename :: "string \<Rightarrow> string \<Rightarrow> api_call" where
  "chatFoldersApi_rename i nm = json_call PATCH (''/folders/'' @ i)
     (Some (json_fields [(''name'', Some (JStr nm))]))"

definition chatFoldersApi_remove :: "string \<Rightarrow> api_call" where
  "chatFoldersApi_remove i = json_call DELETE (''/folders/'' @ i) None"

definition chatFoldersApi_reorder :: "string list \<Rightarrow> api_call" where
  "chatFoldersApi_reorder folderIds = json_call PUT ''/folders/order''
     (Some (json_fields [(''folderIds'', Some (JArr (map JStr folderIds)))]))"

definition chatFoldersApi_addItem :: "string \<Rightarrow> chat_type \<Rightarrow> string \<Rightarrow> api_call" where
  "chatFoldersApi_addItem i chatType chatId = json_call POST (''/folders/'' @ i @ ''/items'')
     (Some (json_fields [(''chatType'', Some (JStr (chat_type_str chatType))), (''chatId'', Some (JStr chatId))]))"

definition chatFoldersApi_removeItem :: "string \<Rightarrow> chat_type \<Rightarrow> string \<Rightarrow> api_call" where
  "chatFoldersApi_removeItem i chatType chatId = json_call DELETE (''/folders/'' @ i @ ''/items'')
     (Some (json_fields [(''chatType'', Some (JStr (chat_type_str chatType))), (''chatId'', Some (JStr chatId))]))"

definition chatFoldersApi_archive :: "chat_type \<Rightarrow> string \<Rightarrow> api_call" where
  "chatFoldersApi_archive chatType chatId = json_call PUT (''/chats/'' @ chat_type_str chatType @ ''/'' @ chatId @ ''/archive'')
     (Some (JObj []))"

definition chatFoldersApi_unarchive :: "chat_type \<Rightarrow> string \<Rightarrow> api_call" where
  "chatFoldersApi_unarchive chatType chatId = json_call DELETE (''/chats/'' @ chat_type_str chatType @ ''/'' @ chatId
      @ ''/archive'') None"

definition chatFoldersApi_listArchived :: api_call where
  "chatFoldersApi_listArchived = json_call GET ''/settings/archived'' None"

definition linkPreviewApi_fetch :: "string \<Rightarrow> api_call" where
  "linkPreviewApi_fetch url = json_call POST ''/link-preview''
     (Some (json_fields [(''url'', Some (JStr url))]))"

definition chatsApi_list :: api_call where
  "chatsApi_list = json_call GET ''/chats'' None"

definition chatsApi_open :: "string \<Rightarrow> api_call" where
  "chatsApi_open userId = json_call POST ''/chats''
     (Some (json_fields [(''userId'', Some (JStr userId))]))"

definition chatsApi_get :: "string \<Rightarrow> api_call" where
  "chatsApi_get chatId = json_call GET (''/chats/'' @ chatId) None"

definition groupsApi_list :: api_call where
  "groupsApi_list = json_call GET ''/groups'' None"

definition groupsApi_create :: "string \<Rightarrow> nat option \<Rightarrow> string option \<Rightarrow> string option \<Rightarrow> bool option \<Rightarrow> api_call" where
  "groupsApi_create nm minRoleLevel description knd isPublic = json_call POST ''/groups''
     (Some (json_fields [(''name'', Some (JStr nm)),
      (''minRoleLevel'', Some (case minRoleLevel of None \<Rightarrow> JNull | Some n \<Rightarrow> JNum n)),
      (''description'', map_option JStr description), (''kind'', map_option JStr knd),
      (''isPublic'', map_option JBool isPublic)]))"

definition groupsApi_get :: "string \<Rightarrow> api_call" where
  "groupsApi_get groupId = json_call GET (''/groups/'' @ groupId) None"

definition groupsApi_updateLevel :: "string \<Rightarrow> nat \<Rightarrow> api_call" where
  "groupsApi_updateLevel groupId minRoleLevel = json_call PATCH (''/groups/'' @ groupId)
     (Some (json_fields [(''minRoleLevel'', Some (JNum minRoleLevel))]))"

definition groupsApi_remove :: "string \<Rightarrow> api_call" where
  "groupsApi_remove groupId = json_call DELETE (''/groups/'' @ groupId) None"

definition groupsApi_members :: "string \<Rightarrow> api_call" where
  "groupsApi_members groupId = json_call GET (''/groups/'' @ groupId @ ''/members'') None"

definition groupsApi_addMember :: "string \<Rightarrow> string \<Rightarrow> api_call" where
  "groupsApi_addMember groupId userId = json_call POST (''/groups/'' @ groupId @ ''/members'')
     (Some (json_fields [(''userId'', Some (JStr userId))]))"

definition groupsApi_viewer :: "string \<Rightarrow> api_call" where
  "groupsApi_viewer groupId = json_call GET (''/groups/'' @ groupId @ ''/me'') None"

definition groupsApi_updateSettings :: "string \<Rightarrow> string \<Rightarrow> string \<Rightarrow> api_call" where
  "groupsApi_updateSettings groupId joinPolicy postPolicy = json_call PATCH (''/groups/'' @ groupId @ ''/settings'')
     (Some (json_fields [(''joinPolicy'', Some (JStr joinPolicy)), (''postPolicy'', Some (JStr postPolicy))]))"

definition groupsApi_directory :: api_call where
  "groupsApi_directory = json_call GET ''/groups/directory'' None"

definition groupsApi_join :: "string \<Rightarrow> api_call" where
  "groupsApi_join groupId = json_call POST (''/groups/'' @ groupId @ ''/join'') None"

definition groupsApi_listRequests :: "string \<Rightarrow> api_call" where
  "groupsApi_listRequests groupId = json_call GET (''/groups/'' @ groupId @ ''/requests'') None"

definition groupsApi_approveRequest :: "string \<Rightarrow> string \<Rightarrow> api_call" where
  "groupsApi_approveRequest groupId userId = json_call POST (''/groups/'' @ groupId @ ''/requests/'' @ userId
      @ ''/approve'') None"

definition groupsApi_rejectRequest :: "string \<Rightarrow> string \<Rightarrow> api_call" where
  "groupsApi_rejectRequest groupId userId = json_call POST (''/groups/'' @ groupId @ ''/requests/'' @ userId @ ''/reject'') None"

definition groupsApi_setMemberRole :: "string \<Rightarrow> string \<Rightarrow> string \<Rightarrow> api_call" where
  "groupsApi_setMemberRole groupId userId rl = json_call POST (''/groups/'' @ groupId @ ''/members/'' @ userId @ ''/role'')
     (Some (json_fields [(''role'', Some (JStr rl))]))"

definition groupsApi_leave :: "string \<Rightarrow> api_call" where
  "groupsApi_leave groupId = json_call POST (''/groups/'' @ groupId @ ''/leave'') None"

definition groupsApi_removeMember :: "string \<Rightarrow> string \<Rightarrow> api_call" where
  "groupsApi_removeMember groupId userId = json_call DELETE (''/groups/'' @ groupId @ ''/members/'' @ userId) None"

definition groupsApi_bans :: "string \<Rightarrow> api_call" where
  "groupsApi_bans groupId = json_call GET (''/groups/'' @ groupId @ ''/bans'') None"

definition groupsApi_ban :: "string \<Rightarrow> string \<Rightarrow> api_call" where
  "groupsApi_ban groupId userId = json_call POST (''/groups/'' @ groupId @ ''/bans/'' @ userId) None"

definition groupsApi_unban :: "string \<Rightarrow> string \<Rightarrow> api_call" where
  "groupsApi_unban groupId userId = json_call DELETE (''/groups/'' @ groupId @ ''/bans/'' @ userId) None"

definition calendarApi_list :: "string \<Rightarrow> string \<Rightarrow> string \<Rightarrow> api_call" where
  "calendarApi_list groupId fromISO toISO = json_call GET (''/groups/'' @ groupId @ ''/calendar?from=''
      @ encodeURIComponent fromISO @ ''&to='' @ encodeURIComponent toISO) None"

definition calendarApi_create :: "string \<Rightarrow> string \<Rightarrow> string \<Rightarrow> string option option \<Rightarrow> string \<Rightarrow> api_call" where
  "calendarApi_create groupId title startsAt endsAt color = json_call POST (''/groups/'' @ groupId @ ''/calendar'')
     (Some (json_fields [(''title'', Some (JStr title)), (''startsAt'', Some (JStr startsAt)),
      (''endsAt'', map_option (\<lambda>e. case e of None \<Rightarrow> JNull | Some t \<Rightarrow> JStr t) endsAt),
      (''color'', Some (JStr color))]))"

definition calendarApi_update :: "string \<Rightarrow> string \<Rightarrow> string \<Rightarrow> string option option \<Rightarrow> string \<Rightarrow> api_call" where
  "calendarApi_update eventId title startsAt endsAt color = json_call PATCH (''/calendar/'' @ eventId)
     (Some (json_fields [(''title'', Some (JStr title)), (''startsAt'', Some (JStr startsAt)),
      (''endsAt'', map_option (\<lambda>e. case e of None \<Rightarrow> JNull | Some t \<Rightarrow> JStr t) endsAt),
      (''color'', Some (JStr color))]))"

definition calendarApi_remove :: "string \<Rightarrow> api_call" where
  "calendarApi_remove eventId = json_call DELETE (''/calendar/'' @ eventId) None"

definition boardsApi_get :: "string \<Rightarrow> api_call" where
  "boardsApi_get groupId = json_call GET (''/groups/'' @ groupId @ ''/board'') None"

definition boardsApi_create :: "string \<Rightarrow> string \<Rightarrow> api_call" where
  "boardsApi_create groupId title = json_call POST (''/groups/'' @ groupId @ ''/board'')
     (Some (json_fields [(''title'', Some (JStr title))]))"

definition boardsApi_addColumn :: "string \<Rightarrow> string \<Rightarrow> api_call" where
  "boardsApi_addColumn boardId title = json_call POST (''/boards/'' @ boardId @ ''/columns'')
     (Some (json_fields [(''title'', Some (JStr title))]))"

definition boardsApi_renameColumn :: "string \<Rightarrow> string \<Rightarrow> api_call" where
  "boardsApi_renameColumn columnId title = json_call PATCH (''/boards/columns/'' @ columnId)
     (Some (json_fields [(''title'', Some (JStr title))]))"

definition boardsApi_deleteColumn :: "string \<Rightarrow> api_call" where
  "boardsApi_deleteColumn columnId = json_call DELETE (''/boards/columns/'' @ columnId) None"

definition boardsApi_createCard :: "string \<Rightarrow> (string \<times> json) list \<Rightarrow> api_call" where
  "boardsApi_createCard columnId input = json_call POST (''/boards/columns/'' @ columnId @ ''/cards'')
     (Some (json_fields (map (\<lambda>(k, v). (k, Some v)) input)))"

definition boardsApi_updateCard :: "string \<Rightarrow> (string \<times> json) list \<Rightarrow> api_call" where
  "boardsApi_updateCard cardId input = json_call PATCH (''/boards/cards/'' @ cardId)
     (Some (json_fields (map (\<lambda>(k, v). (k, Some v)) input)))"

definition boardsApi_moveCard :: "string \<Rightarrow> string \<Rightarrow> nat \<Rightarrow> api_call" where
  "boardsApi_moveCard cardId columnId idx = json_call POST (''/boards/cards/'' @ cardId @ ''/move'')
     (Some (json_fields [(''columnId'', Some (JStr columnId)), (''index'', Some (JNum idx))]))"

definition boardsApi_deleteCard :: "string \<Rightarrow> api_call" where
  "boardsApi_deleteCard cardId = json_call DELETE (''/boards/cards/'' @ cardId) None"

definition messagesApi_list :: "chat_type \<Rightarrow> string \<Rightarrow> string option \<Rightarrow> nat \<Rightarrow> api_call" where
  "messagesApi_list chatType chatId cursor limit = json_call GET (''/messages?''
      @ search_params [(''chatType'', Some (chat_type_str chatType)), (''chatId'', Some chatId),
      (''limit'', Some (show_nat limit)), (''cursor'', present cursor)]) None"

definition messagesApi_edit :: "string \<Rightarrow> string \<Rightarrow> api_call" where
  "messagesApi_edit messageId txt = json_call PATCH (''/messages/'' @ messageId)
     (Some (json_fields [(''text'', Some (JStr txt))]))"

definition messagesApi_remove :: "string \<Rightarrow> api_call" where
  "messagesApi_remove messageId = json_call DELETE (''/messages/'' @ messageId) None"

definition messagesApi_pin :: "string \<Rightarrow> api_call" where
  "messagesApi_pin messageId = json_call POST (''/messages/'' @ messageId @ ''/pin'') None"

definition messagesApi_unpin :: "string \<Rightarrow> api_call" where
  "messagesApi_unpin messageId = json_call POST (''/messages/'' @ messageId @ ''/unpin'') None"

definition messagesApi_setExpiry :: "string \<Rightarrow> nat option \<Rightarrow> api_call" where
  "messagesApi_setExpiry messageId ttlSeconds = json_call PUT (''/messages/'' @ messageId @ ''/expiry'')
     (Some (json_fields [(''ttlSeconds'', Some (case ttlSeconds of None \<Rightarrow> JNull | Some n \<Rightarrow> JNum n))]))"

definition messagesApi_listPinned :: "chat_type \<Rightarrow> string \<Rightarrow> api_call" where
  "messagesApi_listPinned chatType chatId = json_call GET (''/messages/pinned?chatType='' @ chat_type_str chatType
      @ ''&chatId='' @ chatId) None"

definition messagesApi_listThread :: "string \<Rightarrow> string option \<Rightarrow> nat \<Rightarrow> api_call" where
  "messagesApi_listThread rootId cursor limit = json_call GET (''/messages/thread?''
      @ search_params [(''rootId'', Some rootId), (''limit'', Some (show_nat limit)), (''cursor'', present cursor)]) None"

definition messagesApi_addReaction :: "string \<Rightarrow> string \<Rightarrow> api_call" where
  "messagesApi_addReaction messageId emoji = json_call POST (''/messages/'' @ messageId @ ''/reactions'')
     (Some (json_fields [(''emoji'', Some (JStr emoji))]))"

definition messagesApi_removeReaction :: "string \<Rightarrow> string \<Rightarrow> api_call" where
  "messagesApi_removeReaction messageId emoji = json_call DELETE (''/messages/'' @ messageId @ ''/reactions'')
     (Some (json_fields [(''emoji'', Some (JStr emoji))]))"

definition messagesApi_markRead :: "chat_type \<Rightarrow> string \<Rightarrow> string \<Rightarrow> api_call" where
  "messagesApi_markRead chatType chatId messageId = json_call POST ''/read''
     (Some (json_fields [(''chatType'', Some (JStr (chat_type_str chatType))), (''chatId'', Some (JStr chatId)),
      (''messageId'', Some (JStr messageId))]))"

definition attachmentsApi_limit :: api_call where
  "attachmentsApi_limit = json_call GET ''/attachments/limit'' None"

definition attachmentsApi_initUpload :: "string \<Rightarrow> nat \<Rightarrow> (string \<times> json) list \<Rightarrow> api_call" where
  "attachmentsApi_initUpload fileName sizeBytes meta = json_call POST ''/attachments/init''
     (Some (json_fields ([(''fileName'', Some (JStr fileName)),
      (''sizeBytes'', Some (JNum sizeBytes))] @ map (\<lambda>(k, v). (k, Some v)) meta)))"

definition attachmentsApi_uploadStatus :: "string \<Rightarrow> api_call" where
  "attachmentsApi_uploadStatus i = json_call GET (''/attachments/'' @ i @ ''/upload-status'') None"

definition attachmentsApi_completeUpload :: "string \<Rightarrow> api_call" where
  "attachmentsApi_completeUpload i = json_call POST (''/attachments/'' @ i @ ''/complete'') None"

definition pushApi_vapidKey :: api_call where
  "pushApi_vapidKey = json_call GET ''/push/vapid-public-key'' None"

definition pushApi_subscribe :: "string \<Rightarrow> string \<Rightarrow> string \<Rightarrow> api_call" where
  "pushApi_subscribe endpoint p256dh au = json_call POST ''/push/subscribe''
     (Some (json_fields [(''endpoint'', Some (JStr endpoint)), (''keys'', Some (JObj [(''p256dh'', JStr p256dh),
      (''auth'', JStr au)]))]))"

definition pushApi_unsubscribe :: "string \<Rightarrow> api_call" where
  "pushApi_unsubscribe endpoint = json_call POST ''/push/unsubscribe''
     (Some (json_fields [(''endpoint'', Some (JStr endpoint))]))"

definition pushApi_registerDevice :: "string \<Rightarrow> string \<Rightarrow> api_call" where
  "pushApi_registerDevice token platform = json_call POST ''/push/device''
     (Some (json_fields [(''token'', Some (JStr token)), (''platform'', Some (JStr platform))]))"

definition favoritesApi_list :: api_call where
  "favoritesApi_list = json_call GET ''/favorites'' None"

definition favoritesApi_set :: "(string \<times> json) list \<Rightarrow> api_call" where
  "favoritesApi_set fav = json_call PUT ''/favorites''
     (Some (json_fields (map (\<lambda>(k, v). (k, Some v)) fav)))"

definition favoritesApi_remove :: "chat_type \<Rightarrow> string \<Rightarrow> api_call" where
  "favoritesApi_remove chatType chatId = json_call DELETE ''/favorites''
     (Some (json_fields [(''chatType'', Some (JStr (chat_type_str chatType))), (''chatId'', Some (JStr chatId))]))"

definition notificationsApi_list :: "nat \<Rightarrow> api_call" where
  "notificationsApi_list limit = json_call GET (''/notifications?limit='' @ show_nat limit) None"

definition notificationsApi_markRead :: "string option \<Rightarrow> api_call" where
  "notificationsApi_markRead i = json_call POST ''/notifications/read''
     (Some (json_fields [(''id'', map_option JStr (present i))]))"

definition announcementsApi_list :: api_call where
  "announcementsApi_list = json_call GET ''/announcements'' None"

definition announcementsApi_send :: "(string \<times> json) list \<Rightarrow> api_call" where
  "announcementsApi_send input = json_call POST ''/announcements''
     (Some (json_fields (map (\<lambda>(k, v). (k, Some v)) input)))"

definition announcementsApi_revoke :: "string \<Rightarrow> api_call" where
  "announcementsApi_revoke i = json_call DELETE (''/announcements/'' @ i) None"

definition feedbackApi_list :: "string \<Rightarrow> string option \<Rightarrow> nat \<Rightarrow> api_call" where
  "feedbackApi_list scp cursor limit = json_call GET (''/feedback?'' @ search_params [(''scope'', Some scp),
      (''limit'', Some (show_nat limit)), (''cursor'', present cursor)]) None"

definition feedbackApi_create :: "string \<Rightarrow> api_call" where
  "feedbackApi_create body = json_call POST ''/feedback''
     (Some (json_fields [(''body'', Some (JStr body))]))"

definition feedbackApi_reply :: "string \<Rightarrow> string \<Rightarrow> api_call" where
  "feedbackApi_reply i body = json_call POST (''/feedback/'' @ i @ ''/reply'')
     (Some (json_fields [(''body'', Some (JStr body))]))"

definition feedbackApi_remove :: "string \<Rightarrow> api_call" where
  "feedbackApi_remove i = json_call DELETE (''/feedback/'' @ i) None"

definition searchApi_messages :: "string \<Rightarrow> nat \<Rightarrow> api_call" where
  "searchApi_messages q limit = json_call GET (''/search?q='' @ encodeURIComponent q @ ''&limit='' @ show_nat limit) None"

definition ratingApi_board :: api_call where
  "ratingApi_board = json_call GET ''/rating/board'' None"

definition ratingApi_analytics :: api_call where
  "ratingApi_analytics = json_call GET ''/rating/analytics'' None"

definition ratingApi_createProject :: "string \<Rightarrow> nat \<Rightarrow> string option \<Rightarrow> api_call" where
  "ratingApi_createProject title minLevel description = json_call POST ''/rating/projects''
     (Some (json_fields [(''title'', Some (JStr title)), (''minLevel'', Some (JNum minLevel)),
      (''description'', map_option JStr description)]))"

definition ratingApi_setProjectLevel :: "string \<Rightarrow> nat \<Rightarrow> api_call" where
  "ratingApi_setProjectLevel i minLevel = json_call PATCH (''/rating/projects/'' @ i @ ''/level'')
     (Some (json_fields [(''minLevel'', Some (JNum minLevel))]))"

definition ratingApi_deleteProject :: "string \<Rightarrow> api_call" where
  "ratingApi_deleteProject i = json_call DELETE (''/rating/projects/'' @ i) None"

definition ratingApi_createTask :: "string \<Rightarrow> string \<Rightarrow> api_call" where
  "ratingApi_createTask projectId title = json_call POST (''/rating/projects/'' @ projectId @ ''/tasks'')
     (Some (json_fields [(''title'', Some (JStr title))]))"

definition ratingApi_assign :: "string \<Rightarrow> api_call" where
  "ratingApi_assign taskId = json_call POST (''/rating/tasks/'' @ taskId @ ''/assign'') None"

definition ratingApi_setProgress :: "string \<Rightarrow> nat \<Rightarrow> api_call" where
  "ratingApi_setProgress taskId progress = json_call PATCH (''/rating/tasks/'' @ taskId @ ''/progress'')
     (Some (json_fields [(''progress'', Some (JNum progress))]))"

definition ratingApi_returnTask :: "string \<Rightarrow> api_call" where
  "ratingApi_returnTask taskId = json_call POST (''/rating/tasks/'' @ taskId @ ''/return'') None"

definition ratingApi_deleteTask :: "string \<Rightarrow> api_call" where
  "ratingApi_deleteTask taskId = json_call DELETE (''/rating/tasks/'' @ taskId) None"

definition ratingApi_addFinance :: "string \<Rightarrow> nat \<Rightarrow> nat \<Rightarrow> string option \<Rightarrow> api_call" where
  "ratingApi_addFinance projectId incomeKopecks expenseKopecks note = json_call POST (''/rating/projects/'' @ projectId
      @ ''/finance'')
     (Some (json_fields [(''incomeKopecks'', Some (JNum incomeKopecks)), (''expenseKopecks'', Some (JNum expenseKopecks)),
      (''note'', map_option JStr note)]))"

definition ratingApi_addMember :: "string \<Rightarrow> string \<Rightarrow> api_call" where
  "ratingApi_addMember projectId userId = json_call POST (''/rating/projects/'' @ projectId @ ''/members'')
     (Some (json_fields [(''userId'', Some (JStr userId))]))"

definition ratingApi_removeMember :: "string \<Rightarrow> string \<Rightarrow> api_call" where
  "ratingApi_removeMember projectId userId = json_call DELETE (''/rating/projects/'' @ projectId @ ''/members/'' @ userId) None"

definition notesApi_list :: api_call where
  "notesApi_list = json_call GET ''/notes'' None"

definition notesApi_createText :: "string \<Rightarrow> api_call" where
  "notesApi_createText txt = json_call POST ''/notes''
     (Some (json_fields [(''text'', Some (JStr txt))]))"

definition notesApi_del :: "string \<Rightarrow> api_call" where
  "notesApi_del i = json_call DELETE (''/notes/'' @ i) None"

definition pollsApi_list :: api_call where
  "pollsApi_list = json_call GET ''/polls'' None"

definition pollsApi_create :: "string \<Rightarrow> string list \<Rightarrow> api_call" where
  "pollsApi_create question opts = json_call POST ''/polls''
     (Some (json_fields [(''question'', Some (JStr question)), (''options'', Some (JArr (map JStr opts)))]))"

definition pollsApi_vote :: "string \<Rightarrow> api_call" where
  "pollsApi_vote optionId = json_call POST (''/polls/options/'' @ optionId @ ''/vote'') None"

definition pollsApi_close :: "string \<Rightarrow> api_call" where
  "pollsApi_close i = json_call POST (''/polls/'' @ i @ ''/close'') None"

definition pollsApi_del :: "string \<Rightarrow> api_call" where
  "pollsApi_del i = json_call DELETE (''/polls/'' @ i) None"

definition callsApi_iceConfig :: "(string \<times> string) list \<Rightarrow> api_call" where
  "callsApi_iceConfig forCall = json_call GET (''/calls/ice-config?'' @ search_params_of forCall) None"

definition callsApi_pending :: api_call where
  "callsApi_pending = json_call GET ''/calls/pending'' None"

definition callsApi_reject :: "string \<Rightarrow> api_call" where
  "callsApi_reject callId = json_call POST (''/calls/'' @ callId @ ''/reject'') None"

definition callsApi_history :: "nat \<Rightarrow> nat \<Rightarrow> api_call" where
  "callsApi_history limit offs = json_call GET (''/calls/history?limit='' @ show_nat limit @ ''&offset='' @ show_nat offs) None"

definition conditionsApi_list :: api_call where
  "conditionsApi_list = json_call GET ''/conditions'' None"

definition conditionsApi_next :: api_call where
  "conditionsApi_next = json_call GET ''/conditions/next'' None"

definition conditionsApi_set :: "nat \<Rightarrow> string \<Rightarrow> api_call" where
  "conditionsApi_set level body = json_call PUT (''/conditions/'' @ show_nat level)
     (Some (json_fields [(''body'', Some (JStr body))]))"

definition reportsApi_create :: "string \<Rightarrow> string \<Rightarrow> string \<Rightarrow> string option \<Rightarrow> api_call" where
  "reportsApi_create targetKind targetId rsn comment = json_call POST ''/reports''
     (Some (json_fields [(''targetKind'', Some (JStr targetKind)), (''targetId'', Some (JStr targetId)),
      (''reason'', Some (JStr rsn)), (''comment'', map_option JStr comment)]))"

definition reportsApi_queue :: "string \<Rightarrow> api_call" where
  "reportsApi_queue st = json_call GET (''/admin/reports?status='' @ st) None"

definition reportsApi_counts :: api_call where
  "reportsApi_counts = json_call GET ''/admin/reports/summary'' None"

definition reportsApi_resolve :: "string \<Rightarrow> bool \<Rightarrow> api_call" where
  "reportsApi_resolve reportId rejected = json_call POST (''/admin/reports/'' @ reportId @ ''/resolve'')
     (Some (json_fields [(''rejected'', Some (JBool rejected))]))"

definition adminApi_dashboard :: api_call where
  "adminApi_dashboard = json_call GET ''/admin/dashboard'' None"

definition adminApi_releases :: api_call where
  "adminApi_releases = json_call GET ''/admin/releases'' None"

definition adminApi_sendRelease :: "string \<Rightarrow> string \<Rightarrow> string option \<Rightarrow> api_call" where
  "adminApi_sendRelease vers notes downloadUrl = json_call POST ''/admin/releases''
     (Some (json_fields [(''version'', Some (JStr vers)), (''notes'', Some (JStr notes)),
      (''downloadUrl'', map_option JStr downloadUrl)]))"

definition adminApi_users :: "string option \<Rightarrow> string option \<Rightarrow> string option \<Rightarrow> nat \<Rightarrow> nat \<Rightarrow> api_call" where
  "adminApi_users q rl st limit offs = json_call GET (''/admin/users?'' @ search_params [(''limit'', Some (show_nat limit)),
      (''offset'', Some (show_nat offs)), (''q'', present q), (''role'', present rl), (''status'', present st)]) None"

definition adminApi_changeRole :: "string \<Rightarrow> nat \<Rightarrow> api_call" where
  "adminApi_changeRole userId roleLevel = json_call PATCH (''/admin/users/'' @ userId @ ''/role'')
     (Some (json_fields [(''roleLevel'', Some (JNum roleLevel))]))"

definition adminApi_resetPassword :: "string \<Rightarrow> string \<Rightarrow> api_call" where
  "adminApi_resetPassword userId newPassword = json_call POST (''/admin/users/'' @ userId @ ''/reset-password'')
     (Some (json_fields [(''newPassword'', Some (JStr newPassword))]))"

definition adminApi_activate :: "string \<Rightarrow> api_call" where
  "adminApi_activate userId = json_call POST (''/admin/users/'' @ userId @ ''/activate'') None"

definition adminApi_deactivate :: "string \<Rightarrow> api_call" where
  "adminApi_deactivate userId = json_call POST (''/admin/users/'' @ userId @ ''/deactivate'') None"

definition adminApi_searchVerification :: "string \<Rightarrow> api_call" where
  "adminApi_searchVerification q = json_call GET (''/admin/verification?q='' @ encodeURIComponent q) None"

definition adminApi_setUserVerified :: "string \<Rightarrow> bool \<Rightarrow> api_call" where
  "adminApi_setUserVerified userId verified = json_call PUT (''/admin/users/'' @ userId @ ''/verification'')
     (Some (json_fields [(''verified'', Some (JBool verified))]))"

definition adminApi_setGroupVerified :: "string \<Rightarrow> bool \<Rightarrow> api_call" where
  "adminApi_setGroupVerified groupId verified = json_call PUT (''/admin/groups/'' @ groupId @ ''/verification'')
     (Some (json_fields [(''verified'', Some (JBool verified))]))"

definition adminApi_audit :: "string \<Rightarrow> nat \<Rightarrow> nat \<Rightarrow> api_call" where
  "adminApi_audit act limit offs = json_call GET (''/admin/audit?'' @ search_params [(''limit'', Some (show_nat limit)),
      (''offset'', Some (show_nat offs)), (''action'', nonempty act)]) None"

definition postsApi_ofCommunity :: "string \<Rightarrow> string \<Rightarrow> api_call" where
  "postsApi_ofCommunity communityId cursor = json_call GET (''/groups/'' @ communityId @ ''/posts''
      @ (if cursor \<noteq> [] then ''?cursor='' @ encodeURIComponent cursor else [])) None"

definition postsApi_create :: "string \<Rightarrow> string \<Rightarrow> api_call" where
  "postsApi_create communityId txt = json_call POST (''/groups/'' @ communityId @ ''/posts'')
     (Some (json_fields [(''text'', Some (JStr txt))]))"

definition postsApi_remove :: "string \<Rightarrow> api_call" where
  "postsApi_remove postId = json_call DELETE (''/posts/'' @ postId) None"

definition postsApi_react :: "string \<Rightarrow> string \<Rightarrow> api_call" where
  "postsApi_react postId emoji = json_call POST (''/posts/'' @ postId @ ''/reactions'')
     (Some (json_fields [(''emoji'', Some (JStr emoji))]))"

definition postsApi_unreact :: "string \<Rightarrow> string \<Rightarrow> api_call" where
  "postsApi_unreact postId emoji = json_call DELETE (''/posts/'' @ postId @ ''/reactions'')
     (Some (json_fields [(''emoji'', Some (JStr emoji))]))"

definition feedApi_list :: "string \<Rightarrow> string \<Rightarrow> api_call" where
  "feedApi_list srt cursor = json_call GET (''/feed?'' @ search_params [(''sort'', Some srt),
      (''cursor'', nonempty cursor)]) None"

definition feedApi_hide :: "string \<Rightarrow> api_call" where
  "feedApi_hide communityId = json_call POST (''/feed/hidden/'' @ communityId) None"

definition feedApi_show :: "string \<Rightarrow> api_call" where
  "feedApi_show communityId = json_call DELETE (''/feed/hidden/'' @ communityId) None"

definition moderationApi_groups :: "string \<Rightarrow> api_call" where
  "moderationApi_groups q = json_call GET (''/admin/communities?q='' @ encodeURIComponent q) None"

definition moderationApi_deleted :: api_call where
  "moderationApi_deleted = json_call GET ''/admin/communities/deleted'' None"

definition moderationApi_history :: "string \<Rightarrow> api_call" where
  "moderationApi_history groupId = json_call GET (''/admin/communities/'' @ groupId @ ''/sanctions'') None"

definition moderationApi_issue :: "string \<Rightarrow> string \<Rightarrow> string \<Rightarrow> string option \<Rightarrow> api_call" where
  "moderationApi_issue groupId knd rsn duration = json_call POST (''/admin/communities/'' @ groupId @ ''/sanctions'')
     (Some (json_fields [(''kind'', Some (JStr knd)), (''reason'', Some (JStr rsn)), (''duration'', map_option JStr duration)]))"

definition moderationApi_revoke :: "string \<Rightarrow> string \<Rightarrow> api_call" where
  "moderationApi_revoke sanctionId note = json_call POST (''/admin/sanctions/'' @ sanctionId @ ''/revoke'')
     (Some (json_fields [(''note'', Some (JStr note))]))"

definition moderationApi_restore :: "string \<Rightarrow> api_call" where
  "moderationApi_restore groupId = json_call POST (''/admin/communities/'' @ groupId @ ''/restore'') None"

definition moderationApi_active :: "string \<Rightarrow> api_call" where
  "moderationApi_active groupId = json_call GET (''/groups/'' @ groupId @ ''/sanctions'') None"

subsection \<open>Bodies put together from records\<close>

definition send_fields :: "send_body \<Rightarrow> (string \<times> json option) list" where
  "send_fields b = [(''text'', map_option JStr (sb_text b)), (''replyTo'', map_option JStr (sb_replyTo b)),
     (''attachmentIds'', map_option (\<lambda>is. JArr (map JStr is)) (sb_attachmentIds b)),
     (''ciphertext'', map_option JStr (sb_ciphertext b)), (''alg'', map_option JNum (sb_alg b)),
     (''epoch'', map_option JNum (sb_epoch b)), (''contentKind'', map_option JNum (sb_contentKind b)),
     (''forwardedFromMessageId'', map_option JStr (sb_forwardedFromMessageId b)),
     (''threadRootId'', map_option JStr (sb_threadRootId b))]"

definition messagesApi_send :: "chat_type \<Rightarrow> string \<Rightarrow> send_body \<Rightarrow> api_call" where
  "messagesApi_send chatType chatId b = json_call POST ''/messages''
     (Some (json_fields ([(''chatType'', Some (JStr (chat_type_str chatType))), (''chatId'', Some (JStr chatId))] @ send_fields b)))"

definition scheduledApi_schedule :: "schedule_body \<Rightarrow> api_call" where
  "scheduledApi_schedule b = json_call POST ''/messages/schedule''
     (Some (json_fields (send_fields (sch_body b) @ [(''chatType'', Some (JStr (chat_type_str (sch_chatType b)))),
        (''chatId'', Some (JStr (sch_chatId b))), (''sendAt'', Some (JStr (sch_sendAt b)))])))"

definition messagesApi_forward :: "string list \<Rightarrow> chat_type \<Rightarrow> string \<Rightarrow> (string \<times> encrypted_body) list option \<Rightarrow> api_call" where
  "messagesApi_forward sourceMessageIds targetChatType targetChatId encrypted = json_call POST ''/messages/forward''
     (Some (json_fields [(''sourceMessageIds'', Some (JArr (map JStr sourceMessageIds))),
        (''targetChatType'', Some (JStr (chat_type_str targetChatType))), (''targetChatId'', Some (JStr targetChatId)),
        (''encrypted'', map_option (\<lambda>es. JObj (map (\<lambda>(i, e). (i, JObj [(''ciphertext'', JStr (eb_ciphertext e)),
           (''alg'', JNum (eb_alg e)), (''epoch'', JNum (eb_epoch e))])) es)) encrypted)]))"

fun handshake_kind_str :: "handshake_kind \<Rightarrow> string" where
  "handshake_kind_str WelcomeKind = ''welcome''"
| "handshake_kind_str CommitKind = ''commit''"
| "handshake_kind_str ProposalKind = ''proposal''"

definition e2eeApi_publishHandshake :: "handshake_body \<Rightarrow> api_call" where
  "e2eeApi_publishHandshake b = json_call POST ''/e2ee/handshake''
     (Some (json_fields [(''chatType'', Some (JStr (chat_type_str (hb_chatType b)))), (''chatId'', Some (JStr (hb_chatId b))),
        (''kind'', Some (JStr (handshake_kind_str (hb_kind b)))), (''senderDevice'', Some (JStr (hb_senderDevice b))),
        (''payload'', Some (JStr (hb_payload b))), (''epoch'', Some (JNum (hb_epoch b))),
        (''recipients'', Some (JObj (map (\<lambda>(d, u). (d, JStr u)) (hb_recipients b))))]))"

definition authApi_logoutAll :: "client_cfg \<Rightarrow> 'env fetch \<Rightarrow> ('env, payload option) page_io" where
  "authApi_logoutAll C F = io_finally (perform C F logoutAll_call) (\<lambda>w. w\<lparr>storage := saveTokens None (storage w)\<rparr>)"

definition authApi_refresh :: "client_cfg \<Rightarrow> 'env fetch \<Rightarrow> ('env, payload) page_io" where
  "authApi_refresh C F w = io_bind (perform C F (json_call POST ''/auth/refresh'' (if isNative C
      then Some (JObj [(''refreshToken'', JStr (case loadTokens (storage w) of Some t \<Rightarrow> refreshToken t | None \<Rightarrow> []))])
      else None))) keepTokens w"

subsection \<open>Files\<close>

record upload_file =
  uf_name :: string
  uf_type :: string
  uf_bytes :: bytes

record attachment_meta =
  am_kind :: "attachment_kind option"
  am_durationMs :: "nat option"
  am_waveform :: "string option"
  am_width :: "nat option"
  am_height :: "nat option"

fun attachment_kind_str :: "attachment_kind \<Rightarrow> string" where
  "attachment_kind_str FileKind = ''file''"
| "attachment_kind_str ImageKind = ''image''"
| "attachment_kind_str VoiceKind = ''voice''"
| "attachment_kind_str VideoKind = ''video''"

definition metaHeaders :: "attachment_meta option \<Rightarrow> (string, string) jsmap" where
  "metaHeaders meta = (case meta of None \<Rightarrow> [] | Some m \<Rightarrow>
     set_params [(''X-Attachment-Kind'', map_option attachment_kind_str (am_kind m)),
       (''X-Attachment-Waveform'', present (am_waveform m)),
       (''X-Attachment-Duration-Ms'', map_option show_nat (am_durationMs m)),
       (''X-Attachment-Width'', map_option show_nat (am_width m)),
       (''X-Attachment-Height'', map_option show_nat (am_height m))])"

definition blob_call :: "http_method \<Rightarrow> string \<Rightarrow> string \<Rightarrow> bytes \<Rightarrow> api_call" where
  "blob_call m path type blob = \<lparr>ac_path = path,
     ac_init = \<lparr>ri_method = m, ri_body = Some (BlobBody blob), ri_headers = [(''Content-Type'', type)]\<rparr>\<rparr>"

definition upload_call :: "string \<Rightarrow> upload_file \<Rightarrow> (string, string) jsmap \<Rightarrow> api_call" where
  "upload_call path f extraHeaders = \<lparr>ac_path = path,
     ac_init = \<lparr>ri_method = POST, ri_body = Some (BlobBody (uf_bytes f)),
       ri_headers = fold (\<lambda>(k, v). AList.update k v) extraHeaders
         [(''Content-Type'', if uf_type f = [] then ''application/octet-stream'' else uf_type f),
          (''X-File-Name'', encodeURIComponent (uf_name f))]\<rparr>\<rparr>"

definition usersApi_uploadAvatar :: "string \<Rightarrow> bytes \<Rightarrow> api_call" where
  "usersApi_uploadAvatar type blob = blob_call POST ''/users/me/avatar'' type blob"

definition groupsApi_uploadAvatar :: "string \<Rightarrow> string \<Rightarrow> bytes \<Rightarrow> api_call" where
  "groupsApi_uploadAvatar groupId type blob = blob_call POST (''/groups/'' @ groupId @ ''/avatar'') type blob"

definition attachmentsApi_upload :: "upload_file \<Rightarrow> attachment_meta option \<Rightarrow> api_call" where
  "attachmentsApi_upload f meta = upload_call ''/attachments'' f (metaHeaders meta)"

definition attachmentsApi_putChunk :: "string \<Rightarrow> nat \<Rightarrow> bytes \<Rightarrow> api_call" where
  "attachmentsApi_putChunk i idx chunk =
     blob_call PUT (''/attachments/'' @ i @ ''/chunk?index='' @ show_nat idx) ''application/octet-stream'' chunk"

definition notesApi_createFile :: "upload_file \<Rightarrow> string option \<Rightarrow> api_call" where
  "notesApi_createFile f txt = upload_call ''/notes/file'' f
     (case present txt of Some t \<Rightarrow> [(''X-Note-Text'', encodeURIComponent t)] | None \<Rightarrow> [])"

definition postsApi_attach :: "string \<Rightarrow> upload_file \<Rightarrow> api_call" where
  "postsApi_attach postId f = upload_call (''/posts/'' @ postId @ ''/media'') f []"

definition linkPreviewApi_imageProxyUrl :: "string \<Rightarrow> string" where
  "linkPreviewApi_imageProxyUrl imageUrl = ''/api/v1/link-preview/image?url='' @ encodeURIComponent imageUrl"

subsection \<open>What a query says\<close>

definition queried :: "api_call \<Rightarrow> (string \<times> string) list" where
  "queried call = (case index_of (CHR ''?'') (ac_path call) of
     None \<Rightarrow> [] | Some i \<Rightarrow> parse_query (drop (Suc i) (ac_path call)))"

lemma queried_at: "CHR ''?'' \<notin> set p \<Longrightarrow> queried (json_call m (p @ ''?'' @ q) b) = parse_query q"
  by (simp add: queried_def json_call_def)

lemma form_reads_uri [simp]: "percent_decode True (encodeURIComponent s) = s"
proof (induction s)
  case (Cons c s)
  have "c = CHR 0x2B \<Longrightarrow> \<not> uri_unreserved c" by (simp add: uri_unreserved_def is_alnum_def)
  with Cons show ?case
    using special_chars(1) [of c] percent_ok [of True c] by (auto simp: encodeURIComponent_def)
qed (simp add: encodeURIComponent_def)

lemma alnum_show_nat: "\<forall>c \<in> set (show_nat n). is_alnum c"
  using digits_show_nat(1) [of n] by (auto simp: list_all_iff is_digit_def is_alnum_def)

lemma percent_decode_alnum: "\<forall>c \<in> set s. is_alnum c \<Longrightarrow> percent_decode form s = s"
  by (induction s) (auto simp: is_alnum_def)

text \<open>A query written by hand, of one encoded value and one number.\<close>

lemma hand_query:
  assumes "set k \<inter> separators = {}" "set j \<inter> separators = {}" "percent_decode True k = k" "percent_decode True j = j"
  shows "parse_query (k @ ''='' @ encodeURIComponent s @ ''&'' @ j @ ''='' @ show_nat n) = [(k, s), (j, show_nat n)]"
proof -
  have sep: "CHR 0x26 \<notin> set k" "CHR 0x3D \<notin> set k" "CHR 0x26 \<notin> set j" "CHR 0x3D \<notin> set j"
    "CHR 0x26 \<notin> set (encodeURIComponent s)" "CHR 0x26 \<notin> set (show_nat n)"
    using assms(1,2) encodeURIComponent_plain [of s] alnum_show_nat [of n] not_separator(1)
    by (auto simp: separators_def)
  have "split_on (CHR 0x26) ((k @ ''='' @ encodeURIComponent s) @ CHR 0x26 # (j @ ''='' @ show_nat n))
      = [k @ ''='' @ encodeURIComponent s, j @ ''='' @ show_nat n]"
    using sep by (subst split_on_append) (auto simp: split_on_none)
  then show ?thesis
    using assms(3,4) sep(2,4) percent_decode_alnum [OF alnum_show_nat, of True n]
    by (simp add: parse_query_def parse_pair_def)
qed

text \<open>
  A request asks for exactly what the caller named, whatever characters it has: read back as a server
  reads a query, the parameters of the lists, searches and directories are the ones given, and a value
  that is empty or absent is not sent.
\<close>

theorem queries_say_what_was_asked:
  "queried (usersApi_directory s n) = (''limit'', show_nat n) # (if s = [] then [] else [(''search'', s)]) \<and>
   queried (messagesApi_list t c cur n) =
     [(''chatType'', chat_type_str t), (''chatId'', c), (''limit'', show_nat n)] @ (if truthy cur then [(''cursor'', the cur)] else []) \<and>
   queried (messagesApi_listThread r cur n) =
     [(''rootId'', r), (''limit'', show_nat n)] @ (if truthy cur then [(''cursor'', the cur)] else []) \<and>
   queried (feedApi_list srt a) = (''sort'', srt) # (if a = [] then [] else [(''cursor'', a)]) \<and>
   queried (adminApi_audit s n o') =
     [(''limit'', show_nat n), (''offset'', show_nat o')] @ (if s = [] then [] else [(''action'', s)]) \<and>
   queried (callsApi_iceConfig ps) = ps \<and>
   queried (searchApi_messages s n) = [(''q'', s), (''limit'', show_nat n)]"
proof -
  have "queried (searchApi_messages s n) = parse_query (''q'' @ ''='' @ encodeURIComponent s @ ''&'' @ ''limit'' @ ''='' @ show_nat n)"
    by (simp add: searchApi_messages_def queried_def json_call_def)
  also have "\<dots> = [(''q'', s), (''limit'', show_nat n)]"
    by (rule hand_query) (simp_all add: separators_def)
  finally show ?thesis
    by (simp add: usersApi_directory_def messagesApi_list_def messagesApi_listThread_def feedApi_list_def adminApi_audit_def
        callsApi_iceConfig_def queried_def json_call_def search_params_def set_params_def present_def nonempty_def truthy_def
        split: option.split)
qed

subsection \<open>Calls under /auth/ are never renewed\<close>

text \<open>
  Changing the password and signing out everywhere need a session, but an expired access token is not
  renewed for them: the exclusion of \<open>/auth/\<close> from the renewal, meant for signing in, covers them too. A 401
  is answered by one request and an error with that status; the stored refresh token is neither spent nor,
  when changing the password, lost.
\<close>

theorem password_change_never_renews:
  assumes "call = authApi_changePassword old new \<or> call = logoutAll_call"
    and "F (requestOf C (ac_path call) (ac_init call) w) (outside w) = (Some r, env')"
    and "re_status r = 401" and "re_body r = NoBody \<or> (\<exists>e. re_body r = JsonText e)"
  shows "\<exists>err. perform C F call w = (Inl (ApiErr err), w\<lparr>fetchLog := fetchLog w @
      [(requestOf C (ac_path call) (ac_init call) w, Some r)], outside := env'\<rparr>) \<and> ae_status err = 401"
proof -
  have path: "prefix ''/auth/'' (ac_path call)"
    using assms(1) by (auto simp: authApi_changePassword_def logoutAll_call_def json_call_def)
  have "\<exists>err. readEnvelope C r = Inl (ApiErr err) \<and> ae_status err = 401"
    using assms(3,4) by (auto simp: readEnvelope_def re_ok_def Let_def)
  with path assms(2,3) show ?thesis
    by (auto simp: perform_def request.simps http_fetch_def io_bind_def)
qed

theorem password_change_never_renews_witness:
  "\<exists>err w'. perform (\<lparr>cfg_native = True, cfg_nativeOrigin = None, cfg_apiBase = None, cfg_lang = ''ru'', cfg_t = id\<rparr>)
      (\<lambda>rq n. (Some \<lparr>re_status = 401, re_body = NoBody, re_retryAfter = None\<rparr>, n + 1))
      (authApi_changePassword ''old password 1'' ''new password 1'')
      \<lparr>storage = \<lparr>ls_items = Map.empty, ls_disabled = False, ls_full = False\<rparr>, appVersionHeader = None, fetchLog = [], outside = 0 :: nat\<rparr>
      = (Inl (ApiErr err), w') \<and> ae_status err = 401 \<and> length (fetchLog w') = 1 \<and> outside w' = 1"
  using password_change_never_renews [where call = "authApi_changePassword ''old password 1'' ''new password 1''"
      and old = "''old password 1''" and new = "''new password 1''"
      and F = "\<lambda>rq n. (Some \<lparr>re_status = 401, re_body = NoBody, re_retryAfter = None\<rparr>, n + 1)"
      and C = "\<lparr>cfg_native = True, cfg_nativeOrigin = None, cfg_apiBase = None, cfg_lang = ''ru'', cfg_t = id\<rparr>"
      and w = "\<lparr>storage = \<lparr>ls_items = Map.empty, ls_disabled = False, ls_full = False\<rparr>, appVersionHeader = None, fetchLog = [], outside = 0 :: nat\<rparr>"]
  by fastforce

end
