(* ===== verification/Media_Src.thy ===== *)
theory Media_Src
  imports Http_Client
begin

text \<open>
  Pictures, voice notes and downloads served by the API: \<open>shared/lib/mediaSrc.ts\<close>. In the packaged app the
  bytes are fetched with the session's token and shown through an object URL, which holds the bytes until
  it is revoked. \<open>objectUrls\<close> are the URLs created and not yet revoked, \<open>nextUrl\<close> numbers them.
\<close>

record 'env media = "'env client" +
  objectUrls :: "string list"
  nextUrl :: nat

type_synonym ('env, 'a) media_io = "('env media, js_error, 'a) io"

definition isApiAsset :: "string \<Rightarrow> bool" where
  "isApiAsset url \<longleftrightarrow> prefix ''/api/'' url"

definition isObjectUrl :: "string \<Rightarrow> bool" where
  "isObjectUrl url \<longleftrightarrow> prefix ''blob:'' url"

definition createObjectURL :: "('env, string) media_io" where
  "createObjectURL w = (let u = ''blob:'' @ show_nat (nextUrl w) in
     (Inr u, w\<lparr>objectUrls := objectUrls w @ [u], nextUrl := nextUrl w + 1\<rparr>))"

definition revokeObjectURL :: "string \<Rightarrow> ('env media) \<Rightarrow> 'env media" where
  "revokeObjectURL u w = w\<lparr>objectUrls := filter (\<lambda>x. x \<noteq> u) (objectUrls w)\<rparr>"

definition assetRequest :: "client_cfg \<Rightarrow> string \<Rightarrow> ('env, 'z) client_scheme \<Rightarrow> http_request" where
  "assetRequest C url w = \<lparr>rq_url = apiOrigin C @ url, rq_method = GET, rq_credentials = Omit,
     rq_headers = nativeAuthHeaders C w, rq_body = None\<rparr>"

definition assetAnswer :: "http_response \<Rightarrow> ('env, string) media_io" where
  "assetAnswer response =
     (if \<not> re_ok response then io_throw (JsError (''media: '' @ show_int (re_status response)))
      else if re_body response = Unreadable then io_throw (JsError ''TypeError'') else createObjectURL)"

function fetchAsset :: "client_cfg \<Rightarrow> 'env fetch \<Rightarrow> string \<Rightarrow> bool \<Rightarrow> ('env, string) media_io" where
  "fetchAsset C F url allowRefresh =
     io_bind (\<lambda>w. http_fetch F (assetRequest C url w) w) (\<lambda>response.
       if re_status response = 401 \<and> allowRefresh
       then io_bind (refreshSession C F) (\<lambda>outcome.
              if outcome = RefreshOk then fetchAsset C F url False else assetAnswer response)
       else assetAnswer response)"
  by pat_completeness auto

termination fetchAsset
  by (relation "measure (\<lambda>(C, F, url, allow). if allow then 1 else 0)") auto

declare fetchAsset.simps [simp del]

definition mediaSrcSync :: "client_cfg \<Rightarrow> string \<Rightarrow> string option" where
  "mediaSrcSync C url = (if isNative C \<and> isApiAsset url then None else Some url)"

definition resolveMediaSrc :: "client_cfg \<Rightarrow> 'env fetch \<Rightarrow> string \<Rightarrow> ('env, string) media_io" where
  "resolveMediaSrc C F url = (if \<not> isNative C \<or> \<not> isApiAsset url then io_ret url else fetchAsset C F url True)"

text \<open>\<open>downloadAsset\<close> gives the address the link is clicked with, and whether it is revoked a minute later.\<close>

definition downloadAsset :: "client_cfg \<Rightarrow> 'env fetch \<Rightarrow> string \<Rightarrow> ('env, string \<times> bool) media_io" where
  "downloadAsset C F url = io_bind (resolveMediaSrc C F url) (\<lambda>resolved. io_ret (resolved, isObjectUrl resolved))"

definition handleDownloadClick :: "client_cfg \<Rightarrow> string \<Rightarrow> bool" where
  "handleDownloadClick C url \<longleftrightarrow> isNative C \<and> isApiAsset url"

lemma createObjectURL_live: "createObjectURL w = (Inr u, w') \<Longrightarrow> isObjectUrl u \<and> objectUrls w' = objectUrls w @ [u]"
  by (auto simp: createObjectURL_def Let_def isObjectUrl_def)

lemma media_fetch: "http_fetch F rq w = (q, w') \<Longrightarrow> objectUrls w' = objectUrls w \<and> length (fetchLog w') = length (fetchLog w) + 1"
  by (auto simp: http_fetch_def split: prod.splits)

lemma media_refresh: "refreshSession C F w = (q, w') \<Longrightarrow> objectUrls w' = objectUrls w \<and> length (fetchLog w') = length (fetchLog w) + 1"
  by (auto simp: refreshSession_def http_fetch_def io_catch_def io_bind_def split: prod.splits sum.splits option.splits)

definition one_url :: "js_error + string \<Rightarrow> 'env media \<Rightarrow> 'env media \<Rightarrow> bool" where
  "one_url q w w' \<longleftrightarrow> (case q of Inl e \<Rightarrow> objectUrls w' = objectUrls w
     | Inr u \<Rightarrow> isObjectUrl u \<and> objectUrls w' = objectUrls w @ [u])"

lemma one_url_from: "one_url q v w' \<Longrightarrow> objectUrls v = objectUrls w \<Longrightarrow> one_url q w w'"
  by (simp add: one_url_def split: sum.splits)

lemma assetAnswer_one: "assetAnswer r w = (q, w') \<Longrightarrow> one_url q w w' \<and> fetchLog w' = fetchLog w"
  by (auto simp: one_url_def assetAnswer_def createObjectURL_def Let_def isObjectUrl_def split: if_splits)

lemma fetchAsset_again:
  assumes "fetchAsset C F url False w = (q, w')"
  shows "length (fetchLog w') = length (fetchLog w) + 1 \<and> one_url q w w'"
proof -
  obtain q1 w1 where fetch: "http_fetch F (assetRequest C url w) w = (q1, w1)" by fastforce
  show ?thesis
  proof (cases q1)
    case (Inl e)
    with assms fetch media_fetch [OF fetch] show ?thesis
      by (auto simp: fetchAsset.simps [of C F url False] io_bind_def one_url_def)
  next
    case (Inr r)
    with assms fetch have "assetAnswer r w1 = (q, w')" by (auto simp: fetchAsset.simps [of C F url False] io_bind_def)
    with media_fetch [OF fetch] show ?thesis using assetAnswer_one one_url_from by (metis add.commute)
  qed
qed

lemma fetchAsset_cases:
  assumes "fetchAsset C F url True w = (q, w')" and "http_fetch F (assetRequest C url w) w = (Inr r, w1)"
    and "refreshSession C F w1 = (q2, w2)" and "re_status r = 401"
  obtains e where "q2 = Inl e" "q = Inl e" "w' = w2"
  | "q2 = Inr RefreshOk" "fetchAsset C F url False w2 = (q, w')"
  | "assetAnswer r w2 = (q, w')"
  using assms by (cases q2) (auto simp: fetchAsset.simps [of C F url True] io_bind_def split: if_splits)

text \<open>
  An asset is fetched with at most one renewal: two requests for the bytes and one exchange. What it
  returns is a fresh object URL, the only one created; a failure creates none.
\<close>

theorem fetchAsset_renews_once:
  assumes "fetchAsset C F url True w = (q, w')"
  shows "length (fetchLog w') \<le> length (fetchLog w) + 3 \<and> one_url q w w'"
proof -
  obtain q1 w1 where fetch: "http_fetch F (assetRequest C url w) w = (q1, w1)" by fastforce
  note one = media_fetch [OF fetch]
  consider e where "q1 = Inl e" | r where "q1 = Inr r" "re_status r \<noteq> 401" | r where "q1 = Inr r" "re_status r = 401"
    by (cases q1) auto
  then show ?thesis
  proof cases
    case 1
    with assms fetch one show ?thesis by (auto simp: fetchAsset.simps [of C F url True] io_bind_def one_url_def)
  next
    case (2 r)
    with assms fetch have "assetAnswer r w1 = (q, w')" by (auto simp: fetchAsset.simps [of C F url True] io_bind_def)
    from assetAnswer_one [OF this] one show ?thesis using one_url_from by fastforce
  next
    case (3 r)
    obtain q2 w2 where renew: "refreshSession C F w1 = (q2, w2)" by fastforce
    from media_refresh [OF renew] one have two: "objectUrls w2 = objectUrls w" "length (fetchLog w2) = length (fetchLog w) + 2"
      by auto
    from assms fetch [unfolded 3(1)] renew 3(2) show ?thesis
    proof (cases rule: fetchAsset_cases)
      case (1 e)
      with two show ?thesis by (simp add: one_url_def)
    next
      case 2
      from fetchAsset_again [OF 2(2)] two show ?thesis using one_url_from by fastforce
    next
      case 3
      from assetAnswer_one [OF 3] two show ?thesis using one_url_from by fastforce
    qed
  qed
qed

subsection \<open>The hook of a picture\<close>

text \<open>
  \<open>useMediaSrc\<close> over the life of a component: every run of its effect with the object URL it holds, whether
  its clean-up has run, and the fetches under way. \<open>mh_live\<close> are the object URLs not yet revoked.
\<close>

record media_effect =
  ef_objectUrl :: "string option"
  ef_cancelled :: bool

record media_hook =
  mh_src :: "string option"
  mh_url :: "string option"
  mh_effects :: "media_effect list"
  mh_current :: "nat option"
  mh_pending :: "nat list"
  mh_live :: "string list"
  mh_next :: nat

datatype hook_event = Render "string option" | FetchSettles nat bool | Unmount

definition needs_fetch :: "client_cfg \<Rightarrow> string option \<Rightarrow> bool" where
  "needs_fetch C url \<longleftrightarrow> truthy url \<and> isNative C \<and> isApiAsset (the url)"

definition hook_cleanup :: "media_hook \<Rightarrow> media_hook" where
  "hook_cleanup h = (case mh_current h of
     None \<Rightarrow> h
   | Some k \<Rightarrow> h\<lparr>mh_current := None, mh_effects := (mh_effects h)[k := (mh_effects h ! k)\<lparr>ef_cancelled := True\<rparr>],
       mh_live := (case ef_objectUrl (mh_effects h ! k) of None \<Rightarrow> mh_live h | Some u \<Rightarrow> filter (\<lambda>x. x \<noteq> u) (mh_live h))\<rparr>)"

definition hook_effect :: "client_cfg \<Rightarrow> string option \<Rightarrow> media_hook \<Rightarrow> media_hook" where
  "hook_effect C url h =
     (if \<not> needs_fetch C url then h\<lparr>mh_src := url\<rparr>
      else h\<lparr>mh_current := Some (length (mh_effects h)), mh_pending := mh_pending h @ [length (mh_effects h)],
             mh_effects := mh_effects h @ [\<lparr>ef_objectUrl = None, ef_cancelled = False\<rparr>]\<rparr>)"

definition hook_settles :: "nat \<Rightarrow> bool \<Rightarrow> media_hook \<Rightarrow> media_hook" where
  "hook_settles k fetched h =
     (if k \<notin> set (mh_pending h) then h
      else let g = h\<lparr>mh_pending := remove1 k (mh_pending h)\<rparr>; u = ''blob:'' @ show_nat (mh_next g) in
        if \<not> fetched then (if ef_cancelled (mh_effects g ! k) then g else g\<lparr>mh_src := None\<rparr>)
        else if ef_cancelled (mh_effects g ! k) then g\<lparr>mh_next := mh_next g + 1\<rparr>
        else g\<lparr>mh_next := mh_next g + 1, mh_live := mh_live g @ [u], mh_src := Some u,
               mh_effects := (mh_effects g)[k := (mh_effects g ! k)\<lparr>ef_objectUrl := Some u\<rparr>]\<rparr>)"

fun hook_step :: "client_cfg \<Rightarrow> hook_event \<Rightarrow> media_hook \<Rightarrow> media_hook" where
  "hook_step C (Render url) h = (if mh_url h = url then h else hook_effect C url ((hook_cleanup h)\<lparr>mh_url := url\<rparr>))"
| "hook_step C (FetchSettles k fetched) h = hook_settles k fetched h"
| "hook_step C Unmount h = hook_cleanup h"

definition hook_mount :: "client_cfg \<Rightarrow> string option \<Rightarrow> media_hook" where
  "hook_mount C url = hook_effect C url \<lparr>mh_src = (if needs_fetch C url then None else url), mh_url = url, mh_effects = [],
     mh_current = None, mh_pending = [], mh_live = [], mh_next = 0\<rparr>"

definition held_url :: "media_hook \<Rightarrow> string list" where
  "held_url h = (case mh_current h of None \<Rightarrow> [] | Some k \<Rightarrow>
     (case ef_objectUrl (mh_effects h ! k) of None \<Rightarrow> [] | Some u \<Rightarrow> [u]))"

definition hook_inv :: "media_hook \<Rightarrow> bool" where
  "hook_inv h \<longleftrightarrow> (\<forall>k < length (mh_effects h). mh_current h \<noteq> Some k \<longrightarrow> ef_cancelled (mh_effects h ! k)) \<and>
     (case mh_current h of None \<Rightarrow> True | Some k \<Rightarrow> k < length (mh_effects h) \<and> \<not> ef_cancelled (mh_effects h ! k)) \<and>
     (\<forall>k \<in> set (mh_pending h). k < length (mh_effects h) \<and> ef_objectUrl (mh_effects h ! k) = None) \<and>
     distinct (mh_pending h) \<and> mh_live h = held_url h"

lemma hook_inv_cleanup: "hook_inv h \<Longrightarrow> hook_inv (hook_cleanup h)"
  by (cases "mh_current h") (auto simp: hook_inv_def hook_cleanup_def held_url_def nth_list_update split: option.splits)

lemma hook_inv_effect: "hook_inv h \<Longrightarrow> mh_current h = None \<Longrightarrow> hook_inv (hook_effect C url h)"
  by (auto simp: hook_inv_def hook_effect_def held_url_def nth_append less_Suc_eq)

lemma hook_settles_kept [simp]:
  "mh_current (hook_settles k fetched h) = mh_current h" "length (mh_effects (hook_settles k fetched h)) = length (mh_effects h)"
  by (simp_all add: hook_settles_def Let_def)

lemma hook_inv_pending:
  assumes "hook_inv h" and "mh_effects g = mh_effects h" and "mh_current g = mh_current h" and "mh_live g = mh_live h"
    and "mh_pending g = remove1 k (mh_pending h)"
  shows "hook_inv g"
  using assms set_remove1_subset [of k "mh_pending h"] by (auto simp: hook_inv_def held_url_def split: option.splits)

lemma hook_inv_arrives:
  assumes "hook_inv h" and "k \<in> set (mh_pending h)" and "\<not> ef_cancelled (mh_effects h ! k)"
  shows "hook_inv (h\<lparr>mh_pending := remove1 k (mh_pending h), mh_next := n, mh_live := mh_live h @ [u], mh_src := Some u,
    mh_effects := (mh_effects h)[k := (mh_effects h ! k)\<lparr>ef_objectUrl := Some u\<rparr>]\<rparr>)"
proof -
  from assms have k: "k < length (mh_effects h)" "mh_current h = Some k" "ef_objectUrl (mh_effects h ! k) = None"
    by (auto simp: hook_inv_def)
  with assms show ?thesis by (auto simp: hook_inv_def held_url_def nth_list_update set_remove1_eq)
qed

lemma hook_inv_settles: "hook_inv h \<Longrightarrow> hook_inv (hook_settles k fetched h)"
  using hook_inv_arrives [of h k] by (auto simp: hook_settles_def Let_def elim: hook_inv_pending)

lemma hook_current_cleanup [simp]: "mh_current (hook_cleanup h) = None"
  by (simp add: hook_cleanup_def split: option.split)

lemma hook_inv_step: "hook_inv h \<Longrightarrow> hook_inv (hook_step C e h)"
proof (cases e)
  case (Render url)
  assume "hook_inv h"
  then have "hook_inv ((hook_cleanup h)\<lparr>mh_url := url\<rparr>)"
    using hook_inv_cleanup [of h] by (simp add: hook_inv_def held_url_def)
  with Render \<open>hook_inv h\<close> show ?thesis by (simp add: hook_inv_effect)
qed (simp_all add: hook_inv_cleanup hook_inv_settles)

lemma hook_inv_run: "hook_inv h \<Longrightarrow> hook_inv (fold (hook_step C) evs h)"
  by (induction evs arbitrary: h) (simp_all add: hook_inv_step)

lemma hook_inv_mount: "hook_inv (hook_mount C url)"
  unfolding hook_mount_def by (rule hook_inv_effect) (simp_all add: hook_inv_def held_url_def)

lemma current_settles: "mh_current (fold (hook_step C) (map (\<lambda>(k, ok). FetchSettles k ok) later) h) = mh_current h"
  by (induction later arbitrary: h) auto

text \<open>
  No picture's bytes are kept after they are needed: over any sequence of addresses shown and fetches
  settled, at most one object URL of the component is alive, and once it is gone none is, whatever fetches
  still end afterwards.
\<close>

theorem media_urls_released:
  "let h = fold (hook_step C) evs (hook_mount C url) in
     length (mh_live h) \<le> 1 \<and>
     mh_live (fold (hook_step C) (map (\<lambda>(k, ok). FetchSettles k ok) later) (hook_step C Unmount h)) = []"
proof -
  let ?h = "fold (hook_step C) evs (hook_mount C url)"
  let ?g = "fold (hook_step C) (map (\<lambda>(k, ok). FetchSettles k ok) later) (hook_step C Unmount ?h)"
  have h: "hook_inv ?h" by (intro hook_inv_run hook_inv_mount)
  have "hook_inv ?g" by (rule hook_inv_run, rule hook_inv_step, rule h)
  moreover have "mh_current ?g = None" by (simp add: current_settles)
  ultimately show ?thesis
    using h by (auto simp: Let_def hook_inv_def held_url_def split: option.splits)
qed

text \<open>
  While the bytes of a new address load, the old picture stays: its URL, already revoked, is what the hook
  still returns.
\<close>

theorem changed_url_shows_old_picture:
  "let C = \<lparr>cfg_native = True, cfg_nativeOrigin = None, cfg_apiBase = None, cfg_lang = ''ru'', cfg_t = id\<rparr>;
       h = fold (hook_step C) [FetchSettles 0 True, Render (Some ''/api/v1/b'')] (hook_mount C (Some ''/api/v1/a'')) in
     mh_src h = Some ''blob:0'' \<and> mh_live h = [] \<and> mh_pending h = [1]"
  by code_simp

end
