(* ===== verification/Voice_Player.thy ===== *)
theory Voice_Player
  imports Complex_Main Media_Src
begin

text \<open>
  The shared player of voice notes: \<open>features/voice-message/player.ts\<close>. One audio element serves the whole
  app; \<open>au_cmds\<close> is what it was told, in order, and its own events (\<open>onplay\<close>, \<open>onpause\<close>, \<open>onended\<close>,
  \<open>ontimeupdate\<close>) are steps of the history. A note that has to be fetched first is in \<open>vp_loading\<close> until its
  promise settles; \<open>vp_live\<close> are the object URLs not yet revoked.
\<close>

datatype playback_rate = Rate1 | Rate15 | Rate2

datatype audio_cmd = Play | Pause

record audio_el =
  au_src :: "string option"
  au_rate :: playback_rate
  au_currentTime :: real
  au_duration :: real
  au_cmds :: "audio_cmd list"

record player =
  vp_activeId :: "string option"
  vp_playing :: bool
  vp_progress :: real
  vp_rate :: playback_rate
  vp_listened :: "string list"
  vp_audio :: "audio_el option"
  vp_objectUrl :: "string option"
  vp_live :: "string list"
  vp_nextUrl :: nat
  vp_loading :: "string list"
  vp_storage :: local_storage

definition RATE_KEY :: string where "RATE_KEY = ''kisy-voice-rate''"
definition LISTENED_KEY :: string where "LISTENED_KEY = ''kisy-voice-listened''"
definition LISTENED_CAP :: nat where "LISTENED_CAP = 500"

fun rate_str :: "playback_rate \<Rightarrow> string" where
  "rate_str Rate1 = ''1''"
| "rate_str Rate15 = ''1.5''"
| "rate_str Rate2 = ''2''"

text \<open>\<open>Number(...)\<close> of what \<open>cycleRate\<close> writes; a disabled store throws out of both readers' callers.\<close>

definition loadRate :: "local_storage \<Rightarrow> js_error + playback_rate" where
  "loadRate s = (case ls_getItem RATE_KEY s of
     Inl e \<Rightarrow> Inl e
   | Inr v \<Rightarrow> Inr (if v = Some ''1.5'' then Rate15 else if v = Some ''2'' then Rate2 else Rate1))"

definition loadListened :: "local_storage \<Rightarrow> string list" where
  "loadListened s = (case ls_getItem LISTENED_KEY s of
     Inl e \<Rightarrow> []
   | Inr None \<Rightarrow> []
   | Inr (Some raw) \<Rightarrow> (case json_parse raw of
       Some (JArr xs) \<Rightarrow> concat (map (\<lambda>x. case x of JStr t \<Rightarrow> [t] | _ \<Rightarrow> []) xs)
     | _ \<Rightarrow> []))"

definition ensureAudio :: "player \<Rightarrow> audio_el" where
  "ensureAudio p = (case vp_audio p of
     Some a \<Rightarrow> a
   | None \<Rightarrow> \<lparr>au_src = None, au_rate = Rate1, au_currentTime = 0, au_duration = 0, au_cmds = []\<rparr>)"

definition tell :: "audio_cmd \<Rightarrow> audio_el \<Rightarrow> audio_el" where
  "tell c a = a\<lparr>au_cmds := au_cmds a @ [c]\<rparr>"

definition release_url :: "player \<Rightarrow> player" where
  "release_url p = (case vp_objectUrl p of
     None \<Rightarrow> p
   | Some u \<Rightarrow> if u = [] then p else p\<lparr>vp_live := filter (\<lambda>x. x \<noteq> u) (vp_live p), vp_objectUrl := None\<rparr>)"

definition next_listened :: "string \<Rightarrow> string list \<Rightarrow> string list" where
  "next_listened i xs = (if i \<in> set xs then xs else (let ys = xs @ [i] in drop (length ys - LISTENED_CAP) ys))"

text \<open>\<open>toggle\<close>; \<open>Inl\<close> is the exception it throws, with the state it leaves.\<close>

definition toggle :: "client_cfg \<Rightarrow> string \<Rightarrow> string \<Rightarrow> player \<Rightarrow> (js_error + unit) \<times> player" where
  "toggle C attachmentId url p0 =
     (let a = ensureAudio p0; p = p0\<lparr>vp_audio := Some a\<rparr> in
      if vp_activeId p = Some attachmentId then
        (Inr (), p\<lparr>vp_audio := Some (if vp_playing p then tell Pause a else tell Play (a\<lparr>au_rate := vp_rate p\<rparr>))\<rparr>)
      else
        let a1 = a\<lparr>au_rate := vp_rate p, au_currentTime := 0\<rparr>;
            p1 = (release_url p)\<lparr>vp_audio := Some a1\<rparr>;
            listened = next_listened attachmentId (vp_listened p) in
        case ls_setItem LISTENED_KEY (stringify (JArr (map JStr listened))) (vp_storage p1) of
          Inl e \<Rightarrow> (Inl e, p1)
        | Inr s \<Rightarrow>
            let p2 = p1\<lparr>vp_storage := s, vp_activeId := Some attachmentId, vp_progress := 0, vp_listened := listened\<rparr> in
            case mediaSrcSync C url of
              Some direct \<Rightarrow> (Inr (), p2\<lparr>vp_audio := Some (tell Play (a1\<lparr>au_src := Some direct\<rparr>))\<rparr>)
            | None \<Rightarrow> (Inr (), p2\<lparr>vp_loading := vp_loading p2 @ [attachmentId]\<rparr>))"

text \<open>The bytes of the \<open>k\<close>-th note under way arrive, or the fetch fails (a rejection nobody handles).\<close>

definition note_resolves :: "nat \<Rightarrow> bool \<Rightarrow> player \<Rightarrow> player" where
  "note_resolves k fetched p0 =
     (if k \<ge> length (vp_loading p0) then p0
      else let i = vp_loading p0 ! k; p = p0\<lparr>vp_loading := take k (vp_loading p0) @ drop (Suc k) (vp_loading p0)\<rparr> in
        if \<not> fetched then p
        else let src = ''blob:'' @ show_nat (vp_nextUrl p); p = p\<lparr>vp_nextUrl := vp_nextUrl p + 1\<rparr> in
          if vp_activeId p \<noteq> Some i then p
          else p\<lparr>vp_live := vp_live p @ [src], vp_objectUrl := Some src,
                 vp_audio := Some (tell Play ((ensureAudio p)\<lparr>au_src := Some src\<rparr>))\<rparr>)"

definition seek :: "real \<Rightarrow> player \<Rightarrow> player" where
  "seek fraction p = (case vp_audio p of
     None \<Rightarrow> p
   | Some a \<Rightarrow> if au_duration a = 0 \<or> vp_activeId p = None then p
       else p\<lparr>vp_audio := Some (a\<lparr>au_currentTime := max 0 (min 1 fraction) * au_duration a\<rparr>), vp_progress := fraction\<rparr>)"

fun next_rate :: "playback_rate \<Rightarrow> playback_rate" where
  "next_rate Rate1 = Rate15"
| "next_rate Rate15 = Rate2"
| "next_rate Rate2 = Rate1"

definition cycleRate :: "player \<Rightarrow> (js_error + unit) \<times> player" where
  "cycleRate p = (let r = next_rate (vp_rate p) in
     case ls_setItem RATE_KEY (rate_str r) (vp_storage p) of
       Inl e \<Rightarrow> (Inl e, p)
     | Inr s \<Rightarrow> (Inr (), p\<lparr>vp_storage := s, vp_audio := map_option (\<lambda>a. a\<lparr>au_rate := r\<rparr>) (vp_audio p), vp_rate := r\<rparr>))"

definition isListened :: "string \<Rightarrow> player \<Rightarrow> bool" where
  "isListened i p \<longleftrightarrow> i \<in> set (vp_listened p)"

datatype player_event =
    Toggle string string
  | NoteResolves nat bool
  | Seek real
  | CycleRate
  | OnTimeUpdate real real
  | OnEnded
  | OnPause
  | OnPlay

fun player_step :: "client_cfg \<Rightarrow> player_event \<Rightarrow> player \<Rightarrow> player" where
  "player_step C (Toggle i url) p = snd (toggle C i url p)"
| "player_step C (NoteResolves k fetched) p = note_resolves k fetched p"
| "player_step C (Seek f) p = seek f p"
| "player_step C CycleRate p = snd (cycleRate p)"
| "player_step C (OnTimeUpdate t d) p = (case vp_audio p of
     None \<Rightarrow> p
   | Some a \<Rightarrow> let p' = p\<lparr>vp_audio := Some (a\<lparr>au_currentTime := t, au_duration := d\<rparr>)\<rparr> in
       if d = 0 then p' else p'\<lparr>vp_progress := t / d\<rparr>)"
| "player_step C OnEnded p = p\<lparr>vp_playing := False, vp_progress := 1\<rparr>"
| "player_step C OnPause p = p\<lparr>vp_playing := False\<rparr>"
| "player_step C OnPlay p = p\<lparr>vp_playing := True\<rparr>"

definition player_start :: "local_storage \<Rightarrow> player" where
  "player_start s = \<lparr>vp_activeId = None, vp_playing = False, vp_progress = 0,
     vp_rate = (case loadRate s of Inr r \<Rightarrow> r | Inl e \<Rightarrow> Rate1), vp_listened = loadListened s,
     vp_audio = None, vp_objectUrl = None, vp_live = [], vp_nextUrl = 0, vp_loading = [], vp_storage = s\<rparr>"

subsection \<open>What the player remembers\<close>

declare stringify.simps [simp del]

lemma strings_back [simp]: "concat (map ((\<lambda>x. case x of JStr t \<Rightarrow> [t] | _ \<Rightarrow> []) \<circ> JStr) xs) = xs"
  by (induction xs) simp_all

lemma keys_differ [simp]: "RATE_KEY \<noteq> LISTENED_KEY" "LISTENED_KEY \<noteq> RATE_KEY"
  by (simp_all add: RATE_KEY_def LISTENED_KEY_def)

definition writable :: "local_storage \<Rightarrow> bool" where
  "writable s \<longleftrightarrow> \<not> ls_disabled s \<and> \<not> ls_full s"

lemma write_item: "writable s \<Longrightarrow> \<exists>s'. ls_setItem k v s = Inr s' \<and> writable s' \<and> ls_items s' = (ls_items s)(k \<mapsto> v)"
  by (simp add: writable_def ls_setItem_def)

lemma reads_back_listened:
  "writable s \<Longrightarrow> ls_items s LISTENED_KEY = Some (stringify (JArr (map JStr xs))) \<Longrightarrow> loadListened s = xs"
  by (simp add: loadListened_def ls_getItem_def writable_def)

lemma reads_back_rate: "writable s \<Longrightarrow> ls_items s RATE_KEY = Some (rate_str r) \<Longrightarrow> loadRate s = Inr r"
  by (cases r) (simp_all add: loadRate_def ls_getItem_def writable_def)

lemma reads_same:
  "writable s \<Longrightarrow> writable s' \<Longrightarrow> ls_items s' LISTENED_KEY = ls_items s LISTENED_KEY \<Longrightarrow> loadListened s' = loadListened s"
  "writable s \<Longrightarrow> writable s' \<Longrightarrow> ls_items s' RATE_KEY = ls_items s RATE_KEY \<Longrightarrow> loadRate s' = loadRate s"
  by (simp_all add: loadListened_def loadRate_def ls_getItem_def writable_def)

definition remembered :: "player \<Rightarrow> bool" where
  "remembered p \<longleftrightarrow> writable (vp_storage p) \<and> loadListened (vp_storage p) = vp_listened p \<and>
     loadRate (vp_storage p) = Inr (vp_rate p) \<and> distinct (vp_listened p) \<and> length (vp_listened p) \<le> LISTENED_CAP \<and>
     (case vp_activeId p of None \<Rightarrow> True | Some i \<Rightarrow> isListened i p)"

lemma next_listened_ok:
  assumes "distinct xs" and "length xs \<le> LISTENED_CAP"
  shows "distinct (next_listened i xs)" "length (next_listened i xs) \<le> LISTENED_CAP" "i \<in> set (next_listened i xs)"
proof -
  have "drop n (xs @ [i]) = drop n xs @ [i]" if "n \<le> length xs" for n using that by simp
  then show "i \<in> set (next_listened i xs)" by (simp add: next_listened_def Let_def LISTENED_CAP_def)
  have "i \<notin> set xs \<Longrightarrow> distinct (xs @ [i])" using assms(1) by simp
  then show "distinct (next_listened i xs)"
    using assms(1) by (simp add: next_listened_def Let_def distinct_drop del: drop_append distinct_append)
  show "length (next_listened i xs) \<le> LISTENED_CAP"
    using assms(2) by (simp add: next_listened_def Let_def LISTENED_CAP_def) arith
qed

lemma release_fields [simp]:
  "vp_storage (release_url p) = vp_storage p" "vp_listened (release_url p) = vp_listened p" "vp_rate (release_url p) = vp_rate p"
  "vp_activeId (release_url p) = vp_activeId p" "vp_playing (release_url p) = vp_playing p" "vp_loading (release_url p) = vp_loading p"
  by (simp_all add: release_url_def split: option.split)

lemma remembered_same:
  "remembered p \<Longrightarrow> vp_storage q = vp_storage p \<Longrightarrow> vp_listened q = vp_listened p \<Longrightarrow> vp_rate q = vp_rate p \<Longrightarrow>
     vp_activeId q = vp_activeId p \<Longrightarrow> remembered q"
  by (simp add: remembered_def isListened_def split: option.splits)

lemma remembered_toggle:
  assumes "remembered p"
  shows "remembered (snd (toggle C i url p))"
proof (cases "vp_activeId p = Some i")
  case True
  with assms show ?thesis by (auto simp: toggle_def Let_def intro: remembered_same)
next
  case False
  let ?xs = "next_listened i (vp_listened p)"
  from assms obtain s where s: "ls_setItem LISTENED_KEY (stringify (JArr (map JStr ?xs))) (vp_storage p) = Inr s" "writable s"
      "ls_items s = (ls_items (vp_storage p))(LISTENED_KEY \<mapsto> stringify (JArr (map JStr ?xs)))"
    using write_item unfolding remembered_def by blast
  have q: "vp_storage (snd (toggle C i url p)) = s" "vp_listened (snd (toggle C i url p)) = ?xs"
    "vp_rate (snd (toggle C i url p)) = vp_rate p" "vp_activeId (snd (toggle C i url p)) = Some i"
    using False s(1) by (simp_all add: toggle_def Let_def split: option.split)
  have "loadListened s = ?xs" "loadRate s = loadRate (vp_storage p)"
    using s assms reads_same(2) [of "vp_storage p" s] by (simp_all add: reads_back_listened remembered_def)
  with assms s(2) next_listened_ok [of "vp_listened p" i] show ?thesis by (simp add: remembered_def q isListened_def)
qed

lemma remembered_rate:
  assumes "remembered p"
  shows "remembered (snd (cycleRate p))"
proof -
  let ?r = "next_rate (vp_rate p)"
  from assms obtain s where s: "ls_setItem RATE_KEY (rate_str ?r) (vp_storage p) = Inr s" "writable s"
      "ls_items s = (ls_items (vp_storage p))(RATE_KEY \<mapsto> rate_str ?r)"
    using write_item unfolding remembered_def by blast
  then have "loadRate s = Inr ?r" "loadListened s = loadListened (vp_storage p)"
    using s assms reads_same(1) [of "vp_storage p" s] by (simp_all add: reads_back_rate remembered_def)
  with s assms show ?thesis by (simp add: cycleRate_def remembered_def Let_def isListened_def split: option.splits)
qed

lemma remembered_step: "remembered p \<Longrightarrow> remembered (player_step C e p)"
  by (cases e)
    (auto simp: remembered_toggle remembered_rate note_resolves_def seek_def Let_def
      intro: remembered_same split: option.split)

lemma remembered_run: "remembered p \<Longrightarrow> remembered (fold (player_step C) evs p)"
  by (induction evs arbitrary: p) (simp_all add: remembered_step)

text \<open>
  The player comes back as it was left: after any use, what is stored reads back, on the next start,
  as the same rate and the same list of listened notes. The list never has a note twice nor more than its
  cap, and the note loaded in the player is always on it.
\<close>

theorem player_remembers:
  assumes "writable s" and "distinct (loadListened s)" and "length (loadListened s) \<le> LISTENED_CAP"
  shows "let p = fold (player_step C) evs (player_start s); again = player_start (vp_storage p) in
    vp_rate again = vp_rate p \<and> vp_listened again = vp_listened p \<and>
    distinct (vp_listened p) \<and> length (vp_listened p) \<le> 500 \<and> (vp_activeId p = Some i \<longrightarrow> isListened i p)"
proof -
  have "loadRate s = Inr (vp_rate (player_start s))"
    using assms(1) by (simp add: player_start_def loadRate_def ls_getItem_def writable_def)
  with assms have "remembered (player_start s)"
    by (simp add: remembered_def player_start_def)
  from remembered_run [OF this, of C evs] show ?thesis
    by (auto simp: remembered_def player_start_def Let_def LISTENED_CAP_def)
qed

definition empty_storage :: local_storage where
  "empty_storage = \<lparr>ls_items = Map.empty, ls_disabled = False, ls_full = False\<rparr>"

definition phone :: client_cfg where
  "phone = \<lparr>cfg_native = True, cfg_nativeOrigin = None, cfg_apiBase = None, cfg_lang = ''ru'', cfg_t = id\<rparr>"

definition two_notes :: "player_event list" where
  "two_notes = [Toggle ''a'' ''/api/v1/a'', NoteResolves 0 True, OnPlay, CycleRate, Toggle ''b'' ''/api/v1/b'']"

lemmas player_eval = two_notes_def phone_def empty_storage_def player_start_def loadRate_def loadListened_def ls_getItem_def
  ls_setItem_def toggle_def ensureAudio_def tell_def release_url_def next_listened_def note_resolves_def cycleRate_def
  mediaSrcSync_def isNative_def isApiAsset_def LISTENED_CAP_def

lemma two_notes_run:
  "let p = fold (player_step phone) two_notes (player_start empty_storage) in
     vp_listened p = [''a'', ''b''] \<and> vp_rate p = Rate15 \<and> vp_activeId p = Some ''b'' \<and> vp_playing p"
  by (simp add: player_eval Let_def)

theorem player_remembers_witness:
  "let p = fold (player_step phone) two_notes (player_start empty_storage); again = player_start (vp_storage p) in
     vp_rate again = Rate15 \<and> vp_listened again = [''a'', ''b''] \<and> isListened ''b'' p"
proof -
  have start: "writable empty_storage" "loadListened empty_storage = []"
    by (simp_all add: empty_storage_def writable_def loadListened_def ls_getItem_def)
  show ?thesis
    using player_remembers [OF start(1), of phone two_notes "''b''"] two_notes_run
    by (simp add: start(2) Let_def)
qed

subsection \<open>Switching notes\<close>

definition plays_active :: "(string \<Rightarrow> string) \<Rightarrow> player \<Rightarrow> bool" where
  "plays_active urls p \<longleftrightarrow> vp_loading p = [] \<and> vp_live p = [] \<and>
     (case vp_activeId p of None \<Rightarrow> True | Some i \<Rightarrow> \<exists>a. vp_audio p = Some a \<and> au_src a = Some (urls i))"

fun addressed :: "(string \<Rightarrow> string) \<Rightarrow> player_event \<Rightarrow> bool" where
  "addressed urls (Toggle i url) \<longleftrightarrow> url = urls i"
| "addressed urls e \<longleftrightarrow> True"

lemma plays_active_step:
  "\<not> isNative C \<Longrightarrow> plays_active urls p \<Longrightarrow> addressed urls e \<Longrightarrow> plays_active urls (player_step C e p)"
  by (cases e; cases "vp_activeId p")
    (auto simp: plays_active_def toggle_def note_resolves_def seek_def cycleRate_def Let_def ensureAudio_def tell_def
      release_url_def mediaSrcSync_def split: option.splits sum.splits)

text \<open>In a browser the element always has the active note: switching stops the previous one at once.\<close>

theorem web_player_plays_active_note:
  assumes "\<not> isNative C" and "list_all (addressed urls) evs"
  shows "plays_active urls (fold (player_step C) evs (player_start s))"
proof -
  have "plays_active urls p \<Longrightarrow> plays_active urls (fold (player_step C) evs p)" for p
    using assms by (induction evs arbitrary: p) (simp_all add: plays_active_step)
  then show ?thesis by (simp add: plays_active_def player_start_def)
qed

text \<open>
  In the packaged app a note goes on playing after another one is started: until the new note's bytes
  are there the element keeps the old source and is not told to pause, while the player shows the new
  note as the one playing. When the fetch fails it stays that way.
\<close>

theorem switching_keeps_old_note_playing:
  assumes "isNative C" and "isApiAsset url" and "writable (vp_storage p)" and "vp_audio p = Some a" and "vp_activeId p \<noteq> Some i"
  shows "let p' = snd (toggle C i url p) in vp_activeId p' = Some i \<and> vp_playing p' = vp_playing p \<and>
    (\<exists>a'. vp_audio p' = Some a' \<and> au_src a' = au_src a \<and> au_cmds a' = au_cmds a) \<and>
    vp_loading p' = vp_loading p @ [i] \<and> vp_audio (note_resolves k False p') = vp_audio p'"
proof -
  obtain s where "ls_setItem LISTENED_KEY (stringify (JArr (map JStr (next_listened i (vp_listened p))))) (vp_storage p) = Inr s"
    using write_item [OF assms(3)] by blast
  with assms show ?thesis
    by (simp add: toggle_def ensureAudio_def mediaSrcSync_def note_resolves_def Let_def)
qed

definition one_note :: player where
  "one_note = fold (player_step phone) [Toggle ''a'' ''/api/v1/a'', NoteResolves 0 True, OnPlay] (player_start empty_storage)"

lemma one_note_state:
  "vp_activeId one_note = Some ''a''" "vp_playing one_note" "writable (vp_storage one_note)"
  "\<exists>a. vp_audio one_note = Some a \<and> au_cmds a = [Play]"
  by (simp_all add: one_note_def player_eval Let_def writable_def)

theorem switching_keeps_old_note_playing_witness:
  "let p' = snd (toggle phone ''b'' ''/api/v1/b'' one_note) in
     vp_activeId p' = Some ''b'' \<and> vp_playing p' \<and> (\<exists>a. vp_audio p' = Some a \<and> au_cmds a = [Play])"
proof -
  obtain a where "vp_audio one_note = Some a" "au_cmds a = [Play]" using one_note_state(4) by blast
  moreover have "isNative phone" "isApiAsset ''/api/v1/b''" by (simp_all add: phone_def isNative_def isApiAsset_def)
  ultimately show ?thesis
    using switching_keeps_old_note_playing [of phone "''/api/v1/b''" one_note a "''b''"] one_note_state
    by (fastforce simp: Let_def)
qed

text \<open>
  Two loads of the same note under way leave an object URL that is never revoked; and where the store is
  full no note can be started, although the list it keeps is only a convenience.
\<close>

theorem reloaded_note_leaks_bytes:
  "let p = fold (player_step phone) [Toggle ''a'' ''/api/v1/a'', Toggle ''b'' ''/api/v1/b'', Toggle ''a'' ''/api/v1/a'',
       NoteResolves 0 True, NoteResolves 1 True, Toggle ''b'' ''/api/v1/b''] (player_start empty_storage) in
     length (vp_live p) = 1 \<and> vp_objectUrl p = None"
  by (simp add: player_eval Let_def show_nat.simps [of 0] show_nat.simps [of "Suc 0"])

theorem full_store_stops_the_player:
  "fst (toggle C ''a'' url ((player_start empty_storage)\<lparr>vp_storage := empty_storage\<lparr>ls_full := True\<rparr>\<rparr>))
     = Inl (JsError ''QuotaExceededError'')"
  by (simp add: player_eval Let_def)

end
