(* ===== verification/Waveform.thy ===== *)
theory Waveform
  imports Complex_Main Kisy_Prelude
begin

text \<open>
  The envelope of a voice note: \<open>features/voice-message/waveform.ts\<close>. Samples are reals; \<open>btoa\<close> and \<open>atob\<close>
  are the language's Base64, on bytes (\<open>None\<close> is the exception of \<open>atob\<close>).
\<close>

definition WAVEFORM_BARS :: nat where
  "WAVEFORM_BARS = 48"

text \<open>\<open>Math.round\<close>.\<close>

definition js_round :: "real \<Rightarrow> int" where
  "js_round x = \<lfloor>x + 1 / 2\<rfloor>"

definition window_start :: "nat \<Rightarrow> nat \<Rightarrow> nat" where
  "window_start w b = b * w"

definition window_end :: "nat \<Rightarrow> nat \<Rightarrow> nat \<Rightarrow> nat \<Rightarrow> nat" where
  "window_end n bars w b = (if b = bars - 1 then n else min (window_start w b + w) n)"

definition peak_in :: "real list \<Rightarrow> nat \<Rightarrow> nat \<Rightarrow> real" where
  "peak_in channel s e = fold (\<lambda>i peak. let v = \<bar>channel ! i\<bar> in if v > peak then v else peak) [s ..< e] 0"

definition peaks_of :: "real list \<Rightarrow> nat \<Rightarrow> real list" where
  "peaks_of channel bars =
     (let w = max 1 (length channel div bars) in
      map (\<lambda>b. peak_in channel (window_start w b) (window_end (length channel) bars w b)) [0 ..< bars])"

definition computePeaks :: "real list \<Rightarrow> nat \<Rightarrow> int list" where
  "computePeaks channel bars =
     (if channel = [] then replicate bars 0
      else let peaks = peaks_of channel bars; m = fold (\<lambda>p m. if p > m then p else m) peaks 0 in
        if m > 0 then map (\<lambda>p. js_round (p / m * 255)) peaks else replicate bars 0)"

lemma fold_max: "fold (\<lambda>p m. if p > m then p else m) xs m = fold max xs (m :: real)"
  by (induction xs arbitrary: m) (auto simp: max_def)

lemma fold_max_ge: "m \<le> fold max xs (m :: real)" "x \<in> set xs \<Longrightarrow> x \<le> fold max xs m"
proof (induction xs arbitrary: m)
  case (Cons y ys)
  { case 1 from Cons(1) [of "max y m"] show ?case by simp }
  { case 2
    have "y \<le> fold max ys (max y m)" using Cons.IH(1) [of "max y m"] by simp
    with 2 Cons.IH(2) [of "max y m"] show ?case by auto }
qed simp_all

lemma fold_max_in: "fold max xs (m :: real) = m \<or> fold max xs m \<in> set xs"
proof (induction xs arbitrary: m)
  case (Cons y ys)
  then show ?case using Cons [of "max y m"] by (auto simp: max_def split: if_splits)
qed simp

lemma peak_in_max: "peak_in channel s e = fold max (map (\<lambda>i. \<bar>channel ! i\<bar>) [s ..< e]) 0"
proof -
  have "fold (\<lambda>i peak. let v = \<bar>channel ! i\<bar> in if v > peak then v else peak) is m = fold max (map (\<lambda>i. \<bar>channel ! i\<bar>) is) m" for "is" m
    by (induction "is" arbitrary: m) (auto simp: max_def Let_def)
  then show ?thesis by (simp add: peak_in_def)
qed

lemma peak_nonneg: "0 \<le> peak_in channel s e"
  by (simp add: peak_in_max fold_max_ge)

lemma js_round_range: "0 \<le> x \<Longrightarrow> x \<le> 255 \<Longrightarrow> 0 \<le> js_round x \<and> js_round x \<le> 255"
  by (simp add: js_round_def le_floor_iff floor_le_iff)

lemma share_range: "0 \<le> q \<Longrightarrow> q \<le> 1 \<Longrightarrow> 0 \<le> js_round (q * 255) \<and> js_round (q * 255) \<le> 255"
  by (intro js_round_range) auto

lemma every_sample_has_a_bar:
  assumes "i < n" and "bars > 0"
  defines "w \<equiv> max 1 (n div bars)"
  shows "\<exists>b < bars. window_start w b \<le> i \<and> i < window_end n bars w b"
proof (cases "i div w < bars")
  case True
  have w: "w > 0" by (simp add: w_def)
  have "i div w * w \<le> i" by simp
  moreover have "i < i div w * w + w" using w by (metis add.commute dividend_less_div_times)
  ultimately show ?thesis
    using True assms(1) by (intro exI [of _ "i div w"]) (auto simp: window_start_def window_end_def)
next
  case False
  then have "bars - 1 \<le> i div w" by simp
  then have "(bars - 1) * w \<le> i" by (metis mult_le_mono1 div_times_less_eq_dividend le_trans)
  then show ?thesis using assms(1,2) by (intro exI [of _ "bars - 1"]) (auto simp: window_start_def window_end_def)
qed

text \<open>
  The envelope fits its bytes: as many bars as asked for, each from 0 to 255, and a recording that is not
  silent has a bar of 255, the loudest. No sample is left out.
\<close>

theorem computePeaks_fits:
  assumes "bars > 0"
  shows "length (computePeaks channel bars) = bars \<and> (\<forall>p \<in> set (computePeaks channel bars). 0 \<le> p \<and> p \<le> 255) \<and>
    ((\<exists>v \<in> set channel. v \<noteq> 0) \<longleftrightarrow> 255 \<in> set (computePeaks channel bars))"
proof (cases "channel = []")
  case False
  let ?w = "max 1 (length channel div bars)"
  let ?ps = "peaks_of channel bars" and ?m = "fold max (peaks_of channel bars) 0"
  have len: "length ?ps = bars" by (simp add: peaks_of_def Let_def)
  have nonneg: "\<forall>p \<in> set ?ps. 0 \<le> p" by (auto simp: peaks_of_def Let_def peak_nonneg)
  have le: "\<forall>p \<in> set ?ps. p \<le> ?m" by (simp add: fold_max_ge)
  have pos: "?m > 0 \<longleftrightarrow> (\<exists>v \<in> set channel. v \<noteq> 0)"
  proof
    assume "?m > 0"
    then have "?m \<in> set ?ps" using fold_max_in [of ?ps 0] by auto
    then obtain s e where se: "?m = peak_in channel s e" "e \<le> length channel"
      by (auto simp: peaks_of_def Let_def window_end_def)
    with \<open>?m > 0\<close> obtain i where "i \<in> {s ..< e}" "\<bar>channel ! i\<bar> > 0"
      using fold_max_in [of "map (\<lambda>i. \<bar>channel ! i\<bar>) [s ..< e]" 0] by (auto simp: peak_in_max)
    with se show "\<exists>v \<in> set channel. v \<noteq> 0" by (auto intro!: bexI [of _ "channel ! i"])
  next
    assume "\<exists>v \<in> set channel. v \<noteq> 0"
    then obtain i where i: "i < length channel" "channel ! i \<noteq> 0" by (metis in_set_conv_nth)
    from every_sample_has_a_bar [OF i(1) assms] obtain b where b: "b < bars" "window_start ?w b \<le> i"
      "i < window_end (length channel) bars ?w b" by blast
    let ?p = "peak_in channel (window_start ?w b) (window_end (length channel) bars ?w b)"
    have "\<bar>channel ! i\<bar> \<le> ?p" unfolding peak_in_max using b by (intro fold_max_ge(2)) auto
    moreover have "?p \<in> set ?ps" using b(1) by (auto simp: peaks_of_def Let_def)
    ultimately show "?m > 0" using le i(2) by fastforce
  qed
  have range: "0 \<le> js_round (p / ?m * 255) \<and> js_round (p / ?m * 255) \<le> 255" if "p \<in> set ?ps" "?m > 0" for p
  proof -
    have "0 \<le> p / ?m" "p / ?m \<le> 1" using that nonneg le by (auto simp: divide_le_eq_1)
    then show ?thesis by (rule share_range)
  qed
  have top: "255 \<in> (\<lambda>p. js_round (p / ?m * 255)) ` set ?ps" if "?m > 0"
  proof -
    have "?m \<in> set ?ps" using fold_max_in [of ?ps 0] that by auto
    moreover have "js_round (?m / ?m * 255) = 255" using that by (simp add: js_round_def)
    ultimately show ?thesis by force
  qed
  show ?thesis
    using False range top pos len by (auto simp: computePeaks_def Let_def fold_max)
qed (use assms in \<open>simp add: computePeaks_def\<close>)

subsection \<open>Base64\<close>

definition b64_char :: "nat \<Rightarrow> char" where
  "b64_char n = (if n < 26 then char_of (65 + n) else if n < 52 then char_of (71 + n) else if n < 62 then char_of (n - 4)
     else if n = 62 then CHR 0x2B else CHR 0x2F)"

definition b64_val :: "char \<Rightarrow> nat option" where
  "b64_val c = (let n = of_char c :: nat in
     if 65 \<le> n \<and> n \<le> 90 then Some (n - 65) else if 97 \<le> n \<and> n \<le> 122 then Some (n - 71)
     else if 48 \<le> n \<and> n \<le> 57 then Some (n + 4) else if n = 0x2B then Some 62 else if n = 0x2F then Some 63 else None)"

fun btoa :: "nat list \<Rightarrow> string" where
  "btoa [] = []"
| "btoa [a] = [b64_char (a div 4), b64_char (a mod 4 * 16), CHR 0x3D, CHR 0x3D]"
| "btoa [a, b] = [b64_char (a div 4), b64_char (a mod 4 * 16 + b div 16), b64_char (b mod 16 * 4), CHR 0x3D]"
| "btoa (a # b # c # rest) =
     [b64_char (a div 4), b64_char (a mod 4 * 16 + b div 16), b64_char (b mod 16 * 4 + c div 64), b64_char (c mod 64)] @ btoa rest"

fun atob :: "string \<Rightarrow> nat list option" where
  "atob [] = Some []"
| "atob (w # x # y # z # rest) = (case (b64_val w, b64_val x) of
     (Some i, Some j) \<Rightarrow>
       (if y = CHR 0x3D \<and> z = CHR 0x3D \<and> rest = [] then Some [i * 4 + j div 16]
        else case b64_val y of
          None \<Rightarrow> None
        | Some k \<Rightarrow>
            if z = CHR 0x3D \<and> rest = [] then Some [i * 4 + j div 16, j mod 16 * 16 + k div 4]
            else case b64_val z of
              None \<Rightarrow> None
            | Some l \<Rightarrow> map_option (\<lambda>bs. [i * 4 + j div 16, j mod 16 * 16 + k div 4, k mod 4 * 64 + l] @ bs) (atob rest))
   | _ \<Rightarrow> None)"
| "atob _ = None"

definition waveformToBase64 :: "nat list \<Rightarrow> string" where
  "waveformToBase64 peaks = btoa peaks"

definition waveformFromBase64 :: "string \<Rightarrow> nat list" where
  "waveformFromBase64 b64 = (case atob b64 of Some bs \<Rightarrow> bs | None \<Rightarrow> [])"

lemma b64_val_char [simp]: "n < 64 \<Longrightarrow> b64_val (b64_char n) = Some n"
  by (auto simp: b64_val_def b64_char_def Let_def)

lemma b64_char_pad [simp]: "n < 64 \<Longrightarrow> b64_char n \<noteq> CHR 0x3D"
  using b64_val_char [of n] by (auto simp: b64_val_def)

lemma two_digits: "y < m \<Longrightarrow> (x * m + y) div m = x" "y < m \<Longrightarrow> (x * m + y) mod m = y" for x y m :: nat
  by simp_all

lemma byte_parts:
  fixes a b c :: nat
  assumes "a < 256" "b < 256" "c < 256"
  shows "a div 4 < 64" "a mod 4 * 16 + b div 16 < 64" "b mod 16 * 4 + c div 64 < 64" "a mod 4 * 16 < 64" "b mod 16 * 4 < 64"
    "(a mod 4 * 16 + b div 16) div 16 = a mod 4" "(a mod 4 * 16 + b div 16) mod 16 = b div 16"
    "(b mod 16 * 4 + c div 64) div 4 = b mod 16" "(b mod 16 * 4 + c div 64) mod 4 = c div 64"
    "a div 4 * 4 + a mod 4 = a" "b div 16 * 16 + b mod 16 = b" "c div 64 * 64 + c mod 64 = c"
    "b div 16 < 16" "c div 64 < 4"
proof -
  have "b div 16 < 16" "c div 64 < 4" using assms by auto
  then show "(a mod 4 * 16 + b div 16) div 16 = a mod 4" "(a mod 4 * 16 + b div 16) mod 16 = b div 16"
    "(b mod 16 * 4 + c div 64) div 4 = b mod 16" "(b mod 16 * 4 + c div 64) mod 4 = c div 64"
    by (simp_all add: two_digits)
qed (use assms in auto)

lemma atob_btoa: "\<forall>b \<in> set bs. b < 256 \<Longrightarrow> atob (btoa bs) = Some bs"
proof (induction bs rule: btoa.induct)
  case (2 a)
  then show ?case using byte_parts [of a 0 0] by simp
next
  case (3 a b)
  then show ?case using byte_parts [of a b 0] by simp
next
  case (4 a b c rest)
  then show ?case using byte_parts [of a b c] by simp
qed simp

text \<open>What a voice note travels with is what its bubble draws.\<close>

theorem waveform_round_trip: "\<forall>p \<in> set peaks. p < 256 \<Longrightarrow> waveformFromBase64 (waveformToBase64 peaks) = peaks"
  by (simp add: waveformFromBase64_def waveformToBase64_def atob_btoa)

definition formatDuration :: "int \<Rightarrow> string" where
  "formatDuration ms = (let total = max 0 (js_round (real_of_int ms / 1000)); m = total div 60; s = total mod 60 in
     show_int m @ '':'' @ (if s < 10 then ''0'' else []) @ show_int s)"

end
