(* ===== verification/Voice_Recorder.thy ===== *)
theory Voice_Recorder
  imports Waveform
begin

text \<open>
  The voice recorder: \<open>features/voice-message/recorder.ts\<close>, as a machine over the person's actions, the
  browser's answers and the component's life. \<open>vr_mics\<close> says of every microphone stream ever opened whether
  it is live; \<open>vr_recs\<close> lists the \<open>MediaRecorder\<close>s with whether \<open>onstop\<close> is set; \<open>vr_opening\<close> counts the calls of
  \<open>getUserMedia\<close> under way; \<open>vr_results\<close> are the values \<open>stop\<close> resolved with. Decoding the recording for its
  envelope is the platform's; its result travels in the event.
\<close>

datatype recorder_state = Idle | Recording | Processing

record voice_note =
  vn_blob :: bytes
  vn_durationMs :: int
  vn_waveform :: "int list"

record recorder =
  vr_state :: recorder_state
  vr_elapsedMs :: int
  vr_recorder :: "nat option"
  vr_stream :: "nat option"
  vr_chunks :: "bytes list"
  vr_startedAt :: int
  vr_timers :: nat
  vr_cancelled :: bool
  vr_mics :: "bool list"
  vr_recs :: "bool list"
  vr_opening :: nat
  vr_results :: "voice_note option list"

definition recorder_start :: recorder where
  "recorder_start = \<lparr>vr_state = Idle, vr_elapsedMs = 0, vr_recorder = None, vr_stream = None, vr_chunks = [],
     vr_startedAt = 0, vr_timers = 0, vr_cancelled = False, vr_mics = [], vr_recs = [], vr_opening = 0, vr_results = []\<rparr>"

definition MIME_CANDIDATES :: "string list" where
  "MIME_CANDIDATES = [''audio/webm;codecs=opus'', ''audio/webm'', ''audio/mp4'']"

definition pickMime :: "(string \<Rightarrow> bool) option \<Rightarrow> string option" where
  "pickMime isTypeSupported = (case isTypeSupported of None \<Rightarrow> None | Some f \<Rightarrow> find f MIME_CANDIDATES)"

definition buildWaveform :: "real list option \<Rightarrow> int list" where
  "buildWaveform decoded = (case decoded of Some channel \<Rightarrow> computePeaks channel WAVEFORM_BARS | None \<Rightarrow> [])"

text \<open>\<open>clearInterval(timer.current)\<close> ends the newest interval; an older one it replaced keeps running.\<close>

definition rec_cleanup :: "recorder \<Rightarrow> recorder" where
  "rec_cleanup r = r\<lparr>vr_timers := vr_timers r - 1,
     vr_mics := (case vr_stream r of None \<Rightarrow> vr_mics r | Some m \<Rightarrow> (vr_mics r)[m := False]),
     vr_stream := None, vr_recorder := None, vr_chunks := [], vr_elapsedMs := 0\<rparr>"

definition rec_start :: "recorder \<Rightarrow> recorder" where
  "rec_start r = (if vr_state r \<noteq> Idle then r else r\<lparr>vr_opening := vr_opening r + 1\<rparr>)"

text \<open>\<open>getUserMedia\<close> settles: refused, or a stream on which \<open>new MediaRecorder\<close> or its start may throw.\<close>

definition mic_settles :: "bool \<Rightarrow> bool \<Rightarrow> int \<Rightarrow> recorder \<Rightarrow> recorder" where
  "mic_settles granted recordable now r0 =
     (if vr_opening r0 = 0 then r0
      else let r = r0\<lparr>vr_opening := vr_opening r0 - 1\<rparr> in
        if \<not> granted then rec_cleanup r
        else let r1 = r\<lparr>vr_mics := vr_mics r @ [True], vr_stream := Some (length (vr_mics r))\<rparr> in
          if \<not> recordable then rec_cleanup r1
          else r1\<lparr>vr_recs := vr_recs r1 @ [False], vr_recorder := Some (length (vr_recs r1)), vr_chunks := [],
                  vr_cancelled := False, vr_startedAt := now, vr_elapsedMs := 0, vr_timers := vr_timers r1 + 1,
                  vr_state := Recording\<rparr>)"

definition data_available :: "bytes \<Rightarrow> recorder \<Rightarrow> recorder" where
  "data_available d r = (if d = [] then r else r\<lparr>vr_chunks := vr_chunks r @ [d]\<rparr>)"

definition rec_stop :: "recorder \<Rightarrow> recorder" where
  "rec_stop r = (case vr_recorder r of
     None \<Rightarrow> r\<lparr>vr_results := vr_results r @ [None]\<rparr>
   | Some k \<Rightarrow> if vr_state r \<noteq> Recording then r\<lparr>vr_results := vr_results r @ [None]\<rparr>
       else r\<lparr>vr_state := Processing, vr_recs := (vr_recs r)[k := True]\<rparr>)"

definition rec_cancel :: "recorder \<Rightarrow> recorder" where
  "rec_cancel r = rec_stop (r\<lparr>vr_cancelled := True\<rparr>)"

definition rec_onstop :: "nat \<Rightarrow> int \<Rightarrow> real list option \<Rightarrow> recorder \<Rightarrow> recorder" where
  "rec_onstop k now decoded r =
     (if k \<ge> length (vr_recs r) \<or> \<not> vr_recs r ! k then r
      else let durationMs = now - vr_startedAt r; blob = concat (vr_chunks r); wasCancelled = vr_cancelled r;
               r1 = (rec_cleanup r)\<lparr>vr_recs := (vr_recs r)[k := False], vr_state := Idle\<rparr> in
        r1\<lparr>vr_results := vr_results r1 @
          [if wasCancelled \<or> blob = [] \<or> durationMs < 300 then None
           else Some \<lparr>vn_blob = blob, vn_durationMs = durationMs, vn_waveform = buildWaveform decoded\<rparr>]\<rparr>)"

datatype rec_event =
    StartPressed
  | MicSettles bool bool int
  | DataAvailable bytes
  | Tick int
  | StopPressed
  | CancelPressed
  | RecorderStops nat int "real list option"
  | Unmounts

fun rec_step :: "rec_event \<Rightarrow> recorder \<Rightarrow> recorder" where
  "rec_step StartPressed r = rec_start r"
| "rec_step (MicSettles granted recordable now) r = mic_settles granted recordable now r"
| "rec_step (DataAvailable d) r = data_available d r"
| "rec_step (Tick now) r = (if vr_timers r = 0 then r else r\<lparr>vr_elapsedMs := now - vr_startedAt r\<rparr>)"
| "rec_step StopPressed r = rec_stop r"
| "rec_step CancelPressed r = rec_cancel r"
| "rec_step (RecorderStops k now decoded) r = rec_onstop k now decoded r"
| "rec_step Unmounts r = rec_cleanup r"

subsection \<open>The microphone\<close>

definition live_mics :: "recorder \<Rightarrow> nat set" where
  "live_mics r = {m. m < length (vr_mics r) \<and> vr_mics r ! m}"

text \<open>
  \<open>patient evs r\<close>: the person waits for the microphone's answer before starting again, and the component is
  not taken down while it is being opened.
\<close>

fun patient :: "rec_event list \<Rightarrow> recorder \<Rightarrow> bool" where
  "patient [] r \<longleftrightarrow> True"
| "patient (e # es) r \<longleftrightarrow> (vr_opening r > 0 \<longrightarrow> e \<notin> {StartPressed, Unmounts}) \<and> patient es (rec_step e r)"

definition rec_inv :: "recorder \<Rightarrow> bool" where
  "rec_inv r \<longleftrightarrow> live_mics r \<subseteq> set_option (vr_stream r) \<and>
     (vr_opening r \<le> 1) \<and> (vr_opening r = 1 \<longrightarrow> vr_state r = Idle \<or> vr_stream r = None) \<and>
     (vr_state r = Idle \<longrightarrow> vr_stream r = None)"

lemma live_cleanup: "live_mics (rec_cleanup r) = live_mics r - set_option (vr_stream r)"
proof (cases "vr_stream r")
  case (Some m)
  then have "(vr_mics r)[m := False] ! x \<longleftrightarrow> x \<noteq> m \<and> vr_mics r ! x" if "x < length (vr_mics r)" for x
    using that by (cases "x = m") auto
  with Some show ?thesis by (auto simp: live_mics_def rec_cleanup_def)
qed (simp add: live_mics_def rec_cleanup_def)

lemma cleanup_fields [simp]:
  "vr_stream (rec_cleanup r) = None" "vr_state (rec_cleanup r) = vr_state r" "vr_opening (rec_cleanup r) = vr_opening r"
  "vr_results (rec_cleanup r) = vr_results r" "vr_recs (rec_cleanup r) = vr_recs r"
  by (simp_all add: rec_cleanup_def)

lemma live_same: "vr_mics r' = vr_mics r \<Longrightarrow> live_mics r' = live_mics r"
  by (simp add: live_mics_def)

lemma rec_inv_cleanup: "rec_inv r \<Longrightarrow> rec_inv (rec_cleanup r)"
  by (auto simp: rec_inv_def live_cleanup)

lemma rec_inv_mic:
  assumes "rec_inv r"
  shows "rec_inv (mic_settles granted recordable now r)"
proof (cases "vr_opening r = 0")
  case False
  then have one: "vr_opening r = 1" "vr_stream r = None" using assms by (auto simp: rec_inv_def)
  then have none: "live_mics r = {}" using assms by (simp add: rec_inv_def)
  let ?r1 = "r\<lparr>vr_opening := 0, vr_mics := vr_mics r @ [True], vr_stream := Some (length (vr_mics r))\<rparr>"
  have "live_mics ?r1 = {length (vr_mics r)}" using none by (auto simp: live_mics_def nth_append less_Suc_eq)
  then show ?thesis
    using one none live_cleanup [of ?r1] live_cleanup [of "r\<lparr>vr_opening := 0\<rparr>"] live_same [of "r\<lparr>vr_opening := 0\<rparr>" r]
    by (auto simp: mic_settles_def Let_def rec_inv_def live_mics_def [of "_\<lparr>vr_recs := _, vr_recorder := _, vr_chunks := _,
        vr_cancelled := _, vr_startedAt := _, vr_elapsedMs := _, vr_timers := _, vr_state := _\<rparr>"] live_mics_def [of ?r1])
qed (simp add: mic_settles_def assms)

lemma rec_inv_step: "rec_inv r \<Longrightarrow> (vr_opening r > 0 \<longrightarrow> e \<noteq> StartPressed \<and> e \<noteq> Unmounts) \<Longrightarrow> rec_inv (rec_step e r)"
proof (cases e)
  case (RecorderStops k now decoded)
  then show "rec_inv r \<Longrightarrow> ?thesis"
    using live_cleanup [of r]
    by (auto simp: rec_onstop_def Let_def rec_inv_def live_mics_def [of "_\<lparr>vr_results := _\<rparr>"] live_mics_def [of "rec_cleanup r"])
qed (auto simp: rec_inv_mic rec_inv_cleanup, auto simp: rec_inv_def rec_start_def data_available_def rec_stop_def rec_cancel_def
    live_mics_def split: option.splits)

definition good_note :: "voice_note option \<Rightarrow> bool" where
  "good_note n \<longleftrightarrow> (case n of None \<Rightarrow> True | Some v \<Rightarrow> vn_blob v \<noteq> [] \<and> vn_durationMs v \<ge> 300 \<and>
     (vn_waveform v = [] \<or> length (vn_waveform v) = 48 \<and> (\<forall>p \<in> set (vn_waveform v). 0 \<le> p \<and> p \<le> 255)))"

lemma good_waveform: "buildWaveform d = [] \<or> length (buildWaveform d) = 48 \<and> (\<forall>p \<in> set (buildWaveform d). 0 \<le> p \<and> p \<le> 255)"
  using computePeaks_fits [of WAVEFORM_BARS] by (auto simp: buildWaveform_def WAVEFORM_BARS_def split: option.split)

lemma good_results_step: "list_all good_note (vr_results r) \<Longrightarrow> list_all good_note (vr_results (rec_step e r))"
  using good_waveform
  by (cases e) (auto simp: rec_start_def mic_settles_def data_available_def rec_stop_def rec_cancel_def rec_onstop_def good_note_def
      Let_def split: option.split)

text \<open>
  The microphone is on only while a note is being recorded. As long as nobody presses the button again
  or leaves while it is being opened, at most the current stream is live, none is when the recorder is
  idle, and taking the component down turns it off. A note that comes out has sound in it, lasts at least
  300 milliseconds and has an envelope of 48 bytes or none.
\<close>

theorem recorder_releases_microphone:
  assumes "patient evs recorder_start"
  shows "let r = fold rec_step evs recorder_start in
    live_mics r \<subseteq> set_option (vr_stream r) \<and> (vr_state r = Idle \<longrightarrow> live_mics r = {}) \<and>
    live_mics (rec_step Unmounts r) = {} \<and> list_all good_note (vr_results r)"
proof -
  have "patient evs r \<Longrightarrow> rec_inv r \<Longrightarrow> rec_inv (fold rec_step evs r)" for r
    by (induction evs arbitrary: r) (simp_all add: rec_inv_step)
  then have "rec_inv (fold rec_step evs recorder_start)"
    using assms by (simp add: rec_inv_def recorder_start_def live_mics_def)
  moreover have "list_all good_note (vr_results (fold rec_step evs r))" if "list_all good_note (vr_results r)" for r
    using that by (induction evs arbitrary: r) (simp_all add: good_results_step)
  ultimately show ?thesis by (auto simp: Let_def rec_inv_def live_cleanup recorder_start_def)
qed

definition one_recording :: "rec_event list" where
  "one_recording = [StartPressed, MicSettles True True 1000, DataAvailable [1, 2], StopPressed, RecorderStops 0 2500 None]"

lemmas rec_eval = recorder_start_def rec_start_def mic_settles_def rec_cleanup_def data_available_def rec_stop_def rec_onstop_def
  buildWaveform_def

theorem recorder_releases_microphone_witness:
  "let r = fold rec_step one_recording recorder_start in
     live_mics r = {} \<and> vr_results r = [Some \<lparr>vn_blob = [1, 2], vn_durationMs = 1500, vn_waveform = []\<rparr>]"
proof -
  have "patient one_recording recorder_start"
    by (simp add: one_recording_def rec_eval Let_def)
  moreover have "vr_state (fold rec_step one_recording recorder_start) = Idle"
    "vr_results (fold rec_step one_recording recorder_start) = [Some \<lparr>vn_blob = [1, 2], vn_durationMs = 1500, vn_waveform = []\<rparr>]"
    by (simp_all add: one_recording_def rec_eval Let_def)
  ultimately show ?thesis using recorder_releases_microphone [of one_recording] by (simp add: Let_def)
qed

text \<open>
  Leaving the conversation while the microphone is being opened leaves it on: the stream comes after the
  clean-up has run, recording begins in a component that is gone, and nothing is left to stop it. Pressing
  the button twice likewise opens two microphones, of which stopping turns off only the second.
\<close>

theorem recorder_can_leave_microphone_on:
  "live_mics (fold rec_step [StartPressed, Unmounts, MicSettles True True 0] recorder_start) = {0} \<and>
   (let r = fold rec_step [StartPressed, StartPressed, MicSettles True True 0, MicSettles True True 1, DataAvailable [1],
        StopPressed, RecorderStops 1 400 None] recorder_start in
      vr_state r = Idle \<and> live_mics r = {0} \<and> vr_timers r = 1)"
  by (auto simp: rec_eval Let_def live_mics_def less_Suc_eq)

end
