(* ===== verification/Rich_Text.thy ===== *)
theory Rich_Text
  imports Kisy_Prelude
begin

text \<open>
  The text of a message as it is drawn: \<open>shared/lib/richText.tsx\<close>. A regular expression of the source is
  the function that looks for it at a place (\<open>url_at\<close>, \<open>mention_at\<close>, \<open>marker_at\<close>) and returns the match and the
  rest; none of them can match the empty string, and no greedy repetition of them ever has to give
  characters back. A React element is a \<open>node\<close>, with the key the code gives it.

  The theorems: nothing of a text is lost or invented, every link leads to an \<open>http\<close> or \<open>https\<close> address that
  is the text it shows, keys do not repeat, and what the markers do to an address with underscores.
\<close>

subsection \<open>Regular expressions\<close>

text \<open>The class \<open>\s\<close> on UTF-8: the ASCII spaces, and the sequences of the Unicode ones.\<close>

definition wide_spaces :: "nat list list" where
  "wide_spaces = [[0xC2, 0xA0], [0xE1, 0x9A, 0x80], [0xE2, 0x80, 0xA8], [0xE2, 0x80, 0xA9], [0xE2, 0x80, 0xAF],
     [0xE2, 0x81, 0x9F], [0xE3, 0x80, 0x80], [0xEF, 0xBB, 0xBF]] @ map (\<lambda>k. [0xE2, 0x80, 0x80 + k]) [0..<11]"

definition space_at :: "string \<Rightarrow> bool" where
  "space_at s = (case s of [] \<Rightarrow> False | c # _ \<Rightarrow>
     of_char c \<in> {9, 10, 11, 12, 13, 32 :: nat} \<or> list_ex (\<lambda>w. prefix w (map of_char s)) wide_spaces)"

fun url_run :: "string \<Rightarrow> string \<times> string" where
  "url_run [] = ([], [])"
| "url_run (c # cs) = (if c = CHR ''<'' \<or> space_at (c # cs) then ([], c # cs)
     else case url_run cs of (a, b) \<Rightarrow> (c # a, b))"

text \<open>\<open>/https?:\/\/[^\s<]+/\<close>\<close>

definition scheme_at :: "string \<Rightarrow> string option" where
  "scheme_at s = (if prefix ''https://'' s then Some ''https://'' else if prefix ''http://'' s then Some ''http://'' else None)"

definition url_at :: "string \<Rightarrow> (string \<times> string) option" where
  "url_at s = (case scheme_at s of None \<Rightarrow> None | Some p \<Rightarrow>
     (case url_run (drop (length p) s) of (a, b) \<Rightarrow> if a = [] then None else Some (p @ a, b)))"

definition is_word :: "char \<Rightarrow> bool" where
  "is_word c \<longleftrightarrow> (let n = of_char c :: nat in 48 \<le> n \<and> n \<le> 57 \<or> 65 \<le> n \<and> n \<le> 90 \<or> n = 95 \<or> 97 \<le> n \<and> n \<le> 122)"

text \<open>\<open>/@[A-Za-z0-9_]{3,32}/\<close>\<close>

definition mention_at :: "string \<Rightarrow> (string \<times> string) option" where
  "mention_at s = (case s of [] \<Rightarrow> None | c # cs \<Rightarrow>
     (let w = takeWhile is_word (take 32 cs) in
      if c = CHR ''@'' \<and> length w \<ge> 3 then Some (c # w, drop (length w) cs) else None))"

datatype marker = Code | Strong | Del | Em

fun marker_char :: "marker \<Rightarrow> char" where
  "marker_char Code = CHR 0x60" | "marker_char Strong = CHR ''*''" | "marker_char Del = CHR ''~''" | "marker_char Em = CHR ''_''"

fun marker_text :: "marker \<Rightarrow> string" where
  "marker_text Strong = ''**''" | "marker_text Del = ''~~''" | "marker_text m = [marker_char m]"

definition MARKERS :: "marker list" where
  "MARKERS = [Code, Strong, Del, Em]"

text \<open>The marker, at least one character that is not the marker's, and the marker again.\<close>

definition marker_at :: "marker \<Rightarrow> string \<Rightarrow> (string \<times> string) option" where
  "marker_at m s =
    (let d = marker_text m; r = drop (length d) s;
         inner = takeWhile (\<lambda>c. c \<noteq> marker_char m) r; tl = dropWhile (\<lambda>c. c \<noteq> marker_char m) r in
     if prefix d s \<and> inner \<noteq> [] \<and> prefix d tl then Some (inner, drop (length d) tl) else None)"

text \<open>The leftmost match: what stands before it, what the group captured, what follows.\<close>

fun marker_match :: "marker \<Rightarrow> string \<Rightarrow> (string \<times> string \<times> string) option" where
  "marker_match m [] = None"
| "marker_match m (c # cs) = (case marker_at m (c # cs) of
     Some (inner, after) \<Rightarrow> Some ([], inner, after)
   | None \<Rightarrow> map_option (\<lambda>(b, r). (c # b, r)) (marker_match m cs))"

subsection \<open>Rendering\<close>

datatype node =
    PlainText string
  | Link nat string
  | Mention nat string
  | Wrap nat marker "node list"

definition push_text :: "string \<Rightarrow> node list" where
  "push_text s = (if s = [] then [] else [PlainText s])"

lemma url_run_append: "url_run s = (a, b) \<Longrightarrow> a @ b = s"
  by (induction s arbitrary: a b) (auto split: if_splits prod.splits)

lemma url_at_append: "url_at s = Some (u, r) \<Longrightarrow> s = u @ r \<and> u \<noteq> []"
  by (auto simp: url_at_def scheme_at_def split: if_splits prod.splits dest!: url_run_append elim!: prefixE)

lemma takeWhile_take_append [simp]:
  "takeWhile P (take n xs) @ drop (length (takeWhile P (take n xs))) xs = xs"
proof (induction xs arbitrary: n)
  case (Cons x xs) then show ?case by (cases n) simp_all
qed simp

lemma mention_at_append: "mention_at s = Some (u, r) \<Longrightarrow> s = u @ r \<and> u \<noteq> []"
  by (auto simp: mention_at_def Let_def split: list.splits if_splits)

text \<open>\<open>renderLeaf\<close>: \<open>plain\<close> is the text between the last match and here.\<close>

function leaf_from :: "string \<Rightarrow> string \<Rightarrow> nat \<Rightarrow> node list \<times> nat" where
  "leaf_from plain [] k = (push_text plain, k)"
| "leaf_from plain (c # cs) k =
    (case url_at (c # cs) of
       Some (u, rest) \<Rightarrow> (case leaf_from [] rest (k + 1) of (ns, k') \<Rightarrow> (push_text plain @ Link k u # ns, k'))
     | None \<Rightarrow>
       (case mention_at (c # cs) of
          Some (u, rest) \<Rightarrow> (case leaf_from [] rest (k + 1) of (ns, k') \<Rightarrow> (push_text plain @ Mention k u # ns, k'))
        | None \<Rightarrow> leaf_from (plain @ [c]) cs k))"
  by pat_completeness auto
termination leaf_from
proof (relation "measure (\<lambda>(_, s, _). length s)")
  show "wf (measure (\<lambda>(_ :: string, s :: string, _ :: nat). length s))" by simp
qed (auto dest!: url_at_append mention_at_append simp: Cons_eq_append_conv)

definition renderLeaf :: "string \<Rightarrow> nat \<Rightarrow> node list \<times> nat" where
  "renderLeaf s k = leaf_from [] s k"

fun best_marker :: "marker list \<Rightarrow> string \<Rightarrow> (marker \<times> string \<times> string \<times> string) option \<Rightarrow>
    (marker \<times> string \<times> string \<times> string) option" where
  "best_marker [] s best = best"
| "best_marker (m # ms) s best = best_marker ms s
    (case marker_match m s of
       None \<Rightarrow> best
     | Some (b, r) \<Rightarrow> (case best of None \<Rightarrow> Some (m, b, r) | Some (m', b', r') \<Rightarrow>
         if length b < length b' then Some (m, b, r) else best))"

lemma marker_at_append:
  "marker_at m s = Some (i, a) \<Longrightarrow> s = marker_text m @ i @ marker_text m @ a \<and> i \<noteq> []"
  by (auto simp: marker_at_def Let_def split: if_splits elim!: prefixE)
    (metis takeWhile_dropWhile_id)

lemma marker_match_append:
  "marker_match m s = Some (b, i, a) \<Longrightarrow> s = b @ marker_text m @ i @ marker_text m @ a \<and> i \<noteq> []"
proof (induction s arbitrary: b)
  case (Cons c cs)
  show ?case
  proof (cases "marker_at m (c # cs)")
    case None
    with Cons.prems obtain b' where "marker_match m cs = Some (b', i, a)" "b = c # b'"
      by auto
    with Cons.IH show ?thesis by auto
  next
    case (Some p)
    with Cons.prems show ?thesis by (auto dest!: marker_at_append)
  qed
qed simp

definition is_match :: "string \<Rightarrow> marker \<times> string \<times> string \<times> string \<Rightarrow> bool" where
  "is_match s = (\<lambda>(m, b, i, a). s = b @ marker_text m @ i @ marker_text m @ a)"

lemma best_marker_is_match:
  "best_marker ms s best = Some r \<Longrightarrow> pred_option (is_match s) best \<Longrightarrow> is_match s r"
proof (induction ms s best rule: best_marker.induct)
  case (2 m ms s best)
  have "is_match s (m, b, i, a)" if "marker_match m s = Some (b, i, a)" for b i a
    using marker_match_append [OF that] by (simp add: is_match_def)
  then show ?case
    by (intro "2.IH" [OF "2.prems"(1) [simplified]])
      (use "2.prems"(2) in \<open>auto split: option.splits if_splits\<close>)
qed simp

lemma best_marker_append:
  "best_marker ms s None = Some (m, b, i, a) \<Longrightarrow> s = b @ marker_text m @ i @ marker_text m @ a"
  using best_marker_is_match [of ms s None] by (auto simp: is_match_def)

lemma marker_text_nonempty [simp]: "marker_text m \<noteq> []"
  by (cases m) simp_all

text \<open>\<open>renderInline\<close>; the inner text takes its keys before the element around it, as arguments are evaluated.\<close>

function renderInline :: "string \<Rightarrow> nat \<Rightarrow> node list \<times> nat" where
  "renderInline s k = (case best_marker MARKERS s None of
     None \<Rightarrow> renderLeaf s k
   | Some (m, before, inner, after) \<Rightarrow>
       (case renderLeaf before k of (ns1, k1) \<Rightarrow>
        case renderInline inner k1 of (ns2, k2) \<Rightarrow>
        case renderInline after (k2 + 1) of (ns3, k3) \<Rightarrow> (ns1 @ Wrap k2 m ns2 # ns3, k3)))"
  by pat_completeness auto
termination renderInline
proof (relation "measure (\<lambda>(s, _). length s)")
  show "wf (measure (\<lambda>(s :: string, _ :: nat). length s))" by simp
qed (auto dest!: best_marker_append simp: less_Suc_eq_le)

declare renderInline.simps [simp del]

text \<open>\<open>renderRichText\<close>: \<open>split(/```/)\<close>; the odd parts are the insides of fences.\<close>

definition fence :: string where
  "fence = [CHR 0x60, CHR 0x60, CHR 0x60]"

function split_fence :: "string \<Rightarrow> string list" where
  "split_fence [] = [[]]"
| "split_fence (c # cs) = (if prefix fence (c # cs) then [] # split_fence (drop 2 cs)
     else case split_fence cs of p # ps \<Rightarrow> (c # p) # ps | [] \<Rightarrow> [[c]])"
  by pat_completeness auto
termination split_fence
  by (relation "measure length") auto

definition code_text :: "string \<Rightarrow> string" where
  "code_text part = (let s = (if prefix [CHR 0x0A] part then tl part else part) in
     if suffix [CHR 0x0A] s then butlast s else s)"

datatype block = CodeBlock nat string | Fragment nat "node list"

fun render_parts :: "nat \<Rightarrow> string list \<Rightarrow> nat \<Rightarrow> block list" where
  "render_parts i [] k = []"
| "render_parts i (p # ps) k = (if i mod 2 = 1 then CodeBlock i (code_text p) # render_parts (i + 1) ps k
     else case renderInline p k of (ns, k') \<Rightarrow> Fragment i ns # render_parts (i + 1) ps k')"

definition renderRichText :: "string \<Rightarrow> block list" where
  "renderRichText s = render_parts 0 (split_fence s) 0"

fun firstUrl :: "string \<Rightarrow> string option" where
  "firstUrl [] = None"
| "firstUrl (c # cs) = (case url_at (c # cs) of Some (u, _) \<Rightarrow> Some u | None \<Rightarrow> firstUrl cs)"

subsection \<open>Nothing is lost\<close>

text \<open>The text a node was made from, its markers included.\<close>

fun node_source :: "node \<Rightarrow> string" where
  "node_source (PlainText s) = s"
| "node_source (Link k u) = u"
| "node_source (Mention k u) = u"
| "node_source (Wrap k m ns) = marker_text m @ concat (map node_source ns) @ marker_text m"

lemma push_text_source [simp]: "concat (map node_source (push_text s)) = s"
  by (simp add: push_text_def)

lemma leaf_induct [case_names Nil Url Mention Skip]:
  assumes "\<And>plain k. P plain [] k (push_text plain, k)"
    and "\<And>plain s k u rest ns k'. url_at s = Some (u, rest) \<Longrightarrow> P [] rest (k + 1) (ns, k') \<Longrightarrow>
      P plain s k (push_text plain @ Link k u # ns, k')"
    and "\<And>plain s k u rest ns k'. mention_at s = Some (u, rest) \<Longrightarrow> P [] rest (k + 1) (ns, k') \<Longrightarrow>
      P plain s k (push_text plain @ Mention k u # ns, k')"
    and "\<And>plain c cs k r. P (plain @ [c]) cs k r \<Longrightarrow> P plain (c # cs) k r"
  shows "P plain s k (leaf_from plain s k)"
proof (induction plain s k rule: leaf_from.induct)
  case (2 plain c cs k)
  show ?case
  proof (cases "url_at (c # cs)")
    case url: None
    show ?thesis
    proof (cases "mention_at (c # cs)")
      case None
      with url show ?thesis using assms(4) "2.IH" by simp
    next
      case (Some p)
      then obtain u rest where "mention_at (c # cs) = Some (u, rest)" by (cases p) simp
      with url show ?thesis using assms(3) "2.IH" by (auto split: prod.splits)
    qed
  next
    case (Some p)
    then obtain u rest where "url_at (c # cs) = Some (u, rest)" by (cases p) simp
    then show ?thesis using assms(2) "2.IH" by (auto split: prod.splits)
  qed
qed (simp add: assms(1))

lemma inline_induct [case_names Leaf Marker]:
  assumes "\<And>s k. P s k (renderLeaf s k)"
    and "\<And>m b i a k n1 k1 n2 k2 n3 k3. renderLeaf b k = (n1, k1) \<Longrightarrow> P b k (n1, k1) \<Longrightarrow> P i k1 (n2, k2) \<Longrightarrow>
      P a (k2 + 1) (n3, k3) \<Longrightarrow> P (b @ marker_text m @ i @ marker_text m @ a) k (n1 @ Wrap k2 m n2 # n3, k3)"
  shows "P s k (renderInline s k)"
proof (induction s k rule: renderInline.induct)
  case (1 s k)
  show ?case
  proof (cases "best_marker MARKERS s None")
    case None
    then show ?thesis by (simp add: renderInline.simps [of s] assms(1))
  next
    case (Some r)
    then obtain m b i a where best: "best_marker MARKERS s None = Some (m, b, i, a)" by (cases r) simp
    obtain n1 k1 n2 k2 n3 k3 where runs: "renderLeaf b k = (n1, k1)" "renderInline i k1 = (n2, k2)"
      "renderInline a (k2 + 1) = (n3, k3)" by (metis surj_pair)
    have "P i k1 (n2, k2)" "P a (k2 + 1) (n3, k3)"
      using "1.IH"(1) [OF best refl refl refl runs(1) [symmetric]]
        "1.IH"(2) [OF best refl refl refl runs(1) [symmetric] runs(2) [symmetric]] runs by simp_all
    moreover have "P b k (n1, k1)" using assms(1) [of b k] runs by simp
    ultimately have "P s k (n1 @ Wrap k2 m n2 # n3, k3)"
      using assms(2) [OF runs(1)] best_marker_append [OF best] by metis
    then show ?thesis using best runs by (simp add: renderInline.simps [of s])
  qed
qed

lemma leaf_from_source: "concat (map node_source (fst (leaf_from plain s k))) = plain @ s"
  by (rule leaf_induct [where P = "\<lambda>plain s k r. concat (map node_source (fst r)) = plain @ s"])
    (auto dest: url_at_append mention_at_append)

lemma renderInline_source: "concat (map node_source (fst (renderInline s k))) = s"
  by (rule inline_induct [where P = "\<lambda>s k r. concat (map node_source (fst r)) = s"])
    (simp_all add: renderLeaf_def leaf_from_source)

definition join_parts :: "string list \<Rightarrow> string" where
  "join_parts ps = (case ps of [] \<Rightarrow> [] | p # qs \<Rightarrow> p @ concat (map (\<lambda>q. fence @ q) qs))"

lemma split_fence_nonempty: "split_fence s \<noteq> []"
  by (induction s rule: split_fence.induct) (auto split: list.splits)

lemma split_fence_join: "join_parts (split_fence s) = s"
proof (induction s rule: split_fence.induct)
  case (2 c cs)
  show ?case
  proof (cases "prefix fence (c # cs)")
    case True
    then have cut: "fence @ drop 2 cs = c # cs" by (auto simp: fence_def elim!: prefixE)
    obtain p ps where "split_fence (drop 2 cs) = p # ps"
      using split_fence_nonempty [of "drop 2 cs"] by (cases "split_fence (drop 2 cs)") auto
    with True 2(1) [OF True] cut show ?thesis by (simp add: join_parts_def)
  next
    case False
    with 2 split_fence_nonempty [of cs] show ?thesis
      by (auto simp: join_parts_def split: list.splits)
  qed
qed (simp add: join_parts_def)

definition block_shows :: "string \<Rightarrow> block \<Rightarrow> bool" where
  "block_shows part b = (case b of
     Fragment i ns \<Rightarrow> i mod 2 = 0 \<and> concat (map node_source ns) = part
   | CodeBlock i code \<Rightarrow> i mod 2 = 1 \<and> code = code_text part)"

lemma render_parts_shows: "list_all2 block_shows ps (render_parts i ps k)"
proof (induction ps arbitrary: i k)
  case (Cons p ps)
  then show ?case
    using renderInline_source [of p k]
    by (auto simp: block_shows_def [of _ "Fragment _ _"] block_shows_def [of _ "CodeBlock _ _"] odd_iff_mod_2_eq_one
      split: prod.splits)
qed simp

text \<open>
  C34. What is drawn is the whole text, and nothing else. The text is cut at its code fences into parts, one
  block is drawn for each in order; putting the markers back around the nodes of an even part gives that
  part exactly, and an odd part is drawn verbatim but for one line break at either end.
\<close>

theorem rich_text_loses_nothing:
  "join_parts (split_fence s) = s \<and> list_all2 block_shows (split_fence s) (renderRichText s)"
  by (simp add: split_fence_join renderRichText_def render_parts_shows)

subsection \<open>Links\<close>

fun node_links :: "node \<Rightarrow> string list" where
  "node_links (Link k u) = [u]"
| "node_links (Wrap k m ns) = concat (map node_links ns)"
| "node_links _ = []"

fun block_links :: "block \<Rightarrow> string list" where
  "block_links (Fragment i ns) = concat (map node_links ns)"
| "block_links (CodeBlock i code) = []"

text \<open>An address: the scheme, then at least one character, none of them \<open><\<close> or the start of white space.\<close>

definition safe_url :: "string \<Rightarrow> bool" where
  "safe_url u \<longleftrightarrow> (\<exists>a. (u = ''http://'' @ a \<or> u = ''https://'' @ a) \<and> a \<noteq> [] \<and>
     (\<forall>c\<in>set a. c \<noteq> CHR ''<'' \<and> of_char c \<notin> {9, 10, 11, 12, 13, 32 :: nat}))"

lemma url_run_safe: "url_run s = (a, b) \<Longrightarrow> c \<in> set a \<Longrightarrow> c \<noteq> CHR ''<'' \<and> of_char c \<notin> {9, 10, 11, 12, 13, 32 :: nat}"
proof (induction s arbitrary: a)
  case (Cons d s)
  show ?case
  proof (cases "d = CHR ''<'' \<or> space_at (d # s)")
    case False
    then have d: "d \<noteq> CHR ''<''" "of_char d \<notin> {9, 10, 11, 12, 13, 32 :: nat}" by (auto simp: space_at_def)
    from False Cons.prems(1) obtain a' where a': "url_run s = (a', b)" "a = d # a'" by (auto split: prod.splits)
    show ?thesis
    proof (cases "c = d")
      case False
      with a' Cons.prems(2) show ?thesis by (intro Cons.IH [OF a'(1)]) simp
    qed (use d in simp)
  qed (use Cons.prems in auto)
qed simp

lemma url_at_safe: "url_at s = Some (u, r) \<Longrightarrow> safe_url u"
  unfolding url_at_def scheme_at_def safe_url_def
  by (auto split: if_splits prod.splits dest: url_run_safe)

lemma push_text_links [simp]: "concat (map node_links (push_text s)) = []"
  by (simp add: push_text_def)

lemma renderInline_links: "\<forall>u\<in>set (concat (map node_links (fst (renderInline s k)))). safe_url u"
proof (rule inline_induct [where P = "\<lambda>s k r. \<forall>u\<in>set (concat (map node_links (fst r))). safe_url u"])
  fix s k
  show "\<forall>u\<in>set (concat (map node_links (fst (renderLeaf s k)))). safe_url u"
    unfolding renderLeaf_def
    by (rule leaf_induct [where P = "\<lambda>plain s k r. \<forall>u\<in>set (concat (map node_links (fst r))). safe_url u"])
      (auto simp del: set_concat simp: url_at_safe)
qed (auto simp del: set_concat)

lemma render_parts_links: "b \<in> set (render_parts i ps k) \<Longrightarrow> u \<in> set (block_links b) \<Longrightarrow> safe_url u"
proof (induction ps arbitrary: i k)
  case (Cons p ps)
  obtain ns k' where "renderInline p k = (ns, k')" by (metis surj_pair)
  with Cons show ?case using renderInline_links [of p k] by (auto split: if_splits)
qed simp

text \<open>
  C35. Whatever the text, every link that is drawn leads to an \<open>http\<close> or \<open>https\<close> address with something after
  the scheme and neither \<open><\<close> nor ASCII white space in it; there is no link inside a code block. (A link shows
  its own address: \<open>Link\<close> has one string for both.)
\<close>

theorem rich_text_links_are_http:
  "list_all (\<lambda>b. list_all safe_url (block_links b)) (renderRichText s)"
  by (auto simp: list_all_iff renderRichText_def dest: render_parts_links)

fun node_keys :: "node \<Rightarrow> nat list" where
  "node_keys (PlainText s) = []"
| "node_keys (Link k u) = [k]"
| "node_keys (Mention k u) = [k]"
| "node_keys (Wrap k m ns) = concat (map node_keys ns) @ [k]"

fun block_keys :: "block \<Rightarrow> nat list" where
  "block_keys (Fragment i ns) = concat (map node_keys ns)"
| "block_keys (CodeBlock i code) = []"

lemma push_text_keys [simp]: "concat (map node_keys (push_text s)) = []"
  by (simp add: push_text_def)

lemma leaf_from_keys:
  "k \<le> snd (leaf_from plain s k) \<and> concat (map node_keys (fst (leaf_from plain s k))) = [k..<snd (leaf_from plain s k)]"
  by (rule leaf_induct [where P = "\<lambda>plain s k r. k \<le> snd r \<and> concat (map node_keys (fst r)) = [k..<snd r]"])
    (auto simp: upt_conv_Cons)

lemma upt_split: "(a :: nat) \<le> b \<Longrightarrow> b \<le> c \<Longrightarrow> [a..<b] @ [b..<c] = [a..<c]"
  by (metis le_add_diff_inverse upt_add_eq_append)

lemma upt_around: "(a :: nat) \<le> b \<Longrightarrow> b \<le> c \<Longrightarrow> Suc c \<le> d \<Longrightarrow> [a..<b] @ [b..<c] @ c # [Suc c..<d] = [a..<d]"
  by (metis Suc_le_eq le_trans less_imp_le_nat upt_split upt_conv_Cons)

lemma renderInline_keys:
  "k \<le> snd (renderInline s k) \<and> concat (map node_keys (fst (renderInline s k))) = [k..<snd (renderInline s k)]"
proof (rule inline_induct [where P = "\<lambda>s k r. k \<le> snd r \<and> concat (map node_keys (fst r)) = [k..<snd r]"], goal_cases)
  case (1 s k)
  show ?case unfolding renderLeaf_def by (rule leaf_from_keys)
next
  case (2 m b i a k n1 k1 n2 k2 n3 k3)
  then show ?case using upt_around [of k k1 k2 k3] by simp
qed

lemma render_parts_keys: "\<exists>n\<ge>k. concat (map block_keys (render_parts i ps k)) = [k..<n]"
proof (induction ps arbitrary: i k)
  case (Cons p ps)
  obtain ns k' where run: "renderInline p k = (ns, k')" by (metis surj_pair)
  then have "k \<le> k'" "concat (map node_keys ns) = [k..<k']" using renderInline_keys [of k p] by simp_all
  moreover obtain n where "k' \<le> n" "concat (map block_keys (render_parts (i + 1) ps k')) = [k'..<n]"
    using Cons.IH by blast
  ultimately have "\<exists>n\<ge>k. concat (map node_keys ns) @ concat (map block_keys (render_parts (i + 1) ps k')) = [k..<n]"
    by (metis le_trans upt_split)
  with Cons.IH [of k "i + 1"] run show ?case by auto
qed auto

text \<open>
  The keys of the elements of a message, in the order they are evaluated, are 0, 1, 2 and so on: no two
  elements share one.
\<close>

theorem rich_text_keys_consecutive: "\<exists>n. concat (map block_keys (renderRichText s)) = [0..<n]"
  using render_parts_keys [of 0] by (auto simp: renderRichText_def)

subsection \<open>Addresses with underscores\<close>

definition addr_char :: "char \<Rightarrow> bool" where
  "addr_char c \<longleftrightarrow> is_word c \<or> c \<in> set ''./-?=&%#:''"

lemma addr_char_plain:
  assumes "addr_char c"
  shows "of_char c < (123 :: nat)" "of_char c > (32 :: nat)" "c \<noteq> CHR ''<''" "c \<noteq> CHR 0x60" "c \<noteq> CHR ''*''" "c \<noteq> CHR ''~''"
  using assms by (auto simp: addr_char_def is_word_def Let_def)

lemma wide_space_head: "w \<in> set wide_spaces \<Longrightarrow> \<exists>n ns. w = n # ns \<and> 194 \<le> n"
  by (auto simp: wide_spaces_def)

lemma addr_char_no_space: "addr_char c \<Longrightarrow> \<not> space_at (c # cs)"
  using addr_char_plain(1,2) [of c] by (auto simp: space_at_def list_ex_iff dest!: wide_space_head)

lemma url_run_addr: "list_all addr_char s \<Longrightarrow> url_run s = (s, [])"
  by (induction s) (auto simp: addr_char_no_space dest: addr_char_plain(3))

lemma url_at_addr: "list_all addr_char s \<Longrightarrow> s \<noteq> [] \<Longrightarrow> url_at (''https://'' @ s) = Some (''https://'' @ s, [])"
  by (simp add: url_at_def scheme_at_def url_run_addr)

lemma marker_at_absent: "marker_char m \<notin> set s \<Longrightarrow> marker_at m s = None"
  by (cases m; cases s) (auto simp: marker_at_def Let_def)

lemma marker_match_absent: "marker_char m \<notin> set s \<Longrightarrow> marker_match m s = None"
  by (induction s) (simp_all add: marker_at_absent del: marker_char.simps)

lemma marker_match_Em:
  "CHR ''_'' \<notin> set b \<Longrightarrow> CHR ''_'' \<notin> set q \<Longrightarrow> q \<noteq> [] \<Longrightarrow> marker_match Em (b @ ''_'' @ q @ ''_'' @ r) = Some (b, q, r)"
proof (induction b)
  case Nil
  then have "takeWhile (\<lambda>c. c \<noteq> CHR ''_'') (q @ ''_'' @ r) = q" "dropWhile (\<lambda>c. c \<noteq> CHR ''_'') (q @ ''_'' @ r) = ''_'' @ r"
    by (subst takeWhile_append2 dropWhile_append2; auto)+
  with Nil show ?case by (simp add: marker_at_def Let_def)
next
  case (Cons c b)
  then show ?case by (simp add: marker_at_def Let_def)
qed

text \<open>
  An address with two underscores is cut: for an address \<open>p_q_r\<close> the link that is drawn leads to \<open>p\<close> alone,
  while the preview is looked up for the whole of it.
\<close>

theorem underscores_cut_a_link:
  assumes "p \<noteq> []" and "q \<noteq> []" and "list_all addr_char (p @ q @ r)" and "CHR ''_'' \<notin> set (p @ q)"
  shows "hd (fst (renderInline (''https://'' @ p @ ''_'' @ q @ ''_'' @ r) k)) = Link k (''https://'' @ p) \<and>
    firstUrl (''https://'' @ p @ ''_'' @ q @ ''_'' @ r) = Some (''https://'' @ p @ ''_'' @ q @ ''_'' @ r)"
proof -
  let ?s = "''https://'' @ p @ ''_'' @ q @ ''_'' @ r"
  have word: "addr_char (CHR ''_'')" by (simp add: addr_char_def is_word_def)
  then have all: "list_all addr_char (p @ ''_'' @ q @ ''_'' @ r)" "list_all addr_char p" using assms(3) by simp_all
  then have "list_all addr_char ?s" by (simp add: addr_char_def is_word_def)
  then have plain: "c \<noteq> CHR 0x60 \<and> c \<noteq> CHR ''*'' \<and> c \<noteq> CHR ''~''" if "c \<in> set ?s" for c
    using that addr_char_plain(4-6) [of c] unfolding list_all_iff by blast
  have none: "marker_match Code ?s = None" "marker_match Strong ?s = None" "marker_match Del ?s = None"
    by (rule marker_match_absent, use plain in force)+
  have em: "marker_match Em ?s = Some (''https://'' @ p, q, r)"
    using marker_match_Em [of "''https://'' @ p" q r] assms by simp
  have best: "best_marker MARKERS ?s None = Some (Em, ''https://'' @ p, q, r)"
    by (simp only: MARKERS_def best_marker.simps none em option.case prod.case)
  have leaf: "renderLeaf (''https://'' @ p) k = ([Link k (''https://'' @ p)], k + 1)"
    using url_at_addr [OF all(2) assms(1)] by (simp add: renderLeaf_def push_text_def)
  have "hd (fst (renderInline ?s k)) = Link k (''https://'' @ p)"
    by (simp only: renderInline.simps [of ?s] best option.case prod.case leaf) (simp split: prod.splits)
  moreover have "firstUrl ?s = Some ?s" using url_at_addr [OF all(1)] by simp
  ultimately show ?thesis by blast
qed

theorem underscores_cut_a_link_witness:
  "hd (fst (renderInline ''https://kisy.ru/my_team_notes'' 0)) = Link 0 ''https://kisy.ru/my'' \<and>
   firstUrl ''https://kisy.ru/my_team_notes'' = Some ''https://kisy.ru/my_team_notes''"
  using underscores_cut_a_link [of "''kisy.ru/my''" "''team''" "''notes''" 0] by (simp add: addr_char_def is_word_def)

end
