(* ===== verification/Conversation.thy ===== *)
theory Conversation
  imports Message_Send Message_Cache Client_Stores Rich_Text Endpoints
begin

text \<open>
  An open chat: the state and the handlers of \<open>widgets/conversation/Conversation.tsx\<close>, the decisions of
  \<open>MessageBubble.tsx\<close> and \<open>LinkPreviewCard.tsx\<close>, and the sending of \<open>features/threads/ThreadPanel.tsx\<close>. A
  conversation is a state, a handler a function on it; what a handler asks of the server or shows to the
  person is appended to \<open>cv_log\<close>.

  A mutation of the query library runs the callbacks given to \<open>mutate\<close> depending on which call of the
  mutation settles and which was the newest; that is outside the repository and a parameter
  \<open>notify call newest\<close>. Its documentation says the callbacks run for the newest call only.
\<close>

subsection \<open>State\<close>

record conversation_target =
  ct_chatType :: chat_type
  ct_chatId :: string
  ct_title :: string
  ct_verified :: bool
  ct_avatarName :: string
  ct_avatarUrl :: "string option"
  ct_online :: bool
  ct_offlineLabel :: "string option"
  ct_otherLastReadAt :: "string option"
  ct_peerUserId :: "string option"

datatype notice = Bad ui_text | Good ui_text | GoodNamed string string | Info ui_text

record schedule_args =
  sc_text :: string
  sc_sendAt :: string
  sc_replyTo :: "string option"
  sc_attachmentIds :: "string list option"

datatype conv_out =
    SendOut send_args
  | ScheduleOut schedule_args
  | ForwardOut forward_target "message list"
  | CallOut api_call
  | CopyOut string
  | PageOut
  | ToastOut notice

record viewer_item =
  vi_id :: string
  vi_url :: string
  vi_fileName :: string

record conv =
  cv_cache :: page_cache
  cv_scheduledOpen :: bool
  cv_threadRoot :: "message option"
  cv_replyTo :: "message option"
  cv_panelOpen :: bool
  cv_actionsOpen :: bool
  cv_viewer :: "(viewer_item list \<times> nat) option"
  cv_highlightId :: "string option"
  cv_selected :: "string set"
  cv_forwardOpen :: bool
  cv_forwardSource :: "message list option"
  cv_sends :: "string list"
  cv_log :: "conv_out list"

definition conv_open :: "page_cache \<Rightarrow> conv" where
  "conv_open c = \<lparr>cv_cache = c, cv_scheduledOpen = False, cv_threadRoot = None, cv_replyTo = None, cv_panelOpen = False,
     cv_actionsOpen = False, cv_viewer = None, cv_highlightId = None, cv_selected = {}, cv_forwardOpen = False,
     cv_forwardSource = None, cv_sends = [], cv_log = []\<rparr>"

definition say :: "conv_out \<Rightarrow> conv \<Rightarrow> conv" where
  "say out s = s\<lparr>cv_log := cv_log s @ [out]\<rparr>"

definition conv_messages :: "conv \<Rightarrow> message list" where
  "conv_messages s = flattenMessages (cv_cache s)"

definition selectionMode :: "conv \<Rightarrow> bool" where
  "selectionMode s \<longleftrightarrow> cv_selected s \<noteq> {}"

definition liveThreadRoot :: "conv \<Rightarrow> message option" where
  "liveThreadRoot s = (case cv_threadRoot s of None \<Rightarrow> None | Some root \<Rightarrow>
     (case find (\<lambda>m. m_id m = m_id root) (conv_messages s) of Some m \<Rightarrow> Some m | None \<Rightarrow> Some root))"

definition typers :: "user \<Rightarrow> string \<Rightarrow> typing_store \<Rightarrow> string set" where
  "typers me chatId ts = (case byChat ts chatId of None \<Rightarrow> {} | Some us \<Rightarrow> us - {u_id me})"

subsection \<open>Delivery marks and reading\<close>

datatype delivery_status = StatusPending | StatusFailed | StatusSent | StatusRead

definition statusFor :: "user \<Rightarrow> chat_type \<Rightarrow> string option \<Rightarrow> message \<Rightarrow> delivery_status option" where
  "statusFor me chatType otherReadAt m =
     (if m_senderId m \<noteq> u_id me then None
      else if m_pending m then Some StatusPending
      else if m_failed m then Some StatusFailed
      else if chatType \<noteq> Private then None
      else case otherReadAt of
        None \<Rightarrow> Some StatusSent
      | Some r \<Rightarrow> Some (if r \<noteq> [] \<and> m_createdAt m \<le> r then StatusRead else StatusSent))"

text \<open>The effect on \<open>messages.length\<close>: mark the newest message that is not pending as read.\<close>

definition mark_newest_read :: "conversation_target \<Rightarrow> conv \<Rightarrow> conv" where
  "mark_newest_read tg s = (case find (\<lambda>m. \<not> m_pending m) (rev (conv_messages s)) of
     None \<Rightarrow> s
   | Some newest \<Rightarrow> say (CallOut (messagesApi_markRead (ct_chatType tg) (ct_chatId tg) (m_id newest))) s)"

subsection \<open>Sending\<close>

definition optimistic :: "user \<Rightarrow> conversation_target \<Rightarrow> string \<Rightarrow> string \<Rightarrow> string \<Rightarrow> string option \<Rightarrow> attachment list option \<Rightarrow> message" where
  "optimistic me tg tempId now txt replyTo atts =
     \<lparr>m_id = tempId, m_chatId = ct_chatId tg, m_chatType = ct_chatType tg, m_senderId = u_id me,
      m_text = (if txt = [] then None else Some txt), m_replyTo = replyTo,
      m_attachments = (case atts of None \<Rightarrow> [] | Some as \<Rightarrow> as), m_reactions = [], m_mentions = [], m_isDeleted = False,
      m_createdAt = now, m_deletedAt = None, m_editedAt = None, m_pinnedAt = None, m_readCount = None, m_readTotal = None,
      m_pending = True, m_failed = False, m_ciphertext = None, m_alg = None, m_epoch = None, m_contentKind = None,
      m_encrypted = False, m_undecryptable = False, m_forwardedFrom = None, m_senderName = None, m_scheduledId = None,
      m_expiresAt = None, m_threadRootId = None, m_threadReplyCount = None, m_threadLastReplyAt = None\<rparr>"

text \<open>\<open>uuid\<close> and \<open>now\<close> are what \<open>crypto.randomUUID()\<close> and \<open>new Date().toISOString()\<close> return.\<close>

definition handleSend :: "user \<Rightarrow> conversation_target \<Rightarrow> string \<Rightarrow> string \<Rightarrow> string \<Rightarrow> string option \<Rightarrow> attachment list option \<Rightarrow> conv \<Rightarrow> conv" where
  "handleSend me tg uuid now txt replyTo atts s =
     (let tempId = ''temp-'' @ uuid in
      case cache_insertPending (optimistic me tg tempId now txt replyTo atts) (cv_cache s) of
        Inl e \<Rightarrow> s
      | Inr c \<Rightarrow> say (SendOut \<lparr>sa_text = txt, sa_replyTo = replyTo, sa_attachmentIds = map_option (map a_id) atts,
                     sa_threadRootId = None\<rparr>) (s\<lparr>cv_cache := c, cv_sends := cv_sends s @ [tempId]\<rparr>))"

text \<open>The callbacks of the \<open>k\<close>-th send, when the query library runs them.\<close>

definition send_settles :: "(nat \<Rightarrow> nat \<Rightarrow> bool) \<Rightarrow> nat \<Rightarrow> js_error + message \<Rightarrow> conv \<Rightarrow> conv" where
  "send_settles notify k res s =
     (if k < length (cv_sends s) \<and> notify k (length (cv_sends s) - 1)
      then case res of
          Inr message \<Rightarrow> s\<lparr>cv_cache := cache_resolvePending (cv_sends s ! k) message (cv_cache s)\<rparr>
        | Inl e \<Rightarrow> say (ToastOut (Bad (userFacingError e (T ''chat.conv.sendFailed'' []))))
            (s\<lparr>cv_cache := cache_patch (cv_sends s ! k) (\<lambda>m. m\<lparr>m_pending := False, m_failed := True\<rparr>) (cv_cache s)\<rparr>)
      else s)"

definition handleSchedule :: "string \<Rightarrow> string \<Rightarrow> string option \<Rightarrow> attachment list option \<Rightarrow> conv \<Rightarrow> conv" where
  "handleSchedule txt sendAt replyTo atts s = say (ScheduleOut \<lparr>sc_text = txt, sc_sendAt = sendAt, sc_replyTo = replyTo,
     sc_attachmentIds = map_option (map a_id) atts\<rparr>) s"

definition schedule_settles :: "string \<Rightarrow> js_error + unit \<Rightarrow> conv \<Rightarrow> conv" where
  "schedule_settles day_and_time res s = say (ToastOut (case res of
      Inr _ \<Rightarrow> GoodNamed ''chat.conv.scheduled'' day_and_time
    | Inl e \<Rightarrow> Bad (userFacingError e (T ''chat.conv.scheduleFailed'' [])))) s"

subsection \<open>Acting on messages\<close>

definition handleDelete :: "message \<Rightarrow> conv \<Rightarrow> conv" where
  "handleDelete m = say (CallOut (messagesApi_remove (m_id m)))"

definition handleEdit :: "message \<Rightarrow> string \<Rightarrow> conv \<Rightarrow> conv" where
  "handleEdit m txt = say (CallOut (messagesApi_edit (m_id m) txt))"

definition handlePin :: "message \<Rightarrow> bool \<Rightarrow> conv \<Rightarrow> conv" where
  "handlePin m doPin = say (CallOut (if doPin then messagesApi_pin (m_id m) else messagesApi_unpin (m_id m)))"

definition handleReact :: "message \<Rightarrow> string \<Rightarrow> conv \<Rightarrow> conv" where
  "handleReact m emoji =
     (let existing = find (\<lambda>r. rs_emoji r = emoji) (m_reactions m);
          remove = (case existing of None \<Rightarrow> False | Some r \<Rightarrow> rs_reacted r) in
      say (CallOut (if remove then messagesApi_removeReaction (m_id m) emoji else messagesApi_addReaction (m_id m) emoji)))"

text \<open>What the person is told when one of these fails; \<open>k\<close> is the key of the text.\<close>

definition action_failed :: "string \<Rightarrow> conv \<Rightarrow> conv" where
  "action_failed k = say (ToastOut (Bad (T k [])))"

definition toggleSelect :: "message \<Rightarrow> conv \<Rightarrow> conv" where
  "toggleSelect m s = s\<lparr>cv_selected := (if m_id m \<in> cv_selected s then cv_selected s - {m_id m} else insert (m_id m) (cv_selected s))\<rparr>"

definition openForward :: "message list \<Rightarrow> conv \<Rightarrow> conv" where
  "openForward msgs s = (if msgs = [] then s else s\<lparr>cv_forwardSource := Some msgs, cv_forwardOpen := True\<rparr>)"

definition doForward :: "forward_target \<Rightarrow> conv \<Rightarrow> conv" where
  "doForward dest s = say (ForwardOut dest (case cv_forwardSource s of None \<Rightarrow> [] | Some ms \<Rightarrow> ms)) (s\<lparr>cv_forwardOpen := False\<rparr>)"

definition forward_settles :: "string \<Rightarrow> js_error + unit \<Rightarrow> conv \<Rightarrow> conv" where
  "forward_settles title res s = (case res of
     Inr _ \<Rightarrow> (say (ToastOut (GoodNamed ''chat.conv.forwarded'' title)) s)\<lparr>cv_selected := {}, cv_forwardSource := None\<rparr>
   | Inl e \<Rightarrow> say (ToastOut (Bad (case e of
         ApiErr a \<Rightarrow> if ae_status a = 403 then T ''chat.conv.forwardWiderAudience'' [] else userFacingError e (T ''chat.conv.forwardFailed'' [])
       | _ \<Rightarrow> userFacingError e (T ''chat.conv.forwardFailed'' [])))) s)"

definition selected_messages :: "conv \<Rightarrow> message list" where
  "selected_messages s = filter (\<lambda>m. m_id m \<in> cv_selected s) (conv_messages s)"

definition forwardSelected :: "conv \<Rightarrow> conv" where
  "forwardSelected s = openForward (selected_messages s) s"

fun join_blank :: "string list \<Rightarrow> string" where
  "join_blank [] = []"
| "join_blank [t] = t"
| "join_blank (t # ts) = t @ [CHR 0x0A, CHR 0x0A] @ join_blank ts"

definition copySelected :: "conv \<Rightarrow> conv" where
  "copySelected s =
     (let txt = join_blank (map text_of (filter (\<lambda>m. truthy (m_text m)) (selected_messages s))) in
      (if txt = [] then s else say (CopyOut txt) s)\<lparr>cv_selected := {}\<rparr>)"

definition canDelete :: "user \<Rightarrow> message \<Rightarrow> bool" where
  "canDelete me m \<longleftrightarrow> m_senderId m = u_id me \<or> u_roleLevel me = Some 1"

definition deleteSelected :: "user \<Rightarrow> conv \<Rightarrow> conv" where
  "deleteSelected me s = (fold handleDelete (filter (canDelete me) (selected_messages s)) s)\<lparr>cv_selected := {}\<rparr>"

definition item_of :: "attachment \<Rightarrow> viewer_item" where
  "item_of a = \<lparr>vi_id = a_id a, vi_url = a_url a, vi_fileName = a_fileName a\<rparr>"

fun find_index :: "('a \<Rightarrow> bool) \<Rightarrow> 'a list \<Rightarrow> nat option" where
  "find_index P [] = None"
| "find_index P (x # xs) = (if P x then Some 0 else map_option Suc (find_index P xs))"

definition openImageFromBubble :: "attachment \<Rightarrow> conv \<Rightarrow> conv" where
  "openImageFromBubble a s =
     (let images = map item_of (filter a_isImage (concat (map m_attachments (conv_messages s))));
          i = (case find_index (\<lambda>x. vi_id x = a_id a) images of None \<Rightarrow> 0 | Some k \<Rightarrow> k) in
      s\<lparr>cv_viewer := Some (if images \<noteq> [] then images else [item_of a], i)\<rparr>)"

definition openMediaFromPanel :: "attachment list \<Rightarrow> nat \<Rightarrow> conv \<Rightarrow> conv" where
  "openMediaFromPanel media i s = s\<lparr>cv_viewer := Some (map item_of media, i)\<rparr>"

text \<open>
  \<open>jumpToMessage\<close>: \<open>drawn n\<close> says whether the message is on the page after \<open>n\<close> more pages; \<open>hasNextPage\<close> is the
  value the handler was made with. The result is the number of pages asked for and whether it was found.
\<close>

function jump_from :: "(nat \<Rightarrow> bool) \<Rightarrow> bool \<Rightarrow> nat \<Rightarrow> nat \<times> bool" where
  "jump_from drawn hasNextPage attempts =
     (if drawn attempts then (attempts, True)
      else if attempts < 8 \<and> hasNextPage then jump_from drawn hasNextPage (attempts + 1)
      else (attempts, False))"
  by pat_completeness auto
termination jump_from
  by (relation "measure (\<lambda>(_, _, n). 8 - n)") auto

declare jump_from.simps [simp del]

definition jumpToMessage :: "(nat \<Rightarrow> bool) \<Rightarrow> bool \<Rightarrow> string option \<Rightarrow> conv \<Rightarrow> conv" where
  "jumpToMessage drawn hasNextPage i s =
     (if \<not> truthy i then s
      else case jump_from drawn hasNextPage 0 of (n, found) \<Rightarrow>
        (let s' = s\<lparr>cv_log := cv_log s @ replicate n PageOut\<rparr> in
         if found then s'\<lparr>cv_highlightId := i\<rparr> else say (ToastOut (Info (T ''chat.conv.originalUnavailable'' []))) s'))"

definition highlight_ends :: "string \<Rightarrow> conv \<Rightarrow> conv" where
  "highlight_ends i s = s\<lparr>cv_highlightId := (if cv_highlightId s = Some i then None else cv_highlightId s)\<rparr>"

definition previewFor :: "message list \<Rightarrow> string option \<Rightarrow> ui_text option" where
  "previewFor messages i =
     (if \<not> truthy i then None
      else case find (\<lambda>m. m_id m = the i) messages of
        None \<Rightarrow> None
      | Some parent \<Rightarrow> Some (if m_isDeleted parent then T ''chat.conv.deletedMessage'' [] else Plain (js_take 80 (text_of parent))))"

text \<open>The loop over the messages with \<open>lastDay\<close> and \<open>lastSender\<close>: what is drawn above each bubble.\<close>

fun rows_from :: "(string \<Rightarrow> string) \<Rightarrow> chat_type \<Rightarrow> string \<Rightarrow> string \<Rightarrow> message list \<Rightarrow> (message \<times> bool \<times> bool) list" where
  "rows_from formatDay chatType lastDay lastSender [] = []"
| "rows_from formatDay chatType lastDay lastSender (m # ms) =
     (let day = formatDay (m_createdAt m); showDay = (day \<noteq> lastDay);
          showSender = (chatType = Group \<and> (showDay \<or> m_senderId m \<noteq> lastSender)) in
      (m, showDay, showSender) # rows_from formatDay chatType day (m_senderId m) ms)"

definition conv_rows :: "(string \<Rightarrow> string) \<Rightarrow> chat_type \<Rightarrow> conv \<Rightarrow> (message \<times> bool \<times> bool) list" where
  "conv_rows formatDay chatType s = rows_from formatDay chatType [] [] (conv_messages s)"

subsection \<open>One bubble\<close>

definition isLocked :: "message \<Rightarrow> bool" where
  "isLocked m \<longleftrightarrow> m_undecryptable m \<and> \<not> truthy (m_text m)"

datatype bubble_action = React | MoreEmoji | Reply | OpenThread | Forward | Pin | Unpin | Timer | RemoveTimer | Edit | Delete | Report

definition bubble_actions :: "user \<Rightarrow> bool \<Rightarrow> bool \<Rightarrow> message \<Rightarrow> bubble_action list" where
  "bubble_actions me onSetExpiry onOpenThread m =
     (let mine = (m_senderId m = u_id me) in
      [React, MoreEmoji, Reply]
      @ (if onOpenThread \<and> \<not> truthy (m_threadRootId m) then [OpenThread] else [])
      @ (if m_undecryptable m then [] else [Forward])
      @ (if truthy (m_pinnedAt m) then [Unpin] else [Pin])
      @ (if mine \<and> onSetExpiry then Timer # (if truthy (m_expiresAt m) then [RemoveTimer] else []) else [])
      @ (if canEditMessage m (u_id me) then [Edit] else [])
      @ (if canDelete me m then [Delete] else [])
      @ (if mine then [] else [Report]))"

text \<open>The body of a bubble: a placeholder, the text as it is drawn, or nothing.\<close>

datatype bubble_body = Tombstone | Padlock | Rich "block list" | Blank

definition bubble_body_of :: "message \<Rightarrow> bubble_body" where
  "bubble_body_of m = (if m_isDeleted m then Tombstone else if isLocked m then Padlock
     else if truthy (m_text m) then Rich (renderRichText (text_of m)) else Blank)"

definition row_body :: "message \<Rightarrow> bubble_body" where
  "row_body m = (if m_isDeleted m then Tombstone else if truthy (m_text m) then Rich (renderRichText (text_of m))
     else if isLocked m then Padlock else Blank)"

definition saveEdit :: "message \<Rightarrow> string \<Rightarrow> conv \<Rightarrow> conv" where
  "saveEdit m draft s = (let txt = js_trim draft in if txt \<noteq> [] \<and> m_text m \<noteq> Some txt then handleEdit m txt s else s)"

text \<open>\<open>expiresIn\<close>, from the milliseconds left; \<open>Math.round\<close> of a positive quotient.\<close>

definition expiresIn :: "int \<Rightarrow> ui_text" where
  "expiresIn ms =
     (if ms \<le> 0 then T ''chat.bubble.expiring'' []
      else let minutes = (2 * ms + 60000) div 120000 in
        if minutes < 1 then T ''chat.bubble.expiresUnderMinute'' []
        else if minutes < 60 then T ''chat.bubble.expiresInMinutes'' [(''count'', minutes)]
        else let h = (2 * minutes + 60) div 120 in
          if h < 48 then T ''chat.bubble.expiresInHours'' [(''count'', h)]
          else T ''chat.bubble.expiresInDays'' [(''count'', (2 * h + 24) div 48)])"

text \<open>
  The card under a bubble (\<open>LinkPreviewCard\<close>, \<open>useLinkPreview\<close>): a preview is asked of the server at once
  for a message that is not marked as encrypted, otherwise once the person asked for it.
\<close>

definition previewUrl :: "conv \<Rightarrow> message \<Rightarrow> string option" where
  "previewUrl s m = (if m_isDeleted m \<or> selectionMode s \<or> \<not> truthy (m_text m) then None else firstUrl (text_of m))"

definition preview_request :: "bool \<Rightarrow> conv \<Rightarrow> message \<Rightarrow> api_call option" where
  "preview_request optedIn s m = (case previewUrl s m of
     Some u \<Rightarrow> if \<not> m_encrypted m \<or> optedIn then Some (linkPreviewApi_fetch u) else None
   | None \<Rightarrow> None)"

definition auto_previews :: "conv \<Rightarrow> api_call list" where
  "auto_previews s = List.map_filter (preview_request False s) (conv_messages s)"

subsection \<open>The conversation as a machine\<close>

datatype conv_event =
    SendPressed string string string "string option" "attachment list option"
  | SendSettles nat "js_error + message"
  | CacheWritten cache_op
  | SchedulePressed string string "string option" "attachment list option"
  | ScheduleSettles string "js_error + unit"
  | DeletePressed message
  | EditSaved message string
  | PinPressed message bool
  | ExpiryPressed message "nat option"
  | ExpirySettles "nat option" bool
  | ReactPressed message string
  | ActionFailed string
  | RowClicked message
  | CancelSelection
  | CopySelected
  | ForwardSelected
  | DeleteSelected
  | ForwardPressed message
  | ForwardPicked forward_target
  | ForwardClosed
  | ForwardSettles string "js_error + unit"
  | ReplyPressed message
  | ReplyCleared
  | ThreadOpened message
  | ThreadClosed
  | PanelToggled
  | PanelClosed
  | ActionsToggled
  | ScheduledShown bool
  | ImageOpened attachment
  | MediaOpened "attachment list" nat
  | ViewerMoved nat
  | ViewerClosed
  | JumpPressed "nat \<Rightarrow> bool" bool "string option"
  | HighlightEnds string
  | LengthChanged

fun conv_step :: "(nat \<Rightarrow> nat \<Rightarrow> bool) \<Rightarrow> user \<Rightarrow> conversation_target \<Rightarrow> conv_event \<Rightarrow> conv \<Rightarrow> conv" where
  "conv_step notify me tg (SendPressed uuid now txt r atts) s = handleSend me tg uuid now txt r atts s"
| "conv_step notify me tg (SendSettles k res) s = send_settles notify k res s"
| "conv_step notify me tg (CacheWritten w) s = s\<lparr>cv_cache := cache_step w (cv_cache s)\<rparr>"
| "conv_step notify me tg (SchedulePressed txt sendAt r atts) s = handleSchedule txt sendAt r atts s"
| "conv_step notify me tg (ScheduleSettles l res) s = schedule_settles l res s"
| "conv_step notify me tg (DeletePressed m) s = handleDelete m s"
| "conv_step notify me tg (EditSaved m draft) s = saveEdit m draft s"
| "conv_step notify me tg (PinPressed m b) s = handlePin m b s"
| "conv_step notify me tg (ExpiryPressed m ttl) s = say (CallOut (messagesApi_setExpiry (m_id m) ttl)) s"
| "conv_step notify me tg (ExpirySettles ttl ok) s = say (ToastOut (if ok
     then Good (T (if ttl \<noteq> None \<and> ttl \<noteq> Some 0 then ''chat.conv.timerSet'' else ''chat.conv.timerRemoved'') [])
     else Bad (T ''chat.timer.changeFailed'' []))) s"
| "conv_step notify me tg (ReactPressed m emoji) s = handleReact m emoji s"
| "conv_step notify me tg (ActionFailed k) s = action_failed k s"
| "conv_step notify me tg (RowClicked m) s = (if selectionMode s \<and> \<not> m_isDeleted m then toggleSelect m s else s)"
| "conv_step notify me tg CancelSelection s = s\<lparr>cv_selected := {}\<rparr>"
| "conv_step notify me tg CopySelected s = (if selectionMode s then copySelected s else s)"
| "conv_step notify me tg ForwardSelected s = (if selectionMode s then forwardSelected s else s)"
| "conv_step notify me tg DeleteSelected s = (if selectionMode s then deleteSelected me s else s)"
| "conv_step notify me tg (ForwardPressed m) s = openForward [m] s"
| "conv_step notify me tg (ForwardPicked dest) s = (if cv_forwardOpen s then doForward dest s else s)"
| "conv_step notify me tg ForwardClosed s = s\<lparr>cv_forwardOpen := False\<rparr>"
| "conv_step notify me tg (ForwardSettles title res) s = forward_settles title res s"
| "conv_step notify me tg (ReplyPressed m) s = s\<lparr>cv_replyTo := Some m\<rparr>"
| "conv_step notify me tg ReplyCleared s = s\<lparr>cv_replyTo := None\<rparr>"
| "conv_step notify me tg (ThreadOpened m) s = (if ct_chatType tg = Group then s\<lparr>cv_threadRoot := Some m\<rparr> else s)"
| "conv_step notify me tg ThreadClosed s = s\<lparr>cv_threadRoot := None\<rparr>"
| "conv_step notify me tg PanelToggled s = s\<lparr>cv_panelOpen := \<not> cv_panelOpen s, cv_actionsOpen := False\<rparr>"
| "conv_step notify me tg PanelClosed s = s\<lparr>cv_panelOpen := False\<rparr>"
| "conv_step notify me tg ActionsToggled s = s\<lparr>cv_actionsOpen := \<not> cv_actionsOpen s\<rparr>"
| "conv_step notify me tg (ScheduledShown b) s = s\<lparr>cv_scheduledOpen := b\<rparr>"
| "conv_step notify me tg (ImageOpened a) s = openImageFromBubble a s"
| "conv_step notify me tg (MediaOpened media i) s = openMediaFromPanel media i s"
| "conv_step notify me tg (ViewerMoved i) s = s\<lparr>cv_viewer := map_option (\<lambda>(its, _). (its, i)) (cv_viewer s)\<rparr>"
| "conv_step notify me tg ViewerClosed s = s\<lparr>cv_viewer := None\<rparr>"
| "conv_step notify me tg (JumpPressed drawn nxt i) s = jumpToMessage drawn nxt i s"
| "conv_step notify me tg (HighlightEnds i) s = highlight_ends i s"
| "conv_step notify me tg LengthChanged s = mark_newest_read tg s"

lemmas conv_defs = say_def handleSend_def send_settles_def handleSchedule_def schedule_settles_def handleDelete_def
  handleEdit_def saveEdit_def handlePin_def handleReact_def action_failed_def openForward_def doForward_def forward_settles_def
  openImageFromBubble_def openMediaFromPanel_def jumpToMessage_def highlight_ends_def mark_newest_read_def Let_def

subsection \<open>What a send shows\<close>

lemma insertPending_items:
  "c \<noteq> Some [] \<Longrightarrow> \<exists>c'. cache_insertPending m c = Inr c' \<and> c' \<noteq> Some [] \<and> items c' = m # items c"
  by (cases c) (auto simp: cache_insertPending_def prepend_def fresh_page_def sum_bind_def split: list.splits)

lemma handleSend_shows:
  assumes "cv_cache s \<noteq> Some []"
  shows "items (cv_cache (handleSend me tg uuid now txt r atts s)) =
      optimistic me tg (''temp-'' @ uuid) now txt r atts # items (cv_cache s)"
    and "cv_cache (handleSend me tg uuid now txt r atts s) \<noteq> Some []"
    and "cv_sends (handleSend me tg uuid now txt r atts s) = cv_sends s @ [''temp-'' @ uuid]"
    and "cv_selected (handleSend me tg uuid now txt r atts s) = cv_selected s"
  using insertPending_items [OF assms, of "optimistic me tg (''temp-'' @ uuid) now txt r atts"]
  by (auto simp: handleSend_def say_def Let_def)

text \<open>
  C5. Following links of a private chat. Sending a message with a link in a private chat asks the server for a
  preview of that link at once, in clear: the bubble shown while the message is encrypted and sent is
  not marked as encrypted. It happens whether or not the message can be encrypted at all.
\<close>

theorem private_link_previewed_in_clear:
  assumes "cv_cache s \<noteq> Some []" and "\<not> selectionMode s" and "firstUrl txt = Some u"
  shows "linkPreviewApi_fetch u \<in> set (auto_previews (handleSend me tg uuid now txt r atts s))"
proof -
  let ?m = "optimistic me tg (''temp-'' @ uuid) now txt r atts"
  let ?s = "handleSend me tg uuid now txt r atts s"
  have "txt \<noteq> []" using assms(3) by auto
  then have "preview_request False ?s ?m = Some (linkPreviewApi_fetch u)"
    using assms(2,3) handleSend_shows(4) [OF assms(1)]
    by (simp add: preview_request_def previewUrl_def optimistic_def text_of_def selectionMode_def)
  moreover have "?m \<in> set (conv_messages ?s)"
    using handleSend_shows(1) [OF assms(1), of me tg uuid now "txt" r atts] by (simp add: conv_messages_def flatten_items)
  ultimately show ?thesis
    unfolding auto_previews_def List.map_filter_def by force
qed

text \<open>
  A send whose callbacks run: on success the server's message takes the bubble's place, on failure the
  bubble is marked and the person is told.
\<close>

lemma keep_first_absent: "i \<notin> m_id ` set ms \<Longrightarrow> fst (keep_first i b ms) = ms"
  by (induction ms arbitrary: b) (auto simp: split_def)

theorem send_settles_newest:
  assumes "cv_cache s \<noteq> Some []" and "''temp-'' @ uuid \<notin> m_id ` set (items (cv_cache s))"
    and "notify (length (cv_sends s)) (length (cv_sends s))"
    and "m_id msg \<notin> m_id ` set (items (cv_cache s))" and "m_id msg \<noteq> ''temp-'' @ uuid"
  shows "conv_messages (send_settles notify (length (cv_sends s)) (Inr msg) (handleSend me tg uuid now txt r atts s))
        = conv_messages s @ [msg] \<and>
    (\<exists>b. conv_messages (send_settles notify (length (cv_sends s)) (Inl e) (handleSend me tg uuid now txt r atts s))
        = conv_messages s @ [b] \<and> statusFor me (ct_chatType tg) otherReadAt b = Some StatusFailed \<and> text_of b = txt)"
proof
  let ?m = "optimistic me tg (''temp-'' @ uuid) now txt r atts"
  let ?s = "handleSend me tg uuid now txt r atts s"
  note sent = handleSend_shows [OF assms(1), of me tg uuid now "txt" r atts]
  have other: "m_id x \<noteq> ''temp-'' @ uuid" if "x \<in> set (items (cv_cache s))" for x using assms(2) that by force
  have "map (\<lambda>m. if m_id m = ''temp-'' @ uuid then msg else m) (items (cv_cache s)) = items (cv_cache s)"
    by (rule map_idI) (use other in simp)
  then show "conv_messages (send_settles notify (length (cv_sends s)) (Inr msg) ?s) = conv_messages s @ [msg]"
    using sent assms(3,4) keep_first_absent [of "m_id msg" "items (cv_cache s)" True]
    by (simp add: send_settles_def conv_messages_def flatten_items items_resolve optimistic_def split_def)
  have "map (\<lambda>m. if m_id m = ''temp-'' @ uuid then m\<lparr>m_pending := False, m_failed := True\<rparr> else m) (items (cv_cache s))
      = items (cv_cache s)"
    by (rule map_idI) (use other in simp)
  then have "conv_messages (send_settles notify (length (cv_sends s)) (Inl e) ?s) = conv_messages s @ [?m\<lparr>m_pending := False, m_failed := True\<rparr>]"
    using sent assms(3) by (simp add: send_settles_def say_def conv_messages_def flatten_items items_patch optimistic_def)
  then show "\<exists>b. conv_messages (send_settles notify (length (cv_sends s)) (Inl e) ?s) = conv_messages s @ [b] \<and>
      statusFor me (ct_chatType tg) otherReadAt b = Some StatusFailed \<and> text_of b = txt"
    by (intro exI [of _ "?m\<lparr>m_pending := False, m_failed := True\<rparr>"]) (simp add: statusFor_def optimistic_def text_of_def)
qed

definition sample_me :: user where
  "sample_me = \<lparr>u_id = ''u1'', u_username = ''anna'', u_displayName = ''Anna'', u_roleLevel = None, u_accountKind = Basic,
     u_avatarUrl = None, u_status = Online, u_isActive = True, u_lastSeen = None, u_createdAt = ''2026-01-01T00:00:00Z'',
     u_mustChangePassword = False, u_displayNameNeedsChange = False, u_consentRequired = False, u_verifiedAt = None\<rparr>"

definition sample_target :: conversation_target where
  "sample_target = \<lparr>ct_chatType = Private, ct_chatId = ''c1'', ct_title = ''Boris'', ct_verified = False, ct_avatarName = ''Boris'',
     ct_avatarUrl = None, ct_online = False, ct_offlineLabel = None, ct_otherLastReadAt = None, ct_peerUserId = Some ''u2''\<rparr>"

lemma sample_link: "firstUrl ''see https://kisy.ru/plan now'' = Some ''https://kisy.ru/plan''"
  by code_simp

theorem private_link_previewed_in_clear_witness:
  "linkPreviewApi_fetch ''https://kisy.ru/plan'' \<in>
     set (auto_previews (handleSend sample_me sample_target ''7'' ''2026-02-01T10:00:00Z'' ''see https://kisy.ru/plan now'' None None (conv_open None)))
   \<and> ct_chatType sample_target = Private"
  using private_link_previewed_in_clear [OF _ _ sample_link, of "conv_open None"
      sample_me sample_target "''7''" "''2026-02-01T10:00:00Z''" None None]
  by (simp add: conv_open_def selectionMode_def sample_target_def)

theorem send_settles_newest_witness:
  "conv_messages (send_settles (=) 0 (Inr ((optimistic sample_me sample_target ''m1'' ''2026-02-01T10:00:01Z'' ''hello'' None None)\<lparr>m_pending := False\<rparr>))
     (handleSend sample_me sample_target ''7'' ''2026-02-01T10:00:00Z'' ''hello'' None None (conv_open None)))
   = [(optimistic sample_me sample_target ''m1'' ''2026-02-01T10:00:01Z'' ''hello'' None None)\<lparr>m_pending := False\<rparr>]"
  using send_settles_newest [of "conv_open None" "''7''" "(=)"
      "(optimistic sample_me sample_target ''m1'' ''2026-02-01T10:00:01Z'' ''hello'' None None)\<lparr>m_pending := False\<rparr>"
      sample_me sample_target "''2026-02-01T10:00:00Z''" "''hello''" None None]
  by (simp add: conv_open_def optimistic_def conv_messages_def flattenMessages_def)

text \<open>
  Two messages sent in quick succession. Where the callbacks run for the newest call only, as the query
  library documents, the answer to the first message changes nothing: its bubble stays pending, whether
  the server took the message or refused it, and no error is shown.
\<close>

theorem second_send_orphans_first_bubble:
  assumes "\<And>k n. notify k n \<longleftrightarrow> k = n"
    and "cv_cache s \<noteq> Some []"
    and "s1 = handleSend me tg uuid1 now1 txt1 r1 atts1 s" and "s2 = handleSend me tg uuid2 now2 txt2 r2 atts2 s1"
  shows "send_settles notify (length (cv_sends s)) res s2 = s2 \<and>
    optimistic me tg (''temp-'' @ uuid1) now1 txt1 r1 atts1 \<in> set (conv_messages s2) \<and>
    statusFor me (ct_chatType tg) otherReadAt (optimistic me tg (''temp-'' @ uuid1) now1 txt1 r1 atts1) = Some StatusPending"
proof -
  note sent1 = handleSend_shows [OF assms(2), of me tg uuid1 now1 txt1 r1 atts1, folded assms(3)]
  note sent2 = handleSend_shows [OF sent1(2), of me tg uuid2 now2 txt2 r2 atts2, folded assms(4)]
  have "send_settles notify (length (cv_sends s)) res s2 = s2"
    using sent1(3) sent2(3) assms(1) by (simp add: send_settles_def)
  moreover have "optimistic me tg (''temp-'' @ uuid1) now1 txt1 r1 atts1 \<in> set (conv_messages s2)"
    using sent1(1) sent2(1) by (simp add: conv_messages_def flatten_items)
  ultimately show ?thesis by (simp add: statusFor_def optimistic_def)
qed

definition two_sends :: conv where
  "two_sends = handleSend sample_me sample_target ''8'' ''2026-02-01T10:00:01Z'' ''there'' None None
     (handleSend sample_me sample_target ''7'' ''2026-02-01T10:00:00Z'' ''hello'' None None (conv_open None))"

theorem second_send_orphans_first_bubble_witness:
  "send_settles (=) 0 (Inl (JsError ''offline'')) two_sends = two_sends \<and>
   optimistic sample_me sample_target ''temp-7'' ''2026-02-01T10:00:00Z'' ''hello'' None None \<in> set (conv_messages two_sends)"
  using second_send_orphans_first_bubble [of "(=)" "conv_open None" _ sample_me sample_target "''7''" "''2026-02-01T10:00:00Z''" "''hello''" None None
      _ "''8''" "''2026-02-01T10:00:01Z''" "''there''" None None "Inl (JsError ''offline'')", OF _ _ refl refl, folded two_sends_def]
  by (simp add: conv_open_def)

subsection \<open>Selecting messages\<close>

lemma conv_step_selected: "cv_selected s = {} \<Longrightarrow> cv_selected (conv_step notify me tg e s) = {}"
  by (cases e) (auto simp: conv_defs selectionMode_def split: option.splits sum.splits prod.splits js_error.splits)

text \<open>
  Selecting several messages cannot begin. A message is added to the selection by a click on its row while
  a selection is under way, and nothing else adds one: from an open chat, over every history of events, the
  selection is empty, so copying, forwarding and deleting several messages at once cannot be reached.
\<close>

theorem selection_never_begins:
  "cv_selected (fold (conv_step notify me tg) es (conv_open c)) = {}"
proof -
  have "cv_selected s = {} \<Longrightarrow> cv_selected (fold (conv_step notify me tg) es s) = {}" for s
    by (induction es arbitrary: s) (simp_all add: conv_step_selected del: conv_step.simps)
  then show ?thesis by (simp add: conv_open_def)
qed

text \<open>Deleting a selection asks for the deletion of selected messages one may delete, each once, in order.\<close>

lemma fold_handleDelete_log: "cv_log (fold handleDelete ms s) = cv_log s @ map (\<lambda>m. CallOut (messagesApi_remove (m_id m))) ms"
  by (induction ms arbitrary: s) (simp_all add: handleDelete_def say_def)

theorem deleteSelected_requests:
  "cv_log (deleteSelected me s) = cv_log s @ map (\<lambda>m. CallOut (messagesApi_remove (m_id m)))
     (filter (\<lambda>m. m_id m \<in> cv_selected s \<and> canDelete me m) (conv_messages s))"
  by (simp add: deleteSelected_def selected_messages_def fold_handleDelete_log filter_filter conj_commute)

subsection \<open>Marks, jumps and rows\<close>

text \<open>As the other side's position grows, a message that was read stays read.\<close>

lemma statusFor_read_stays:
  assumes "statusFor me ct (Some r) m = Some StatusRead" and "r \<le> r'"
  shows "statusFor me ct (Some r') m = Some StatusRead"
proof -
  from assms(1) have "r \<noteq> []" "m_createdAt m \<le> r" "m_senderId m = u_id me" "\<not> m_pending m" "\<not> m_failed m" "ct = Private"
    by (auto simp: statusFor_def split: if_splits)
  moreover from this(1) assms(2) have "r' \<noteq> []" by (metis antisym nil_least)
  ultimately show ?thesis using assms(2) by (auto simp: statusFor_def)
qed

text \<open>
  A jump asks for at most eight pages, and finds the message if it is drawn after some number of pages up
  to eight that are there to load.
\<close>

lemma jump_from_bound: "n \<le> 8 \<Longrightarrow> fst (jump_from drawn nxt n) \<le> 8"
  by (induction drawn nxt n rule: jump_from.induct) (subst jump_from.simps, auto)

lemma jump_from_finds: "n \<le> k \<Longrightarrow> k \<le> 8 \<Longrightarrow> drawn k \<Longrightarrow> snd (jump_from drawn True n)"
proof (induction drawn True n rule: jump_from.induct)
  case (1 drawn n)
  show ?case
  proof (cases "drawn n")
    case False
    with "1.prems" have "n < k" by (metis le_neq_implies_less)
    with False 1 show ?thesis by (subst jump_from.simps) simp
  qed (simp add: jump_from.simps)
qed

theorem jump_bounded_and_finds:
  "length (filter (\<lambda>x. x = PageOut) (cv_log (jumpToMessage drawn nxt i s))) \<le> length (filter (\<lambda>x. x = PageOut) (cv_log s)) + 8"
  "truthy i \<Longrightarrow> k \<le> 8 \<Longrightarrow> drawn k \<Longrightarrow> cv_highlightId (jumpToMessage drawn True i s) = i"
  using jump_from_bound [of 0 drawn nxt] jump_from_finds [of 0 k drawn]
  by (auto simp: jumpToMessage_def say_def Let_def split: prod.splits)

text \<open>
  The newest message that is not pending may be one that failed: then the id the server is given is the
  temporary one, although the comment of the code says such ids are skipped.
\<close>

theorem mark_read_names_failed_bubble:
  assumes "cv_cache s \<noteq> Some []" and "notify (length (cv_sends s)) (length (cv_sends s))"
  shows "last (cv_log (mark_newest_read tg (send_settles notify (length (cv_sends s)) (Inl e) (handleSend me tg uuid now txt r atts s))))
    = CallOut (messagesApi_markRead (ct_chatType tg) (ct_chatId tg) (''temp-'' @ uuid))"
  using handleSend_shows [OF assms(1), of me tg uuid now "txt" r atts] assms(2)
  by (simp add: mark_newest_read_def send_settles_def say_def conv_messages_def flatten_items items_patch optimistic_def)

theorem mark_read_names_failed_bubble_witness:
  "last (cv_log (mark_newest_read sample_target (send_settles (=) 0 (Inl (JsError ''offline''))
     (handleSend sample_me sample_target ''7'' ''2026-02-01T10:00:00Z'' ''hello'' None None (conv_open None)))))
    = CallOut (messagesApi_markRead Private ''c1'' ''temp-7'')"
  using mark_read_names_failed_bubble [of "conv_open None" "(=)" sample_target "JsError ''offline''" sample_me "''7''"
      "''2026-02-01T10:00:00Z''" "''hello''" None None]
  by (simp add: conv_open_def sample_target_def)

text \<open>The two places that draw a message agree on when it is a padlock.\<close>

lemma row_body_agrees: "row_body m = bubble_body_of m"
  by (simp add: row_body_def bubble_body_of_def isLocked_def)

lemma bubble_actions_offered:
  "Edit \<in> set (bubble_actions me e t m) \<Longrightarrow> m_chatType m = Group \<and> \<not> m_encrypted m \<and> m_senderId m = u_id me"
  "Forward \<in> set (bubble_actions me e t m) \<longleftrightarrow> \<not> m_undecryptable m"
  "Delete \<in> set (bubble_actions me e t m) \<longleftrightarrow> canDelete me m"
  "Report \<in> set (bubble_actions me e t m) \<longleftrightarrow> m_senderId m \<noteq> u_id me"
  by (cases "m_chatType m"; auto simp: bubble_actions_def canEditMessage_def Let_def split: if_splits)+

text \<open>An edit that is sent is not blank and differs from what was there.\<close>

lemma saveEdit_sends:
  "cv_log (saveEdit m draft s) \<noteq> cv_log s \<Longrightarrow>
     cv_log (saveEdit m draft s) = cv_log s @ [CallOut (messagesApi_edit (m_id m) (js_trim draft))] \<and> js_trim draft \<noteq> [] \<and> m_text m \<noteq> Some (js_trim draft)"
  by (auto simp: saveEdit_def handleEdit_def say_def Let_def split: if_splits)

text \<open>
  The loop that names authors and days, as what it does at each place: a day is named where it differs from
  the message above, an author (in a group) where the day is named or the author differs.
\<close>

lemma rows_from_nth:
  "i < length ms \<Longrightarrow> rows_from f ct d a ms ! i =
     (ms ! i,
      f (m_createdAt (ms ! i)) \<noteq> (if i = 0 then d else f (m_createdAt (ms ! (i - 1)))),
      ct = Group \<and> (f (m_createdAt (ms ! i)) \<noteq> (if i = 0 then d else f (m_createdAt (ms ! (i - 1))))
        \<or> m_senderId (ms ! i) \<noteq> (if i = 0 then a else m_senderId (ms ! (i - 1)))))"
proof (induction ms arbitrary: i d a)
  case (Cons m ms)
  then show ?case by (cases i) (auto simp: Let_def nth_Cons split: nat.splits)
qed simp

lemma rows_from_messages: "map fst (rows_from f ct d a ms) = ms"
  by (induction ms arbitrary: d a) (simp_all add: Let_def)

subsection \<open>The thread panel\<close>

definition thread_send :: "message \<Rightarrow> string \<Rightarrow> string option \<Rightarrow> attachment list option \<Rightarrow> conv \<Rightarrow> conv" where
  "thread_send root txt r atts = say (SendOut \<lparr>sa_text = txt, sa_replyTo = r, sa_attachmentIds = map_option (map a_id) atts,
     sa_threadRootId = Some (m_id root)\<rparr>)"

definition thread_send_settles :: "js_error + message \<Rightarrow> page_cache \<Rightarrow> page_cache \<times> notice option" where
  "thread_send_settles res thread = (case res of
     Inr message \<Rightarrow> (case cache_insertThread message thread of Inr c \<Rightarrow> (c, None) | Inl e \<Rightarrow> (thread, None))
   | Inl e \<Rightarrow> (thread, Some (Bad (T ''chat.thread.sendFailed'' []))))"

definition thread_previewFor :: "message \<Rightarrow> message list \<Rightarrow> string option \<Rightarrow> ui_text option" where
  "thread_previewFor root replies i =
     (if \<not> truthy i then None
      else case (if i = Some (m_id root) then Some root else find (\<lambda>m. m_id m = the i) replies) of
        None \<Rightarrow> None
      | Some parent \<Rightarrow> Some (if m_isDeleted parent then T ''chat.conv.deletedMessage'' [] else Plain (js_take 80 (text_of parent))))"

definition thread_names :: "message list \<Rightarrow> bool list" where
  "thread_names replies = map (\<lambda>i. i = 0 \<or> m_senderId (replies ! (i - 1)) \<noteq> m_senderId (replies ! i)) [0..<length replies]"

text \<open>A reply that is answered is in the thread once, echo or not; one that failed is only announced.\<close>

lemma thread_settles_known:
  "m_id msg \<in> m_id ` set (items thread) \<Longrightarrow> thread_send_settles (Inr msg) thread = (thread, None)"
  by (cases thread) (simp_all add: thread_send_settles_def cache_insertThread_def present_items)

lemma thread_settles_new:
  "thread \<noteq> Some [] \<Longrightarrow> m_id msg \<notin> m_id ` set (items thread) \<Longrightarrow>
     items (fst (thread_send_settles (Inr msg) thread)) = msg # items thread"
  by (cases thread)
    (auto simp: thread_send_settles_def cache_insertThread_def present_items fresh_page_def prepend_def sum_bind_def split: list.splits)

lemma thread_reply_once:
  assumes "thread \<noteq> Some []" and "distinct (map m_id (items thread))"
    and "c = fst (thread_send_settles (Inr msg) thread)"
  shows "m_id msg \<in> m_id ` set (items c) \<and> distinct (map m_id (items c)) \<and> thread_send_settles (Inr msg) c = (c, None)"
proof (cases "m_id msg \<in> m_id ` set (items thread)")
  case True
  with thread_settles_known assms show ?thesis by simp
next
  case False
  then have "items c = msg # items thread" using thread_settles_new assms by simp
  moreover from this have "thread_send_settles (Inr msg) c = (c, None)" by (intro thread_settles_known) simp
  ultimately show ?thesis using False assms(2) by simp
qed

end
