(* ===== verification/Text_Rules.thy ===== *)
theory Text_Rules
  imports Api_Envelope
begin

text \<open>
  The rules and labels of \<open>shared/lib\<close> that stand between what a person types and what is stored or shown:
  \<open>displayName.ts\<close>, \<open>password.ts\<close>, \<open>money.ts\<close>, \<open>quarantine.ts\<close>, \<open>format.ts\<close>, \<open>cn.ts\<close>, and the labels of
  \<open>entities/attachment/upload.ts\<close> and \<open>entities/chat/disappearing.ts\<close>. The rules about letters count code points, so
  a text here is a list of code points; the Unicode classes \<open>\p{L}\<close> and \<open>\p{Nd}\<close> are parameters.
\<close>

type_synonym codepoints = "nat list"

definition space_point :: "nat \<Rightarrow> bool" where
  "space_point n \<longleftrightarrow> n \<in> {9, 10, 11, 12, 13, 32, 160, 5760, 8232, 8233, 8239, 8287, 12288, 65279} \<or> 8192 \<le> n \<and> n \<le> 8202"

definition trim_points :: "codepoints \<Rightarrow> codepoints" where
  "trim_points s = rev (dropWhile space_point (rev (dropWhile space_point s)))"

text \<open>\<open>split(/\s+/)\<close>\<close>

function split_spaces :: "codepoints \<Rightarrow> codepoints \<Rightarrow> codepoints list" where
  "split_spaces cur [] = [cur]"
| "split_spaces cur (c # cs) =
     (if space_point c then cur # split_spaces [] (dropWhile space_point cs) else split_spaces (cur @ [c]) cs)"
  by pat_completeness auto
termination split_spaces
  by (relation "measure (\<lambda>(_, s). length s)") (auto simp: le_imp_less_Suc length_dropWhile_le)

fun join_words :: "codepoints list \<Rightarrow> codepoints" where
  "join_words [] = []"
| "join_words [w] = w"
| "join_words (w # ws) = w @ 32 # join_words ws"

subsection \<open>Display names\<close>

text \<open>The class \<open>LETTER\<close> of the source, by its ranges.\<close>

definition name_letter :: "nat \<Rightarrow> bool" where
  "name_letter n \<longleftrightarrow> 0x41 \<le> n \<and> n \<le> 0x5A \<or> 0x61 \<le> n \<and> n \<le> 0x7A \<or> 0xC0 \<le> n \<and> n \<le> 0xD6 \<or> 0xD8 \<le> n \<and> n \<le> 0xF6
     \<or> 0xF8 \<le> n \<and> n \<le> 0x24F \<or> 0x400 \<le> n \<and> n \<le> 0x481 \<or> 0x48A \<le> n \<and> n \<le> 0x4FF"

definition normalizeDisplayName :: "codepoints \<Rightarrow> codepoints" where
  "normalizeDisplayName raw = join_words (filter (\<lambda>w. w \<noteq> []) (split_spaces [] (trim_points raw)))"

text \<open>\<open>PATTERN.test\<close>: words of letters with one space between; \<open>inWord\<close> says a letter has just been read.\<close>

fun name_pattern :: "bool \<Rightarrow> codepoints \<Rightarrow> bool" where
  "name_pattern inWord [] = inWord"
| "name_pattern inWord (c # cs) = (if name_letter c then name_pattern True cs else c = 32 \<and> inWord \<and> name_pattern False cs)"

definition displayNameProblem :: "codepoints \<Rightarrow> ui_text option" where
  "displayNameProblem raw =
     (let name = normalizeDisplayName raw; n = length name in
      if n < 2 \<or> n > 40 then Some (T ''common.displayName.length'' [])
      else if \<not> name_pattern False name then Some (T ''common.displayName.letters'' [])
      else None)"

definition displayNameErrorMessage :: "js_error \<Rightarrow> ui_text option" where
  "displayNameErrorMessage err = (case err of
     ApiErr e \<Rightarrow>
       if ae_code e = ''DISPLAY_NAME_TAKEN'' then Some (T ''common.displayName.taken'' [])
       else if ae_code e = ''DISPLAY_NAME_INVALID''
         then Some (if ae_message e \<noteq> '''' then Plain (ae_message e) else T ''common.displayName.letters'' [])
       else None
   | _ \<Rightarrow> None)"

definition words_of :: "codepoints \<Rightarrow> codepoints list" where
  "words_of raw = filter (\<lambda>w. w \<noteq> []) (split_spaces [] (trim_points raw))"

definition no_space :: "codepoints \<Rightarrow> bool" where
  "no_space w \<longleftrightarrow> list_all (\<lambda>c. \<not> space_point c) w"

lemma split_spaces_words: "no_space cur \<Longrightarrow> w \<in> set (split_spaces cur s) \<Longrightarrow> no_space w"
proof (induction cur s rule: split_spaces.induct)
  case (2 cur c cs)
  then show ?case by (cases "space_point c") (auto simp: no_space_def)
qed simp

lemma words_of_ok: "w \<in> set (words_of raw) \<Longrightarrow> no_space w \<and> w \<noteq> []"
  using split_spaces_words [of "[]" w] by (auto simp: words_of_def no_space_def)

lemma split_spaces_word: "no_space w \<Longrightarrow> split_spaces cur w = [cur @ w]"
  by (induction w arbitrary: cur) (auto simp: no_space_def)

lemma split_spaces_step: "no_space w \<Longrightarrow> split_spaces cur (w @ 32 # s) = (cur @ w) # split_spaces [] (dropWhile space_point s)"
  by (induction w arbitrary: cur) (auto simp: no_space_def space_point_def)

lemma join_words_head: "no_space w \<Longrightarrow> w \<noteq> [] \<Longrightarrow> dropWhile space_point (join_words (w # ws)) = join_words (w # ws)"
  by (cases w; cases ws) (auto simp: no_space_def)

lemma split_join_words:
  "\<forall>w\<in>set ws. no_space w \<and> w \<noteq> [] \<Longrightarrow> ws \<noteq> [] \<Longrightarrow> split_spaces [] (join_words ws) = ws"
proof (induction ws rule: join_words.induct)
  case (3 w w' ws)
  then have "dropWhile space_point (join_words (w' # ws)) = join_words (w' # ws)" by (intro join_words_head) auto
  with 3 split_spaces_step [of w "[]" "join_words (w' # ws)"] show ?case by simp
qed (auto simp: split_spaces_word)

lemma join_words_last: "\<forall>w\<in>set ws. no_space w \<and> w \<noteq> [] \<Longrightarrow> ws \<noteq> [] \<Longrightarrow> join_words ws \<noteq> [] \<and> \<not> space_point (last (join_words ws))"
  by (induction ws rule: join_words.induct) (auto simp: no_space_def list_all_iff)

lemma trim_join_words: "\<forall>w\<in>set ws. no_space w \<and> w \<noteq> [] \<Longrightarrow> trim_points (join_words ws) = join_words ws"
proof (cases ws)
  case (Cons w us)
  assume ok: "\<forall>w\<in>set ws. no_space w \<and> w \<noteq> []"
  with Cons have "dropWhile space_point (join_words ws) = join_words ws" by (auto intro: join_words_head)
  moreover have "dropWhile space_point (rev (join_words ws)) = rev (join_words ws)"
    using join_words_last [OF ok] Cons by (cases "rev (join_words ws)") (auto simp: last_rev hd_rev dest: arg_cong [of _ _ rev])
  ultimately show ?thesis by (simp add: trim_points_def)
qed (simp add: trim_points_def)

lemma normalizeDisplayName_idem: "normalizeDisplayName (normalizeDisplayName raw) = normalizeDisplayName raw"
proof -
  let ?ws = "words_of raw"
  have ok: "\<forall>w\<in>set ?ws. no_space w \<and> w \<noteq> []" using words_of_ok by blast
  have "filter (\<lambda>w. w \<noteq> []) (split_spaces [] (join_words ?ws)) = ?ws"
  proof (cases "?ws = []")
    case False
    with split_join_words [OF ok] ok show ?thesis by (simp add: filter_id_conv)
  qed simp
  then show ?thesis
    using trim_join_words [OF ok] by (simp add: normalizeDisplayName_def words_of_def)
qed

text \<open>A name that passes is words of letters with single spaces between them, and letters are not spaces.\<close>

lemma letter_no_space: "name_letter c \<Longrightarrow> \<not> space_point c \<and> c \<noteq> 32"
  by (auto simp: name_letter_def space_point_def)

lemma name_pattern_words:
  "name_pattern inWord s \<Longrightarrow> \<exists>w ws. s = join_words (w # ws) \<and> list_all name_letter w \<and> (\<not> inWord \<longrightarrow> w \<noteq> []) \<and>
     (\<forall>v\<in>set ws. v \<noteq> [] \<and> list_all name_letter v)"
proof (induction s arbitrary: inWord)
  case Nil
  then show ?case by (intro exI [of _ "[]"]) simp
next
  case (Cons c s)
  show ?case
  proof (cases "name_letter c")
    case True
    with Cons.prems have "name_pattern True s" by simp
    from Cons.IH [OF this] obtain w ws where "s = join_words (w # ws)" "list_all name_letter w"
      "\<forall>v\<in>set ws. v \<noteq> [] \<and> list_all name_letter v" by blast
    with True show ?thesis by (intro exI [of _ "c # w"] exI [of _ ws]) (cases ws; simp)
  next
    case False
    with Cons.prems have "c = 32" "inWord" "name_pattern False s" by auto
    with Cons.IH obtain w ws where "s = join_words (w # ws)" "list_all name_letter w" "w \<noteq> []"
      "\<forall>v\<in>set ws. v \<noteq> [] \<and> list_all name_letter v" by blast
    with \<open>c = 32\<close> \<open>inWord\<close> show ?thesis by (intro exI [of _ "[]"] exI [of _ "w # ws"]) simp
  qed
qed

text \<open>
  The name rule. A name that passes is, as stored, two to forty code points of words of the allowed letters with
  single spaces between; and the stored form passes the same rule and is not changed by it again.
\<close>

theorem display_name_rule:
  assumes "displayNameProblem raw = None"
  shows "\<exists>ws. ws \<noteq> [] \<and> normalizeDisplayName raw = join_words ws \<and> (\<forall>w\<in>set ws. w \<noteq> [] \<and> list_all name_letter w) \<and>
      2 \<le> length (normalizeDisplayName raw) \<and> length (normalizeDisplayName raw) \<le> 40"
    and "displayNameProblem (normalizeDisplayName raw) = None"
proof -
  from assms have "name_pattern False (normalizeDisplayName raw)" "2 \<le> length (normalizeDisplayName raw)"
    "length (normalizeDisplayName raw) \<le> 40"
    by (auto simp: displayNameProblem_def Let_def split: if_splits)
  then show "\<exists>ws. ws \<noteq> [] \<and> normalizeDisplayName raw = join_words ws \<and> (\<forall>w\<in>set ws. w \<noteq> [] \<and> list_all name_letter w) \<and>
      2 \<le> length (normalizeDisplayName raw) \<and> length (normalizeDisplayName raw) \<le> 40"
    using name_pattern_words [of False "normalizeDisplayName raw"] by (metis list.distinct(1) set_ConsD)
  show "displayNameProblem (normalizeDisplayName raw) = None"
    using assms by (simp add: displayNameProblem_def normalizeDisplayName_idem)
qed

subsection \<open>Passwords\<close>

definition PASSWORD_MIN :: nat where "PASSWORD_MIN = 12"
definition PASSWORD_MAX :: nat where "PASSWORD_MAX = 128"

definition passwordProblem :: "(nat \<Rightarrow> bool) \<Rightarrow> (nat \<Rightarrow> bool) \<Rightarrow> codepoints \<Rightarrow> ui_text option" where
  "passwordProblem isL isNd p =
     (if length p < PASSWORD_MIN then Some (T ''common.password.tooShort'' [(''min'', int PASSWORD_MIN)])
      else if length p > PASSWORD_MAX then Some (T ''common.password.tooLong'' [(''max'', int PASSWORD_MAX)])
      else if \<not> list_ex isL p then Some (T ''common.password.needLetter'' [])
      else if \<not> list_ex isNd p then Some (T ''common.password.needDigit'' [])
      else None)"

text \<open>A longer password made from an accepted one by adding characters is refused only for its length.\<close>

lemma passwordProblem_extends:
  "passwordProblem isL isNd p = None \<Longrightarrow> length (p @ q) \<le> PASSWORD_MAX \<Longrightarrow> passwordProblem isL isNd (p @ q) = None"
  by (auto simp: passwordProblem_def split: if_splits)

subsection \<open>Amounts of money\<close>

text \<open>
  \<open>parseRublesToKopecks\<close>. A character is a code point; \<open>\d\<close> is an ASCII digit. \<open>parseFloat(x) * 100\<close> is rounded to the
  integer it is within a rounding error of, so the arithmetic is exact for amounts the screen accepts.
\<close>

definition digit_point :: "nat \<Rightarrow> bool" where
  "digit_point n \<longleftrightarrow> 48 \<le> n \<and> n \<le> 57"

fun replace_first :: "nat \<Rightarrow> nat \<Rightarrow> codepoints \<Rightarrow> codepoints" where
  "replace_first a b [] = []"
| "replace_first a b (c # cs) = (if c = a then b # cs else c # replace_first a b cs)"

fun digits_val :: "nat \<Rightarrow> codepoints \<Rightarrow> nat" where
  "digits_val acc [] = acc"
| "digits_val acc (c # cs) = digits_val (10 * acc + (c - 48)) cs"

definition parseRublesToKopecks :: "codepoints \<Rightarrow> nat option" where
  "parseRublesToKopecks input =
     (let s = replace_first 44 46 (filter (\<lambda>c. \<not> space_point c) (trim_points input));
          whole = takeWhile digit_point s; rest = dropWhile digit_point s in
      if s = [] then Some 0
      else if whole = [] then None
      else case rest of
        [] \<Rightarrow> Some (100 * digits_val 0 whole)
      | c # frac \<Rightarrow>
          if c = 46 \<and> list_all digit_point frac \<and> (length frac = 1 \<or> length frac = 2)
          then Some (100 * digits_val 0 whole + digits_val 0 frac * (if length frac = 1 then 10 else 1))
          else None)"

definition show_points :: "nat \<Rightarrow> codepoints" where
  "show_points n = map of_char (show_nat n)"

definition typed_amount :: "nat \<Rightarrow> nat \<Rightarrow> codepoints" where
  "typed_amount sep cents = show_points (cents div 100) @ [sep, 48 + cents mod 100 div 10, 48 + cents mod 10]"

lemma show_points_digits: "list_all digit_point (show_points n)" "show_points n \<noteq> []"
proof -
  have "list_all is_digit (show_nat n)" "show_nat n \<noteq> []" by (rule digits_show_nat)+
  then show "list_all digit_point (show_points n)" "show_points n \<noteq> []"
    by (auto simp: show_points_def digit_point_def is_digit_def list_all_iff)
qed

lemma digits_val_foldl: "digits_val acc s = foldl (\<lambda>n c. 10 * n + (c - 48)) acc s"
  by (induction s arbitrary: acc) simp_all

lemma digits_val_show_points: "digits_val 0 (show_points n) = n"
  using foldl_show_nat [of n] by (simp add: digits_val_foldl show_points_def foldl_map digit_val_def)

lemma digit_not_space: "digit_point c \<Longrightarrow> \<not> space_point c \<and> c \<noteq> 44 \<and> c \<noteq> 46"
  by (auto simp: digit_point_def space_point_def)

lemma replace_first_digits: "list_all digit_point w \<Longrightarrow> replace_first 44 46 (w @ s) = w @ replace_first 44 46 s"
  by (induction w) (auto dest: digit_not_space)

lemma takeWhile_digits:
  "list_all digit_point w \<Longrightarrow> takeWhile digit_point (w @ 46 # s) = w \<and> dropWhile digit_point (w @ 46 # s) = 46 # s"
  by (induction w) (auto simp: digit_point_def)

lemma trim_points_id: "no_space s \<Longrightarrow> trim_points s = s \<and> filter (\<lambda>c. \<not> space_point c) s = s"
proof -
  assume s: "no_space s"
  then have "dropWhile space_point t = t" if "set t = set s" for t
    using that by (cases t) (auto simp: no_space_def list_all_iff)
  with s show ?thesis by (auto simp: trim_points_def no_space_def list_all_iff)
qed

text \<open>
  An amount typed as euros, a comma or a point, and two digits is read as exactly that number of cents.
\<close>

theorem typed_amount_round_trip:
  assumes "sep \<in> {44, 46}"
  shows "parseRublesToKopecks (typed_amount sep cents) = Some cents"
proof -
  let ?w = "show_points (cents div 100)" and ?f = "[48 + cents mod 100 div 10, 48 + cents mod 10]"
  have f: "list_all digit_point ?f" by (simp add: digit_point_def) linarith
  have "\<not> space_point sep" using assms by (auto simp: space_point_def)
  then have "no_space (typed_amount sep cents)"
    using show_points_digits(1) [of "cents div 100"] f
    by (auto simp: typed_amount_def no_space_def list_all_iff dest!: digit_not_space)
  then have "filter (\<lambda>c. \<not> space_point c) (trim_points (typed_amount sep cents)) = ?w @ sep # ?f"
    using trim_points_id [of "typed_amount sep cents"] by (simp add: typed_amount_def)
  moreover have "replace_first 44 46 (sep # ?f) = 46 # ?f" using assms f by (auto dest: digit_not_space)
  ultimately have "replace_first 44 46 (filter (\<lambda>c. \<not> space_point c) (trim_points (typed_amount sep cents))) = ?w @ 46 # ?f"
    using replace_first_digits [OF show_points_digits(1), of "cents div 100" "sep # ?f"] by simp
  then have "parseRublesToKopecks (typed_amount sep cents) = Some (100 * (cents div 100) + (10 * (cents mod 100 div 10) + cents mod 10))"
    using takeWhile_digits [OF show_points_digits(1), of "cents div 100" ?f] show_points_digits(2) f digits_val_show_points
    by (simp add: parseRublesToKopecks_def Let_def)
  moreover have "10 * (cents mod 100 div 10) + cents mod 10 = cents mod 100"
    using div_mult_mod_eq [of "cents mod 100" 10] by (simp add: mod_mod_cancel)
  ultimately show ?thesis by (simp add: div_mult_mod_eq)
qed

theorem typed_amount_round_trip_witness:
  "parseRublesToKopecks (typed_amount 44 123456) = Some 123456"
  using typed_amount_round_trip [of 44 123456] by simp

subsection \<open>Labels\<close>

definition opensIn :: "int \<Rightarrow> ui_text" where
  "opensIn hoursLeft = (let h = max 1 hoursLeft in
     if h = 1 then T ''common.quarantine.inAnHour'' [] else T ''common.quarantine.inHours'' [(''count'', h)])"

definition heldBackNotice :: "quarantine option \<Rightarrow> string \<Rightarrow> ui_text option" where
  "heldBackNotice q feature = (case q of None \<Rightarrow> None | Some q \<Rightarrow>
     Some (TT ''common.quarantine.heldBack'' [(''feature'', Plain feature), (''when'', opensIn (q_hoursLeft q))]))"

text \<open>\<open>Math.round(x * 10) / 10\<close> printed as a number, and \<open>toFixed(1)\<close>, of a non-negative quotient.\<close>

definition tenths :: "nat \<Rightarrow> nat \<Rightarrow> nat" where
  "tenths n unit_size = (20 * n + unit_size) div (2 * unit_size)"

definition show_tenths :: "nat \<Rightarrow> string" where
  "show_tenths k = show_nat (k div 10) @ (if k mod 10 = 0 then [] else ''.'' @ show_nat (k mod 10))"

definition show_fixed1 :: "nat \<Rightarrow> string" where
  "show_fixed1 k = show_nat (k div 10) @ ''.'' @ show_nat (k mod 10)"

definition mb :: "nat \<Rightarrow> ui_text" where
  "mb bytes = TT ''common.units.mb'' [(''value'', Plain (show_tenths (tenths bytes 1048576)))]"

definition fileTooLargeForNewAccount :: "quarantine option \<Rightarrow> nat \<Rightarrow> ui_text option" where
  "fileTooLargeForNewAccount q fileSize = (case q of None \<Rightarrow> None | Some q \<Rightarrow>
     if q_maxUploadBytes q \<le> 0 \<or> int fileSize \<le> q_maxUploadBytes q then None
     else Some (TT ''common.quarantine.fileTooLarge'' [(''size'', mb (nat (q_maxUploadBytes q))), (''when'', opensIn (q_hoursLeft q))]))"

definition formatBytes :: "nat \<Rightarrow> ui_text" where
  "formatBytes n =
     (if n \<ge> 2 ^ 30 then TT ''common.units.gb'' [(''value'', Plain (show_fixed1 (tenths n (2 ^ 30))))]
      else if n \<ge> 2 ^ 20 then TT ''common.units.mb'' [(''value'', Plain (show_fixed1 (tenths n (2 ^ 20))))]
      else if n \<ge> 2 ^ 10 then T ''common.units.kb'' [(''value'', int ((2 * n + 1024) div 2048))]
      else T ''common.units.bytes'' [(''value'', int n)])"

text \<open>\<open>Math.round\<close> is the nearest tenth: never off by more than half of one.\<close>

lemma tenths_nearest:
  assumes "0 < u" shows "2 * u * tenths n u \<le> 20 * n + u" and "20 * n + u < 2 * u * tenths n u + 2 * u"
proof -
  have "2 * u * tenths n u + (20 * n + u) mod (2 * u) = 20 * n + u" unfolding tenths_def by simp
  moreover have "(20 * n + u) mod (2 * u) < 2 * u" using assms by simp
  ultimately show "2 * u * tenths n u \<le> 20 * n + u" "20 * n + u < 2 * u * tenths n u + 2 * u" by linarith+
qed

text \<open>\<open>fileTypeLabel\<close>: the extension in capitals, at most five characters; ASCII letters are what \<open>toUpperCase\<close> changes here.\<close>

definition upper_char :: "char \<Rightarrow> char" where
  "upper_char c = (let n = of_char c :: nat in if 97 \<le> n \<and> n \<le> 122 then char_of (n - 32) else c)"

definition fileTypeLabel :: "string \<Rightarrow> string" where
  "fileTypeLabel fileName =
     (let ext = rev (takeWhile (\<lambda>c. c \<noteq> CHR 0x2E) (rev fileName)) in
      if CHR 0x2E \<notin> set fileName \<or> ext = [] then ''FILE'' else js_take 5 (map upper_char ext))"

definition ttlLabel :: "nat \<Rightarrow> ui_text" where
  "ttlLabel seconds =
     (if seconds mod 86400 = 0 then (let d = seconds div 86400 in
        if d = 1 then T ''common.duration.oneDay'' [] else T ''common.duration.days'' [(''count'', int d)])
      else if seconds mod 3600 = 0 then (let h = seconds div 3600 in
        if h = 1 then T ''common.duration.oneHour'' [] else T ''common.duration.hours'' [(''count'', int h)])
      else if seconds mod 60 = 0 then T ''common.duration.minutes'' [(''count'', int (seconds div 60))]
      else T ''common.duration.seconds'' [(''count'', int seconds)])"

text \<open>What a duration label means in seconds; every label means the duration it was made for.\<close>

fun label_seconds :: "ui_text \<Rightarrow> nat option" where
  "label_seconds (T k ps) =
     (if k = ''common.duration.oneDay'' then Some 86400
      else if k = ''common.duration.oneHour'' then Some 3600
      else case map_of ps ''count'' of None \<Rightarrow> None | Some n \<Rightarrow>
        if k = ''common.duration.days'' then Some (nat n * 86400)
        else if k = ''common.duration.hours'' then Some (nat n * 3600)
        else if k = ''common.duration.minutes'' then Some (nat n * 60)
        else if k = ''common.duration.seconds'' then Some (nat n) else None)"
| "label_seconds _ = None"

theorem ttlLabel_exact: "label_seconds (ttlLabel seconds) = Some seconds"
  by (auto simp: ttlLabel_def Let_def)

definition formatRelative :: "int \<Rightarrow> ui_text \<Rightarrow> ui_text" where
  "formatRelative diffSec date =
     (if diffSec < 60 then T ''common.justNow'' []
      else if diffSec < 3600 then T ''common.minutesAgo'' [(''count'', diffSec div 60)]
      else if diffSec < 86400 then T ''common.hoursAgo'' [(''count'', diffSec div 3600)]
      else date)"

text \<open>
  \<open>colorFromString\<close> over the UTF-16 units of the string. \<open>hash << 5\<close> works on 32 bits, the rest of the sum on numbers.
\<close>

definition shl5 :: "int \<Rightarrow> int" where
  "shl5 h = sint (push_bit 5 (word_of_int h :: 32 word))"

definition string_hash :: "nat list \<Rightarrow> int" where
  "string_hash units = foldl (\<lambda>h u. int u + (shl5 h - h)) 0 units"

definition colour_hue :: "nat list \<Rightarrow> int" where
  "colour_hue units = \<bar>string_hash units\<bar> mod 360"

text \<open>The hue is a hue, and the sum stays within the integers a JavaScript number holds exactly.\<close>

lemma shl5_bound: "\<bar>shl5 h\<bar> \<le> 2 ^ 31"
  using sint_ge [of "push_bit 5 (word_of_int h :: 32 word)"] sint_lt [of "push_bit 5 (word_of_int h :: 32 word)"]
  by (simp add: shl5_def)

lemma string_hash_bound:
  "list_all (\<lambda>u. u < 65536) units \<Longrightarrow> \<bar>string_hash units\<bar> \<le> int (length units) * (2 ^ 31 + 65536)"
proof (induction units rule: rev_induct)
  case (snoc u us)
  then have "\<bar>string_hash us\<bar> \<le> int (length us) * (2 ^ 31 + 65536)" "int u < 65536" by simp_all
  moreover have "string_hash (us @ [u]) = int u + (shl5 (string_hash us) - string_hash us)" by (simp add: string_hash_def)
  ultimately show ?case using shl5_bound [of "string_hash us"] by (simp add: algebra_simps abs_le_iff)
qed (simp add: string_hash_def)

theorem colour_is_a_hue: "0 \<le> colour_hue units \<and> colour_hue units < 360"
  by (simp add: colour_hue_def)

definition cn :: "string option list \<Rightarrow> string" where
  "cn parts = join_with '' '' (map the (filter truthy parts))"

end
