(* ===== verification/App_Shell.thy ===== *)
theory App_Shell
  imports Auth_Store
begin

text \<open>
  What is on the screen: the routes of \<open>app/router.tsx\<close>, the guards of \<open>app/guards.tsx\<close> and \<open>app/ConsentGates.tsx\<close>, what
  an account may do (\<open>shared/lib/useCapabilities.ts\<close>), where the bars lead (\<open>shared/lib/nav.ts\<close>, \<open>TabBar.tsx\<close>,
  \<open>HubPage.tsx\<close>), and the walk through the permissions (\<open>features/permissions\<close>). A path is the string the app navigates
  to; the router's matching of a path against the table is by its segments.
\<close>

subsection \<open>Capabilities\<close>

record capabilities =
  isInvited :: bool
  canSeeRating :: bool
  canSeeLevels :: bool
  canVoteLevels :: bool
  canSeeConditions :: bool
  canAdmin :: bool

definition RATING_MAX_LEVEL :: int where
  "RATING_MAX_LEVEL = 9"

definition anonymous_caps :: capabilities where
  "anonymous_caps = \<lparr>isInvited = False, canSeeRating = False, canSeeLevels = False, canVoteLevels = False,
     canSeeConditions = False, canAdmin = False\<rparr>"

definition capabilitiesOf :: "user option \<Rightarrow> capabilities" where
  "capabilitiesOf u = (case u of None \<Rightarrow> anonymous_caps | Some user \<Rightarrow>
     (let level = u_roleLevel user; invited = (u_accountKind user = Invited \<and> level \<noteq> None) in
      \<lparr>isInvited = invited, canSeeRating = invited \<and> the level \<le> RATING_MAX_LEVEL, canSeeLevels = invited,
       canVoteLevels = invited, canSeeConditions = invited, canAdmin = invited \<and> level = Some 1\<rparr>))"

subsection \<open>Destinations\<close>

record destination =
  de_key :: string
  de_to :: string
  de_match :: "string \<Rightarrow> bool"

definition messagesDestination :: destination where
  "messagesDestination = \<lparr>de_key = ''messages'', de_to = ''/'', de_match = (\<lambda>p. p = ''/'' \<or> prefix ''/chat/'' p)\<rparr>"

definition communitiesDestination :: destination where
  "communitiesDestination = \<lparr>de_key = ''communities'', de_to = ''/communities'',
     de_match = (\<lambda>p. prefix ''/communities'' p \<or> prefix ''/group/'' p)\<rparr>"

definition ratingDestination :: destination where
  "ratingDestination = \<lparr>de_key = ''rating'', de_to = ''/rating'', de_match = prefix ''/rating''\<rparr>"

definition feedDestination :: destination where
  "feedDestination = \<lparr>de_key = ''feed'', de_to = ''/feed'', de_match = prefix ''/feed''\<rparr>"

definition ratingOrFeed :: "capabilities \<Rightarrow> destination" where
  "ratingOrFeed caps = (if canSeeRating caps then ratingDestination else feedDestination)"

definition feedLivesInHub :: "capabilities \<Rightarrow> bool" where
  "feedLivesInHub caps \<longleftrightarrow> de_key (ratingOrFeed caps) \<noteq> ''feed''"

text \<open>The tabs that lead to a route; the fourth opens the profile. On a chat the bar is not drawn.\<close>

definition tab_slots :: "capabilities \<Rightarrow> string \<Rightarrow> destination list" where
  "tab_slots caps pathname = (if prefix ''/chat/'' pathname \<or> prefix ''/group/'' pathname then []
     else [messagesDestination, communitiesDestination, ratingOrFeed caps])"

definition tab_active :: "string \<Rightarrow> destination \<Rightarrow> bool" where
  "tab_active pathname d \<longleftrightarrow> \<not> prefix ''/hub'' pathname \<and> de_match d pathname"

definition hub_cards :: "capabilities \<Rightarrow> string list" where
  "hub_cards caps = [''notifications''] @ (if canVoteLevels caps then [''voting''] else []) @
     (if feedLivesInHub caps then [''feed''] else []) @ [''notes'', ''feedback'', ''calls'']"

definition hub_actions :: "capabilities \<Rightarrow> string list" where
  "hub_actions caps = [''group''] @ (if canVoteLevels caps then [''poll''] else []) @ [''note''] @
     (if canSeeConditions caps then [''levels''] else []) @ (if canAdmin caps then [''admin''] else [])"

text \<open>Where a card or an action of the hub leads, when it leads to a screen of its own.\<close>

definition hub_goes :: "string \<Rightarrow> string option" where
  "hub_goes key = (if key = ''feed'' then Some ''/feed'' else if key = ''admin'' then Some ''/admin'' else None)"

subsection \<open>Guards\<close>

datatype app_page = MessengerPage | HubPage | FeedPage | RatingPage | AdminPage | LoginPage | RegisterPage
  | PrivacyPage | RulesPage | AccountDeletionPage

datatype screen = FullScreenLoader | OfflineNotice | ForcePasswordChange | ForceDisplayNameChange | AccountConsentGate
  | LocalConsentScreen | Page app_page | Navigate string

definition blockingScreen :: "user option \<Rightarrow> screen option" where
  "blockingScreen u = (case u of None \<Rightarrow> None | Some user \<Rightarrow>
     if u_mustChangePassword user then Some ForcePasswordChange
     else if u_displayNameNeedsChange user then Some ForceDisplayNameChange
     else if u_consentRequired user then Some AccountConsentGate
     else None)"

definition guarded :: "(user option \<Rightarrow> bool) \<Rightarrow> auth_status \<Rightarrow> user option \<Rightarrow> screen \<Rightarrow> screen" where
  "guarded allowed status user children =
     (case status of
        Loading \<Rightarrow> FullScreenLoader
      | OfflineStatus \<Rightarrow> OfflineNotice
      | Anonymous \<Rightarrow> Navigate ''/login''
      | Authenticated \<Rightarrow> (case blockingScreen user of Some b \<Rightarrow> b | None \<Rightarrow>
          if allowed user then children else Navigate ''/''))"

definition RequireAuth :: "auth_status \<Rightarrow> user option \<Rightarrow> screen \<Rightarrow> screen" where
  "RequireAuth = guarded (\<lambda>_. True)"

definition RequireCEO :: "auth_status \<Rightarrow> user option \<Rightarrow> screen \<Rightarrow> screen" where
  "RequireCEO = guarded (\<lambda>u. canAdmin (capabilitiesOf u))"

definition RequireRatingAccess :: "auth_status \<Rightarrow> user option \<Rightarrow> screen \<Rightarrow> screen" where
  "RequireRatingAccess = guarded (\<lambda>u. canSeeRating (capabilitiesOf u))"

definition RedirectIfAuth :: "auth_status \<Rightarrow> screen \<Rightarrow> screen" where
  "RedirectIfAuth status children = (case status of
     Loading \<Rightarrow> FullScreenLoader | OfflineStatus \<Rightarrow> OfflineNotice | Authenticated \<Rightarrow> Navigate ''/'' | Anonymous \<Rightarrow> children)"

definition RequireLocalConsent :: "bool \<Rightarrow> screen \<Rightarrow> screen" where
  "RequireLocalConsent accepted children = (if accepted then children else LocalConsentScreen)"

subsection \<open>Routes\<close>

definition segments :: "string \<Rightarrow> string list" where
  "segments p = filter (\<lambda>s. s \<noteq> []) (split_on CHR 0x2F p)"

definition route_screen :: "string \<Rightarrow> auth_status \<Rightarrow> user option \<Rightarrow> bool \<Rightarrow> screen" where
  "route_screen p status user accepted = (case segments p of
       [] \<Rightarrow> RequireAuth status user (Page MessengerPage)
     | [a] \<Rightarrow>
         if a = ''login'' then RedirectIfAuth status (RequireLocalConsent accepted (Page LoginPage))
         else if a = ''register'' then RedirectIfAuth status (RequireLocalConsent accepted (Page RegisterPage))
         else if a = ''privacy'' then Page PrivacyPage
         else if a = ''rules'' then Page RulesPage
         else if a = ''account-deletion'' then Page AccountDeletionPage
         else if a = ''communities'' then RequireAuth status user (Page MessengerPage)
         else if a = ''hub'' then RequireAuth status user (Page HubPage)
         else if a = ''feed'' then RequireAuth status user (Page FeedPage)
         else if a = ''rating'' then RequireRatingAccess status user (Page RatingPage)
         else if a = ''admin'' then RequireCEO status user (Page AdminPage)
         else Navigate ''/''
     | [a, i] \<Rightarrow> if a = ''chat'' \<or> a = ''group'' then RequireAuth status user (Page MessengerPage) else Navigate ''/''
     | _ \<Rightarrow> Navigate ''/'')"

text \<open>Following redirects until something is drawn.\<close>

definition follow :: "auth_status \<Rightarrow> user option \<Rightarrow> bool \<Rightarrow> string \<Rightarrow> string" where
  "follow status user accepted p = (case route_screen p status user accepted of Navigate q \<Rightarrow> q | _ \<Rightarrow> p)"

lemmas guard_defs = guarded_def RequireAuth_def RequireCEO_def RequireRatingAccess_def RedirectIfAuth_def RequireLocalConsent_def

lemma segments_fixed [simp]:
  "segments ''/'' = []" "segments ''/login'' = [''login'']" "segments ''/communities'' = [''communities'']"
  "segments ''/feed'' = [''feed'']" "segments ''/rating'' = [''rating'']" "segments ''/admin'' = [''admin'']"
  by (simp_all add: segments_def)

lemma blockingScreen_shape: "blockingScreen u = Some b \<Longrightarrow> b \<in> {ForcePasswordChange, ForceDisplayNameChange, AccountConsentGate}"
  by (auto simp: blockingScreen_def split: option.splits if_splits)

lemma guarded_Page:
  "guarded allowed status user (Page q) = Page p \<longleftrightarrow> status = Authenticated \<and> blockingScreen user = None \<and> allowed user \<and> p = q"
  by (auto simp: guarded_def split: auth_status.splits option.splits dest!: blockingScreen_shape)

lemma guarded_Navigate:
  "guarded allowed status user (Page q) = Navigate p \<Longrightarrow>
     status = Anonymous \<and> p = ''/login'' \<or> status = Authenticated \<and> blockingScreen user = None \<and> \<not> allowed user \<and> p = ''/''"
  by (auto simp: guarded_def split: auth_status.splits option.splits if_splits dest!: blockingScreen_shape)

subsection \<open>What the guards promise\<close>

definition behind_guard :: "app_page \<Rightarrow> bool" where
  "behind_guard p \<longleftrightarrow> p \<in> {MessengerPage, HubPage, FeedPage, RatingPage, AdminPage}"

lemma route_Page_guarded:
  assumes "route_screen p status user accepted = Page q" and "behind_guard q"
  shows "status = Authenticated \<and> blockingScreen user = None \<and> (q = AdminPage \<longrightarrow> canAdmin (capabilitiesOf user)) \<and>
    (q = RatingPage \<longrightarrow> canSeeRating (capabilitiesOf user))"
  using assms
  by (auto simp: route_screen_def behind_guard_def RequireAuth_def RequireCEO_def RequireRatingAccess_def guarded_Page RedirectIfAuth_def
      RequireLocalConsent_def split: list.splits if_splits auth_status.splits)

lemma route_Navigate:
  assumes "route_screen p status user accepted = Navigate q"
  shows "q = ''/login'' \<and> status = Anonymous \<or> q = ''/''"
  using assms
  by (auto simp: route_screen_def RequireAuth_def RequireCEO_def RequireRatingAccess_def RedirectIfAuth_def RequireLocalConsent_def
      split: list.splits if_splits auth_status.splits dest!: guarded_Navigate)

text \<open>
  C14. Whatever path is opened and whatever the state of the session: a page of the app is drawn only to a
  signed-in account with no password to replace, no name to change and no consent to give; the admin page only to
  an invited account of level 1 and the rating only to an invited account of level 9 or better; the sign-in forms
  only to somebody signed out who has ticked both boxes.
\<close>

theorem guards_hold:
  assumes "route_screen p status user accepted = Page q"
  shows "(behind_guard q \<longrightarrow> status = Authenticated \<and> blockingScreen user = None) \<and>
    (q = AdminPage \<longrightarrow> (\<exists>u. user = Some u \<and> u_accountKind u = Invited \<and> u_roleLevel u = Some 1)) \<and>
    (q = RatingPage \<longrightarrow> (\<exists>u l. user = Some u \<and> u_accountKind u = Invited \<and> u_roleLevel u = Some l \<and> l \<le> 9)) \<and>
    (q \<in> {LoginPage, RegisterPage} \<longrightarrow> status = Anonymous \<and> accepted)"
proof (intro conjI)
  show "behind_guard q \<longrightarrow> status = Authenticated \<and> blockingScreen user = None"
    using route_Page_guarded [OF assms] by blast
  show "q = AdminPage \<longrightarrow> (\<exists>u. user = Some u \<and> u_accountKind u = Invited \<and> u_roleLevel u = Some 1)"
    using route_Page_guarded [OF assms]
    by (auto simp: behind_guard_def capabilitiesOf_def anonymous_caps_def Let_def split: option.splits)
  show "q = RatingPage \<longrightarrow> (\<exists>u l. user = Some u \<and> u_accountKind u = Invited \<and> u_roleLevel u = Some l \<and> l \<le> 9)"
    using route_Page_guarded [OF assms]
    by (auto simp: behind_guard_def capabilitiesOf_def anonymous_caps_def Let_def RATING_MAX_LEVEL_def split: option.splits)
  show "q \<in> {LoginPage, RegisterPage} \<longrightarrow> status = Anonymous \<and> accepted"
    using assms by (auto simp: route_screen_def RequireAuth_def RequireCEO_def RequireRatingAccess_def guarded_Page RedirectIfAuth_def
      RequireLocalConsent_def split: list.splits if_splits auth_status.splits)
qed

definition ceo :: user where
  "ceo = \<lparr>u_id = ''u1'', u_username = ''ceo'', u_displayName = ''Anna'', u_roleLevel = Some 1, u_accountKind = Invited,
     u_avatarUrl = None, u_status = Online, u_isActive = True, u_lastSeen = None, u_createdAt = ''2026-01-01T00:00:00Z'',
     u_mustChangePassword = False, u_displayNameNeedsChange = False, u_consentRequired = False, u_verifiedAt = None\<rparr>"

theorem guards_hold_witness:
  "route_screen ''/admin'' Authenticated (Some ceo) True = Page AdminPage \<and> blockingScreen (Some ceo) = None"
proof -
  have shown: "route_screen ''/admin'' Authenticated (Some ceo) True = Page AdminPage"
    by (simp add: route_screen_def RequireCEO_def guarded_def blockingScreen_def capabilitiesOf_def ceo_def Let_def)
  from guards_hold [OF shown] shown show ?thesis by (simp add: behind_guard_def)
qed

text \<open>
  Redirects end: from any path, after at most two of them something is drawn.
\<close>

lemma route_login_drawn: "status \<noteq> Authenticated \<Longrightarrow> route_screen ''/login'' status user accepted \<noteq> Navigate q"
  by (auto simp: route_screen_def RedirectIfAuth_def RequireLocalConsent_def split: auth_status.splits)

lemma route_home: "route_screen ''/'' status user accepted = Navigate q \<Longrightarrow> status = Anonymous \<and> q = ''/login''"
  by (auto simp: route_screen_def RequireAuth_def dest!: guarded_Navigate)

theorem redirects_end:
  "\<nexists>q. route_screen (follow status user accepted (follow status user accepted p)) status user accepted = Navigate q"
proof (cases "\<exists>q. route_screen p status user accepted = Navigate q")
  case False
  then have "follow status user accepted p = p" by (auto simp: follow_def split: screen.splits)
  with False show ?thesis by simp
next
  case True
  then obtain q where q: "route_screen p status user accepted = Navigate q" by blast
  then have f: "follow status user accepted p = q" by (simp add: follow_def)
  show ?thesis
  proof (cases "\<exists>r. route_screen q status user accepted = Navigate r")
    case False
    then have "follow status user accepted q = q" by (auto simp: follow_def split: screen.splits)
    with False f show ?thesis by simp
  next
    case True
    then obtain r where r: "route_screen q status user accepted = Navigate r" by blast
    with route_Navigate [OF q] route_login_drawn have "q = ''/''" by fastforce
    with r route_home have "status = Anonymous" "r = ''/login''" by auto
    with f r route_login_drawn show ?thesis by (simp add: follow_def)
  qed
qed

lemma destinations_disjoint:
  "de_match messagesDestination p \<Longrightarrow> \<not> de_match communitiesDestination p \<and> \<not> de_match (ratingOrFeed caps) p"
  "de_match communitiesDestination p \<Longrightarrow> \<not> de_match (ratingOrFeed caps) p"
  by (auto simp: messagesDestination_def communitiesDestination_def ratingOrFeed_def ratingDestination_def feedDestination_def
      elim!: prefixE)

text \<open>
  What is offered opens. For a signed-in account with nothing blocking it, every tab, card and action that leads to a
  screen leads to that screen and is not bounced back; the feed has exactly one door; and a path lights up at most one
  tab.
\<close>

theorem offered_screens_open:
  assumes "caps = capabilitiesOf user" and "blockingScreen user = None"
  shows "list_all (\<lambda>d. \<exists>q. route_screen (de_to d) Authenticated user accepted = Page q) (tab_slots caps here) \<and>
    list_all (\<lambda>k. case hub_goes k of None \<Rightarrow> True | Some p \<Rightarrow> \<exists>q. route_screen p Authenticated user accepted = Page q)
      (hub_cards caps @ hub_actions caps) \<and>
    (de_key (ratingOrFeed caps) = ''feed'') \<noteq> (''feed'' \<in> set (hub_cards caps)) \<and>
    length (filter (tab_active here) (tab_slots caps here)) \<le> 1"
proof -
  have "list_all (\<lambda>d. \<exists>q. route_screen (de_to d) Authenticated user accepted = Page q) (tab_slots caps here)"
    using assms by (auto simp: tab_slots_def messagesDestination_def communitiesDestination_def ratingOrFeed_def ratingDestination_def
      feedDestination_def route_screen_def guard_defs)
  moreover have "list_all (\<lambda>k. case hub_goes k of None \<Rightarrow> True | Some p \<Rightarrow> \<exists>q. route_screen p Authenticated user accepted = Page q)
      (hub_cards caps @ hub_actions caps)"
    using assms by (auto simp: hub_cards_def hub_actions_def hub_goes_def route_screen_def guard_defs)
  moreover have "(de_key (ratingOrFeed caps) = ''feed'') \<noteq> (''feed'' \<in> set (hub_cards caps))"
    by (auto simp: hub_cards_def feedLivesInHub_def)
  moreover have "length (filter (tab_active here) (tab_slots caps here)) \<le> 1"
    using destinations_disjoint [of here caps] by (auto simp: tab_slots_def tab_active_def)
  ultimately show ?thesis by blast
qed

theorem offered_screens_open_witness:
  "''feed'' \<in> set (hub_cards (capabilitiesOf (Some ceo))) \<and>
   length (filter (tab_active ''/rating'') (tab_slots (capabilitiesOf (Some ceo)) ''/rating'')) \<le> 1"
proof -
  have free: "blockingScreen (Some ceo) = None" by (simp add: blockingScreen_def ceo_def)
  have "de_key (ratingOrFeed (capabilitiesOf (Some ceo))) = ''rating''"
    by (simp add: ratingOrFeed_def ratingDestination_def capabilitiesOf_def ceo_def RATING_MAX_LEVEL_def Let_def)
  then show ?thesis using offered_screens_open [OF refl free, of True "''/rating''"] by simp
qed

subsection \<open>The walk through the permissions\<close>

datatype app_permission = Notifications | Microphone | FullScreenIntent

datatype permission_state = Granted | Prompt | PromptWithRationale | Denied | Unsupported

datatype native_or_web = NativePlatform | WebPlatform

definition ONBOARDING_ORDER :: "app_permission list" where
  "ONBOARDING_ORDER = [Notifications, Microphone, FullScreenIntent]"

definition permissionsFor :: "native_or_web \<Rightarrow> app_permission list" where
  "permissionsFor p = filter (\<lambda>x. p = NativePlatform \<or> x \<in> set [Notifications]) ONBOARDING_ORDER"

definition onboardingSteps :: "native_or_web \<Rightarrow> (app_permission \<Rightarrow> permission_state option) \<Rightarrow> app_permission list" where
  "onboardingSteps p states = filter (\<lambda>x. states x \<notin> {None, Some Granted, Some Unsupported}) (permissionsFor p)"

datatype step_action = Request | Settings | Instructions | Done

definition actionFor :: "app_permission \<Rightarrow> permission_state \<Rightarrow> native_or_web \<Rightarrow> step_action" where
  "actionFor x state p =
     (if state = Granted \<or> state = Unsupported then Done
      else if x = FullScreenIntent then (if p = NativePlatform then Settings else Done)
      else if state = Denied then (if p = NativePlatform then Settings else Instructions)
      else Request)"

record walk =
  wk_states :: "(app_permission \<Rightarrow> permission_state option) option"
  wk_steps :: "app_permission list option"
  wk_index :: nat
  wk_finished :: bool
  wk_asked :: "app_permission list"

definition walk_start :: walk where
  "walk_start = \<lparr>wk_states = None, wk_steps = None, wk_index = 0, wk_finished = False, wk_asked = []\<rparr>"

definition walk_permission :: "walk \<Rightarrow> app_permission option" where
  "walk_permission w = (case wk_steps w of None \<Rightarrow> None | Some ps \<Rightarrow> if wk_index w < length ps then Some (ps ! wk_index w) else None)"

definition walk_state :: "walk \<Rightarrow> permission_state option" where
  "walk_state w = (case walk_permission w of None \<Rightarrow> None | Some x \<Rightarrow> (case wk_states w of None \<Rightarrow> None | Some f \<Rightarrow> f x))"

definition walk_next :: "walk \<Rightarrow> walk" where
  "walk_next w = (if (case wk_steps w of None \<Rightarrow> True | Some ps \<Rightarrow> length ps \<le> wk_index w + 1)
     then w\<lparr>wk_finished := True\<rparr> else w\<lparr>wk_index := wk_index w + 1\<rparr>)"

definition walk_moves_on :: "walk \<Rightarrow> bool" where
  "walk_moves_on w \<longleftrightarrow> \<not> wk_finished w \<and> (wk_steps w = Some [] \<or> walk_state w = Some Granted)"

text \<open>The effects that follow a render: the list is fixed once, then screens that need nothing are passed.\<close>

function walk_settle :: "walk \<Rightarrow> walk" where
  "walk_settle w = (if walk_moves_on w then walk_settle (walk_next w) else w)"
  by pat_completeness auto
termination walk_settle
  by (relation "measure (\<lambda>w. if wk_finished w then 0 else 1 + (case wk_steps w of None \<Rightarrow> 0 | Some ps \<Rightarrow> length ps - wk_index w))")
    (auto simp: walk_moves_on_def walk_next_def walk_state_def walk_permission_def split: option.splits if_splits)

declare walk_settle.simps [simp del]

definition walk_fix_steps :: "native_or_web \<Rightarrow> walk \<Rightarrow> walk" where
  "walk_fix_steps p w = (case (wk_states w, wk_steps w) of (Some f, None) \<Rightarrow> w\<lparr>wk_steps := Some (onboardingSteps p f)\<rparr> | _ \<Rightarrow> w)"

datatype walk_event = StatesRead "app_permission \<Rightarrow> permission_state option" | NextPressed | ActPressed permission_state

fun walk_step :: "native_or_web \<Rightarrow> walk_event \<Rightarrow> walk \<Rightarrow> walk" where
  "walk_step p (StatesRead f) w = (if wk_finished w then w else walk_settle (walk_fix_steps p (w\<lparr>wk_states := Some f\<rparr>)))"
| "walk_step p NextPressed w = (if wk_finished w \<or> walk_state w = None then w else walk_settle (walk_next w))"
| "walk_step p (ActPressed answer) w =
     (case (walk_permission w, walk_state w, wk_states w) of
        (Some x, Some current, Some f) \<Rightarrow>
          if \<not> wk_finished w \<and> actionFor x current p = Request
          then walk_settle (w\<lparr>wk_states := Some (f(x \<mapsto> answer)), wk_asked := wk_asked w @ [x]\<rparr>) else w
      | _ \<Rightarrow> w)"

lemma onboardingSteps_order:
  "subseq (onboardingSteps p f) ONBOARDING_ORDER" "set (onboardingSteps WebPlatform f) \<subseteq> {Notifications}"
  by (auto simp: onboardingSteps_def permissionsFor_def filter_filter intro: subseq_filter_left)

text \<open>The system dialog is only asked for where it will appear.\<close>

lemma actionFor_Request: "actionFor x st p = Request \<Longrightarrow> st \<in> {Prompt, PromptWithRationale} \<and> x \<noteq> FullScreenIntent"
  by (cases st) (auto simp: actionFor_def split: if_splits)

definition walking :: "app_permission list \<Rightarrow> (app_permission \<Rightarrow> permission_state option) \<Rightarrow> nat \<Rightarrow> walk \<Rightarrow> bool" where
  "walking ps f i w \<longleftrightarrow> wk_finished w \<or> wk_steps w = Some ps \<and> wk_states w = Some f \<and> i \<le> wk_index w \<and> wk_index w < length ps"

lemma walking_next: "walking ps f i w \<Longrightarrow> \<not> wk_finished w \<Longrightarrow> walking ps f (Suc i) (walk_next w)"
  by (auto simp: walking_def walk_next_def split: option.splits)

lemma walking_settle: "walking ps f i w \<Longrightarrow> walking ps f i (walk_settle w)"
proof (induction w rule: walk_settle.induct)
  case (1 w)
  show ?case
  proof (cases "walk_moves_on w")
    case True
    with 1 have "walking ps f i (walk_next w)"
      using walking_next [of ps f i w] by (auto simp: walking_def walk_moves_on_def)
    with True 1 show ?thesis by (subst walk_settle.simps) simp
  next
    case False
    with 1 show ?thesis by (subst walk_settle.simps) simp
  qed
qed

lemma walking_press:
  assumes "walking ps f i w" and "\<forall>x\<in>set ps. f x \<noteq> None"
  shows "walking ps f (Suc i) (walk_step p NextPressed w)"
proof (cases "wk_finished w")
  case True
  then show ?thesis by (simp add: walking_def)
next
  case False
  with assms have "walk_state w \<noteq> None" by (auto simp: walking_def walk_state_def walk_permission_def)
  with False assms(1) show ?thesis using walking_settle [OF walking_next] by auto
qed

lemma walking_presses:
  "walking ps f i w \<Longrightarrow> \<forall>x\<in>set ps. f x \<noteq> None \<Longrightarrow> walking ps f (i + n) ((walk_step p NextPressed ^^ n) w)"
proof (induction n)
  case (Suc n)
  then show ?case using walking_press [of ps f "i + n" _ p] by simp
qed simp

text \<open>
  The walk ends: when the screens were fixed and every one of their states is known, pressing "not now" once for
  each screen that is left finishes it, whatever was granted meanwhile.
\<close>

theorem walk_ends:
  assumes "wk_steps w = Some ps" and "wk_states w = Some f" and "\<forall>x\<in>set ps. f x \<noteq> None" and "wk_index w < length ps"
  shows "wk_finished ((walk_step p NextPressed ^^ (length ps - wk_index w)) w)"
proof -
  have "walking ps f (wk_index w) w" using assms by (simp add: walking_def)
  from walking_presses [OF this assms(3), of "length ps - wk_index w" p] assms(4)
  show ?thesis by (auto simp: walking_def)
qed

subsection \<open>Consent\<close>

text \<open>
  \<open>AccountConsentGate\<close>. \<open>cg_local\<close> is the tick kept on the device, \<open>cg_requests\<close> counts the calls of \<open>acceptConsent\<close>, \<open>cg_pressed\<close>
  whether the person pressed the button of the screen.
\<close>

record consent_gate =
  cg_local :: bool
  cg_ask :: bool
  cg_busy :: bool
  cg_tried :: bool
  cg_accepted :: bool
  cg_requests :: nat
  cg_presses :: nat

definition gate_submit :: "consent_gate \<Rightarrow> consent_gate" where
  "gate_submit g = g\<lparr>cg_busy := True, cg_requests := cg_requests g + 1\<rparr>"

definition gate_mount :: "bool \<Rightarrow> consent_gate" where
  "gate_mount local_tick =
     (let g = \<lparr>cg_local = local_tick, cg_ask = \<not> local_tick, cg_busy = False, cg_tried = False, cg_accepted = False,
               cg_requests = 0, cg_presses = 0\<rparr> in
      if cg_ask g \<or> cg_tried g then g else gate_submit (g\<lparr>cg_tried := True\<rparr>))"

datatype gate_event = SubmitOk | SubmitFails | AcceptPressed

fun gate_step :: "gate_event \<Rightarrow> consent_gate \<Rightarrow> consent_gate" where
  "gate_step SubmitOk g = (if cg_busy g then g\<lparr>cg_local := True, cg_accepted := True, cg_busy := False\<rparr> else g)"
| "gate_step SubmitFails g = (if cg_busy g then g\<lparr>cg_local := False, cg_ask := True, cg_busy := False\<rparr> else g)"
| "gate_step AcceptPressed g = (if cg_ask g \<and> \<not> cg_busy g \<and> \<not> cg_accepted g
     then gate_submit (g\<lparr>cg_presses := cg_presses g + 1\<rparr>) else g)"

text \<open>
  Consent is never recorded for somebody who has not given it: without a tick on the device every request was
  preceded by a press, and with one there is at most one request more than there were presses.
\<close>

theorem consent_needs_a_tick:
  "cg_requests (fold gate_step es (gate_mount local_tick)) = cg_presses (fold gate_step es (gate_mount local_tick)) + (if local_tick then 1 else 0)"
proof -
  have "cg_requests (gate_step e g) = cg_requests g + (cg_presses (gate_step e g) - cg_presses g) \<and> cg_presses g \<le> cg_presses (gate_step e g)" for e g
    by (cases e) (auto simp: gate_submit_def)
  then have "cg_requests (fold gate_step es g) = cg_presses (fold gate_step es g) + (cg_requests g - cg_presses g)" if "cg_presses g \<le> cg_requests g" for g
    using that
  proof (induction es arbitrary: g)
    case (Cons e es)
    from Cons.prems(1) [of e g] Cons.prems(2) Cons.IH [OF Cons.prems(1), of "gate_step e g"] show ?case by simp
  qed simp
  from this [of "gate_mount local_tick"] show ?thesis by (simp add: gate_mount_def gate_submit_def Let_def)
qed

end
