(* ===== verification/Media_Viewer.thy ===== *)
theory Media_Viewer
  imports Complex_Main Kisy_Prelude
begin

text \<open>
  The picture viewer: \<open>shared/lib/zoomPan.ts\<close> and the gestures of \<open>shared/ui/MediaViewer.tsx\<close>. Coordinates are real numbers
  measured as in the source; the sizes of the stage and the picture, and the centre of the stage on the page, are
  the layout's and a parameter. The theorems: the point under the fingers stays where it is; over every history
  of gestures the picture is between its own size and five times that, never dragged past its edges, and the
  number of the picture shown is one of the list.
\<close>

subsection \<open>Arithmetic\<close>

record point =
  px :: real
  py :: real

record view =
  vw_scale :: real
  vw_x :: real
  vw_y :: real

record sizes =
  sz_w :: real
  sz_h :: real

definition MIN_SCALE :: real where "MIN_SCALE = 1"
definition MAX_SCALE :: real where "MAX_SCALE = 5"
definition DOUBLE_TAP_SCALE :: real where "DOUBLE_TAP_SCALE = 5 / 2"

definition IDENTITY :: view where
  "IDENTITY = \<lparr>vw_scale = 1, vw_x = 0, vw_y = 0\<rparr>"

definition clampScale :: "real \<Rightarrow> real" where
  "clampScale s = min MAX_SCALE (max MIN_SCALE s)"

definition zoomTo :: "view \<Rightarrow> real \<Rightarrow> point \<Rightarrow> view" where
  "zoomTo v scale at' = (let s = clampScale scale; k = s / vw_scale v in
     \<lparr>vw_scale = s, vw_x = px at' - k * (px at' - vw_x v), vw_y = py at' - k * (py at' - vw_y v)\<rparr>)"

definition clampPan :: "view \<Rightarrow> sizes \<Rightarrow> sizes \<Rightarrow> view" where
  "clampPan v img stage =
     (let maxX = max 0 ((sz_w img * vw_scale v - sz_w stage) / 2); maxY = max 0 ((sz_h img * vw_scale v - sz_h stage) / 2) in
      \<lparr>vw_scale = vw_scale v, vw_x = min maxX (max (- maxX) (vw_x v)), vw_y = min maxY (max (- maxY) (vw_y v))\<rparr>)"

definition toggleZoom :: "view \<Rightarrow> point \<Rightarrow> view" where
  "toggleZoom v at' = (if vw_scale v > MIN_SCALE then IDENTITY else zoomTo v DOUBLE_TAP_SCALE at')"

definition swipeDirection :: "real \<Rightarrow> real \<Rightarrow> int" where
  "swipeDirection dx dy = (if \<bar>dx\<bar> < 60 \<or> \<bar>dx\<bar> < \<bar>dy\<bar> * (3 / 2) then 0 else if dx < 0 then 1 else -1)"

text \<open>The picture point drawn at a place of the stage.\<close>

definition image_point :: "view \<Rightarrow> point \<Rightarrow> real \<times> real" where
  "image_point v at' = ((px at' - vw_x v) / vw_scale v, (py at' - vw_y v) / vw_scale v)"

lemma clampScale_range: "1 \<le> clampScale s \<and> clampScale s \<le> 5"
  by (simp add: clampScale_def MIN_SCALE_def MAX_SCALE_def)

text \<open>Zooming keeps the point of the picture under the fingers exactly where it is.\<close>

theorem zoomTo_keeps_point:
  assumes "vw_scale v \<noteq> 0"
  shows "image_point (zoomTo v scale at') at' = image_point v at'"
  using assms clampScale_range [of scale] by (auto simp: image_point_def zoomTo_def Let_def field_simps)

definition in_bounds :: "sizes \<Rightarrow> sizes \<Rightarrow> view \<Rightarrow> bool" where
  "in_bounds img stage v \<longleftrightarrow> 1 \<le> vw_scale v \<and> vw_scale v \<le> 5 \<and>
     \<bar>vw_x v\<bar> \<le> max 0 ((sz_w img * vw_scale v - sz_w stage) / 2) \<and> \<bar>vw_y v\<bar> \<le> max 0 ((sz_h img * vw_scale v - sz_h stage) / 2)"

lemma clamp_abs: "0 \<le> (m :: real) \<Longrightarrow> \<bar>min m (max (- m) x)\<bar> \<le> m"
  by (simp add: abs_le_iff min_def max_def)

lemma in_bounds_clampPan: "1 \<le> vw_scale v \<Longrightarrow> vw_scale v \<le> 5 \<Longrightarrow> in_bounds img stage (clampPan v img stage)"
  by (simp add: in_bounds_def clampPan_def Let_def clamp_abs)

lemma clampPan_in_bounds: "in_bounds img stage v \<Longrightarrow> clampPan v img stage = v"
  by (cases v) (auto simp: in_bounds_def clampPan_def Let_def abs_le_iff min_def max_def)

lemma in_bounds_IDENTITY: "in_bounds img stage IDENTITY"
  by (simp add: in_bounds_def IDENTITY_def)

lemma zoomTo_scale: "1 \<le> vw_scale (zoomTo v s at') \<and> vw_scale (zoomTo v s at') \<le> 5"
  by (simp add: zoomTo_def Let_def clampScale_range)

lemma toggleZoom_scale: "1 \<le> vw_scale (toggleZoom v at') \<and> vw_scale (toggleZoom v at') \<le> 5"
  by (simp add: toggleZoom_def zoomTo_scale IDENTITY_def)

subsection \<open>Gestures\<close>

definition DOUBLE_TAP_MS :: int where "DOUBLE_TAP_MS = 300"
definition TAP_SLOP :: real where "TAP_SLOP = 10"

record gesture =
  ge_pointers :: "(int, point) jsmap"
  ge_start :: "(point \<times> view) option"
  ge_onImage :: bool
  ge_pinch :: "(real \<times> point \<times> view) option"
  ge_moved :: bool
  ge_multi :: bool
  ge_lastTap :: "(point \<times> int) option"

record media_viewer =
  mv_view :: view
  mv_live :: bool
  mv_index :: nat
  mv_closed :: bool
  mv_gesture :: gesture

record layout =
  la_image :: sizes
  la_stage :: sizes
  la_centre :: point

definition viewer_open :: "nat \<Rightarrow> media_viewer" where
  "viewer_open i = \<lparr>mv_view = IDENTITY, mv_live = False, mv_index = i, mv_closed = False,
     mv_gesture = \<lparr>ge_pointers = [], ge_start = None, ge_onImage = False, ge_pinch = None, ge_moved = False, ge_multi = False,
       ge_lastTap = None\<rparr>\<rparr>"

definition hypot :: "real \<Rightarrow> real \<Rightarrow> real" where
  "hypot a b = sqrt (a\<^sup>2 + b\<^sup>2)"

definition local_point :: "layout \<Rightarrow> point \<Rightarrow> point" where
  "local_point L c = \<lparr>px = px c - px (la_centre L), py = py c - py (la_centre L)\<rparr>"

definition fit :: "layout \<Rightarrow> view \<Rightarrow> view" where
  "fit L v = clampPan v (la_image L) (la_stage L)"

definition show_picture :: "nat \<Rightarrow> media_viewer \<Rightarrow> media_viewer" where
  "show_picture i s = (if i = mv_index s then s else s\<lparr>mv_index := i, mv_view := IDENTITY\<rparr>)"

definition viewer_prev :: "media_viewer \<Rightarrow> media_viewer" where
  "viewer_prev s = (if mv_index s > 0 then show_picture (mv_index s - 1) s else s)"

definition viewer_next :: "nat \<Rightarrow> media_viewer \<Rightarrow> media_viewer" where
  "viewer_next n s = (if mv_index s + 1 < n then show_picture (mv_index s + 1) s else s)"

definition onWheel :: "layout \<Rightarrow> real \<Rightarrow> point \<Rightarrow> media_viewer \<Rightarrow> media_viewer" where
  "onWheel L deltaY c s = s\<lparr>mv_view := fit L (zoomTo (mv_view s) (vw_scale (mv_view s) * exp (- deltaY * (15 / 10000))) (local_point L c))\<rparr>"

definition midpoint :: "point \<Rightarrow> point \<Rightarrow> point" where
  "midpoint a b = \<lparr>px = (px a + px b) / 2, py = (py a + py b) / 2\<rparr>"

definition onPointerDown :: "layout \<Rightarrow> int \<Rightarrow> point \<Rightarrow> bool \<Rightarrow> media_viewer \<Rightarrow> media_viewer" where
  "onPointerDown L i c onImg s =
     (let g = mv_gesture s; ps = AList.update i c (ge_pointers g); g1 = g\<lparr>ge_pointers := ps\<rparr> in
      s\<lparr>mv_live := True, mv_gesture :=
        (case ps of
           [_] \<Rightarrow> g1\<lparr>ge_onImage := onImg, ge_start := Some (c, mv_view s), ge_moved := False, ge_multi := False\<rparr>
         | [a, b] \<Rightarrow>
             (let d = hypot (px (snd a) - px (snd b)) (py (snd a) - py (snd b)) in
              g1\<lparr>ge_pinch := Some (if d = 0 then 1 else d, local_point L (midpoint (snd a) (snd b)), mv_view s),
                 ge_multi := True, ge_moved := True\<rparr>)
         | _ \<Rightarrow> g1)\<rparr>)"

definition drag_one :: "layout \<Rightarrow> point \<Rightarrow> media_viewer \<Rightarrow> media_viewer" where
  "drag_one L c s = (case ge_start (mv_gesture s) of None \<Rightarrow> s | Some (a, v) \<Rightarrow>
     (let dx = px c - px a; dy = py c - py a;
          s1 = (if hypot dx dy > TAP_SLOP then s\<lparr>mv_gesture := (mv_gesture s)\<lparr>ge_moved := True\<rparr>\<rparr> else s) in
      if vw_scale v > 1 then s1\<lparr>mv_view := fit L (v\<lparr>vw_x := vw_x v + dx, vw_y := vw_y v + dy\<rparr>)\<rparr> else s1))"

definition onPointerMove :: "layout \<Rightarrow> int \<Rightarrow> point \<Rightarrow> media_viewer \<Rightarrow> media_viewer" where
  "onPointerMove L i c s =
     (if map_of (ge_pointers (mv_gesture s)) i = None then s
      else let ps = AList.update i c (ge_pointers (mv_gesture s)); s1 = s\<lparr>mv_gesture := (mv_gesture s)\<lparr>ge_pointers := ps\<rparr>\<rparr> in
        case (ps, ge_pinch (mv_gesture s)) of
          (a # b # _, Some (d0, mid0, v0)) \<Rightarrow>
            (let dist = hypot (px (snd a) - px (snd b)) (py (snd a) - py (snd b));
                 mid = local_point L (midpoint (snd a) (snd b));
                 z = zoomTo v0 (vw_scale v0 * dist / d0) mid0 in
             s1\<lparr>mv_view := fit L (z\<lparr>vw_x := vw_x z + px mid - px mid0, vw_y := vw_y z + py mid - py mid0\<rparr>)\<rparr>)
        | _ \<Rightarrow> drag_one L c s1)"

definition on_tap :: "layout \<Rightarrow> point \<Rightarrow> int \<Rightarrow> media_viewer \<Rightarrow> media_viewer" where
  "on_tap L c now s =
     (let g = mv_gesture s in
      case ge_lastTap g of
        Some (a, t) \<Rightarrow> if now - t < DOUBLE_TAP_MS \<and> hypot (px c - px a) (py c - py a) < 40
          then s\<lparr>mv_gesture := g\<lparr>ge_lastTap := None\<rparr>, mv_view := fit L (toggleZoom (mv_view s) (local_point L c))\<rparr>
          else s\<lparr>mv_gesture := g\<lparr>ge_lastTap := Some (c, now)\<rparr>,
                 mv_closed := mv_closed s \<or> \<not> ge_onImage g \<and> vw_scale (mv_view s) = 1\<rparr>
      | None \<Rightarrow> s\<lparr>mv_gesture := g\<lparr>ge_lastTap := Some (c, now)\<rparr>,
                 mv_closed := mv_closed s \<or> \<not> ge_onImage g \<and> vw_scale (mv_view s) = 1\<rparr>)"

definition onPointerEnd :: "layout \<Rightarrow> nat \<Rightarrow> int \<Rightarrow> point \<Rightarrow> bool \<Rightarrow> int \<Rightarrow> media_viewer \<Rightarrow> media_viewer" where
  "onPointerEnd L n i c cancelled now s =
     (if map_of (ge_pointers (mv_gesture s)) i = None then s
      else let g = mv_gesture s; ps = AList.delete i (ge_pointers g); g1 = g\<lparr>ge_pointers := ps\<rparr> in
        case ps of
          [r] \<Rightarrow> s\<lparr>mv_gesture := g1\<lparr>ge_start := Some (snd r, mv_view s), ge_pinch := None\<rparr>\<rparr>
        | _ # _ # _ \<Rightarrow> s\<lparr>mv_gesture := g1\<rparr>
        | [] \<Rightarrow>
            (let s1 = s\<lparr>mv_live := False, mv_gesture := g1\<lparr>ge_pinch := None, ge_start := None\<rparr>\<rparr> in
             case ge_start g of
               None \<Rightarrow> s1
             | Some (a, v) \<Rightarrow>
                 if cancelled then s1
                 else if ge_moved g then
                   (if \<not> ge_multi g \<and> vw_scale v = 1 then
                      (let dir = swipeDirection (px c - px a) (py c - py a) in
                       if dir = 1 then viewer_next n s1 else if dir = -1 then viewer_prev s1 else s1)
                    else s1)
                 else on_tap L c now s1))"

definition zoomBy :: "layout \<Rightarrow> real \<Rightarrow> media_viewer \<Rightarrow> media_viewer" where
  "zoomBy L factor s = s\<lparr>mv_view := fit L (zoomTo (mv_view s) (vw_scale (mv_view s) * factor) \<lparr>px = 0, py = 0\<rparr>)\<rparr>"

definition onKeyDown :: "layout \<Rightarrow> nat \<Rightarrow> string \<Rightarrow> media_viewer \<Rightarrow> media_viewer" where
  "onKeyDown L n key s =
     (if key = ''Escape'' then s\<lparr>mv_closed := True\<rparr>
      else if key = ''ArrowLeft'' then viewer_prev s
      else if key = ''ArrowRight'' then viewer_next n s
      else if key = ''+'' \<or> key = ''='' then zoomBy L (3 / 2) s
      else if key = ''-'' then zoomBy L (2 / 3) s
      else if key = ''0'' then s\<lparr>mv_view := IDENTITY\<rparr>
      else s)"

datatype viewer_event =
    Wheel real point
  | PointerDown int point bool
  | PointerMove int point
  | PointerEnd int point bool int
  | KeyDown string
  | PrevPressed
  | NextPressed
  | ResetPressed
  | ClosePressed

fun viewer_step :: "layout \<Rightarrow> nat \<Rightarrow> viewer_event \<Rightarrow> media_viewer \<Rightarrow> media_viewer" where
  "viewer_step L n (Wheel d c) s = onWheel L d c s"
| "viewer_step L n (PointerDown i c onImg) s = onPointerDown L i c onImg s"
| "viewer_step L n (PointerMove i c) s = onPointerMove L i c s"
| "viewer_step L n (PointerEnd i c cancelled now) s = onPointerEnd L n i c cancelled now s"
| "viewer_step L n (KeyDown k) s = onKeyDown L n k s"
| "viewer_step L n PrevPressed s = viewer_prev s"
| "viewer_step L n NextPressed s = viewer_next n s"
| "viewer_step L n ResetPressed s = s\<lparr>mv_view := IDENTITY\<rparr>"
| "viewer_step L n ClosePressed s = s\<lparr>mv_closed := True\<rparr>"

subsection \<open>Every history of gestures\<close>

definition legal_scale :: "view \<Rightarrow> bool" where
  "legal_scale v \<longleftrightarrow> 1 \<le> vw_scale v \<and> vw_scale v \<le> 5"

definition viewer_inv :: "layout \<Rightarrow> nat \<Rightarrow> media_viewer \<Rightarrow> bool" where
  "viewer_inv L n s \<longleftrightarrow> in_bounds (la_image L) (la_stage L) (mv_view s) \<and> mv_index s < n \<and>
     pred_option (\<lambda>(_, v). legal_scale v) (ge_start (mv_gesture s))"

lemma fit_bounds: "legal_scale v \<Longrightarrow> in_bounds (la_image L) (la_stage L) (fit L v)"
  by (simp add: fit_def legal_scale_def in_bounds_clampPan)

lemma legal_zoom [simp]: "legal_scale (zoomTo v s c)" "legal_scale (toggleZoom v c)"
  by (simp_all add: legal_scale_def zoomTo_scale toggleZoom_scale)

lemma legal_moved [simp]: "legal_scale (v\<lparr>vw_x := a, vw_y := b\<rparr>) = legal_scale v"
  by (simp add: legal_scale_def)

lemma in_bounds_legal: "in_bounds img stage v \<Longrightarrow> legal_scale v"
  by (simp add: in_bounds_def legal_scale_def)

lemma inv_pictures:
  "viewer_inv L n s \<Longrightarrow> viewer_inv L n (viewer_prev s)" "viewer_inv L n s \<Longrightarrow> viewer_inv L n (viewer_next n s)"
  by (auto simp: viewer_inv_def viewer_prev_def viewer_next_def show_picture_def in_bounds_IDENTITY)

lemma inv_onPointerDown: "viewer_inv L n s \<Longrightarrow> viewer_inv L n (onPointerDown L i c onImg s)"
  by (auto simp: viewer_inv_def onPointerDown_def Let_def in_bounds_legal split: list.splits)

lemma inv_drag_one: "viewer_inv L n s \<Longrightarrow> viewer_inv L n (drag_one L c s)"
  by (auto simp: viewer_inv_def drag_one_def Let_def fit_bounds split: option.splits)

lemma inv_pointers: "viewer_inv L n s \<Longrightarrow> viewer_inv L n (s\<lparr>mv_gesture := (mv_gesture s)\<lparr>ge_pointers := ps\<rparr>\<rparr>)"
  by (simp add: viewer_inv_def)

lemma inv_view: "viewer_inv L n s \<Longrightarrow> legal_scale v \<Longrightarrow> viewer_inv L n (s\<lparr>mv_view := fit L v\<rparr>)"
  by (simp add: viewer_inv_def fit_bounds)

lemma inv_onPointerMove: "viewer_inv L n s \<Longrightarrow> viewer_inv L n (onPointerMove L i c s)"
  by (auto simp: onPointerMove_def Let_def intro!: inv_drag_one inv_pointers inv_view split: list.splits option.splits)

lemma inv_on_tap: "viewer_inv L n s \<Longrightarrow> viewer_inv L n (on_tap L c now s)"
  by (auto simp: viewer_inv_def on_tap_def Let_def fit_bounds split: option.splits)

lemma inv_ended: "viewer_inv L n s \<Longrightarrow> viewer_inv L n (s\<lparr>mv_live := b, mv_gesture := g\<lparr>ge_start := None\<rparr>\<rparr>)"
  by (simp add: viewer_inv_def)

lemma inv_onPointerEnd: "viewer_inv L n s \<Longrightarrow> viewer_inv L n (onPointerEnd L n i c cancelled now s)"
proof -
  assume inv: "viewer_inv L n s"
  show ?thesis
  proof (cases "AList.delete i (ge_pointers (mv_gesture s))")
    case Nil
    with inv show ?thesis
      by (auto simp: onPointerEnd_def Let_def intro!: inv_on_tap inv_pictures inv_ended split: option.splits)
  next
    case (Cons r rs)
    with inv show ?thesis
      by (cases rs) (auto simp: onPointerEnd_def viewer_inv_def Let_def in_bounds_legal)
  qed
qed

lemma inv_reset: "viewer_inv L n s \<Longrightarrow> viewer_inv L n (s\<lparr>mv_view := IDENTITY\<rparr>)"
  by (simp add: viewer_inv_def in_bounds_IDENTITY)

lemma inv_close: "viewer_inv L n s \<Longrightarrow> viewer_inv L n (s\<lparr>mv_closed := b\<rparr>)"
  by (simp add: viewer_inv_def)

lemma inv_onKeyDown: "viewer_inv L n s \<Longrightarrow> viewer_inv L n (onKeyDown L n k s)"
  unfolding onKeyDown_def zoomBy_def by (simp add: inv_pictures inv_view inv_reset inv_close)

lemma inv_step: "viewer_inv L n s \<Longrightarrow> viewer_inv L n (viewer_step L n e s)"
  by (cases e) (simp_all add: onWheel_def inv_view inv_pictures inv_onPointerDown inv_onPointerMove inv_onPointerEnd
      inv_onKeyDown inv_reset inv_close)

interpretation gestures: event_machine "viewer_step L n" "\<lambda>_. True" "viewer_inv L n" for L n
  by unfold_locales (rule inv_step)


definition small_stage :: layout where
  "small_stage = \<lparr>la_image = \<lparr>sz_w = 300, sz_h = 200\<rparr>, la_stage = \<lparr>sz_w = 320, sz_h = 480\<rparr>, la_centre = \<lparr>px = 160, py = 240\<rparr>\<rparr>"


end
