(* ===== verification/Composer.thy ===== *)
theory Composer
  imports Text_Rules Client_Stores Voice_Recorder
begin

text \<open>
  The composer of a message: \<open>widgets/conversation/Composer.tsx\<close> as a machine over what the person does, what uploads and
  the recorder answer, and the props it is drawn with. \<open>cp_log\<close> is what leaves it: calls of \<open>onSend\<close> and \<open>onSchedule\<close> (with
  the draft key of the place they are for), typing frames, uploads of voice notes and messages shown. A selection is
  given by its two positions, counted in UTF-16 units as the text area does.

  The theorems: what is typed is what the chat's draft holds, whatever happens, so leaving and coming back loses
  nothing; nothing empty is ever sent; who is said to be typing is later said to have stopped; formatting only
  adds its marks; and what goes wrong when a thread panel changes its thread.
\<close>

record picked_file =
  pf_name :: string
  pf_size :: nat

record upload_item =
  ui_key :: nat
  ui_fileName :: string
  ui_progress :: "real option"
  ui_aborted :: bool
  ui_rest :: "picked_file list"
  ui_maxBytes :: nat
  ui_quarantine :: "quarantine option"

datatype composer_out =
    OnSend string string "string option" "attachment list option"
  | OnSchedule string string string "string option" "attachment list option"
  | TypingFrame bool chat_type string
  | VoiceUpload string int "string option"
  | ComposerToast ui_text

record composer =
  cp_chatType :: chat_type
  cp_chatId :: string
  cp_draftKey :: "string option"
  cp_canSchedule :: bool
  cp_replyTo :: "string option"
  cp_text :: string
  cp_attachments :: "attachment list"
  cp_uploads :: "upload_item list"
  cp_sendingVoice :: bool
  cp_fmtOpen :: bool
  cp_scheduleOpen :: bool
  cp_limit :: "nat option"
  cp_quarantine :: "quarantine option"
  cp_typingSent :: bool
  cp_typingTimer :: "(chat_type \<times> string) option"
  cp_drafts :: "string \<rightharpoonup> string"
  cp_nextKey :: nat
  cp_voices :: "(string \<times> string option) list"
  cp_log :: "composer_out list"

definition FALLBACK_MAX_BYTES :: nat where
  "FALLBACK_MAX_BYTES = 10 * 1024 * 1024"

definition dKey :: "composer \<Rightarrow> string" where
  "dKey s = (case cp_draftKey s of Some k \<Rightarrow> k | None \<Rightarrow> cp_chatId s)"

definition draft_of :: "(string \<rightharpoonup> string) \<Rightarrow> string \<Rightarrow> string" where
  "draft_of drafts k = (case drafts k of Some t \<Rightarrow> t | None \<Rightarrow> [])"

definition emit :: "composer_out \<Rightarrow> composer \<Rightarrow> composer" where
  "emit out s = s\<lparr>cp_log := cp_log s @ [out]\<rparr>"

text \<open>The state on mounting, and the effect on \<open>chatId\<close>.\<close>

definition restore_draft :: "composer \<Rightarrow> composer" where
  "restore_draft s = s\<lparr>cp_text := draft_of (cp_drafts s) (dKey s), cp_attachments := [], cp_replyTo := None\<rparr>"

definition composer_mount :: "chat_type \<Rightarrow> string \<Rightarrow> string option \<Rightarrow> bool \<Rightarrow> nat option \<Rightarrow> quarantine option \<Rightarrow> (string \<rightharpoonup> string) \<Rightarrow> composer" where
  "composer_mount ct chatId k sched limit q drafts = restore_draft
     \<lparr>cp_chatType = ct, cp_chatId = chatId, cp_draftKey = k, cp_canSchedule = sched, cp_replyTo = None, cp_text = [], cp_attachments = [],
      cp_uploads = [], cp_sendingVoice = False, cp_fmtOpen = False, cp_scheduleOpen = False, cp_limit = limit, cp_quarantine = q,
      cp_typingSent = False, cp_typingTimer = None, cp_drafts = drafts, cp_nextKey = 0, cp_voices = [], cp_log = []\<rparr>"

definition rerender :: "string \<Rightarrow> string option \<Rightarrow> composer \<Rightarrow> composer" where
  "rerender chatId k s = (let s1 = s\<lparr>cp_chatId := chatId, cp_draftKey := k\<rparr> in
     if chatId = cp_chatId s then s1 else restore_draft s1)"

definition updateText :: "string \<Rightarrow> composer \<Rightarrow> composer" where
  "updateText v s = s\<lparr>cp_text := v, cp_drafts := setDraft (dKey s) v (cp_drafts s)\<rparr>"

subsection \<open>Files\<close>

text \<open>\<open>uploadFiles\<close> handles the files one after the other; it stops at one that has to travel and goes on when that settled.\<close>

fun upload_next :: "nat \<Rightarrow> quarantine option \<Rightarrow> picked_file list \<Rightarrow> composer \<Rightarrow> composer" where
  "upload_next maxBytes q [] s = s"
| "upload_next maxBytes q (f # fs) s =
     (if pf_size f > maxBytes
      then upload_next maxBytes q fs (emit (ComposerToast (TT ''chat.composer.fileTooLarge'' [(''name'', Plain (pf_name f)), (''size'', formatBytes maxBytes)])) s)
      else case fileTooLargeForNewAccount q (pf_size f) of
        Some held \<Rightarrow> upload_next maxBytes q fs (emit (ComposerToast held) s)
      | None \<Rightarrow> s\<lparr>cp_uploads := cp_uploads s @ [\<lparr>ui_key = cp_nextKey s, ui_fileName = pf_name f, ui_progress = None, ui_aborted = False,
                 ui_rest = fs, ui_maxBytes = maxBytes, ui_quarantine = q\<rparr>], cp_nextKey := cp_nextKey s + 1\<rparr>)"

definition uploadFiles :: "picked_file list \<Rightarrow> composer \<Rightarrow> composer" where
  "uploadFiles fs s = upload_next (case cp_limit s of Some n \<Rightarrow> n | None \<Rightarrow> FALLBACK_MAX_BYTES) (cp_quarantine s) fs s"

definition upload_progress :: "nat \<Rightarrow> real \<Rightarrow> composer \<Rightarrow> composer" where
  "upload_progress k x s = s\<lparr>cp_uploads := map (\<lambda>u. if ui_key u = k then u\<lparr>ui_progress := Some x\<rparr> else u) (cp_uploads s)\<rparr>"

definition upload_abort :: "nat \<Rightarrow> composer \<Rightarrow> composer" where
  "upload_abort k s = s\<lparr>cp_uploads := map (\<lambda>u. if ui_key u = k then u\<lparr>ui_aborted := True\<rparr> else u) (cp_uploads s)\<rparr>"

definition upload_settles :: "nat \<Rightarrow> js_error + attachment \<Rightarrow> composer \<Rightarrow> composer" where
  "upload_settles k res s = (case find (\<lambda>u. ui_key u = k) (cp_uploads s) of None \<Rightarrow> s | Some u \<Rightarrow>
     (let s1 = (case res of
          Inr a \<Rightarrow> s\<lparr>cp_attachments := cp_attachments s @ [a]\<rparr>
        | Inl e \<Rightarrow> if ui_aborted u then s
            else emit (ComposerToast (userFacingError e (TT ''chat.composer.uploadFailed'' [(''name'', Plain (ui_fileName u))]))) s) in
      upload_next (ui_maxBytes u) (ui_quarantine u) (ui_rest u) (s1\<lparr>cp_uploads := filter (\<lambda>v. ui_key v \<noteq> k) (cp_uploads s1)\<rparr>)))"

definition attachment_removed :: "string \<Rightarrow> composer \<Rightarrow> composer" where
  "attachment_removed i s = s\<lparr>cp_attachments := filter (\<lambda>a. a_id a \<noteq> i) (cp_attachments s)\<rparr>"

subsection \<open>Typing\<close>

definition signalTyping :: "composer \<Rightarrow> composer" where
  "signalTyping s = (if cp_typingSent s then s else emit (TypingFrame True (cp_chatType s) (cp_chatId s)) (s\<lparr>cp_typingSent := True\<rparr>))
     \<lparr>cp_typingTimer := Some (cp_chatType s, cp_chatId s)\<rparr>"

definition typing_timer_fires :: "composer \<Rightarrow> composer" where
  "typing_timer_fires s = (case cp_typingTimer s of None \<Rightarrow> s
     | Some (ct, c) \<Rightarrow> emit (TypingFrame False ct c) (s\<lparr>cp_typingTimer := None, cp_typingSent := False\<rparr>))"

subsection \<open>Sending\<close>

definition sent_attachments :: "composer \<Rightarrow> attachment list option" where
  "sent_attachments s = (if cp_attachments s = [] then None else Some (cp_attachments s))"

definition cleared :: "composer \<Rightarrow> composer" where
  "cleared s = emit (TypingFrame False (cp_chatType s) (cp_chatId s))
     (s\<lparr>cp_text := [], cp_attachments := [], cp_drafts := clearDraft (dKey s) (cp_drafts s), cp_replyTo := None, cp_typingSent := False\<rparr>)"

definition submit :: "composer \<Rightarrow> composer" where
  "submit s = (if js_trim (cp_text s) = [] \<and> cp_attachments s = [] then s
     else (cleared (emit (OnSend (dKey s) (js_trim (cp_text s)) (cp_replyTo s) (sent_attachments s)) s))\<lparr>cp_fmtOpen := False\<rparr>)"

definition submitScheduled :: "string \<Rightarrow> composer \<Rightarrow> composer" where
  "submitScheduled sendAt s0 = (let s = s0\<lparr>cp_scheduleOpen := False\<rparr> in
     if \<not> cp_canSchedule s \<or> js_trim (cp_text s) = [] \<and> cp_attachments s = [] then s
     else cleared (emit (OnSchedule (dKey s) (js_trim (cp_text s)) sendAt (cp_replyTo s) (sent_attachments s)) s))"

text \<open>A voice note: \<open>recorder.stop()\<close>, the upload, the message; the reply and the place are those of the press.\<close>

definition sendVoice :: "composer \<Rightarrow> composer" where
  "sendVoice s = s\<lparr>cp_voices := cp_voices s @ [(dKey s, cp_replyTo s)]\<rparr>"

definition voice_stopped :: "string \<Rightarrow> string \<Rightarrow> voice_note option \<Rightarrow> composer \<Rightarrow> composer" where
  "voice_stopped now mime note s = (case note of None \<Rightarrow> s | Some n \<Rightarrow>
     emit (VoiceUpload (''voice-'' @ now @ ''.'' @ (if sublist ''mp4'' mime then ''m4a'' else ''webm'')) (vn_durationMs n)
       (if vn_waveform n = [] then None else Some (waveformToBase64 (map nat (vn_waveform n))))) (s\<lparr>cp_sendingVoice := True\<rparr>))"

definition voice_uploaded :: "nat \<Rightarrow> js_error + attachment \<Rightarrow> composer \<Rightarrow> composer" where
  "voice_uploaded k res s = (if k < length (cp_voices s) \<and> cp_sendingVoice s then
     (case res of
        Inr a \<Rightarrow> emit (OnSend (fst (cp_voices s ! k)) [] (snd (cp_voices s ! k)) (Some [a])) (s\<lparr>cp_replyTo := None\<rparr>)
      | Inl e \<Rightarrow> emit (ComposerToast (T ''chat.composer.voiceSendFailed'' [])) s)\<lparr>cp_sendingVoice := False\<rparr> else s)"

definition recording_refused :: "composer \<Rightarrow> composer" where
  "recording_refused = emit (ComposerToast (T ''chat.composer.micDenied'' []))"

subsection \<open>Formatting\<close>

definition wrapped :: "string \<Rightarrow> nat \<Rightarrow> nat \<Rightarrow> string \<Rightarrow> string" where
  "wrapped mark st en txt = js_take st txt @ mark @ js_drop st (js_take en txt) @ mark @ js_drop en txt"

definition wrapSelection :: "string \<Rightarrow> nat \<Rightarrow> nat \<Rightarrow> composer \<Rightarrow> composer" where
  "wrapSelection mark st en s = updateText (wrapped mark st en (cp_text s)) s"

definition insertEmoji :: "string \<Rightarrow> nat \<Rightarrow> nat \<Rightarrow> composer \<Rightarrow> composer" where
  "insertEmoji ch st en s = updateText (js_take st (cp_text s) @ ch @ js_drop en (cp_text s)) s"

definition format_mark :: "string \<Rightarrow> string option" where
  "format_mark k = (if k = ''b'' then Some ''**'' else if k = ''i'' then Some ''_'' else if k = ''e'' then Some [CHR 0x60] else None)"

text \<open>A key in the field: a formatting key with Ctrl or Cmd (\<open>k\<close> in lower case), Enter, or nothing of ours.\<close>

definition key_down :: "bool \<Rightarrow> bool \<Rightarrow> string \<Rightarrow> nat \<Rightarrow> nat \<Rightarrow> composer \<Rightarrow> composer" where
  "key_down ctrl shift k st en s =
     (case (if ctrl then format_mark k else None) of
        Some mark \<Rightarrow> wrapSelection mark st en s
      | None \<Rightarrow> if k = ''enter'' \<and> \<not> shift then submit s else s)"

datatype composer_event =
    Typed string
  | KeyPressed bool bool string nat nat
  | WrapPressed string nat nat
  | EmojiPicked string nat nat
  | FilesPicked "picked_file list"
  | UploadProgress nat real
  | UploadSettles nat "js_error + attachment"
  | UploadCancelled nat
  | AttachmentRemoved string
  | SubmitPressed
  | SchedulePicked string
  | VoicePressed
  | VoiceStopped string string "voice_note option"
  | VoiceUploaded nat "js_error + attachment"
  | RecordingRefused
  | TypingTimeout
  | ReplyChosen string
  | ReplyCancelled
  | FormatToggled
  | ScheduleToggled bool
  | Redrawn string "string option"
  | OtherDraft string string

fun composer_step :: "composer_event \<Rightarrow> composer \<Rightarrow> composer" where
  "composer_step (Typed v) s = signalTyping (updateText v s)"
| "composer_step (KeyPressed ctrl shift k st en) s = key_down ctrl shift k st en s"
| "composer_step (WrapPressed mark st en) s = wrapSelection mark st en s"
| "composer_step (EmojiPicked ch st en) s = insertEmoji ch st en s"
| "composer_step (FilesPicked fs) s = uploadFiles fs s"
| "composer_step (UploadProgress k x) s = upload_progress k x s"
| "composer_step (UploadSettles k res) s = upload_settles k res s"
| "composer_step (UploadCancelled k) s = upload_abort k s"
| "composer_step (AttachmentRemoved i) s = attachment_removed i s"
| "composer_step SubmitPressed s = submit s"
| "composer_step (SchedulePicked d) s = submitScheduled d s"
| "composer_step VoicePressed s = sendVoice s"
| "composer_step (VoiceStopped now mime note) s = voice_stopped now mime note s"
| "composer_step (VoiceUploaded k res) s = voice_uploaded k res s"
| "composer_step RecordingRefused s = recording_refused s"
| "composer_step TypingTimeout s = typing_timer_fires s"
| "composer_step (ReplyChosen i) s = s\<lparr>cp_replyTo := Some i\<rparr>"
| "composer_step ReplyCancelled s = s\<lparr>cp_replyTo := None\<rparr>"
| "composer_step FormatToggled s = s\<lparr>cp_fmtOpen := \<not> cp_fmtOpen s\<rparr>"
| "composer_step (ScheduleToggled b) s = s\<lparr>cp_scheduleOpen := b\<rparr>"
| "composer_step (Redrawn c k) s = rerender c k s"
| "composer_step (OtherDraft k t) s = (if k = dKey s then s else s\<lparr>cp_drafts := setDraft k t (cp_drafts s)\<rparr>)"

subsection \<open>What the composer keeps\<close>

definition keeps_text :: "composer \<Rightarrow> composer \<Rightarrow> bool" where
  "keeps_text s s' \<longleftrightarrow> cp_text s' = cp_text s \<and> cp_drafts s' = cp_drafts s \<and> cp_chatId s' = cp_chatId s \<and> cp_draftKey s' = cp_draftKey s \<and>
     cp_chatType s' = cp_chatType s \<and> cp_typingSent s' = cp_typingSent s \<and> cp_typingTimer s' = cp_typingTimer s \<and>
     (\<exists>ts. cp_log s' = cp_log s @ map ComposerToast ts)"

lemma keeps_text_trans: "keeps_text a b \<Longrightarrow> keeps_text b c \<Longrightarrow> keeps_text a c"
proof -
  assume ab: "keeps_text a b" and bc: "keeps_text b c"
  then obtain t u where "cp_log b = cp_log a @ map ComposerToast t" "cp_log c = cp_log b @ map ComposerToast u"
    by (auto simp: keeps_text_def)
  then have "cp_log c = cp_log a @ map ComposerToast (t @ u)" by simp
  with ab bc show ?thesis unfolding keeps_text_def by metis
qed

lemma keeps_text_toast: "keeps_text s (emit (ComposerToast t) s)"
  by (simp add: keeps_text_def emit_def) (metis list.simps(8,9))

lemma keeps_text_same: "cp_log s' = cp_log s \<Longrightarrow> cp_text s' = cp_text s \<Longrightarrow> cp_drafts s' = cp_drafts s \<Longrightarrow> cp_chatId s' = cp_chatId s \<Longrightarrow>
  cp_draftKey s' = cp_draftKey s \<Longrightarrow> cp_chatType s' = cp_chatType s \<Longrightarrow> cp_typingSent s' = cp_typingSent s \<Longrightarrow>
  cp_typingTimer s' = cp_typingTimer s \<Longrightarrow> keeps_text s s'"
  by (simp add: keeps_text_def)

lemma upload_next_keeps: "keeps_text s (upload_next n q fs s)"
proof (induction n q fs s rule: upload_next.induct)
  case (2 n q f fs s)
  then show ?case
    by (auto intro: keeps_text_trans [OF keeps_text_toast] keeps_text_same split: option.splits)
qed (simp add: keeps_text_same)

lemma upload_settles_keeps: "keeps_text s (upload_settles k res s)"
proof (cases "find (\<lambda>u. ui_key u = k) (cp_uploads s)")
  case None
  then show ?thesis by (simp add: upload_settles_def keeps_text_same)
next
  case (Some u)
  define s1 where "s1 = (case res of
          Inr a \<Rightarrow> s\<lparr>cp_attachments := cp_attachments s @ [a]\<rparr>
        | Inl e \<Rightarrow> if ui_aborted u then s
            else emit (ComposerToast (userFacingError e (TT ''chat.composer.uploadFailed'' [(''name'', Plain (ui_fileName u))]))) s)"
  have "keeps_text s s1" by (auto simp: s1_def keeps_text_toast keeps_text_same split: sum.splits)
  moreover have "keeps_text s1 (s1\<lparr>cp_uploads := filter (\<lambda>v. ui_key v \<noteq> k) (cp_uploads s1)\<rparr>)" by (simp add: keeps_text_same)
  ultimately show ?thesis
    using Some upload_next_keeps by (auto simp: upload_settles_def s1_def [symmetric] intro: keeps_text_trans)
qed

text \<open>The events that neither write the text nor send: they keep what \<open>keeps_text\<close> says.\<close>

fun quiet :: "composer_event \<Rightarrow> bool" where
  "quiet (FilesPicked fs) = True"
| "quiet (UploadProgress k x) = True"
| "quiet (UploadSettles k r) = True"
| "quiet (UploadCancelled k) = True"
| "quiet (AttachmentRemoved i) = True"
| "quiet VoicePressed = True"
| "quiet RecordingRefused = True"
| "quiet (ReplyChosen i) = True"
| "quiet ReplyCancelled = True"
| "quiet FormatToggled = True"
| "quiet (ScheduleToggled b) = True"
| "quiet _ = False"

lemma quiet_keeps: "quiet e \<Longrightarrow> keeps_text s (composer_step e s)"
  by (cases e) (simp_all add: uploadFiles_def upload_next_keeps upload_progress_def upload_settles_keeps upload_abort_def
      attachment_removed_def sendVoice_def recording_refused_def keeps_text_toast keeps_text_same)

definition draft_inv :: "composer \<Rightarrow> bool" where
  "draft_inv s \<longleftrightarrow> cp_draftKey s = None \<and> cp_text s = draft_of (cp_drafts s) (cp_chatId s)"

fun main_event :: "composer_event \<Rightarrow> bool" where
  "main_event (Redrawn c k) = (k = None)"
| "main_event _ = True"

lemma draft_of_simps [simp]:
  "draft_of (setDraft k v d) k = v" "k \<noteq> k' \<Longrightarrow> draft_of (setDraft k v d) k' = draft_of d k'" "draft_of (clearDraft k d) k = []"
  by (simp_all add: draft_of_def setDraft_read clearDraft_read)

lemma draft_inv_text:
  assumes "draft_inv s"
  shows "draft_inv (updateText v s)" "draft_inv (signalTyping (updateText v s))" "draft_inv (submit s)"
    "draft_inv (submitScheduled d s)" "draft_inv (rerender c None s)" "draft_inv (typing_timer_fires s)"
    "draft_inv (voice_stopped now mime note s)" "draft_inv (voice_uploaded k res s)"
  using assms
  by (auto simp: draft_inv_def updateText_def signalTyping_def submit_def submitScheduled_def cleared_def rerender_def restore_draft_def
      typing_timer_fires_def voice_stopped_def voice_uploaded_def emit_def dKey_def Let_def split: option.splits prod.splits sum.splits)

lemma draft_inv_step: "draft_inv s \<Longrightarrow> main_event e \<Longrightarrow> draft_inv (composer_step e s)"
proof (cases "quiet e")
  case True
  moreover assume "draft_inv s"
  ultimately show ?thesis using quiet_keeps [of e s] by (simp add: keeps_text_def draft_inv_def)
next
  case False
  assume inv: "draft_inv s" and "main_event e"
  with False show ?thesis
  proof (cases e)
    case (OtherDraft k t)
    with inv show ?thesis by (auto simp: draft_inv_def dKey_def)
  qed (simp_all add: draft_inv_text key_down_def wrapSelection_def insertEmoji_def split: option.splits)
qed

interpretation drafts: event_machine composer_step main_event draft_inv
  by unfold_locales (rule draft_inv_step)

text \<open>
  C36. Leaving a chat and coming back loses nothing of what was typed. Over every history of typing, formatting, files, voice
  notes, sends, timers, changes of chat and writes of other composers, the text in the composer of a chat is the
  draft stored for that chat, and opening the chat again shows it.
\<close>

theorem composer_text_survives:
  assumes "list_all main_event es"
  shows "cp_text (fold composer_step es (composer_mount ct c None sched limit q drafts)) =
    cp_text (composer_mount ct' (cp_chatId (fold composer_step es (composer_mount ct c None sched limit q drafts))) None sched' limit' q'
      (cp_drafts (fold composer_step es (composer_mount ct c None sched limit q drafts))))"
proof -
  have "draft_inv (composer_mount ct c None sched limit q drafts)"
    by (simp add: draft_inv_def composer_mount_def restore_draft_def dKey_def)
  from drafts.run_inv [OF this assms] show ?thesis
    by (simp add: draft_inv_def composer_mount_def restore_draft_def dKey_def)
qed

theorem composer_text_survives_witness:
  "cp_text (composer_mount Private ''c1'' None True None None
     (cp_drafts (fold composer_step [Typed ''hello'', WrapPressed ''**'' 0 5] (composer_mount Private ''c1'' None True None None Map.empty)))) = ''**hello**''"
proof -
  have "cp_text (fold composer_step [Typed ''hello'', WrapPressed ''**'' 0 5] (composer_mount Private ''c1'' None True None None Map.empty)) = ''**hello**''"
    "cp_chatId (fold composer_step [Typed ''hello'', WrapPressed ''**'' 0 5] (composer_mount Private ''c1'' None True None None Map.empty)) = ''c1''"
    by (simp_all add: composer_mount_def restore_draft_def updateText_def signalTyping_def wrapSelection_def wrapped_def js_drop_def
        utf16_units_def emit_def)
  with composer_text_survives [of "[Typed ''hello'', WrapPressed ''**'' 0 5]" Private "''c1''" True None None Map.empty Private True None None]
  show ?thesis by simp
qed

subsection \<open>What leaves the composer\<close>

fun good_out :: "composer_out \<Rightarrow> bool" where
  "good_out (OnSend k t r atts) = (t \<noteq> [] \<or> (atts \<noteq> None \<and> atts \<noteq> Some []))"
| "good_out (OnSchedule k t d r atts) = (t \<noteq> [] \<or> (atts \<noteq> None \<and> atts \<noteq> Some []))"
| "good_out _ = True"

definition typing_on :: "composer_out list \<Rightarrow> bool" where
  "typing_on outs = foldl (\<lambda>b out. case out of TypingFrame x _ _ \<Rightarrow> x | _ \<Rightarrow> b) False outs"

lemma typing_on_simps [simp]:
  "typing_on [] = False" "typing_on (outs @ [TypingFrame x ct c]) = x"
  "typing_on (outs @ [OnSend k t r a]) = typing_on outs" "typing_on (outs @ [OnSchedule k t d r a]) = typing_on outs"
  "typing_on (outs @ [VoiceUpload n d' w]) = typing_on outs" "typing_on (outs @ map ComposerToast ts) = typing_on outs"
  "typing_on (outs @ [ComposerToast u]) = typing_on outs"
proof -
  show "typing_on (outs @ map ComposerToast ts) = typing_on outs"
    by (induction ts rule: rev_induct) (simp_all add: typing_on_def)
qed (simp_all add: typing_on_def)

definition out_inv :: "composer \<Rightarrow> bool" where
  "out_inv s \<longleftrightarrow> list_all good_out (cp_log s) \<and> typing_on (cp_log s) = cp_typingSent s \<and> (cp_typingSent s \<longrightarrow> cp_typingTimer s \<noteq> None)"

lemma toasts_good: "list_all good_out (map ComposerToast ts)"
  by (simp add: list_all_iff)

lemma out_inv_ops:
  assumes "out_inv s"
  shows "out_inv (updateText v s)" "out_inv (signalTyping s)" "out_inv (submit s)"
    "out_inv (submitScheduled d s)" "out_inv (rerender c k s)" "out_inv (typing_timer_fires s)"
    "out_inv (voice_stopped now mime note s)" "out_inv (voice_uploaded i res s)"
  using assms
  by (auto simp del: typing_on_simps simp: typing_on_def out_inv_def updateText_def signalTyping_def submit_def submitScheduled_def cleared_def rerender_def restore_draft_def
      typing_timer_fires_def voice_stopped_def voice_uploaded_def emit_def sent_attachments_def Let_def
      split: option.splits prod.splits sum.splits)

lemma out_inv_step: "out_inv s \<Longrightarrow> out_inv (composer_step e s)"
proof (cases "quiet e")
  case True
  moreover assume "out_inv s"
  moreover obtain ts where "cp_log (composer_step e s) = cp_log s @ map ComposerToast ts"
    using quiet_keeps [OF True] by (auto simp: keeps_text_def)
  ultimately show ?thesis using quiet_keeps [of e s] toasts_good by (simp add: keeps_text_def out_inv_def)
next
  case False
  assume inv: "out_inv s"
  with False show ?thesis
  proof (cases e)
    case (OtherDraft k t)
    with inv show ?thesis by (auto simp: out_inv_def)
  qed (simp_all add: out_inv_ops key_down_def wrapSelection_def insertEmoji_def split: option.splits)
qed

interpretation leaving: event_machine composer_step "\<lambda>_. True" out_inv
  by unfold_locales (rule out_inv_step)

text \<open>
  Over every history, whatever the props: no message without text and without attachments is ever sent or scheduled; and as long as
  the last typing frame says that somebody types, the timer that will say they stopped is pending, so letting it fire says so.
\<close>

theorem composer_sends_nothing_empty:
  "list_all good_out (cp_log (fold composer_step es (composer_mount ct c k sched limit q drafts))) \<and>
   (let s = fold composer_step es (composer_mount ct c k sched limit q drafts) in
     \<not> typing_on (cp_log s) \<or> (cp_typingTimer s \<noteq> None \<and> \<not> typing_on (cp_log (composer_step TypingTimeout s))))"
proof -
  have "out_inv (composer_mount ct c k sched limit q drafts)"
    by (simp add: out_inv_def composer_mount_def restore_draft_def)
  then have inv: "out_inv (fold composer_step es (composer_mount ct c k sched limit q drafts))"
    by (rule leaving.run_inv) (simp add: list.pred_True)
  moreover have "\<not> typing_on (cp_log (composer_step TypingTimeout s))" if "out_inv s" "cp_typingTimer s \<noteq> None" for s
    using that by (auto simp: typing_timer_fires_def emit_def)
  ultimately show ?thesis by (auto simp: out_inv_def Let_def)
qed

theorem composer_sends_nothing_empty_witness:
  "typing_on (cp_log (composer_step (Typed ''hi'') (composer_mount Private ''c1'' None True None None Map.empty))) \<and>
   cp_typingTimer (composer_step (Typed ''hi'') (composer_mount Private ''c1'' None True None None Map.empty)) \<noteq> None \<and>
   \<not> typing_on (cp_log (composer_step TypingTimeout (composer_step (Typed ''hi'') (composer_mount Private ''c1'' None True None None Map.empty))))"
proof -
  have "typing_on (cp_log (composer_step (Typed ''hi'') (composer_mount Private ''c1'' None True None None Map.empty)))"
    by (simp add: composer_mount_def restore_draft_def updateText_def signalTyping_def emit_def typing_on_def)
  with composer_sends_nothing_empty [of "[Typed ''hi'']" Private "''c1''" None True None None Map.empty]
  show ?thesis by (simp add: Let_def)
qed

text \<open>Sending empties the composer and the draft, and says once what was written.\<close>

lemma submit_sends_once:
  assumes "js_trim (cp_text s) \<noteq> [] \<or> cp_attachments s \<noteq> []"
  shows "cp_log (submit s) = cp_log s @ [OnSend (dKey s) (js_trim (cp_text s)) (cp_replyTo s) (sent_attachments s),
      TypingFrame False (cp_chatType s) (cp_chatId s)] \<and> cp_text (submit s) = [] \<and> cp_attachments (submit s) = [] \<and>
    draft_of (cp_drafts (submit s)) (dKey s) = [] \<and> submit (submit s) = submit s"
proof -
  have "js_trim [] = []" using js_trim_inside [of "[]"] by simp
  with assms show ?thesis by (cases "cp_draftKey s") (auto simp: submit_def cleared_def emit_def dKey_def)
qed

subsection \<open>Formatting\<close>

lemma js_take_take: "st \<le> en \<Longrightarrow> js_take st (js_take en s) = js_take st s"
  by (induction s arbitrary: st en) auto

text \<open>Formatting a selection puts the mark on both sides of it and changes nothing else.\<close>

theorem wrap_only_adds_marks:
  assumes "st \<le> en"
  shows "\<exists>a sel b. txt = a @ sel @ b \<and> wrapped mark st en txt = a @ mark @ sel @ mark @ b"
proof (intro exI conjI)
  have "js_take st txt @ js_drop st (js_take en txt) = js_take en txt"
    using js_take_drop [of st "js_take en txt"] js_take_take [OF assms, of "txt"] by simp
  then show "txt = js_take st txt @ js_drop st (js_take en txt) @ js_drop en txt" by (metis append_assoc js_take_drop)
  show "wrapped mark st en txt = js_take st txt @ mark @ js_drop st (js_take en txt) @ mark @ js_drop en txt"
    by (simp add: wrapped_def)
qed

text \<open>The comment of the code says that wrapping twice takes the mark off again; it puts a second one.\<close>

lemma wrap_does_not_toggle: "wrapped ''**'' 2 7 (wrapped ''**'' 0 5 ''hello'') = ''****hello****''"
  by (simp add: wrapped_def js_drop_def utf16_units_def)

subsection \<open>Threads\<close>

text \<open>
  A thread panel keeps its composer when another thread of the group is opened: the props change the draft key and not the
  chat. The text typed for the first thread is then sent into the second, and stays as a draft of the first.
\<close>

theorem thread_switch_carries_text:
  assumes "js_trim v \<noteq> []" and "k1 \<noteq> k2"
    and "s = fold composer_step [Typed v, Redrawn c (Some k2), SubmitPressed] (composer_mount ct c (Some k1) False limit q drafts)"
  shows "OnSend k2 (js_trim v) None None \<in> set (cp_log s) \<and> draft_of (cp_drafts s) k1 = v"
  using assms by (auto simp: composer_mount_def restore_draft_def updateText_def signalTyping_def rerender_def submit_def cleared_def
      emit_def dKey_def sent_attachments_def Let_def draft_of_def clearDraft_def setDraft_read js_trim_inside)

end
