(* ===== verification/Back_Stack.thy ===== *)
theory Back_Stack
  imports Kisy_Prelude
begin

text \<open>
  The Android back gesture: \<open>shared/lib/backStack.ts\<close> and \<open>shared/lib/nativeBack.ts\<close>. Overlays announce themselves in a stack
  of entries with an id; a press closes the newest, else goes back in the history, else sends the app to the
  background. What the stack promises is the locale \<open>overlay_stack\<close>; the module's stack interprets it, and over every
  history of opening, closing and pressing it is the list of open overlays in the order they were opened.
\<close>

subsection \<open>The contract\<close>

locale overlay_stack =
  fixes announce :: "'o \<Rightarrow> 's \<Rightarrow> nat \<times> 's" and withdraw :: "nat \<Rightarrow> 's \<Rightarrow> 's" and newest :: "'s \<Rightarrow> 'o option"
    and open_list :: "'s \<Rightarrow> (nat \<times> 'o) list" and invar :: "'s \<Rightarrow> bool"
  assumes announce_list: "invar s \<Longrightarrow> announce x s = (i, s') \<Longrightarrow> open_list s' = open_list s @ [(i, x)] \<and> i \<notin> fst ` set (open_list s) \<and> invar s'"
    and withdraw_list: "invar s \<Longrightarrow> open_list (withdraw i s) = filter (\<lambda>(j, _). j \<noteq> i) (open_list s) \<and> invar (withdraw i s)"
    and newest_list: "invar s \<Longrightarrow> newest s = (if open_list s = [] then None else Some (snd (last (open_list s))))"
begin

text \<open>An overlay opened last is closed first, and closing it uncovers the one before.\<close>

lemma last_in_first_out:
  assumes "invar s" and "announce x s = (i, s')"
  shows "newest s' = Some x \<and> open_list (withdraw i s') = open_list s \<and> newest (withdraw i s') = newest s"
proof -
  note a = announce_list [OF assms]
  then have "open_list (withdraw i s') = open_list s"
    using withdraw_list [of s' i] by (auto simp: filter_id_conv image_iff)
  with a withdraw_list [of s' i] newest_list assms(1) show ?thesis by auto
qed

end

subsection \<open>The stack\<close>

record 'o back_stack =
  bs_stack :: "(nat \<times> 'o) list"
  bs_nextId :: nat

definition back_start :: "'o back_stack" where
  "back_start = \<lparr>bs_stack = [], bs_nextId = 1\<rparr>"

definition pushBackHandler :: "'o \<Rightarrow> 'o back_stack \<Rightarrow> nat \<times> 'o back_stack" where
  "pushBackHandler x s = (bs_nextId s, s\<lparr>bs_stack := bs_stack s @ [(bs_nextId s, x)], bs_nextId := bs_nextId s + 1\<rparr>)"

text \<open>\<open>findIndex\<close> and \<open>splice\<close>: the first entry with the id goes.\<close>

fun remove_id :: "nat \<Rightarrow> (nat \<times> 'o) list \<Rightarrow> (nat \<times> 'o) list" where
  "remove_id i [] = []"
| "remove_id i (e # es) = (if fst e = i then es else e # remove_id i es)"

definition removeBackHandler :: "nat \<Rightarrow> 'o back_stack \<Rightarrow> 'o back_stack" where
  "removeBackHandler i s = s\<lparr>bs_stack := remove_id i (bs_stack s)\<rparr>"

definition closeTopOverlay :: "'o back_stack \<Rightarrow> 'o option" where
  "closeTopOverlay s = (if bs_stack s = [] then None else Some (snd (last (bs_stack s))))"

definition openOverlayCount :: "'o back_stack \<Rightarrow> nat" where
  "openOverlayCount s = length (bs_stack s)"

definition stack_invar :: "'o back_stack \<Rightarrow> bool" where
  "stack_invar s \<longleftrightarrow> distinct (map fst (bs_stack s)) \<and> (\<forall>i\<in>fst ` set (bs_stack s). i < bs_nextId s)"

lemma remove_id_filter: "distinct (map fst es) \<Longrightarrow> remove_id i es = filter (\<lambda>(j, _). j \<noteq> i) es"
  by (induction es) (auto simp: filter_id_conv image_iff intro!: sym [OF filter_True])

interpretation overlays: overlay_stack pushBackHandler removeBackHandler closeTopOverlay bs_stack stack_invar
  by unfold_locales
    (auto simp: pushBackHandler_def removeBackHandler_def closeTopOverlay_def stack_invar_def remove_id_filter image_iff
      distinct_map_filter)

subsection \<open>A press\<close>

datatype 'o back_outcome = Closed 'o | WentBack | Minimized

definition handleBackPress :: "nat \<Rightarrow> 'o back_stack \<Rightarrow> 'o back_outcome" where
  "handleBackPress historyIndex s = (case closeTopOverlay s of
     Some x \<Rightarrow> Closed x | None \<Rightarrow> if historyIndex > 0 then WentBack else Minimized)"

text \<open>\<open>historyIndex\<close>: the router's place in its history, 0 when the state has none.\<close>

definition historyIndex :: "int option \<Rightarrow> nat" where
  "historyIndex idx = (case idx of Some i \<Rightarrow> nat i | None \<Rightarrow> 0)"

subsection \<open>The overlays on the screen\<close>

text \<open>
  \<open>useBackHandler(open, onBack)\<close> of a component \<open>x\<close>: the effect on \<open>open\<close> pushes an entry when it becomes true and removes
  that entry when it becomes false or the component goes. The handlers of the app close their own overlay.
\<close>

record 'o screen_stack =
  sc_stack :: "'o back_stack"
  sc_ids :: "'o \<Rightarrow> nat option"
  sc_index :: nat
  sc_hidden :: bool

definition screen_start :: "'o screen_stack" where
  "screen_start = \<lparr>sc_stack = back_start, sc_ids = (\<lambda>_. None), sc_index = 0, sc_hidden = False\<rparr>"

definition overlay_opens :: "'o \<Rightarrow> 'o screen_stack \<Rightarrow> 'o screen_stack" where
  "overlay_opens x s = (if sc_ids s x \<noteq> None then s
     else case pushBackHandler x (sc_stack s) of (i, st) \<Rightarrow> s\<lparr>sc_stack := st, sc_ids := (sc_ids s)(x \<mapsto> i)\<rparr>)"

definition overlay_closes :: "'o \<Rightarrow> 'o screen_stack \<Rightarrow> 'o screen_stack" where
  "overlay_closes x s = (case sc_ids s x of None \<Rightarrow> s
     | Some i \<Rightarrow> s\<lparr>sc_stack := removeBackHandler i (sc_stack s), sc_ids := (sc_ids s)(x := None)\<rparr>)"

definition back_pressed :: "'o screen_stack \<Rightarrow> 'o screen_stack" where
  "back_pressed s = (case handleBackPress (sc_index s) (sc_stack s) of
     Closed x \<Rightarrow> overlay_closes x s
   | WentBack \<Rightarrow> s\<lparr>sc_index := sc_index s - 1\<rparr>
   | Minimized \<Rightarrow> s\<lparr>sc_hidden := True\<rparr>)"

datatype 'o screen_event = Opens 'o | Closes 'o | BackPressed | Navigated | Resumed

fun screen_step :: "'o screen_event \<Rightarrow> 'o screen_stack \<Rightarrow> 'o screen_stack" where
  "screen_step (Opens x) s = overlay_opens x s"
| "screen_step (Closes x) s = overlay_closes x s"
| "screen_step BackPressed s = back_pressed s"
| "screen_step Navigated s = s\<lparr>sc_index := sc_index s + 1\<rparr>"
| "screen_step Resumed s = s\<lparr>sc_hidden := False\<rparr>"

text \<open>What a person expects: the open overlays in the order they were opened, and back takes the last.\<close>

fun lifo_step :: "'o screen_event \<Rightarrow> 'o list \<times> nat \<times> bool \<Rightarrow> 'o list \<times> nat \<times> bool" where
  "lifo_step (Opens x) (os, n, h) = (if x \<in> set os then os else os @ [x], n, h)"
| "lifo_step (Closes x) (os, n, h) = (filter (\<lambda>y. y \<noteq> x) os, n, h)"
| "lifo_step BackPressed (os, n, h) = (if os \<noteq> [] then (butlast os, n, h) else if n > 0 then (os, n - 1, h) else (os, n, True))"
| "lifo_step Navigated (os, n, h) = (os, n + 1, h)"
| "lifo_step Resumed (os, n, h) = (os, n, False)"

definition abs_screen :: "'o screen_stack \<Rightarrow> 'o list \<times> nat \<times> bool" where
  "abs_screen s = (map snd (bs_stack (sc_stack s)), sc_index s, sc_hidden s)"

definition screen_inv :: "'o screen_stack \<Rightarrow> bool" where
  "screen_inv s \<longleftrightarrow> stack_invar (sc_stack s) \<and> distinct (map snd (bs_stack (sc_stack s))) \<and>
     (\<forall>x i. sc_ids s x = Some i \<longleftrightarrow> (i, x) \<in> set (bs_stack (sc_stack s)))"

lemma screen_inv_known: "screen_inv s \<Longrightarrow> sc_ids s x \<noteq> None \<longleftrightarrow> x \<in> snd ` set (bs_stack (sc_stack s))"
  by (force simp: screen_inv_def)

lemma opens_refines:
  assumes "screen_inv s"
  shows "screen_inv (overlay_opens x s) \<and> abs_screen (overlay_opens x s) = lifo_step (Opens x) (abs_screen s)"
proof (cases "sc_ids s x")
  case None
  obtain i st where p: "pushBackHandler x (sc_stack s) = (i, st)" by fastforce
  have new: "x \<notin> snd ` set (bs_stack (sc_stack s))" using screen_inv_known [OF assms, of x] None by simp
  have st: "bs_stack st = bs_stack (sc_stack s) @ [(i, x)]" "i \<notin> fst ` set (bs_stack (sc_stack s))" "stack_invar st"
    using overlays.announce_list [OF _ p] assms by (auto simp: screen_inv_def)
  have "screen_inv (overlay_opens x s)"
    using assms st new None p by (auto simp: screen_inv_def overlay_opens_def image_iff)
  with st new None p show ?thesis by (simp add: overlay_opens_def abs_screen_def)
next
  case (Some i)
  with assms show ?thesis using screen_inv_known [OF assms, of x] by (simp add: overlay_opens_def abs_screen_def)
qed

lemma filter_entry:
  assumes "distinct (map fst es)" and "distinct (map snd es)" and "(i, x) \<in> set es"
  shows "map snd (filter (\<lambda>(j, _). j \<noteq> i) es) = filter (\<lambda>y. y \<noteq> x) (map snd es)"
proof -
  have "e \<in> set es \<Longrightarrow> (fst e = i) = (snd e = x)" for e
    using assms by (auto dest: eq_key_imp_eq_value simp: distinct_map inj_on_def) (metis prod.collapse snd_conv fst_conv)+
  then have "filter (\<lambda>(j, _). j \<noteq> i) es = filter (\<lambda>e. snd e \<noteq> x) es"
    by (intro filter_cong) (simp_all add: case_prod_beta)
  then show ?thesis by (simp add: filter_map comp_def)
qed

lemma closes_refines:
  assumes "screen_inv s"
  shows "screen_inv (overlay_closes x s) \<and> abs_screen (overlay_closes x s) = lifo_step (Closes x) (abs_screen s)"
proof (cases "sc_ids s x")
  case None
  with screen_inv_known [OF assms, of x] have "x \<notin> snd ` set (bs_stack (sc_stack s))" by simp
  then have "filter (\<lambda>y. y \<noteq> x) (map snd (bs_stack (sc_stack s))) = map snd (bs_stack (sc_stack s))"
    by (auto simp: filter_id_conv)
  with None assms show ?thesis by (simp add: overlay_closes_def abs_screen_def)
next
  case (Some i)
  let ?es = "bs_stack (sc_stack s)"
  have inv: "stack_invar (sc_stack s)" "distinct (map fst ?es)" "distinct (map snd ?es)" "(i, x) \<in> set ?es"
    using assms Some by (auto simp: screen_inv_def stack_invar_def)
  have known: "sc_ids s y = Some j \<longleftrightarrow> (j, y) \<in> set ?es" for y j using assms by (simp add: screen_inv_def)
  have uniq: "(j, x) \<in> set ?es \<Longrightarrow> j = i" for j using known [of x j] Some by simp
  note w = overlays.withdraw_list [OF inv(1), of i]
  have "distinct (map snd (filter (\<lambda>(j, _). j \<noteq> i) ?es))" using filter_entry [OF inv(2-4)] inv(3) by simp
  moreover have "((sc_ids s)(x := None)) y = Some j \<longleftrightarrow> (j, y) \<in> set (filter (\<lambda>(j, _). j \<noteq> i) ?es)" for y j
  proof (cases "y = x")
    case True then show ?thesis using uniq [of j] by fastforce
  next
    case False
    then have "(i, y) \<notin> set ?es" using eq_key_imp_eq_value [OF inv(2) inv(4), of y] by blast
    then have "(j, y) \<in> set ?es \<longleftrightarrow> (j, y) \<in> set ?es \<and> j \<noteq> i" by blast
    with False known [of y j] show ?thesis by simp
  qed
  ultimately show ?thesis
    using w Some filter_entry [OF inv(2-4)] by (simp add: screen_inv_def overlay_closes_def abs_screen_def)
qed

lemma filter_last_out: "distinct os \<Longrightarrow> os \<noteq> [] \<Longrightarrow> filter (\<lambda>y. y \<noteq> last os) os = butlast os"
  by (cases os rule: rev_cases) (auto simp: filter_id_conv)

lemma back_refines:
  assumes "screen_inv s"
  shows "screen_inv (back_pressed s) \<and> abs_screen (back_pressed s) = lifo_step BackPressed (abs_screen s)"
proof (cases "bs_stack (sc_stack s) = []")
  case True
  with assms show ?thesis
    by (auto simp: back_pressed_def handleBackPress_def closeTopOverlay_def abs_screen_def screen_inv_def)
next
  case False
  let ?os = "map snd (bs_stack (sc_stack s))"
  have "back_pressed s = overlay_closes (last ?os) s"
    using False by (simp add: back_pressed_def handleBackPress_def closeTopOverlay_def last_map)
  moreover have "filter (\<lambda>y. y \<noteq> last ?os) ?os = butlast ?os"
    using assms False by (intro filter_last_out) (auto simp: screen_inv_def)
  ultimately show ?thesis using closes_refines [OF assms, of "last ?os"] False by (simp add: abs_screen_def)
qed

lemma screen_step_refines:
  "screen_inv s \<Longrightarrow> screen_inv (screen_step e s) \<and> abs_screen (screen_step e s) = lifo_step e (abs_screen s)"
proof (cases e)
  case (Opens x) then show "screen_inv s \<Longrightarrow> ?thesis" using opens_refines [of s x] by simp
next
  case (Closes x) then show "screen_inv s \<Longrightarrow> ?thesis" using closes_refines [of s x] by simp
next
  case BackPressed then show "screen_inv s \<Longrightarrow> ?thesis" using back_refines [of s] by simp
qed (simp_all add: screen_inv_def abs_screen_def)

lemma screen_run_refines:
  "screen_inv s \<Longrightarrow> screen_inv (fold screen_step es s) \<and> abs_screen (fold screen_step es s) = fold lifo_step es (abs_screen s)"
  by (induction es arbitrary: s) (simp_all add: screen_step_refines)

lemma screen_start_inv: "screen_inv screen_start"
  by (simp add: screen_inv_def stack_invar_def screen_start_def back_start_def)


text \<open>So as many presses as overlays and screens are behind the person lead to the first screen, never past it.\<close>

theorem back_leads_home:
  "fst (snd ((lifo_step BackPressed ^^ (length os + n)) (os, n, h))) = 0 \<and> fst ((lifo_step BackPressed ^^ (length os + n)) (os, n, h)) = []
   \<and> snd (snd ((lifo_step BackPressed ^^ (length os + n)) (os, n, h))) = h"
proof (induction os arbitrary: n rule: rev_induct)
  case Nil
  show ?case by (induction n) (simp_all add: funpow_swap1 del: funpow.simps(2), simp_all add: funpow_swap1)
next
  case (snoc o1 os)
  then show ?case by (simp add: funpow_swap1)
qed

end
