(* ===== verification/Feed.thy ===== *)
theory Feed
  imports Endpoints Text_Rules
begin

text \<open>
  Posts: \<open>entities/post/queries.ts\<close>, \<open>features/post-compose/PostComposer.tsx\<close> and the reactions of
  \<open>widgets/feed/PostCard.tsx\<close>. The query cache is the cached pages by query key and the keys invalidated so far. The
  server is a function \<open>send\<close> from requests to answers. Emoji are strings of UTF-8 bytes.
\<close>

subsection \<open>Data\<close>

datatype media_kind = PostImage | PostVideo | PostAudio | PostFile

record post_media =
  pm_id :: string
  pm_kind :: media_kind
  pm_fileName :: string
  pm_mimeType :: string
  pm_sizeBytes :: nat
  pm_url :: string
  pm_position :: nat

record post_reaction =
  pr_emoji :: string
  pr_count :: int
  pr_mine :: bool

record post_community =
  pc_id :: string
  pc_name :: string
  pc_avatarUrl :: "string option"
  pc_isMember :: bool
  pc_joinPolicy :: string
  pc_verified :: bool

record post =
  p_id :: string
  p_text :: string
  p_createdAt :: string
  p_editedAt :: "string option"
  p_community :: post_community
  p_media :: "post_media list"
  p_reactions :: "post_reaction list"
  p_canDelete :: bool

record post_page =
  pp_posts :: "post list"
  pp_nextCursor :: string

text \<open>\<open>last.nextCursor || undefined\<close>\<close>

definition getNextPageParam :: "post_page \<Rightarrow> string option" where
  "getNextPageParam page = nonempty (pp_nextCursor page)"

subsection \<open>One reaction per reader\<close>

definition release :: "post_reaction \<Rightarrow> post_reaction" where
  "release r = (if pr_mine r then r\<lparr>pr_count := pr_count r - 1, pr_mine := False\<rparr> else r)"

fun take_up :: "string \<Rightarrow> post_reaction list \<Rightarrow> post_reaction list" where
  "take_up emoji [] = []"
| "take_up emoji (r # rs) = (if pr_emoji r = emoji then r\<lparr>pr_count := pr_count r + 1, pr_mine := True\<rparr> # rs else r # take_up emoji rs)"

definition applyReaction :: "post_reaction list \<Rightarrow> string \<Rightarrow> bool \<Rightarrow> post_reaction list" where
  "applyReaction reactions emoji on =
     (let released = filter (\<lambda>r. pr_count r > 0) (map release reactions) in
      if \<not> on then released
      else if \<exists>r\<in>set released. pr_emoji r = emoji then take_up emoji released
      else released @ [\<lparr>pr_emoji = emoji, pr_count = 1, pr_mine = True\<rparr>])"

text \<open>\<open>choose\<close> of a card: tapping one's own reaction takes it back.\<close>

definition choose_on :: "string \<Rightarrow> post_reaction list \<Rightarrow> bool" where
  "choose_on emoji reactions = (\<not> (\<exists>r\<in>set reactions. pr_emoji r = emoji \<and> pr_mine r))"

definition tap :: "string \<Rightarrow> post_reaction list \<Rightarrow> post_reaction list" where
  "tap emoji rs = applyReaction rs emoji (choose_on emoji rs)"

definition QUICK_REACTIONS :: "string list" where
  "QUICK_REACTIONS =
     [[CHR 0xF0, CHR 0x9F, CHR 0x91, CHR 0x8D], [CHR 0xF0, CHR 0x9F, CHR 0x94, CHR 0xA5],
      [CHR 0xE2, CHR 0x9D, CHR 0xA4, CHR 0xEF, CHR 0xB8, CHR 0x8F], [CHR 0xF0, CHR 0x9F, CHR 0x98, CHR 0x82],
      [CHR 0xF0, CHR 0x9F, CHR 0x91, CHR 0x8F]]"

definition chips :: "post_reaction list \<Rightarrow> post_reaction list" where
  "chips rs = map (\<lambda>emoji. case find (\<lambda>r. pr_emoji r = emoji) rs of Some r \<Rightarrow> r
       | None \<Rightarrow> \<lparr>pr_emoji = emoji, pr_count = 0, pr_mine = False\<rparr>) QUICK_REACTIONS
     @ filter (\<lambda>r. pr_emoji r \<notin> set QUICK_REACTIONS) rs"

text \<open>What the server keeps: which reader chose what, one row per reader.\<close>

definition summary_of :: "'u list \<Rightarrow> 'u \<Rightarrow> ('u \<Rightarrow> string option) \<Rightarrow> post_reaction list \<Rightarrow> bool" where
  "summary_of readers me chosen rs \<longleftrightarrow> distinct (map pr_emoji rs) \<and>
     pr_emoji ` set rs = {e. \<exists>u\<in>set readers. chosen u = Some e} \<and>
     (\<forall>r\<in>set rs. pr_count r = int (length (filter (\<lambda>u. chosen u = Some (pr_emoji r)) readers)) \<and>
        (pr_mine r \<longleftrightarrow> chosen me = Some (pr_emoji r)))"

definition server_tap :: "'u \<Rightarrow> string \<Rightarrow> ('u \<Rightarrow> string option) \<Rightarrow> 'u \<Rightarrow> string option" where
  "server_tap me emoji chosen = chosen(me := if chosen me = Some emoji then None else Some emoji)"

lemma length_filter_pos: "0 < length (filter P xs) \<longleftrightarrow> (\<exists>x\<in>set xs. P x)"
  by (induction xs) auto

text \<open>What one reader's change does to a count.\<close>

definition votes :: "'u list \<Rightarrow> ('u \<Rightarrow> string option) \<Rightarrow> string \<Rightarrow> int" where
  "votes readers chosen e = int (length (filter (\<lambda>u. chosen u = Some e) readers))"

lemma votes_pos: "0 < votes readers chosen e \<longleftrightarrow> (\<exists>u\<in>set readers. chosen u = Some e)"
  using length_filter_pos [of "\<lambda>u. chosen u = Some e" readers] by (simp add: votes_def)

lemma votes_change:
  assumes "distinct readers" and "me \<in> set readers"
  shows "votes readers (chosen(me := x)) e = votes readers chosen e - of_bool (chosen me = Some e) + of_bool (x = Some e)"
proof -
  obtain as bs where split: "readers = as @ me # bs" using assms(2) by (auto simp: in_set_conv_decomp)
  then have "me \<notin> set as" "me \<notin> set bs" using assms(1) by auto
  then have "filter (\<lambda>u. (chosen(me := x)) u = Some e) cs = filter (\<lambda>u. chosen u = Some e) cs" if "cs = as \<or> cs = bs" for cs
    using that by (intro filter_cong) auto
  then show ?thesis by (simp add: split votes_def)
qed

lemma summary_of_alt: "summary_of readers me chosen rs \<longleftrightarrow> distinct (map pr_emoji rs) \<and>
     (\<forall>e. e \<in> pr_emoji ` set rs \<longleftrightarrow> 0 < votes readers chosen e) \<and>
     (\<forall>r\<in>set rs. pr_count r = votes readers chosen (pr_emoji r) \<and> (pr_mine r \<longleftrightarrow> chosen me = Some (pr_emoji r)))"
  unfolding summary_of_def votes_pos by (auto simp: votes_def)

lemma released_fields [simp]: "pr_emoji (release r) = pr_emoji r" "\<not> pr_mine (release r)"
  "pr_count (release r) = pr_count r - of_bool (pr_mine r)"
  by (simp_all add: release_def)

lemma released_summary:
  assumes "distinct readers" and "me \<in> set readers" and "summary_of readers me chosen rs"
  shows "summary_of readers me (chosen(me := None)) (filter (\<lambda>r. pr_count r > 0) (map release rs))"
proof -
  note s = assms(3) [unfolded summary_of_alt]
  have cnt: "r \<in> set rs \<Longrightarrow> pr_count (release r) = votes readers (chosen(me := None)) (pr_emoji r)" for r
    using s by (simp add: votes_change [OF assms(1,2)])
  have le: "votes readers (chosen(me := None)) e \<le> votes readers chosen e" for e
    by (simp add: votes_change [OF assms(1,2)])
  have "distinct (map pr_emoji (filter (\<lambda>r. pr_count r > 0) (map release rs)))"
    using s by (intro distinct_map_filter) (simp add: comp_def)
  moreover have "e \<in> pr_emoji ` set (filter (\<lambda>r. pr_count r > 0) (map release rs)) \<longleftrightarrow> 0 < votes readers (chosen(me := None)) e" for e
  proof -
    have "e \<in> pr_emoji ` set (filter (\<lambda>r. pr_count r > 0) (map release rs)) \<longleftrightarrow> (\<exists>r\<in>set rs. pr_emoji r = e \<and> 0 < pr_count (release r))"
      by (force simp: image_iff simp del: released_fields(3))
    also have "\<dots> \<longleftrightarrow> e \<in> pr_emoji ` set rs \<and> 0 < votes readers (chosen(me := None)) e"
      using cnt by (auto simp del: released_fields(3))
    also have "\<dots> \<longleftrightarrow> 0 < votes readers (chosen(me := None)) e" using s le [of e] by fastforce
    finally show ?thesis .
  qed
  ultimately show ?thesis using cnt unfolding summary_of_alt by auto
qed

lemma take_up_emoji [simp]: "map pr_emoji (take_up e rs) = map pr_emoji rs"
  by (induction rs) auto

lemma take_up_map:
  "distinct (map pr_emoji rs) \<Longrightarrow> take_up e rs =
     map (\<lambda>r. if pr_emoji r = e then r\<lparr>pr_count := pr_count r + 1, pr_mine := True\<rparr> else r) rs"
  by (induction rs) (auto simp: image_iff intro!: sym [OF map_idI])

lemma summary_chosen:
  assumes "distinct readers" and "me \<in> set readers" and "out me = None" and "summary_of readers me out rs"
  shows "e \<in> pr_emoji ` set rs \<Longrightarrow> summary_of readers me (out(me := Some e)) (take_up e rs)"
    and "e \<notin> pr_emoji ` set rs \<Longrightarrow>
      summary_of readers me (out(me := Some e)) (rs @ [\<lparr>pr_emoji = e, pr_count = 1, pr_mine = True\<rparr>])"
proof -
  note s = assms(4) [unfolded summary_of_alt]
  have v: "votes readers (out(me := Some e)) e' = votes readers out e' + of_bool (e = e')" for e'
    by (simp add: votes_change [OF assms(1,2)] assms(3))
  have nn: "0 \<le> votes readers out e'" for e' by (simp add: votes_def)
  have new: "0 < votes readers out e' + of_bool (e = e') \<longleftrightarrow> 0 < votes readers out e' \<or> e = e'" for e'
    using nn [of e'] by auto
  {
    assume e: "e \<in> pr_emoji ` set rs"
    have "pr_emoji ` set (take_up e rs) = pr_emoji ` set rs" by (metis set_map take_up_emoji)
    moreover have "pr_count r = votes readers out (pr_emoji r) + of_bool (e = pr_emoji r) \<and>
        (pr_mine r \<longleftrightarrow> e = pr_emoji r)" if r: "r \<in> set (take_up e rs)" for r
    proof -
      from r s obtain r0 where "r0 \<in> set rs"
        "r = (if pr_emoji r0 = e then r0\<lparr>pr_count := pr_count r0 + 1, pr_mine := True\<rparr> else r0)"
        by (auto simp: take_up_map)
      then show ?thesis using s assms(3) by auto
    qed
    ultimately show "summary_of readers me (out(me := Some e)) (take_up e rs)"
      using s e unfolding summary_of_alt by (simp only: v new) auto
  }
  {
    assume e: "e \<notin> pr_emoji ` set rs"
    then have "votes readers out e = 0" "e \<notin> set (map pr_emoji rs)" using s nn [of e] by (metis order_le_less, simp)
    with e show "summary_of readers me (out(me := Some e)) (rs @ [\<lparr>pr_emoji = e, pr_count = 1, pr_mine = True\<rparr>])"
      using s assms(3) unfolding summary_of_alt by (simp only: v new) (auto simp: image_iff)
  }
qed

lemma apply_summary:
  assumes "distinct readers" and "me \<in> set readers" and "summary_of readers me chosen rs"
  shows "summary_of readers me (chosen(me := if on then Some e else None)) (applyReaction rs e on)"
proof -
  define rel where "rel = filter (\<lambda>r. pr_count r > 0) (map release rs)"
  have rel: "summary_of readers me (chosen(me := None)) rel" using released_summary [OF assms] by (simp add: rel_def)
  have "applyReaction rs e on = (if \<not> on then rel else if e \<in> pr_emoji ` set rel then take_up e rel
      else rel @ [\<lparr>pr_emoji = e, pr_count = 1, pr_mine = True\<rparr>])"
    unfolding applyReaction_def Let_def rel_def [symmetric] by (auto simp: image_iff)
  with rel summary_chosen [OF assms(1,2) _ rel, of e] show ?thesis by simp
qed


lemma tap_summary:
  assumes "distinct readers" and "me \<in> set readers" and "summary_of readers me chosen rs"
  shows "summary_of readers me (server_tap me e chosen) (tap e rs)"
proof -
  have "choose_on e rs \<longleftrightarrow> chosen me \<noteq> Some e"
    using assms(2,3) unfolding summary_of_def choose_on_def by (auto simp: set_eq_iff image_iff) metis+
  with apply_summary [OF assms, of "choose_on e rs" e] show ?thesis by (cases "chosen me = Some e") (simp_all add: tap_def server_tap_def)
qed

text \<open>
  C23. What a card shows of the reactions, changed at once on every tap, is what the server's rows would give after the same
  taps: each emoji someone chose once, with the number of readers who chose it, and the reader's own one marked. Tapping
  one's own reaction takes it back and tapping another replaces it, over any sequence of taps.
\<close>

theorem taps_agree_with_server:
  assumes "distinct readers" and "me \<in> set readers" and "summary_of readers me chosen rs"
  shows "summary_of readers me (fold (server_tap me) es chosen) (fold tap es rs)"
  using assms(3) by (induction es arbitrary: chosen rs) (simp_all add: tap_summary [OF assms(1,2)])

theorem taps_agree_with_server_witness:
  "fold tap [''a'', ''b'', ''b''] [\<lparr>pr_emoji = ''a'', pr_count = 1, pr_mine = False\<rparr>] = [\<lparr>pr_emoji = ''a'', pr_count = 1, pr_mine = False\<rparr>] \<and>
   summary_of [1::nat, 2] 1 (fold (server_tap 1) [''a'', ''b'', ''b''] [2 \<mapsto> ''a''])
     [\<lparr>pr_emoji = ''a'', pr_count = 1, pr_mine = False\<rparr>]"
proof -
  have "summary_of [1::nat, 2] 1 [2 \<mapsto> ''a''] [\<lparr>pr_emoji = ''a'', pr_count = 1, pr_mine = False\<rparr>]"
    by (auto simp: summary_of_def split: if_splits)
  moreover have "fold tap [''a'', ''b'', ''b''] [\<lparr>pr_emoji = ''a'', pr_count = 1, pr_mine = False\<rparr>] = [\<lparr>pr_emoji = ''a'', pr_count = 1, pr_mine = False\<rparr>]"
    by (simp add: tap_def choose_on_def applyReaction_def release_def)
  ultimately show ?thesis using taps_agree_with_server [of "[1::nat, 2]" 1 "[2 \<mapsto> ''a'']" _ "[''a'', ''b'', ''b'']"] by fastforce
qed

text \<open>The chips show every reaction once, the quick ones first.\<close>

lemma chips_complete:
  assumes "distinct (map pr_emoji rs)"
  shows "set rs \<subseteq> set (chips rs)" "distinct (map pr_emoji (chips rs))"
proof -
  have find: "r \<in> set rs \<Longrightarrow> find (\<lambda>x. pr_emoji x = pr_emoji r) rs = Some r" for r
    using assms by (induction rs) (auto simp: image_iff)
  show "set rs \<subseteq> set (chips rs)"
  proof
    fix r assume r: "r \<in> set rs"
    show "r \<in> set (chips rs)"
    proof (cases "pr_emoji r \<in> set QUICK_REACTIONS")
      case True
      with find [OF r] show ?thesis unfolding chips_def by (auto intro!: rev_image_eqI)
    next
      case False with r show ?thesis by (simp add: chips_def)
    qed
  qed
  have quick: "map pr_emoji (map (\<lambda>emoji. case find (\<lambda>r. pr_emoji r = emoji) rs of Some r \<Rightarrow> r
       | None \<Rightarrow> \<lparr>pr_emoji = emoji, pr_count = 0, pr_mine = False\<rparr>) es) = es" for es
    by (induction es) (auto split: option.splits simp: find_Some_iff)
  have "distinct QUICK_REACTIONS" by (simp add: QUICK_REACTIONS_def)
  then show "distinct (map pr_emoji (chips rs))"
    unfolding chips_def map_append quick using assms by (auto intro: distinct_map_filter)
qed

subsection \<open>The cached lists\<close>

record feed_client =
  fc_pages :: "string list \<Rightarrow> post_page list option"
  fc_invalid :: "string list list"

definition postKeys_feed :: "string \<Rightarrow> string list" where
  "postKeys_feed order = [''feed'', order]"

definition postKeys_community :: "string \<Rightarrow> string list" where
  "postKeys_community communityId = [''community-posts'', communityId]"

definition invalidatePosts :: "string option \<Rightarrow> feed_client \<Rightarrow> feed_client" where
  "invalidatePosts communityId c = c\<lparr>fc_invalid := fc_invalid c
     @ (if truthy communityId then [postKeys_community (the communityId)] else []) @ [[''feed'']]\<rparr>"

definition react_pages :: "string \<Rightarrow> string \<Rightarrow> bool \<Rightarrow> post_page list \<Rightarrow> post_page list" where
  "react_pages postId emoji on = map (\<lambda>page. page\<lparr>pp_posts := map (\<lambda>p. if p_id p = postId
     then p\<lparr>p_reactions := applyReaction (p_reactions p) emoji on\<rparr> else p) (pp_posts page)\<rparr>)"

definition under :: "string list \<Rightarrow> (post_page list \<Rightarrow> post_page list) \<Rightarrow> feed_client \<Rightarrow> feed_client" where
  "under pre f c = c\<lparr>fc_pages := (\<lambda>k. if take (length pre) k = pre then map_option f (fc_pages c k) else fc_pages c k)\<rparr>"

definition react_onMutate :: "string \<Rightarrow> string \<Rightarrow> string \<Rightarrow> bool \<Rightarrow> feed_client \<Rightarrow> feed_client" where
  "react_onMutate postId communityId emoji on c =
     under (postKeys_community communityId) (react_pages postId emoji on) (under [''feed''] (react_pages postId emoji on) c)"

definition react_call :: "string \<Rightarrow> string \<Rightarrow> bool \<Rightarrow> api_call" where
  "react_call postId emoji on = (if on then postsApi_react postId emoji else postsApi_unreact postId emoji)"

text \<open>A tap is applied once wherever the post is listed, and to no other post.\<close>

lemma tap_applied_once:
  "fc_pages (react_onMutate i cid e on c) k = (if take 1 k = [''feed''] \<or> take 2 k = postKeys_community cid
     then map_option (react_pages i e on) (fc_pages c k) else fc_pages c k)"
proof -
  have "take 1 k = [''feed''] \<Longrightarrow> take 2 k \<noteq> postKeys_community cid"
    by (cases k) (auto simp: postKeys_community_def)
  then show ?thesis by (auto simp: react_onMutate_def under_def postKeys_community_def numeral_2_eq_2)
qed

subsection \<open>Writing a post\<close>

text \<open>\<open>useCreatePost\<close>: the post first, then its files in order; \<open>send\<close> answers a request with the post as it now is.\<close>

fun attach_all :: "(api_call \<Rightarrow> ('w, js_error, post) io) \<Rightarrow> string \<Rightarrow> upload_file list \<Rightarrow> post \<Rightarrow> ('w, js_error, post) io" where
  "attach_all send i [] latest = io_ret latest"
| "attach_all send i (f # fs) latest = io_bind (send (postsApi_attach i f)) (attach_all send i fs)"

definition createPost :: "(api_call \<Rightarrow> ('w, js_error, post) io) \<Rightarrow> string \<Rightarrow> string \<Rightarrow> upload_file list \<Rightarrow> ('w, js_error, post) io" where
  "createPost send communityId t fs = io_bind (send (postsApi_create communityId t)) (\<lambda>p. attach_all send (p_id p) fs p)"

record post_composer =
  po_text :: string
  po_files :: "upload_file list"
  po_toasts :: "ui_text list"
  po_cache :: feed_client

definition MAX_FILES :: nat where
  "MAX_FILES = 10"

definition pick :: "quarantine option \<Rightarrow> upload_file list \<Rightarrow> post_composer \<Rightarrow> post_composer" where
  "pick q fs s = (case find (\<lambda>x. x \<noteq> None) (map (\<lambda>f. fileTooLargeForNewAccount q (length (uf_bytes f))) fs) of
     Some tooBig \<Rightarrow> s\<lparr>po_toasts := po_toasts s @ [the tooBig]\<rparr>
   | None \<Rightarrow> let picked = take MAX_FILES (po_files s @ fs);
                 s1 = (if length picked < length (po_files s) + length fs
                   then s\<lparr>po_toasts := po_toasts s @ [T ''work.compose.tooManyFiles'' [(''max'', int MAX_FILES)]]\<rparr> else s)
             in s1\<lparr>po_files := picked\<rparr>)"

definition publishPost :: "(api_call \<Rightarrow> ('w, js_error, post) io) \<Rightarrow> string \<Rightarrow> post_composer \<Rightarrow> 'w \<Rightarrow> post_composer \<times> 'w" where
  "publishPost send communityId s w = (if js_trim (po_text s) = [] \<and> po_files s = [] then (s, w)
     else case createPost send communityId (po_text s) (po_files s) w of
       (Inr p, w') \<Rightarrow> (s\<lparr>po_text := [], po_files := [], po_cache := invalidatePosts (Some communityId) (po_cache s)\<rparr>, w')
     | (Inl e, w') \<Rightarrow> (s\<lparr>po_toasts := po_toasts s @ [userFacingError e (T ''work.compose.publishFailed'' [])]\<rparr>, w'))"

text \<open>A server that answers by what was asked of it before; the world is the list of requests made.\<close>

definition answered_by :: "(api_call list \<Rightarrow> api_call \<Rightarrow> js_error + post) \<Rightarrow> api_call \<Rightarrow> (api_call list, js_error, post) io" where
  "answered_by server call w = (server w call, w @ [call])"

lemma attach_all_run:
  "\<exists>n. snd (attach_all (answered_by server) i fs p w) = w @ map (postsApi_attach i) (take n fs) \<and>
     (isl (fst (attach_all (answered_by server) i fs p w)) \<or> n = length fs)"
proof (induction fs arbitrary: p w)
  case (Cons f fs)
  show ?case
  proof (cases "server w (postsApi_attach i f)")
    case (Inl e)
    then show ?thesis by (intro exI [of _ 1]) (simp add: io_bind_def answered_by_def)
  next
    case (Inr p')
    obtain n where "snd (attach_all (answered_by server) i fs p' (w @ [postsApi_attach i f])) =
        (w @ [postsApi_attach i f]) @ map (postsApi_attach i) (take n fs) \<and>
      (isl (fst (attach_all (answered_by server) i fs p' (w @ [postsApi_attach i f]))) \<or> n = length fs)"
      using Cons.IH by blast
    with Inr show ?thesis
      by (intro exI [of _ "Suc n"]) (simp add: io_bind_def answered_by_def [of server "postsApi_attach i f"])
  qed
qed simp

lemma createPost_run:
  "\<exists>i n. snd (createPost (answered_by server) cid t fs w) = w @ postsApi_create cid t # map (postsApi_attach i) (take n fs) \<and>
     (isl (fst (createPost (answered_by server) cid t fs w)) \<or> n = length fs)"
proof (cases "server w (postsApi_create cid t)")
  case (Inl e)
  then show ?thesis by (intro exI [of _ "[]"] exI [of _ 0]) (simp add: createPost_def io_bind_def answered_by_def)
next
  case (Inr p)
  with attach_all_run [of server "p_id p" fs p "w @ [postsApi_create cid t]"] show ?thesis
    by (intro exI [of _ "p_id p"]) (simp add: createPost_def io_bind_def answered_by_def [of server "postsApi_create cid t"])
qed

text \<open>A published post goes out as its text and then every file in the order picked, each once, and the field is cleared.\<close>

theorem publish_sends_in_order:
  assumes "\<not> (js_trim (po_text s) = [] \<and> po_files s = [])"
    and "createPost (answered_by server) cid (po_text s) (po_files s) w = (Inr p, w')"
  shows "\<exists>i. publishPost (answered_by server) cid s w =
     (s\<lparr>po_text := [], po_files := [], po_cache := invalidatePosts (Some cid) (po_cache s)\<rparr>,
      w @ postsApi_create cid (po_text s) # map (postsApi_attach i) (po_files s))"
  using assms createPost_run [of server cid "po_text s" "po_files s" w] by (auto simp: publishPost_def)

text \<open>
  C30. When a request of publishing fails, the field keeps its text and its files, as if nothing had happened, and no list is
  refetched; but the post may be there already, and publishing again sends it a second time: the requests made are the
  post, some of its files, and the same post anew.
\<close>

theorem publish_retry_posts_again:
  assumes "\<not> (js_trim (po_text s) = [] \<and> po_files s = [])"
    and "createPost (answered_by server) cid (po_text s) (po_files s) w = (Inl e, w')"
  shows "\<exists>as bs s1. publishPost (answered_by server) cid s w = (s1, w @ postsApi_create cid (po_text s) # as) \<and>
     po_text s1 = po_text s \<and> po_files s1 = po_files s \<and> po_cache s1 = po_cache s \<and>
     snd (publishPost (answered_by server) cid s1 (w @ postsApi_create cid (po_text s) # as)) =
       w @ postsApi_create cid (po_text s) # as @ postsApi_create cid (po_text s) # bs"
proof -
  obtain as where w': "w' = w @ postsApi_create cid (po_text s) # as"
    using createPost_run [of server cid "po_text s" "po_files s" w] assms(2) by auto
  let ?s1 = "s\<lparr>po_toasts := po_toasts s @ [userFacingError e (T ''work.compose.publishFailed'' [])]\<rparr>"
  have p1: "publishPost (answered_by server) cid s w = (?s1, w')" using assms by (auto simp: publishPost_def)
  have ne: "\<not> (js_trim (po_text ?s1) = [] \<and> po_files ?s1 = [])" using assms(1) by simp
  have "snd (publishPost (answered_by server) cid ?s1 w') = snd (createPost (answered_by server) cid (po_text s) (po_files s) w')"
    using ne by (auto simp: publishPost_def split: prod.splits sum.splits)
  moreover obtain bs where "snd (createPost (answered_by server) cid (po_text s) (po_files s) w') = w' @ postsApi_create cid (po_text s) # bs"
    using createPost_run [of server cid "po_text s" "po_files s" w'] by blast
  ultimately show ?thesis using p1 w'
    by (intro exI [of _ as] exI [of _ bs] exI [of _ ?s1]) simp
qed

definition sample_post :: post where
  "sample_post = \<lparr>p_id = ''p1'', p_text = ''hi'', p_createdAt = [], p_editedAt = None,
     p_community = \<lparr>pc_id = ''g'', pc_name = [], pc_avatarUrl = None, pc_isMember = True, pc_joinPolicy = ''open'', pc_verified = False\<rparr>,
     p_media = [], p_reactions = [], p_canDelete = True\<rparr>"

definition sample_form :: post_composer where
  "sample_form = \<lparr>po_text = ''hi'', po_files = [\<lparr>uf_name = ''f'', uf_type = [], uf_bytes = []\<rparr>], po_toasts = [],
     po_cache = \<lparr>fc_pages = (\<lambda>_. None), fc_invalid = []\<rparr>\<rparr>"

definition flaky_server :: "api_call list \<Rightarrow> api_call \<Rightarrow> js_error + post" where
  "flaky_server w c = (if w = [] then Inr sample_post else Inl (JsError ''offline''))"

theorem publish_retry_posts_again_witness:
  "\<exists>as bs. (case publishPost (answered_by flaky_server) ''g'' sample_form [] of (s1, w1) \<Rightarrow>
      po_text s1 = ''hi'' \<and> snd (publishPost (answered_by flaky_server) ''g'' s1 w1) = postsApi_create ''g'' ''hi'' # as @ postsApi_create ''g'' ''hi'' # bs)"
proof -
  have "createPost (answered_by flaky_server) ''g'' (po_text sample_form) (po_files sample_form) [] =
    (Inl (JsError ''offline''), [postsApi_create ''g'' ''hi'', postsApi_attach ''p1'' \<lparr>uf_name = ''f'', uf_type = [], uf_bytes = []\<rparr>])"
    by (simp add: createPost_def answered_by_def io_bind_def sample_form_def sample_post_def flaky_server_def)
  then obtain as bs s1 where "publishPost (answered_by flaky_server) ''g'' sample_form [] = (s1, [] @ postsApi_create ''g'' (po_text sample_form) # as)"
    "po_text s1 = po_text sample_form"
    "snd (publishPost (answered_by flaky_server) ''g'' s1 ([] @ postsApi_create ''g'' (po_text sample_form) # as)) =
       [] @ postsApi_create ''g'' (po_text sample_form) # as @ postsApi_create ''g'' (po_text sample_form) # bs"
    using publish_retry_posts_again [of sample_form flaky_server "''g''" "[]"] by (auto simp: sample_form_def)
  then show ?thesis by (auto simp: sample_form_def)
qed

lemma pick_bounded: "length (po_files s) \<le> MAX_FILES \<Longrightarrow> length (po_files (pick q fs s)) \<le> MAX_FILES"
  by (auto simp: pick_def Let_def split: option.splits)

end
