(* ===== verification/Group_Roles.thy ===== *)
theory Group_Roles
  imports App_Shell Text_Rules Endpoints
begin

text \<open>
  Running a group: \<open>features/profile/GroupMembersModal.tsx\<close>, the tabs of \<open>widgets/conversation/GroupView.tsx\<close>,
  \<open>features/new-chat/NewGroupModal.tsx\<close> and the cache writes of \<open>entities/group/queries.ts\<close>. The rules the server decides
  by, \<open>backend/internal/groups/service.go\<close>, are translated beside the client's, and the two are compared.
\<close>

subsection \<open>Data\<close>

datatype group_kind = PlainGroup | Community
datatype join_policy = OpenJoin | RequestJoin
datatype post_policy = AllPost | EditorsPost
datatype group_role = MemberRole | ModeratorRole | EditorRole | OwnerRole

record group_info =
  g_id :: string
  g_name :: string
  g_description :: "string option"
  g_avatarUrl :: "string option"
  g_minRoleLevel :: "int option"
  g_kind :: group_kind
  g_isPublic :: bool
  g_joinPolicy :: join_policy
  g_postPolicy :: post_policy
  g_createdBy :: string
  g_createdAt :: string
  g_verifiedAt :: "string option"

record group_member =
  gm_user :: user
  gm_role :: group_role

record group_viewer =
  gv_member :: bool
  gv_role :: "group_role option"
  gv_canPost :: bool
  gv_canUseWorkspace :: bool

subsection \<open>Who may do what, on the screen\<close>

definition EDITOR_TIER :: "group_role list" where
  "EDITOR_TIER = [OwnerRole, EditorRole, ModeratorRole]"

fun RANK :: "group_role \<Rightarrow> int" where
  "RANK OwnerRole = 3"
| "RANK EditorRole = 2"
| "RANK ModeratorRole = 1"
| "RANK MemberRole = 0"

definition rankOf :: "group_info \<Rightarrow> string \<Rightarrow> group_role option \<Rightarrow> int" where
  "rankOf g userId role = (if userId = g_createdBy g then RANK OwnerRole else case role of None \<Rightarrow> -1 | Some r \<Rightarrow> RANK r)"

definition isCEO :: "user \<Rightarrow> bool" where
  "isCEO me = canAdmin (capabilitiesOf (Some me))"

definition isOwner :: "user \<Rightarrow> group_info \<Rightarrow> bool" where
  "isOwner me g \<longleftrightarrow> isCEO me \<or> u_id me = g_createdBy g"

definition myRole :: "user \<Rightarrow> group_member list \<Rightarrow> group_role option" where
  "myRole me ms = map_option gm_role (find (\<lambda>m. u_id (gm_user m) = u_id me) ms)"

definition canApprove :: "user \<Rightarrow> group_info \<Rightarrow> group_member list \<Rightarrow> bool" where
  "canApprove me g ms \<longleftrightarrow> isOwner me g \<or> (case myRole me ms of None \<Rightarrow> False | Some r \<Rightarrow> r \<in> set EDITOR_TIER)"

definition mayDiscipline :: "user \<Rightarrow> group_info \<Rightarrow> group_member list \<Rightarrow> string \<Rightarrow> group_role \<Rightarrow> bool" where
  "mayDiscipline me g ms userId role \<longleftrightarrow> userId \<noteq> u_id me \<and> userId \<noteq> g_createdBy g \<and>
     (isCEO me \<or> (let myRank = rankOf g (u_id me) (myRole me ms) in myRank \<ge> 1 \<and> myRank > rankOf g userId (Some role)))"

datatype group_action =
    ChangeAvatar | ChangeLevel | ChangeAccess | AddPerson | LeaveGroup | DeleteGroup
  | Accept string | Decline string | ToggleEditor string | Kick string | BanPerson string | Unban string

definition canAdd :: "user \<Rightarrow> group_info \<Rightarrow> bool" where
  "canAdd me g \<longleftrightarrow> u_id me = g_createdBy g \<and> g_kind g \<noteq> Community"

text \<open>The buttons of the modal, from top to bottom.\<close>

definition member_buttons :: "user \<Rightarrow> group_info \<Rightarrow> group_member list \<Rightarrow> group_member \<Rightarrow> group_action list" where
  "member_buttons me g ms m = (let i = u_id (gm_user m) in
     (if isOwner me g \<and> i \<noteq> g_createdBy g then [ToggleEditor i] else []) @
     (if mayDiscipline me g ms i (gm_role m) then [Kick i, BanPerson i] else []))"

definition offered :: "user \<Rightarrow> group_info \<Rightarrow> group_member list \<Rightarrow> string list \<Rightarrow> string list \<Rightarrow> group_action list" where
  "offered me g ms requests bans =
     (if isOwner me g then [ChangeAvatar] else []) @
     (if canSeeLevels (capabilitiesOf (Some me)) \<and> g_minRoleLevel g \<noteq> None \<and> isCEO me then [ChangeLevel] else []) @
     (if isOwner me g then [ChangeAccess] else []) @
     (if canApprove me g ms then concat (map (\<lambda>u. [Accept u, Decline u]) requests) else []) @
     (if canAdd me g then [AddPerson] else []) @
     concat (map (member_buttons me g ms) ms) @
     (if canApprove me g ms then map Unban bans else []) @
     (if myRole me ms \<noteq> None \<and> u_id me \<noteq> g_createdBy g then [LeaveGroup] else []) @
     (if isOwner me g then [DeleteGroup] else [])"

subsection \<open>Who may do what, on the server\<close>

text \<open>
  \<open>actor.RoleLevel\<close> is 0 for an account outside the hierarchy; \<open>roles\<close> is the table of members (\<open>repo.MemberRole\<close>). What
  \<open>Get\<close> and the sanctions of the CEO refuse besides is not part of these rules.
\<close>

definition server_level :: "user \<Rightarrow> int" where
  "server_level me = (case u_roleLevel me of None \<Rightarrow> 0 | Some l \<Rightarrow> l)"

definition IsCEO :: "int \<Rightarrow> bool" where
  "IsCEO level \<longleftrightarrow> level = 1"

definition server_rank :: "group_info \<Rightarrow> string \<Rightarrow> group_role option \<Rightarrow> int" where
  "server_rank g userId role = (case role of None \<Rightarrow> -1 | Some r \<Rightarrow>
     if userId = g_createdBy g \<or> r = OwnerRole then 3 else if r = EditorRole then 2 else if r = ModeratorRole then 1 else 0)"

definition isEditorTier :: "group_role \<Rightarrow> bool" where
  "isEditorTier r \<longleftrightarrow> r = OwnerRole \<or> r = EditorRole \<or> r = ModeratorRole"

definition isOwnerOrCEO :: "(string \<Rightarrow> group_role option) \<Rightarrow> group_info \<Rightarrow> user \<Rightarrow> bool" where
  "isOwnerOrCEO roles g me \<longleftrightarrow> IsCEO (server_level me) \<or> g_createdBy g = u_id me \<or> roles (u_id me) = Some OwnerRole"

definition server_canApprove :: "(string \<Rightarrow> group_role option) \<Rightarrow> user \<Rightarrow> bool" where
  "server_canApprove roles me \<longleftrightarrow> IsCEO (server_level me) \<or> (case roles (u_id me) of None \<Rightarrow> False | Some r \<Rightarrow> isEditorTier r)"

definition server_mayDiscipline :: "(string \<Rightarrow> group_role option) \<Rightarrow> group_info \<Rightarrow> user \<Rightarrow> string \<Rightarrow> bool" where
  "server_mayDiscipline roles g me targetID =
     (if targetID = u_id me \<or> targetID = g_createdBy g then False
      else if IsCEO (server_level me) then True
      else let mine = server_rank g (u_id me) (roles (u_id me)) in
        \<not> (mine < 1 \<or> mine \<le> server_rank g targetID (roles targetID)))"

fun server_allows :: "(string \<Rightarrow> group_role option) \<Rightarrow> group_info \<Rightarrow> user \<Rightarrow> group_action \<Rightarrow> bool" where
  "server_allows roles g me ChangeAvatar = (g_createdBy g = u_id me \<or> IsCEO (server_level me))"
| "server_allows roles g me ChangeLevel = IsCEO (server_level me)"
| "server_allows roles g me ChangeAccess = isOwnerOrCEO roles g me"
| "server_allows roles g me AddPerson = (g_kind g \<noteq> Community \<and> isOwnerOrCEO roles g me)"
| "server_allows roles g me LeaveGroup = (g_createdBy g \<noteq> u_id me \<and> roles (u_id me) \<noteq> None)"
| "server_allows roles g me DeleteGroup = (IsCEO (server_level me) \<or> g_createdBy g = u_id me)"
| "server_allows roles g me (Accept u) = server_canApprove roles me"
| "server_allows roles g me (Decline u) = server_canApprove roles me"
| "server_allows roles g me (ToggleEditor u) = (isOwnerOrCEO roles g me \<and> u \<noteq> g_createdBy g \<and> roles u \<noteq> None)"
| "server_allows roles g me (Kick u) = server_mayDiscipline roles g me u"
| "server_allows roles g me (BanPerson u) = server_mayDiscipline roles g me u"
| "server_allows roles g me (Unban u) = server_canApprove roles me"

text \<open>
  The list on the screen is the server's table; the founder joined as owner when the group was made and nobody else is given
  that role (\<open>SetMemberRole\<close> accepts three others); the CEO is an invited account.
\<close>

definition in_step :: "(string \<Rightarrow> group_role option) \<Rightarrow> group_info \<Rightarrow> user \<Rightarrow> group_member list \<Rightarrow> bool" where
  "in_step roles g me ms \<longleftrightarrow> distinct (map (u_id \<circ> gm_user) ms) \<and>
     (\<forall>u r. roles u = Some r \<longleftrightarrow> (\<exists>m\<in>set ms. u_id (gm_user m) = u \<and> gm_role m = r)) \<and>
     (\<forall>u. roles u = Some OwnerRole \<longleftrightarrow> u = g_createdBy g) \<and>
     (u_roleLevel me = Some 1 \<longrightarrow> u_accountKind me = Invited)"

lemma myRole_roles:
  assumes "in_step roles g me ms"
  shows "myRole me ms = roles (u_id me)"
proof (cases "find (\<lambda>m. u_id (gm_user m) = u_id me) ms")
  case None
  then have "roles (u_id me) \<noteq> Some r" for r using assms by (auto simp: in_step_def find_None_iff)
  with None show ?thesis by (cases "roles (u_id me)") (auto simp: myRole_def)
next
  case (Some m)
  then have "m \<in> set ms" "u_id (gm_user m) = u_id me" by (auto simp: find_Some_iff)
  then have "roles (u_id me) = Some (gm_role m)" using assms unfolding in_step_def by blast
  with Some show ?thesis by (simp add: myRole_def)
qed

lemma isCEO_level: "in_step roles g me ms \<Longrightarrow> isCEO me = IsCEO (server_level me)"
  by (auto simp: isCEO_def capabilitiesOf_def in_step_def IsCEO_def server_level_def Let_def split: option.splits)

lemma founder_role: "in_step roles g me ms \<Longrightarrow> roles u = Some OwnerRole \<longleftrightarrow> u = g_createdBy g"
  unfolding in_step_def by blast

lemma listed_role: "in_step roles g me ms \<Longrightarrow> m \<in> set ms \<Longrightarrow> roles (u_id (gm_user m)) = Some (gm_role m)"
  unfolding in_step_def by blast

lemma rank_agrees:
  assumes "in_step roles g me ms"
  shows "rankOf g u (roles u) = server_rank g u (roles u)"
proof (cases "roles u")
  case None
  then have "u \<noteq> g_createdBy g" using founder_role [OF assms, of u] by auto
  with None show ?thesis by (simp add: rankOf_def server_rank_def)
next
  case (Some r)
  then show ?thesis using founder_role [OF assms, of u] by (cases r) (auto simp: rankOf_def server_rank_def)
qed

lemma owner_agrees: "in_step roles g me ms \<Longrightarrow> isOwner me g = isOwnerOrCEO roles g me"
  unfolding isOwner_def isOwnerOrCEO_def using isCEO_level [of roles g me ms] founder_role [of roles g me ms "u_id me"] by metis

lemma approve_agrees:
  assumes "in_step roles g me ms"
  shows "canApprove me g ms = server_canApprove roles me"
proof -
  have "roles (g_createdBy g) = Some OwnerRole" using founder_role [OF assms] by blast
  then show ?thesis unfolding canApprove_def server_canApprove_def isOwner_def myRole_roles [OF assms] isCEO_level [OF assms]
    by (auto simp: EDITOR_TIER_def isEditorTier_def split: option.splits)
qed

lemma discipline_agrees:
  assumes "in_step roles g me ms" and "roles u = Some r"
  shows "mayDiscipline me g ms u r = server_mayDiscipline roles g me u"
  using rank_agrees [OF assms(1), of u] rank_agrees [OF assms(1), of "u_id me"] assms(2)
  by (auto simp: mayDiscipline_def server_mayDiscipline_def Let_def myRole_roles [OF assms(1)] isCEO_level [OF assms(1)])


text \<open>The actions a modal of this group could be about: of the group itself, and of the people listed.\<close>

fun about_listed :: "group_member list \<Rightarrow> string list \<Rightarrow> string list \<Rightarrow> group_action \<Rightarrow> bool" where
  "about_listed ms requests bans (Accept u) = (u \<in> set requests)"
| "about_listed ms requests bans (Decline u) = (u \<in> set requests)"
| "about_listed ms requests bans (Unban u) = (u \<in> set bans)"
| "about_listed ms requests bans (ToggleEditor u) = (\<exists>m\<in>set ms. u_id (gm_user m) = u)"
| "about_listed ms requests bans (Kick u) = (\<exists>m\<in>set ms. u_id (gm_user m) = u)"
| "about_listed ms requests bans (BanPerson u) = (\<exists>m\<in>set ms. u_id (gm_user m) = u)"
| "about_listed ms requests bans _ = True"

fun withheld :: "user \<Rightarrow> group_info \<Rightarrow> group_action \<Rightarrow> bool" where
  "withheld me g ChangeLevel = (g_minRoleLevel g = None)"
| "withheld me g AddPerson = (u_id me \<noteq> g_createdBy g)"
| "withheld me g _ = False"

lemma offered_iff:
  "a \<in> set (offered me g ms requests bans) \<longleftrightarrow> about_listed ms requests bans a \<and> (case a of
      ChangeAvatar \<Rightarrow> isOwner me g
    | ChangeLevel \<Rightarrow> canSeeLevels (capabilitiesOf (Some me)) \<and> g_minRoleLevel g \<noteq> None \<and> isCEO me
    | ChangeAccess \<Rightarrow> isOwner me g
    | AddPerson \<Rightarrow> canAdd me g
    | LeaveGroup \<Rightarrow> myRole me ms \<noteq> None \<and> u_id me \<noteq> g_createdBy g
    | DeleteGroup \<Rightarrow> isOwner me g
    | Accept u \<Rightarrow> canApprove me g ms
    | Decline u \<Rightarrow> canApprove me g ms
    | Unban u \<Rightarrow> canApprove me g ms
    | ToggleEditor u \<Rightarrow> isOwner me g \<and> u \<noteq> g_createdBy g
    | Kick u \<Rightarrow> (\<exists>m\<in>set ms. u_id (gm_user m) = u \<and> mayDiscipline me g ms u (gm_role m))
    | BanPerson u \<Rightarrow> (\<exists>m\<in>set ms. u_id (gm_user m) = u \<and> mayDiscipline me g ms u (gm_role m)))"
  by (cases a) (auto simp: offered_def member_buttons_def Let_def, metis+)

lemma listed_discipline:
  assumes "in_step roles g me ms"
  shows "(\<exists>m\<in>set ms. u_id (gm_user m) = u \<and> mayDiscipline me g ms u (gm_role m)) \<longleftrightarrow>
    (\<exists>m\<in>set ms. u_id (gm_user m) = u) \<and> server_mayDiscipline roles g me u"
  using discipline_agrees [OF assms] listed_role [OF assms] by metis



definition sample_person :: "string \<Rightarrow> int option \<Rightarrow> user" where
  "sample_person i level = \<lparr>u_id = i, u_username = i, u_displayName = i, u_roleLevel = level, u_accountKind = Invited, u_avatarUrl = None,
     u_status = Online, u_isActive = True, u_lastSeen = None, u_createdAt = [], u_mustChangePassword = False,
     u_displayNameNeedsChange = False, u_consentRequired = False, u_verifiedAt = None\<rparr>"

definition sample_group :: group_info where
  "sample_group = \<lparr>g_id = ''g'', g_name = ''Vibe'', g_description = None, g_avatarUrl = None, g_minRoleLevel = None, g_kind = Community,
     g_isPublic = True, g_joinPolicy = OpenJoin, g_postPolicy = EditorsPost, g_createdBy = ''f'', g_createdAt = [], g_verifiedAt = None\<rparr>"

definition sample_members :: "group_member list" where
  "sample_members = [\<lparr>gm_user = sample_person ''f'' (Some 8), gm_role = OwnerRole\<rparr>, \<lparr>gm_user = sample_person ''e'' (Some 8), gm_role = EditorRole\<rparr>,
     \<lparr>gm_user = sample_person ''m'' (Some 8), gm_role = MemberRole\<rparr>]"


subsection \<open>What a button does\<close>

fun access_of :: "join_policy \<times> post_policy \<Rightarrow> string \<times> string" where
  "access_of (j, p) = (case j of OpenJoin \<Rightarrow> ''open'' | RequestJoin \<Rightarrow> ''request'', case p of AllPost \<Rightarrow> ''all'' | EditorsPost \<Rightarrow> ''editors'')"

text \<open>\<open>value.split(":")\<close> of the chosen option.\<close>

definition changeAccess :: "group_info \<Rightarrow> string \<Rightarrow> api_call option" where
  "changeAccess g val = (case split_on (CHR '':'') val of
     j # p # _ \<Rightarrow> if (j, p) = access_of (g_joinPolicy g, g_postPolicy g) then None else Some (groupsApi_updateSettings (g_id g) j p)
   | _ \<Rightarrow> None)"

definition access_option :: "join_policy \<times> post_policy \<Rightarrow> string" where
  "access_option a = fst (access_of a) @ '':'' @ snd (access_of a)"

definition changeLevel :: "group_info \<Rightarrow> nat \<Rightarrow> api_call option" where
  "changeLevel g level = (if Some (int level) = g_minRoleLevel g then None else Some (groupsApi_updateLevel (g_id g) level))"

fun role_str :: "group_role \<Rightarrow> string" where
  "role_str MemberRole = ''member''"
| "role_str ModeratorRole = ''moderator''"
| "role_str EditorRole = ''editor''"
| "role_str OwnerRole = ''owner''"

definition toggled_role :: "group_role \<Rightarrow> group_role" where
  "toggled_role current = (if current = EditorRole then MemberRole else EditorRole)"

definition toggleEditor :: "group_info \<Rightarrow> string \<Rightarrow> group_role \<Rightarrow> api_call" where
  "toggleEditor g userId current = groupsApi_setMemberRole (g_id g) userId (role_str (toggled_role current))"

text \<open>The questions asked first, and what a refusal is shown as.\<close>

definition status_is :: "nat \<Rightarrow> js_error \<Rightarrow> bool" where
  "status_is n e = (case e of ApiErr a \<Rightarrow> ae_status a = int n | _ \<Rightarrow> False)"

definition disciplineError :: "js_error \<Rightarrow> ui_text" where
  "disciplineError e = (if status_is 403 e then T ''account.groupMembers.notAllowed'' [] else T ''account.groupMembers.actionFailed'' [])"

definition leaveError :: "js_error \<Rightarrow> ui_text" where
  "leaveError e = (if status_is 409 e then T ''account.groupMembers.founderStays'' [] else T ''account.groupMembers.actionFailed'' [])"

definition addError :: "js_error \<Rightarrow> ui_text" where
  "addError e = (if status_is 409 e then T ''account.groupMembers.alreadyMember'' []
     else if status_is 403 e then T ''account.groupMembers.ownerOnly'' [] else T ''account.groupMembers.addFailed'' [])"

fun asked_first :: "group_action \<Rightarrow> bool" where
  "asked_first LeaveGroup = True"
| "asked_first DeleteGroup = True"
| "asked_first (Kick u) = True"
| "asked_first (BanPerson u) = True"
| "asked_first _ = False"

definition pressed :: "bool \<Rightarrow> group_info \<Rightarrow> group_action \<Rightarrow> api_call option" where
  "pressed confirmed g a = (if asked_first a \<and> \<not> confirmed then None else case a of
     LeaveGroup \<Rightarrow> Some (groupsApi_leave (g_id g)) | DeleteGroup \<Rightarrow> Some (groupsApi_remove (g_id g))
   | Accept u \<Rightarrow> Some (groupsApi_approveRequest (g_id g) u) | Decline u \<Rightarrow> Some (groupsApi_rejectRequest (g_id g) u)
   | Kick u \<Rightarrow> Some (groupsApi_removeMember (g_id g) u) | BanPerson u \<Rightarrow> Some (groupsApi_ban (g_id g) u)
   | Unban u \<Rightarrow> Some (groupsApi_unban (g_id g) u) | _ \<Rightarrow> None)"

text \<open>What a success refetches (\<open>entities/group/queries.ts\<close>); settings, level and deletion write the list instead.\<close>

definition groupKeys_members :: "string \<Rightarrow> string list" where "groupKeys_members i = [''group-members'', i]"
definition groupKeys_requests :: "string \<Rightarrow> string list" where "groupKeys_requests i = [''group-requests'', i]"
definition groupKeys_viewer :: "string \<Rightarrow> string list" where "groupKeys_viewer i = [''group-viewer'', i]"
definition groupKeys_bans :: "string \<Rightarrow> string list" where "groupKeys_bans i = [''group-bans'', i]"

definition refetched :: "string \<Rightarrow> group_action \<Rightarrow> string list list" where
  "refetched i a = (case a of
     AddPerson \<Rightarrow> [groupKeys_members i]
   | Accept u \<Rightarrow> [groupKeys_requests i, groupKeys_members i] | Decline u \<Rightarrow> [groupKeys_requests i, groupKeys_members i]
   | ToggleEditor u \<Rightarrow> [groupKeys_members i]
   | LeaveGroup \<Rightarrow> [[''groups''], [''groups'', ''directory''], groupKeys_viewer i]
   | Kick u \<Rightarrow> [groupKeys_members i]
   | BanPerson u \<Rightarrow> [groupKeys_members i, groupKeys_bans i, groupKeys_requests i]
   | Unban u \<Rightarrow> [groupKeys_members i, groupKeys_bans i, groupKeys_requests i]
   | ChangeAvatar \<Rightarrow> [[''groups'']]
   | ChangeAccess \<Rightarrow> [groupKeys_viewer i]
   | _ \<Rightarrow> [])"

definition group_created :: "group_info \<Rightarrow> group_info list option \<Rightarrow> group_info list option" where
  "group_created g prev = Some (case prev of Some gs \<Rightarrow> g # gs | None \<Rightarrow> [g])"

definition group_replaced :: "group_info \<Rightarrow> group_info list option \<Rightarrow> group_info list option" where
  "group_replaced g prev = map_option (map (\<lambda>x. if g_id x = g_id g then g else x)) prev"

definition group_removed :: "string \<Rightarrow> group_info list option \<Rightarrow> group_info list option" where
  "group_removed i prev = map_option (filter (\<lambda>x. g_id x \<noteq> i)) prev"

definition chat_opened :: "chat \<Rightarrow> chat list option \<Rightarrow> chat list option" where
  "chat_opened c prev = Some (case prev of None \<Rightarrow> [c] | Some cs \<Rightarrow> if \<exists>x\<in>set cs. c_id x = c_id c then cs else c # cs)"

text \<open>Each access option is read back as the policies it stands for; picking the current one asks nothing.\<close>

lemma changeAccess_option:
  "changeAccess g (access_option (j, p)) = (if (j, p) = (g_joinPolicy g, g_postPolicy g) then None
     else Some (groupsApi_updateSettings (g_id g) (fst (access_of (j, p))) (snd (access_of (j, p)))))"
  by (cases j; cases p; cases "g_joinPolicy g"; cases "g_postPolicy g")
    (simp_all add: changeAccess_def access_option_def)

text \<open>A moderator or a second owner made editor and unmade is a plain member: the toggle knows two roles.\<close>

lemma toggling_twice: "toggled_role (toggled_role r) = (if r = EditorRole then EditorRole else MemberRole)"
  by (simp add: toggled_role_def)

text \<open>Opening a chat keeps the list without doubles; a created group is not looked for in the list first.\<close>

lemma opened_once: "distinct (map c_id cs) \<Longrightarrow> distinct (map c_id (the (chat_opened c (Some cs))))"
  by (auto simp: chat_opened_def)

theorem created_group_listed_twice:
  "g \<in> set gs \<Longrightarrow> \<not> distinct (map g_id (the (group_created g (Some gs))))"
  by (auto simp: group_created_def)


subsection \<open>The tabs of a group\<close>

datatype group_tab = ChatTab | BoardTab | CalendarTab | PostsTab

definition homeTab :: "group_info \<Rightarrow> group_tab" where
  "homeTab g = (if g_kind g = Community then PostsTab else ChatTab)"

definition canUseWorkspace :: "group_viewer option \<Rightarrow> group_info \<Rightarrow> bool" where
  "canUseWorkspace viewer g = (case viewer of Some v \<Rightarrow> gv_canUseWorkspace v | None \<Rightarrow> g_kind g \<noteq> Community)"

definition shown_tab :: "group_viewer option \<Rightarrow> group_info \<Rightarrow> group_tab \<Rightarrow> group_tab" where
  "shown_tab viewer g tab = (if (tab = BoardTab \<or> tab = CalendarTab) \<and> \<not> canUseWorkspace viewer g then homeTab g else tab)"

definition runsGroup :: "user \<Rightarrow> group_viewer option \<Rightarrow> group_info \<Rightarrow> bool" where
  "runsGroup me viewer g \<longleftrightarrow> u_id me = g_createdBy g \<or> isCEO me \<or>
     (case viewer of None \<Rightarrow> False | Some v \<Rightarrow> gv_role v \<in> {Some OwnerRole, Some EditorRole, Some ModeratorRole})"

definition group_tabs :: "group_viewer option \<Rightarrow> group_info \<Rightarrow> group_tab list" where
  "group_tabs viewer g = (if g_kind g = Community then [PostsTab] else []) @
     (if g_kind g \<noteq> Community \<or> g_postPolicy g = AllPost then [ChatTab] else []) @
     (if canUseWorkspace viewer g then [BoardTab, CalendarTab] else [])"

definition members_button :: "user \<Rightarrow> group_viewer option \<Rightarrow> bool" where
  "members_button me viewer \<longleftrightarrow> (case viewer of None \<Rightarrow> False | Some v \<Rightarrow> gv_member v) \<or> isCEO me"

definition group_readOnly :: "group_viewer option \<Rightarrow> bool" where
  "group_readOnly viewer = (case viewer of None \<Rightarrow> False | Some v \<Rightarrow> \<not> gv_canPost v)"

text \<open>
  Board and calendar are drawn only to those the server lets in once it has said so, whichever tab was chosen before, and
  the home tab is always among those offered.
\<close>

lemma workspace_withheld:
  "\<not> gv_canUseWorkspace v \<Longrightarrow> shown_tab (Some v) g tab \<notin> {BoardTab, CalendarTab}"
  "homeTab g \<in> set (group_tabs viewer g)"
  by (auto simp: shown_tab_def canUseWorkspace_def homeTab_def group_tabs_def)

text \<open>
  A discussion that was open when a community closed posting stays on the screen without a tab of its own.
\<close>

lemma closed_discussion_stays:
  "g_kind g = Community \<Longrightarrow> g_postPolicy g = EditorsPost \<Longrightarrow> shown_tab viewer g ChatTab = ChatTab \<and> ChatTab \<notin> set (group_tabs viewer g)"
  by (simp add: shown_tab_def group_tabs_def)

subsection \<open>A new group\<close>

record group_form =
  gf_kind :: group_kind
  gf_name :: string
  gf_description :: string
  gf_isPublic :: bool
  gf_minRoleLevel :: nat

definition group_form_open :: "user option \<Rightarrow> group_form" where
  "group_form_open me = \<lparr>gf_kind = PlainGroup, gf_name = [], gf_description = [], gf_isPublic = True,
     gf_minRoleLevel = (case Option.bind me u_roleLevel of Some l \<Rightarrow> nat l | None \<Rightarrow> 10)\<rparr>"

definition levelOptions :: "user option \<Rightarrow> nat list" where
  "levelOptions me = filter (\<lambda>l. int l \<ge> (case Option.bind me u_roleLevel of Some l \<Rightarrow> l | None \<Rightarrow> 1)) [1..<11]"

definition group_submit :: "user option \<Rightarrow> quarantine option \<Rightarrow> group_form \<Rightarrow> ui_text + api_call" where
  "group_submit me q f = (case (gf_kind f, heldBackNotice q ''chat.newGroup.communityHeldBack'') of
     (Community, Some held) \<Rightarrow> Inl held
   | _ \<Rightarrow> if js_trim (gf_name f) = []
       then Inl (T (if gf_kind f = Community then ''chat.newGroup.enterCommunityName'' else ''chat.newGroup.enterGroupName'') [])
       else Inr (groupsApi_create (js_trim (gf_name f))
         (if canSeeLevels (capabilitiesOf me) then Some (gf_minRoleLevel f) else None)
         (nonempty (js_trim (gf_description f)))
         (Some (if gf_kind f = Community then ''community'' else ''group''))
         (Some (gf_kind f = Community \<and> gf_isPublic f))))"

text \<open>The feature held back is named by the key of its text. The level a group starts with is one its founder may choose, when the account has a level of the hierarchy.\<close>

lemma first_level_offered: "u_roleLevel me = Some l \<Longrightarrow> 1 \<le> l \<Longrightarrow> l \<le> 10 \<Longrightarrow> gf_minRoleLevel (group_form_open (Some me)) \<in> set (levelOptions (Some me))"
  by (auto simp: group_form_open_def levelOptions_def)

text \<open>A community is never asked for while the account is held back.\<close>

lemma held_back_founds_none: "gf_kind f = Community \<Longrightarrow> group_submit me (Some q) f = Inl (the (heldBackNotice (Some q) ''chat.newGroup.communityHeldBack''))"
  by (simp add: group_submit_def heldBackNotice_def)

end
