(* ===== verification/Chat_List.thy ===== *)
theory Chat_List
  imports Group_Roles
begin

text \<open>
  The list of chats: \<open>widgets/chat-list/ChatList.tsx\<close>, folders and archive of \<open>entities/chat-folders/queries.ts\<close>, mutes of
  \<open>entities/notif-prefs/queries.ts\<close>, \<open>features/chat-folders\<close>. Sets of chats are sets of their keys. Lower case is a
  parameter.
\<close>

subsection \<open>Keys, folders and the archive\<close>

definition chatKey :: "chat_type \<Rightarrow> string \<Rightarrow> string" where
  "chatKey chatType chatId = chat_type_str chatType @ '':'' @ chatId"

lemma chatKey_inj: "chatKey ct i = chatKey ct' i' \<longleftrightarrow> ct = ct' \<and> i = i'"
  by (cases ct; cases ct') (auto simp: chatKey_def)

record folder_item =
  fi_chatType :: chat_type
  fi_chatId :: string

record chat_folder =
  cf_id :: string
  cf_name :: string
  cf_position :: nat
  cf_items :: "folder_item list"

definition folderChatSet :: "chat_folder \<Rightarrow> string set" where
  "folderChatSet f = set (map (\<lambda>i. chatKey (fi_chatType i) (fi_chatId i)) (cf_items f))"

definition archivedSet :: "folder_item list option \<Rightarrow> string set" where
  "archivedSet entries = set (map (\<lambda>e. chatKey (fi_chatType e) (fi_chatId e)) (case entries of Some es \<Rightarrow> es | None \<Rightarrow> []))"

definition isArchived :: "string set \<Rightarrow> chat_type \<Rightarrow> string \<Rightarrow> bool" where
  "isArchived S chatType chatId \<longleftrightarrow> chatKey chatType chatId \<in> S"

definition isMuted :: "string set \<Rightarrow> chat_type \<Rightarrow> string \<Rightarrow> bool" where
  "isMuted S chatType chatId \<longleftrightarrow> chat_type_str chatType @ '':'' @ chatId \<in> S"

record notif =
  n_id :: string
  n_type :: string
  n_isRead :: bool
  n_chatType :: "string option"
  n_chatId :: "string option"
  n_createdAt :: string

text \<open>Unread mentions; a payload without both strings names no chat.\<close>

definition mentionSet :: "notif list \<Rightarrow> string set" where
  "mentionSet ns = {chatKey (if ct = ''group'' then Group else Private) i | n ct i. n \<in> set ns \<and>
     n_type n = ''mention'' \<and> \<not> n_isRead n \<and> n_chatType n = Some ct \<and> n_chatId n = Some i}"

subsection \<open>The list\<close>

record chat_list =
  cl_chats :: "chat list"
  cl_groups :: "group_info list"
  cl_folders :: "chat_folder list"
  cl_archived :: "string set"
  cl_mentions :: "string set"
  cl_query :: string
  cl_tab :: string
  cl_showArchive :: bool
  cl_communities :: bool

definition cl_q :: "(string \<Rightarrow> string) \<Rightarrow> chat_list \<Rightarrow> string" where
  "cl_q lower s = lower (js_trim (cl_query s))"

definition searching :: "(string \<Rightarrow> string) \<Rightarrow> chat_list \<Rightarrow> bool" where
  "searching lower s \<longleftrightarrow> cl_q lower s \<noteq> []"

definition activeFolder :: "chat_list \<Rightarrow> chat_folder option" where
  "activeFolder s = find (\<lambda>f. cf_id f = cl_tab s) (cl_folders s)"

definition visible :: "(string \<Rightarrow> string) \<Rightarrow> chat_list \<Rightarrow> chat_type \<Rightarrow> string \<Rightarrow> nat \<Rightarrow> bool" where
  "visible lower s chatType chatId unread =
     (if searching lower s then True
      else if isArchived (cl_archived s) chatType chatId then False
      else if cl_tab s = ''unread'' then unread > 0
      else if cl_tab s = ''mentions'' then chatKey chatType chatId \<in> cl_mentions s
      else case activeFolder s of Some f \<Rightarrow> chatKey chatType chatId \<in> folderChatSet f | None \<Rightarrow> True)"

definition js_includes :: "string \<Rightarrow> string \<Rightarrow> bool" where
  "js_includes s q = list_ex (\<lambda>n. take (length q) (drop n s) = q) [0..<Suc (length s)]"

definition chat_matches :: "(string \<Rightarrow> string) \<Rightarrow> string \<Rightarrow> chat \<Rightarrow> bool" where
  "chat_matches lower q c = (case c_otherUser c of None \<Rightarrow> False
     | Some u \<Rightarrow> js_includes (lower (u_displayName u)) q \<or> js_includes (lower (u_username u)) q)"

definition filtered :: "(string \<Rightarrow> string) \<Rightarrow> chat_list \<Rightarrow> chat list" where
  "filtered lower s = filter (\<lambda>c. visible lower s Private (c_id c) (c_unreadCount c))
     (if cl_q lower s \<noteq> [] then filter (chat_matches lower (cl_q lower s)) (cl_chats s) else cl_chats s)"

definition filteredGroups :: "(string \<Rightarrow> string) \<Rightarrow> chat_list \<Rightarrow> group_info list" where
  "filteredGroups lower s = filter (\<lambda>g. if cl_tab s = ''unread'' \<and> \<not> searching lower s then False else visible lower s Group (g_id g) 0)
     (if cl_q lower s \<noteq> [] then filter (\<lambda>g. js_includes (lower (g_name g)) (cl_q lower s)) (cl_groups s) else cl_groups s)"

definition archivedChats :: "chat_list \<Rightarrow> chat list" where
  "archivedChats s = filter (\<lambda>c. isArchived (cl_archived s) Private (c_id c)) (cl_chats s)"

definition archivedGroups :: "chat_list \<Rightarrow> group_info list" where
  "archivedGroups s = filter (\<lambda>g. isArchived (cl_archived s) Group (g_id g)) (cl_groups s)"

definition viewArchivedCount :: "chat_list \<Rightarrow> nat" where
  "viewArchivedCount s = (if cl_communities s then length (archivedGroups s) else length (archivedChats s))"

definition archive_row :: "(string \<Rightarrow> string) \<Rightarrow> chat_list \<Rightarrow> bool" where
  "archive_row lower s \<longleftrightarrow> \<not> searching lower s \<and> cl_tab s = ''all'' \<and> viewArchivedCount s > 0"

definition filteredLabel :: "chat_list \<Rightarrow> string option" where
  "filteredLabel s = (if cl_query s \<noteq> [] then Some ''chat.list.nothingFound''
     else if cl_tab s = ''unread'' then Some ''chat.list.noUnread''
     else if cl_tab s = ''mentions'' then Some ''chat.list.noMentions''
     else if activeFolder s \<noteq> None then Some ''chat.list.folderEmpty'' else None)"

definition unread_badge :: "nat \<Rightarrow> string option" where
  "unread_badge n = (if n > 0 then Some (if n > 99 then ''99+'' else show_nat n) else None)"

definition search_hits_shown :: "(string \<Rightarrow> string) \<Rightarrow> chat_list \<Rightarrow> bool" where
  "search_hits_shown lower s \<longleftrightarrow> length (cl_q lower s) \<ge> 2"

definition search_enabled :: "string \<Rightarrow> bool" where
  "search_enabled query \<longleftrightarrow> length (js_trim query) \<ge> 2"

definition openHit :: "string \<Rightarrow> string \<Rightarrow> string" where
  "openHit chatType chatId = (if chatType = ''group'' then ''/group/'' @ chatId else ''/chat/'' @ chatId)"

text \<open>
  No chat is ever out of reach. On the tab of all chats every private chat is in the list or in the archive below it and
  never in both, each in the order of the list; on the other tabs the list holds exactly the chats of that tab that are not
  archived; and a search looks through all of them, the archived ones too, whichever tab is chosen.
\<close>

theorem every_chat_has_its_place:
  assumes "\<forall>f\<in>set (cl_folders s). cf_id f \<notin> {''all'', ''unread'', ''mentions''}"
  shows "set (filtered lower s) = {c \<in> set (cl_chats s).
       if searching lower s then chat_matches lower (cl_q lower s) c
       else c \<notin> set (archivedChats s) \<and>
         (if cl_tab s = ''all'' then True
          else if cl_tab s = ''unread'' then c_unreadCount c > 0
          else if cl_tab s = ''mentions'' then chatKey Private (c_id c) \<in> cl_mentions s
          else (\<forall>f. activeFolder s = Some f \<longrightarrow> chatKey Private (c_id c) \<in> folderChatSet f))} \<and>
    (\<not> searching lower s \<and> cl_tab s = ''all'' \<longrightarrow>
       set (filtered lower s) \<union> set (archivedChats s) = set (cl_chats s) \<and> set (filtered lower s) \<inter> set (archivedChats s) = {})"
proof -
  have all: "cl_tab s = ''all'' \<Longrightarrow> activeFolder s = None"
    using assms by (auto simp: activeFolder_def find_None_iff)
  have "set (filtered lower s) = {c \<in> set (cl_chats s).
       if searching lower s then chat_matches lower (cl_q lower s) c
       else c \<notin> set (archivedChats s) \<and>
         (if cl_tab s = ''all'' then True
          else if cl_tab s = ''unread'' then c_unreadCount c > 0
          else if cl_tab s = ''mentions'' then chatKey Private (c_id c) \<in> cl_mentions s
          else (\<forall>f. activeFolder s = Some f \<longrightarrow> chatKey Private (c_id c) \<in> folderChatSet f))}"
    using all by (auto simp: filtered_def visible_def searching_def archivedChats_def split: option.splits if_splits)
  moreover from this have "\<not> searching lower s \<and> cl_tab s = ''all'' \<Longrightarrow>
       set (filtered lower s) \<union> set (archivedChats s) = set (cl_chats s) \<and> set (filtered lower s) \<inter> set (archivedChats s) = {}"
    by (auto simp: archivedChats_def)
  ultimately show ?thesis by blast
qed


definition sample_list :: chat_list where
  "sample_list = \<lparr>cl_chats = [\<lparr>c_id = ''c1'', c_otherUserId = ''u'', c_otherUser = Some (sample_person ''u'' None), c_unreadCount = 1,
       c_otherLastReadAt = None, c_createdAt = []\<rparr>, \<lparr>c_id = ''c2'', c_otherUserId = ''v'', c_otherUser = None, c_unreadCount = 0,
       c_otherLastReadAt = None, c_createdAt = []\<rparr>],
     cl_groups = [sample_group], cl_folders = [], cl_archived = {chatKey Private ''c2''}, cl_mentions = {}, cl_query = [],
     cl_tab = ''all'', cl_showArchive = False, cl_communities = False\<rparr>"

lemma trim_nothing [simp]: "js_trim [] = []"
  using js_trim_inside [of "[]"] by auto

theorem every_chat_has_its_place_witness:
  "map c_id (filtered id sample_list) = [''c1''] \<and> set (filtered id sample_list) \<union> set (archivedChats sample_list) = set (cl_chats sample_list)"
proof -
  have "\<not> searching id sample_list" "cl_tab sample_list = ''all''"
    by (simp_all add: searching_def cl_q_def sample_list_def)
  moreover have "map c_id (filtered id sample_list) = [''c1'']"
    by (simp add: filtered_def visible_def searching_def cl_q_def sample_list_def isArchived_def chatKey_inj activeFolder_def)
  moreover have "\<forall>f\<in>set (cl_folders sample_list). cf_id f \<notin> {''all'', ''unread'', ''mentions''}" by (simp add: sample_list_def)
  ultimately show ?thesis using every_chat_has_its_place [of sample_list id] by blast
qed

subsection \<open>What is pressed\<close>

definition tab_buttons :: "(string \<Rightarrow> string) \<Rightarrow> chat_list \<Rightarrow> string list" where
  "tab_buttons lower s = (if \<not> searching lower s \<and> \<not> cl_communities s
     then [''all'', ''unread'', ''mentions''] @ map cf_id (cl_folders s) else [])"

datatype list_event = QueryTyped string | TabPressed string | ArchivePressed | ViewChanged bool

text \<open>The page keeps the list mounted when it goes from chats to communities: only \<open>view\<close> changes.\<close>

fun list_step :: "(string \<Rightarrow> string) \<Rightarrow> list_event \<Rightarrow> chat_list \<Rightarrow> chat_list" where
  "list_step lower (QueryTyped v) s = s\<lparr>cl_query := v\<rparr>"
| "list_step lower (TabPressed t) s = (if t \<in> set (tab_buttons lower s) then s\<lparr>cl_tab := t\<rparr> else s)"
| "list_step lower ArchivePressed s = (if archive_row lower s then s\<lparr>cl_showArchive := \<not> cl_showArchive s\<rparr> else s)"
| "list_step lower (ViewChanged communities) s = s\<lparr>cl_communities := communities\<rparr>"

fun stays_in_communities :: "list_event \<Rightarrow> bool" where
  "stays_in_communities (QueryTyped v) = False"
| "stays_in_communities (ViewChanged c) = c"
| "stays_in_communities _ = True"

definition stuck :: "(string \<Rightarrow> string) \<Rightarrow> chat_list \<Rightarrow> bool" where
  "stuck lower s \<longleftrightarrow> cl_communities s \<and> cl_tab s = ''unread'' \<and> \<not> searching lower s"

interpretation unread_list: event_machine "list_step lower" stays_in_communities "stuck lower" for lower
proof
  fix e s
  assume "stuck lower s" "stays_in_communities e"
  then show "stuck lower (list_step lower e s)"
    by (cases e) (auto simp: stuck_def tab_buttons_def searching_def cl_q_def)
qed

text \<open>
  The tab of unread chats, chosen among the private chats, follows the person to the communities, where no tab is drawn:
  no group is listed, neither in the list nor in the archive, and nothing that can be pressed there brings them back, until
  something is searched for or the chats are opened again.
\<close>

theorem unread_tab_empties_communities:
  assumes "\<not> searching lower s" and "\<not> cl_communities s" and "list_all stays_in_communities es"
  shows "let s' = fold (list_step lower) es (list_step lower (ViewChanged True) (list_step lower (TabPressed ''unread'') s)) in
    filteredGroups lower s' = [] \<and> \<not> archive_row lower s' \<and> tab_buttons lower s' = []"
proof -
  have "stuck lower (list_step lower (ViewChanged True) (list_step lower (TabPressed ''unread'') s))"
    using assms(1,2) by (simp add: stuck_def tab_buttons_def searching_def cl_q_def)
  from unread_list.run_inv [OF this assms(3)] show ?thesis
    by (simp add: stuck_def Let_def filteredGroups_def archive_row_def tab_buttons_def)
qed

theorem unread_tab_empties_communities_witness:
  "filteredGroups id (fold (list_step id) [ArchivePressed, TabPressed ''all''] (list_step id (ViewChanged True) (list_step id (TabPressed ''unread'') sample_list))) = []
   \<and> cl_groups sample_list \<noteq> []"
  using unread_tab_empties_communities [of id sample_list "[ArchivePressed, TabPressed ''all'']"]
  by (simp add: Let_def sample_list_def searching_def cl_q_def)

subsection \<open>The menu of a chat and the folders\<close>

definition toggleArchive :: "string set \<Rightarrow> chat_type \<Rightarrow> string \<Rightarrow> api_call" where
  "toggleArchive archived ct i = (if \<not> isArchived archived ct i then chatFoldersApi_archive ct i else chatFoldersApi_unarchive ct i)"

definition inFolder :: "chat_folder \<Rightarrow> chat_type \<Rightarrow> string \<Rightarrow> bool" where
  "inFolder f ct i = list_ex (\<lambda>x. chatKey (fi_chatType x) (fi_chatId x) = chatKey ct i) (cf_items f)"

definition toggleFolder :: "chat_folder \<Rightarrow> chat_type \<Rightarrow> string \<Rightarrow> api_call" where
  "toggleFolder f ct i = (if \<not> inFolder f ct i then chatFoldersApi_addItem (cf_id f) ct i else chatFoldersApi_removeItem (cf_id f) ct i)"

definition menu_place :: "nat \<Rightarrow> int \<Rightarrow> int \<Rightarrow> int \<Rightarrow> int \<Rightarrow> int \<times> int" where
  "menu_place folders x y innerWidth innerHeight = (min x (innerWidth - 240), min y (innerHeight - (120 + int folders * 36)))"

definition folder_create :: "string \<Rightarrow> api_call option" where
  "folder_create newName = (if js_trim newName = [] then None else Some (chatFoldersApi_create (js_trim newName)))"

definition folder_rename :: "string \<Rightarrow> string \<Rightarrow> api_call option" where
  "folder_rename i editName = (if js_trim editName = [] then None else Some (chatFoldersApi_rename i (js_trim editName)))"

definition moved_ids :: "chat_folder list \<Rightarrow> nat \<Rightarrow> int \<Rightarrow> string list option" where
  "moved_ids folders index dir = (let ids = map cf_id folders; j = int index + dir in
     if j < 0 \<or> j \<ge> int (length ids) then None else Some (ids[index := ids ! nat j, nat j := ids ! index]))"

definition folder_move :: "chat_folder list \<Rightarrow> nat \<Rightarrow> int \<Rightarrow> api_call option" where
  "folder_move folders index dir = map_option chatFoldersApi_reorder (moved_ids folders index dir)"

text \<open>Moving a folder sends the same folders in another order, and moving it back sends them as they were.\<close>

lemma moved_ids_perm:
  assumes "index < length folders" and "moved_ids folders index dir = Some ids"
  shows "set ids = set (map cf_id folders) \<and> length ids = length folders"
proof -
  have "nat (int index + dir) < length folders" using assms(2) by (auto simp: moved_ids_def Let_def split: if_splits)
  moreover from this assms have "ids = (map cf_id folders)[index := map cf_id folders ! nat (int index + dir), nat (int index + dir) := map cf_id folders ! index]"
    by (auto simp: moved_ids_def Let_def split: if_splits)
  ultimately show ?thesis using assms(1) set_swap [of index "map cf_id folders" "nat (int index + dir)"] by simp
qed

lemma moved_back:
  assumes "Suc i < length folders"
  shows "moved_ids folders i 1 = Some ids \<Longrightarrow> map cf_id gs = ids \<Longrightarrow> moved_ids gs (Suc i) (-1) = Some (map cf_id folders)"
proof -
  assume "moved_ids folders i 1 = Some ids" and gs: "map cf_id gs = ids"
  then have ids: "ids = (map cf_id folders)[i := cf_id (folders ! Suc i), Suc i := cf_id (folders ! i)]"
    using assms by (auto simp: moved_ids_def Let_def nat_add_distrib)
  have "ids[Suc i := ids ! i, i := ids ! Suc i] = map cf_id folders"
    using assms unfolding ids by (intro nth_equalityI) (auto simp: nth_list_update)
  moreover have "length gs = length folders" "length ids = length folders" using gs ids by (metis length_list_update length_map)+
  ultimately show ?thesis using assms by (simp add: moved_ids_def Let_def gs)
qed

end
