(* ===== verification/I18n.thy ===== *)
theory I18n
  imports Kisy_Prelude
begin

text \<open>
  The language of the interface: \<open>shared/i18n/langs.ts\<close> and \<open>shared/i18n/i18n.ts\<close>. The dictionaries are data; what the code
  needs of them is that the Russian one has every key. The plural rules of the platform (\<open>Intl.PluralRules\<close>) and the lower
  case of a language tag are parameters. A parameter of a text is looked up among those given.
\<close>

subsection \<open>Languages\<close>

definition LANGS :: "string list" where
  "LANGS = [''ru'', ''en'', ''de'', ''es'', ''fr'', ''nl'', ''pl'', ''cs'', ''uk'', ''tr'']"

definition FALLBACK_LANG :: string where
  "FALLBACK_LANG = ''en''"

definition LANG_STORAGE_KEY :: string where
  "LANG_STORAGE_KEY = ''kisy-lang''"

definition isLang :: "string option \<Rightarrow> bool" where
  "isLang v = (case v of None \<Rightarrow> False | Some l \<Rightarrow> l \<in> set LANGS)"

definition primary_tag :: "(string \<Rightarrow> string) \<Rightarrow> string \<Rightarrow> string" where
  "primary_tag lower tag = takeWhile (\<lambda>c. c \<noteq> CHR ''-'' \<and> c \<noteq> CHR ''_'') (lower tag)"

fun first_spoken :: "(string \<Rightarrow> string) \<Rightarrow> string list \<Rightarrow> string" where
  "first_spoken lower [] = FALLBACK_LANG"
| "first_spoken lower (tag # tags) = (if isLang (Some (primary_tag lower tag)) then primary_tag lower tag else first_spoken lower tags)"

definition detectLang :: "(string \<Rightarrow> string) \<Rightarrow> string option \<Rightarrow> string list \<Rightarrow> string" where
  "detectLang lower saved preferred = (if isLang saved then the saved else first_spoken lower preferred)"

lemma detectLang_spoken: "detectLang lower saved preferred \<in> set LANGS"
proof -
  have "first_spoken lower preferred \<in> set LANGS"
    by (induction preferred) (auto simp: FALLBACK_LANG_def LANGS_def isLang_def)
  then show ?thesis by (auto simp: detectLang_def isLang_def split: option.splits)
qed

subsection \<open>Dictionaries\<close>

datatype msg = Text string | Plural "string \<rightharpoonup> string" string

type_synonym dict = "string \<rightharpoonup> msg"

record i18n =
  i_lang :: string
  i_dict :: dict
  i_saved :: "string option"
  i_reloads :: nat

definition i18n_start :: "dict \<Rightarrow> string option \<Rightarrow> i18n" where
  "i18n_start ru saved = \<lparr>i_lang = ''ru'', i_dict = ru, i_saved = saved, i_reloads = 0\<rparr>"

definition applyDictionary :: "string \<Rightarrow> dict \<Rightarrow> i18n \<Rightarrow> i18n" where
  "applyDictionary l messages s = s\<lparr>i_lang := l, i_dict := messages\<rparr>"

text \<open>Russian is built in; the others are fetched, which may fail.\<close>

definition loadDictionary :: "dict \<Rightarrow> (string \<Rightarrow> 'e + dict) \<Rightarrow> string \<Rightarrow> 'e + dict" where
  "loadDictionary ru load l = (if l = ''ru'' then Inr ru else load l)"

definition initI18n :: "(string \<Rightarrow> string) \<Rightarrow> dict \<Rightarrow> (string \<Rightarrow> 'e + dict) \<Rightarrow> string list \<Rightarrow> i18n \<Rightarrow> i18n" where
  "initI18n lower ru load preferred s = (let chosen = detectLang lower (i_saved s) preferred in
     case loadDictionary ru load chosen of Inr messages \<Rightarrow> applyDictionary chosen messages s | Inl e \<Rightarrow> applyDictionary ''ru'' ru s)"

text \<open>\<open>setLanguage\<close>: the choice is stored, if the store takes it, and the page starts anew.\<close>

definition setLanguage :: "bool \<Rightarrow> string \<Rightarrow> i18n \<Rightarrow> i18n" where
  "setLanguage stores l s = s\<lparr>i_saved := (if stores then Some l else i_saved s), i_reloads := i_reloads s + 1\<rparr>"

text \<open>The language on the screen is one the app speaks and the dictionary is that language's, whatever fails.\<close>

lemma initI18n_in_step:
  "i_lang (initI18n lower ru load preferred s) \<in> set LANGS \<and>
   (i_lang (initI18n lower ru load preferred s) = ''ru'' \<and> i_dict (initI18n lower ru load preferred s) = ru \<or>
    load (i_lang (initI18n lower ru load preferred s)) = Inr (i_dict (initI18n lower ru load preferred s)))"
  using detectLang_spoken [of lower "i_saved s" preferred]
  by (auto simp: initI18n_def Let_def loadDictionary_def applyDictionary_def LANGS_def split: sum.splits if_splits)

text \<open>A choice that was stored is the language after the restart, when its dictionary loads.\<close>

lemma chosen_language_comes_back:
  "l \<in> set LANGS \<Longrightarrow> loadDictionary ru load l = Inr d \<Longrightarrow>
   i_lang (initI18n lower ru load preferred (setLanguage True l s)) = l \<and> i_dict (initI18n lower ru load preferred (setLanguage True l s)) = d"
  by (simp add: initI18n_def setLanguage_def detectLang_def isLang_def applyDictionary_def)

definition intlLocale :: "(string \<Rightarrow> string) \<Rightarrow> string \<Rightarrow> string \<Rightarrow> string" where
  "intlLocale lower device l = (if device \<noteq> [] \<and> takeWhile (\<lambda>c. c \<noteq> CHR ''-'') (lower device) = l then device else l)"

subsection \<open>Texts\<close>

fun word_char :: "char \<Rightarrow> bool" where
  "word_char c = (let n = of_char c :: nat in
     (48 \<le> n \<and> n \<le> 57) \<or> (65 \<le> n \<and> n \<le> 90) \<or> n = 95 \<or> (97 \<le> n \<and> n \<le> 122))"

definition pick_form :: "(string \<Rightarrow> int \<Rightarrow> string) \<Rightarrow> string \<Rightarrow> msg \<Rightarrow> int option \<Rightarrow> string" where
  "pick_form select l m n = (case m of Text s \<Rightarrow> s
     | Plural forms other \<Rightarrow> (case forms (select l (case n of Some n \<Rightarrow> n | None \<Rightarrow> 0)) of Some s \<Rightarrow> s | None \<Rightarrow> other))"

text \<open>\<open>text.replace(/{(\w+)}/g, ...)\<close>: the text is read once from left to right; what is put in is not read again.\<close>

function fill :: "(string \<rightharpoonup> string) \<Rightarrow> string \<Rightarrow> string" where
  "fill ps [] = []"
| "fill ps (c # cs) = (if c = CHR ''{'' then
      let w = takeWhile word_char cs; rest = dropWhile word_char cs in
      (case rest of d # ds \<Rightarrow> if d = CHR ''}'' \<and> w \<noteq> []
           then (case ps w of Some v \<Rightarrow> v | None \<Rightarrow> CHR ''{'' # w @ [CHR ''}'']) @ fill ps ds else c # fill ps cs
         | [] \<Rightarrow> c # fill ps cs)
      else c # fill ps cs)"
  by pat_completeness auto
termination
proof (relation "measure (\<lambda>(ps, s). length s)")
  fix c cs w rest d ds
  assume "rest = dropWhile word_char cs" "rest = d # ds"
  then have "length (d # ds) \<le> length cs" by (metis length_dropWhile_le)
  then show "((ps, ds), (ps, c # cs)) \<in> measure (\<lambda>(ps, s). length s)" for ps :: "string \<rightharpoonup> string" by simp
qed simp_all

definition t_text :: "(string \<Rightarrow> int \<Rightarrow> string) \<Rightarrow> dict \<Rightarrow> i18n \<Rightarrow> string \<Rightarrow> (string \<rightharpoonup> string) option \<Rightarrow> int option \<Rightarrow> string option" where
  "t_text select ru s key params n = (case (case i_dict s key of Some m \<Rightarrow> Some m | None \<Rightarrow> ru key) of
     None \<Rightarrow> None
   | Some m \<Rightarrow> (let txt = pick_form select (i_lang s) m n in Some (case params of None \<Rightarrow> txt | Some ps \<Rightarrow> fill ps txt)))"

text \<open>A template, as a translator writes it: literal text without braces, and holes with a name.\<close>

datatype piece = Lit string | Hole string

fun piece_ok :: "piece \<Rightarrow> bool" where
  "piece_ok (Lit s) = (CHR ''{'' \<notin> set s)"
| "piece_ok (Hole w) = (w \<noteq> [] \<and> list_all word_char w)"

fun print_piece :: "piece \<Rightarrow> string" where
  "print_piece (Lit s) = s"
| "print_piece (Hole w) = CHR ''{'' # w @ [CHR ''}'']"

fun piece_value :: "(string \<rightharpoonup> string) \<Rightarrow> piece \<Rightarrow> string" where
  "piece_value ps (Lit s) = s"
| "piece_value ps (Hole w) = (case ps w of Some v \<Rightarrow> v | None \<Rightarrow> print_piece (Hole w))"

lemma fill_literal: "CHR ''{'' \<notin> set s \<Longrightarrow> fill ps (s @ rest) = s @ fill ps rest"
  by (induction s) auto

lemma word_run: "list_all word_char w \<Longrightarrow> takeWhile word_char (w @ CHR ''}'' # r) = w \<and> dropWhile word_char (w @ CHR ''}'' # r) = CHR ''}'' # r"
  by (induction w) auto

lemma fill_hole:
  "w \<noteq> [] \<Longrightarrow> list_all word_char w \<Longrightarrow> fill ps (CHR ''{'' # w @ CHR ''}'' # r) = piece_value ps (Hole w) @ fill ps r"
  using word_run [of w r] by (cases "ps w") (simp_all add: Let_def)


lemma fill_pieces: "list_all piece_ok pcs \<Longrightarrow> fill ps (concat (map print_piece pcs)) = concat (map (piece_value ps) pcs)"
proof (induction pcs)
  case (Cons p pcs)
  then show ?case by (cases p) (simp_all add: fill_literal fill_hole del: fill.simps(2))
qed simp

text \<open>
  C37. Whatever the language on the screen, whether or not its dictionary loaded, a key of the Russian dictionary has a text:
  the current dictionary's, else the Russian one. With the text written as literal parts and named holes, what is shown is
  the literal parts with the values in the holes that were given one, and braces inside a value are left as they are.
\<close>

theorem texts_are_filled_once:
  assumes "key \<in> dom ru" and "s = initI18n lower ru load preferred s0"
    and "pick_form select (i_lang s) (case i_dict s key of Some m \<Rightarrow> m | None \<Rightarrow> the (ru key)) n = concat (map print_piece pcs)"
    and "list_all piece_ok pcs"
  shows "i_lang s \<in> set LANGS \<and> t_text select ru s key (Some ps) n = Some (concat (map (piece_value ps) pcs))"
proof -
  have "i_lang s \<in> set LANGS" using initI18n_in_step [of lower ru load preferred s0] assms(2) by blast
  moreover have "t_text select ru s key (Some ps) n = Some (fill ps (concat (map print_piece pcs)))"
    using assms(1,3) by (auto simp: t_text_def Let_def split: option.splits)
  ultimately show ?thesis using fill_pieces [OF assms(4)] by simp
qed

theorem texts_are_filled_once_witness:
  "t_text (\<lambda>_ _. ''other'') [''hi'' \<mapsto> Text ''Hi {name}!''] (initI18n id [''hi'' \<mapsto> Text ''Hi {name}!''] (\<lambda>_. Inl ()) [''en''] (i18n_start Map.empty None))
     ''hi'' (Some [''name'' \<mapsto> ''{name}'']) None = Some ''Hi {name}!''"
proof -
  let ?ru = "[''hi'' \<mapsto> Text ''Hi {name}!'']" and ?pcs = "[Lit ''Hi '', Hole ''name'', Lit ''!'']"
  let ?s = "initI18n id ?ru (\<lambda>_. Inl ()) [''en''] (i18n_start Map.empty None)"
  have s: "i_dict ?s = ?ru"
    by (simp add: initI18n_def detectLang_def isLang_def LANGS_def primary_tag_def i18n_start_def loadDictionary_def applyDictionary_def)
  have "pick_form (\<lambda>_ _. ''other'') (i_lang ?s) (case i_dict ?s ''hi'' of Some m \<Rightarrow> m | None \<Rightarrow> the (?ru ''hi'')) None = concat (map print_piece ?pcs)"
    unfolding s by (simp add: pick_form_def)
  moreover have "list_all piece_ok ?pcs" by simp
  ultimately show ?thesis
    using texts_are_filled_once [of "''hi''" ?ru ?s id "\<lambda>_. Inl ()" "[''en'']" "i18n_start Map.empty None" "\<lambda>_ _. ''other''" None ?pcs "[''name'' \<mapsto> ''{name}'']"]
    by simp
qed

end
