(* ===== verification/Avatar_Crop.thy ===== *)
theory Avatar_Crop
  imports Api_Types Kisy_Prelude Complex_Main
begin

text \<open>
  Changing an avatar: \<open>features/profile/AvatarCropper.tsx\<close>. The picture is zoomed and dragged under a fixed square, and the
  square is cut out of it. Screen pixels are reals. The object URL of the chosen file is a number; those not yet revoked are
  kept. What the person sees between a zoom and the effect that follows it is not a state of its own.
\<close>

subsection \<open>The square\<close>

definition FRAME :: real where "FRAME = 260"
definition OUTPUT :: nat where "OUTPUT = 256"
definition MAX_INPUT_BYTES :: nat where "MAX_INPUT_BYTES = 8 * 1024 * 1024"

definition ACCEPT :: "string list" where
  "ACCEPT = [''image/jpeg'', ''image/png'', ''image/webp'']"

record crop =
  cr_size :: "(real \<times> real) option"
  cr_zoom :: real
  cr_x :: real
  cr_y :: real
  cr_drag :: "(real \<times> real) option"

definition crop_open :: crop where
  "crop_open = \<lparr>cr_size = None, cr_zoom = 1, cr_x = 0, cr_y = 0, cr_drag = None\<rparr>"

definition baseScale :: "crop \<Rightarrow> real" where
  "baseScale s = (case cr_size s of Some (w, h) \<Rightarrow> FRAME / min w h | None \<Rightarrow> 1)"

definition crop_scale :: "crop \<Rightarrow> real" where
  "crop_scale s = baseScale s * cr_zoom s"

definition dispW :: "crop \<Rightarrow> real" where
  "dispW s = (case cr_size s of Some (w, h) \<Rightarrow> w * crop_scale s | None \<Rightarrow> 0)"

definition dispH :: "crop \<Rightarrow> real" where
  "dispH s = (case cr_size s of Some (w, h) \<Rightarrow> h * crop_scale s | None \<Rightarrow> 0)"

definition crop_clamp :: "crop \<Rightarrow> real \<times> real \<Rightarrow> real \<times> real" where
  "crop_clamp s o1 = (min 0 (max (FRAME - dispW s) (fst o1)), min 0 (max (FRAME - dispH s) (snd o1)))"

definition crop_place :: "real \<times> real \<Rightarrow> crop \<Rightarrow> crop" where
  "crop_place o1 s = s\<lparr>cr_x := fst (crop_clamp s o1), cr_y := snd (crop_clamp s o1)\<rparr>"

text \<open>\<open>el.onload\<close>: the picture is centred; the effect on \<open>clamp\<close> follows.\<close>

definition crop_loaded :: "real \<Rightarrow> real \<Rightarrow> crop \<Rightarrow> crop" where
  "crop_loaded w h s = (let k = FRAME / min w h; s1 = s\<lparr>cr_size := Some (w, h), cr_x := (FRAME - w * k) / 2, cr_y := (FRAME - h * k) / 2\<rparr>
     in crop_place (cr_x s1, cr_y s1) s1)"

definition crop_zoomed :: "real \<Rightarrow> crop \<Rightarrow> crop" where
  "crop_zoomed z s = (let s1 = s\<lparr>cr_zoom := z\<rparr> in crop_place (cr_x s1, cr_y s1) s1)"

definition crop_down :: "real \<Rightarrow> real \<Rightarrow> crop \<Rightarrow> crop" where
  "crop_down x y s = s\<lparr>cr_drag := Some (x - cr_x s, y - cr_y s)\<rparr>"

definition crop_move :: "real \<Rightarrow> real \<Rightarrow> crop \<Rightarrow> crop" where
  "crop_move x y s = (case cr_drag s of None \<Rightarrow> s | Some (dx, dy) \<Rightarrow> crop_place (x - dx, y - dy) s)"

definition crop_up :: "crop \<Rightarrow> crop" where
  "crop_up s = s\<lparr>cr_drag := None\<rparr>"

text \<open>\<open>confirm\<close>: the part of the picture that is drawn, by its corner and its side; nothing before it has loaded.\<close>

definition crop_confirm :: "crop \<Rightarrow> (real \<times> real \<times> real) option" where
  "crop_confirm s = (case cr_size s of None \<Rightarrow> None
     | Some _ \<Rightarrow> Some (- cr_x s / crop_scale s, - cr_y s / crop_scale s, FRAME / crop_scale s))"

datatype crop_event = Loaded real real | Zoomed real | CropDown real real | CropMove real real | CropUp

fun crop_step :: "crop_event \<Rightarrow> crop \<Rightarrow> crop" where
  "crop_step (Loaded w h) s = crop_loaded w h s"
| "crop_step (Zoomed z) s = crop_zoomed z s"
| "crop_step (CropDown x y) s = crop_down x y s"
| "crop_step (CropMove x y) s = crop_move x y s"
| "crop_step CropUp s = crop_up s"

text \<open>The slider goes from 1 to 3; a picture has a width and a height.\<close>

fun crop_event_ok :: "crop_event \<Rightarrow> bool" where
  "crop_event_ok (Loaded w h) = (w > 0 \<and> h > 0)"
| "crop_event_ok (Zoomed z) = (1 \<le> z \<and> z \<le> 3)"
| "crop_event_ok _ = True"

definition crop_inv :: "crop \<Rightarrow> bool" where
  "crop_inv s \<longleftrightarrow> 1 \<le> cr_zoom s \<and> cr_zoom s \<le> 3 \<and> (case cr_size s of None \<Rightarrow> True | Some (w, h) \<Rightarrow> w > 0 \<and> h > 0 \<and>
     FRAME - dispW s \<le> cr_x s \<and> cr_x s \<le> 0 \<and> FRAME - dispH s \<le> cr_y s \<and> cr_y s \<le> 0)"

lemma covers:
  assumes "cr_size s = Some (w, h)" and "w > 0" and "h > 0" and "1 \<le> cr_zoom s"
  shows "FRAME \<le> dispW s" "FRAME \<le> dispH s" "0 < crop_scale s"
proof -
  have pos: "0 < FRAME / min w h" using assms by (simp add: FRAME_def)
  have "FRAME / min w h * w \<ge> FRAME" "FRAME / min w h * h \<ge> FRAME"
    using assms by (simp_all add: FRAME_def field_simps min_def)
  then have "FRAME \<le> FRAME / min w h * w * cr_zoom s" "FRAME \<le> FRAME / min w h * h * cr_zoom s"
    using assms(4) pos assms(2,3)
    by (metis (no_types, opaque_lifting) FRAME_def mult_left_mono mult.right_neutral order_trans zero_le_numeral)+
  then show "FRAME \<le> dispW s" "FRAME \<le> dispH s" using assms(1)
    by (simp_all add: dispW_def dispH_def crop_scale_def baseScale_def mult.assoc mult.left_commute)
  show "0 < crop_scale s" using mult_pos_pos [OF pos, of "cr_zoom s"] assms(1,4) by (simp add: crop_scale_def baseScale_def)
qed


lemma place_inv:
  assumes "cr_size s = Some (w, h)" "w > 0" "h > 0" "1 \<le> cr_zoom s" "cr_zoom s \<le> 3"
  shows "crop_inv (crop_place o1 s)"
proof -
  have same: "dispW (crop_place o1 s) = dispW s" "dispH (crop_place o1 s) = dispH s"
    by (auto simp: crop_place_def dispW_def dispH_def crop_scale_def baseScale_def split: option.splits)
  show ?thesis using assms covers [OF assms(1-4)] unfolding crop_inv_def same by (simp add: crop_place_def crop_clamp_def)
qed

lemma place_keeps: "crop_inv s \<Longrightarrow> crop_inv (crop_place o1 s)"
proof (cases "cr_size s")
  case None then show "crop_inv s \<Longrightarrow> ?thesis" by (simp add: crop_inv_def crop_place_def)
next
  case (Some p) then show "crop_inv s \<Longrightarrow> ?thesis" using place_inv [of s "fst p" "snd p" o1] by (auto simp: crop_inv_def [of s])
qed

interpretation cropping: event_machine crop_step crop_event_ok crop_inv
proof
  fix s e
  assume inv: "crop_inv s" and ok: "crop_event_ok e"
  show "crop_inv (crop_step e s)"
  proof (cases e)
    case (Loaded w h)
    then show ?thesis using inv ok place_inv by (auto simp: crop_loaded_def Let_def crop_inv_def [of s])
  next
    case (Zoomed z)
    show ?thesis
    proof (cases "cr_size s")
      case None then show ?thesis using Zoomed ok by (simp add: crop_zoomed_def crop_place_def crop_inv_def Let_def)
    next
      case (Some p) then show ?thesis using Zoomed inv ok place_inv [of "s\<lparr>cr_zoom := z\<rparr>" "fst p" "snd p"]
        by (auto simp: crop_zoomed_def Let_def crop_inv_def [of s])
    qed
  next
    case (CropMove x y)
    then show ?thesis using inv by (auto simp: crop_move_def place_keeps split: option.splits)
  qed (use inv in \<open>auto simp: crop_down_def crop_up_def crop_inv_def dispW_def dispH_def crop_scale_def baseScale_def split: option.splits\<close>)
qed

text \<open>
  C40. Over every history of loading, zooming and dragging, the square that is cut out of a picture lies inside it: its corner
  is not left of or above the picture, its far edges do not pass the picture's, and its side is positive and at most the
  picture's shorter side. So an avatar never has an empty margin.
\<close>

theorem crop_stays_inside:
  assumes "list_all crop_event_ok es" and "cr_size (fold crop_step es crop_open) = Some (w, h)"
    and "crop_confirm (fold crop_step es crop_open) = Some (sx, sy, side)"
  shows "0 \<le> sx \<and> 0 \<le> sy \<and> sx + side \<le> w \<and> sy + side \<le> h \<and> 0 < side \<and> side \<le> min w h"
proof -
  define s where "s = fold crop_step es crop_open"
  have "crop_inv crop_open" by (simp add: crop_inv_def crop_open_def)
  from cropping.run_inv [OF this assms(1)] have inv: "crop_inv s" by (simp add: s_def)
  have size: "cr_size s = Some (w, h)" using assms(2) by (simp add: s_def)
  then have i: "w > 0" "h > 0" "1 \<le> cr_zoom s" "FRAME - w * crop_scale s \<le> cr_x s" "cr_x s \<le> 0"
    "FRAME - h * crop_scale s \<le> cr_y s" "cr_y s \<le> 0"
    using inv by (simp_all add: crop_inv_def dispW_def dispH_def)
  have k: "0 < crop_scale s" by (rule covers(3) [OF size i(1-3)])
  have c: "sx = - cr_x s / crop_scale s" "sy = - cr_y s / crop_scale s" "side = FRAME / crop_scale s"
    using assms(3) size unfolding s_def [symmetric] by (simp_all add: crop_confirm_def)
  have "FRAME \<le> w * crop_scale s" "FRAME \<le> h * crop_scale s"
    using covers(1,2) [OF size i(1-3)] size by (simp_all add: dispW_def dispH_def)
  then have "side \<le> min w h" using k unfolding c by (simp add: field_simps)
  moreover have "sx + side \<le> w" "sy + side \<le> h" using i k unfolding c by (simp_all add: field_simps)
  moreover have "0 \<le> sx" "0 \<le> sy" "0 < side" using i k unfolding c by (simp_all add: FRAME_def divide_nonpos_pos)
  ultimately show ?thesis by simp
qed


theorem crop_stays_inside_witness:
  "\<exists>sx sy side. crop_confirm (fold crop_step [Loaded 520 260, Zoomed 2, CropDown 0 0, CropMove 500 (-900)] crop_open) = Some (sx, sy, side) \<and>
     0 \<le> sx \<and> 0 \<le> sy \<and> sx + side \<le> 520 \<and> sy + side \<le> 260"
proof -
  let ?s = "fold crop_step [Loaded 520 260, Zoomed 2, CropDown 0 0, CropMove 500 (-900)] crop_open"
  have size: "cr_size ?s = Some (520, 260)"
    by (simp add: crop_loaded_def crop_zoomed_def crop_down_def crop_move_def crop_place_def Let_def crop_open_def)
  then obtain sx sy side where "crop_confirm ?s = Some (sx, sy, side)" by (simp add: crop_confirm_def)
  with size show ?thesis
    using crop_stays_inside [of "[Loaded 520 260, Zoomed 2, CropDown 0 0, CropMove 500 (-900)]" 520 260 sx sy side] by simp
qed

subsection \<open>Choosing and uploading\<close>

record avatar_file =
  af_type :: string
  af_size :: nat

record avatar =
  av_src :: "nat option"
  av_busy :: bool
  av_live :: "nat list"
  av_next :: nat
  av_toasts :: "ui_text list"

definition avatar_start :: avatar where
  "avatar_start = \<lparr>av_src = None, av_busy = False, av_live = [], av_next = 0, av_toasts = []\<rparr>"

definition avatar_say :: "string \<Rightarrow> avatar \<Rightarrow> avatar" where
  "avatar_say k s = s\<lparr>av_toasts := av_toasts s @ [T k []]\<rparr>"

definition avatar_pick :: "avatar_file option \<Rightarrow> avatar \<Rightarrow> avatar" where
  "avatar_pick f s = (case f of None \<Rightarrow> s | Some f \<Rightarrow>
     if af_type f \<notin> set ACCEPT then avatar_say ''account.avatar.badType'' s
     else if af_size f > MAX_INPUT_BYTES then avatar_say ''account.avatar.tooBig'' s
     else s\<lparr>av_src := Some (av_next s), av_live := av_live s @ [av_next s], av_next := av_next s + 1\<rparr>)"

definition avatar_close :: "avatar \<Rightarrow> avatar" where
  "avatar_close s = (case av_src s of None \<Rightarrow> s | Some u \<Rightarrow> s\<lparr>av_src := None, av_live := filter (\<lambda>v. v \<noteq> u) (av_live s)\<rparr>)"

definition avatar_upload :: "avatar \<Rightarrow> avatar" where
  "avatar_upload s = s\<lparr>av_busy := True\<rparr>"

definition avatar_settled :: "bool \<Rightarrow> avatar \<Rightarrow> avatar" where
  "avatar_settled ok s = (if ok then avatar_close (avatar_say ''account.avatar.updated'' s)
     else avatar_say ''account.avatar.uploadFailed'' s)\<lparr>av_busy := False\<rparr>"

text \<open>A picture dropped on the avatar while another is being cropped replaces it, and the first one's bytes are kept for good.\<close>

theorem dropped_picture_leaks:
  assumes "f = \<lparr>af_type = ''image/png'', af_size = 1\<rparr>"
  shows "av_live (avatar_close (avatar_pick (Some f) (avatar_pick (Some f) avatar_start))) = [0] \<and>
    av_src (avatar_close (avatar_pick (Some f) (avatar_pick (Some f) avatar_start))) = None"
  using assms by (simp add: avatar_pick_def avatar_close_def avatar_start_def ACCEPT_def MAX_INPUT_BYTES_def)

lemma one_picture_released: "av_live s = [] \<Longrightarrow> av_live (avatar_close (avatar_pick (Some f) (s\<lparr>av_src := None\<rparr>))) = []"
  by (auto simp: avatar_pick_def avatar_close_def avatar_say_def)

end
