(* ===== verification/Push.thy ===== *)
theory Push
  imports Endpoints Waveform
begin

text \<open>
  Notifications of the platform: \<open>shared/lib/push.ts\<close>, \<open>shared/lib/nativePush.ts\<close> and \<open>shared/lib/shownNotifications.ts\<close>. The
  plugin, the browser's push manager and the server are a record of answers; what is asked of them is kept in a log. The
  token the plugin reports through events is a machine of its own.
\<close>

subsection \<open>The platform\<close>

record subscription =
  sub_endpoint :: "string option"
  sub_p256dh :: "string option"
  sub_auth :: "string option"

record push_env =
  pe_native :: bool
  pe_web :: bool
  pe_vapid :: "js_error + (string \<times> bool \<times> bool)"
  pe_check :: "js_error + string"
  pe_ask :: "js_error + string"
  pe_token :: "js_error + string"
  pe_request :: "api_call \<Rightarrow> js_error option"
  pe_unregister :: "js_error option"
  pe_webPermission :: string
  pe_webAsk :: string
  pe_existing :: "subscription option"
  pe_subscribe :: "nat list \<Rightarrow> js_error + subscription"

datatype push_op = PermissionAsked | ChannelCreated | TokenAsked | Requested api_call | PluginUnregistered | WebSubscribed "nat list" | WebUnsubscribed

record push_state =
  ps_storage :: local_storage
  ps_log :: "push_op list"

type_synonym 'a push_io = "(push_state, js_error, 'a) io"

definition note_op :: "push_op \<Rightarrow> unit push_io" where
  "note_op x = io_mod (\<lambda>w. w\<lparr>ps_log := ps_log w @ [x]\<rparr>)"

definition push_request :: "push_env \<Rightarrow> api_call \<Rightarrow> unit push_io" where
  "push_request E c = io_bind (note_op (Requested c)) (\<lambda>_. case pe_request E c of None \<Rightarrow> io_ret () | Some e \<Rightarrow> io_throw e)"

subsection \<open>The packaged app\<close>

definition unregisterDevice_call :: "string \<Rightarrow> api_call" where
  "unregisterDevice_call token = json_call POST ''/push/device/unregister'' (Some (json_fields [(''token'', Some (JStr token))]))"

definition rememberToken :: "string option \<Rightarrow> unit push_io" where
  "rememberToken token = io_mod (\<lambda>w. w\<lparr>ps_storage := ls_try (if truthy token then ls_setItem PUSH_TOKEN_KEY (the token)
     else ls_removeItem PUSH_TOKEN_KEY) (ps_storage w)\<rparr>)"

definition registerToken :: "push_env \<Rightarrow> unit push_io" where
  "registerToken E = io_bind (note_op ChannelCreated) (\<lambda>_. io_bind (note_op TokenAsked) (\<lambda>_. io_bind (io_of (pe_token E)) (\<lambda>token.
     io_bind (push_request E (pushApi_registerDevice token ''android'')) (\<lambda>_. rememberToken (Some token)))))"

definition enableNativePush :: "push_env \<Rightarrow> bool push_io" where
  "enableNativePush E = (if \<not> pe_native E then io_ret False else
     io_bind (note_op (Requested pushApi_vapidKey)) (\<lambda>_. io_bind (io_of (pe_vapid E)) (\<lambda>(vapid, enabled, mobileEnabled).
       if \<not> mobileEnabled then io_ret False else
       io_bind (io_of (pe_check E)) (\<lambda>st0.
         io_bind (if st0 = ''prompt'' \<or> st0 = ''prompt-with-rationale'' then io_bind (note_op PermissionAsked) (\<lambda>_. io_of (pe_ask E)) else io_ret st0) (\<lambda>st.
           if st \<noteq> ''granted'' then io_ret False else io_bind (registerToken E) (\<lambda>_. io_ret True))))))"

definition disableNativePush :: "push_env \<Rightarrow> unit push_io" where
  "disableNativePush E = (if \<not> pe_native E then io_ret () else
     io_bind (io_get (\<lambda>w. storedToken (ps_storage w))) (\<lambda>token.
       io_bind (if truthy token then io_ignore (push_request E (unregisterDevice_call (the token))) else io_ret ()) (\<lambda>_.
         io_bind (rememberToken None) (\<lambda>_. note_op PluginUnregistered))))"

definition nativePushEnabled :: "push_env \<Rightarrow> bool push_io" where
  "nativePushEnabled E = (if \<not> pe_native E then io_ret False else
     io_bind (io_get (\<lambda>w. storedToken (ps_storage w))) (\<lambda>token.
       if \<not> truthy token then io_ret False else io_bind (io_of (pe_check E)) (\<lambda>st. io_ret (st = ''granted''))))"

definition refreshNativePushToken :: "push_env \<Rightarrow> unit push_io" where
  "refreshNativePushToken E = io_bind (nativePushEnabled E) (\<lambda>on. if \<not> on then io_ret () else io_ignore (registerToken E))"

subsection \<open>The browser\<close>

definition pushSupported :: "push_env \<Rightarrow> bool" where
  "pushSupported E \<longleftrightarrow> pe_native E \<or> pe_web E"

definition url_char :: "char \<Rightarrow> char" where
  "url_char c = (if c = CHR ''-'' then CHR ''+'' else if c = CHR ''_'' then CHR ''/'' else c)"

definition urlBase64ToUint8Array :: "string \<Rightarrow> js_error + nat list" where
  "urlBase64ToUint8Array base64 = (case atob (map url_char (base64 @ replicate ((4 - length base64 mod 4) mod 4) (CHR ''=''))) of
     Some bs \<Rightarrow> Inr bs | None \<Rightarrow> Inl (JsError ''InvalidCharacterError''))"

definition subscription_of :: "push_env \<Rightarrow> string \<Rightarrow> subscription push_io" where
  "subscription_of E vapid = (case pe_existing E of Some s \<Rightarrow> io_ret s
     | None \<Rightarrow> io_bind (io_of (urlBase64ToUint8Array vapid)) (\<lambda>key. io_bind (note_op (WebSubscribed key)) (\<lambda>_. io_of (pe_subscribe E key))))"

definition enablePush :: "push_env \<Rightarrow> bool push_io" where
  "enablePush E = (if pe_native E then enableNativePush E else if \<not> pushSupported E then io_ret False else
     io_bind (note_op (Requested pushApi_vapidKey)) (\<lambda>_. io_bind (io_of (pe_vapid E)) (\<lambda>(vapid, enabled, mobileEnabled).
       if \<not> enabled \<or> vapid = [] then io_ret False else
       io_bind (note_op PermissionAsked) (\<lambda>_.
         if pe_webAsk E \<noteq> ''granted'' then io_ret False else
         io_bind (subscription_of E vapid) (\<lambda>sub.
           if \<not> truthy (sub_endpoint sub) \<or> \<not> truthy (sub_p256dh sub) \<or> \<not> truthy (sub_auth sub) then io_ret False else
           io_bind (push_request E (pushApi_subscribe (the (sub_endpoint sub)) (the (sub_p256dh sub)) (the (sub_auth sub)))) (\<lambda>_. io_ret True))))))"

definition disablePush :: "push_env \<Rightarrow> unit push_io" where
  "disablePush E = (if pe_native E then disableNativePush E else if \<not> pushSupported E then io_ret () else
     case pe_existing E of None \<Rightarrow> io_ret () | Some sub \<Rightarrow>
       io_bind (io_ignore (push_request E (pushApi_unsubscribe (the (sub_endpoint sub))))) (\<lambda>_. note_op WebUnsubscribed))"

definition pushEnabled :: "push_env \<Rightarrow> bool push_io" where
  "pushEnabled E = (if pe_native E then nativePushEnabled E
     else if \<not> pushSupported E \<or> pe_webPermission E \<noteq> ''granted'' then io_ret False else io_ret (pe_existing E \<noteq> None))"


subsection \<open>What enabling and disabling leave behind\<close>

lemma push_request_run:
  "push_request E c w = (case pe_request E c of None \<Rightarrow> Inr () | Some e \<Rightarrow> Inl e, w\<lparr>ps_log := ps_log w @ [Requested c]\<rparr>)"
  by (simp add: push_request_def note_op_def io_bind_def split: option.splits)

lemma registerToken_run:
  "registerToken E w = (let w1 = w\<lparr>ps_log := ps_log w @ [ChannelCreated, TokenAsked]\<rparr> in
     case pe_token E of Inl e \<Rightarrow> (Inl e, w1)
     | Inr token \<Rightarrow> (let call = pushApi_registerDevice token ''android''; w2 = w1\<lparr>ps_log := ps_log w1 @ [Requested call]\<rparr> in
         case pe_request E call of Some e \<Rightarrow> (Inl e, w2)
         | None \<Rightarrow> (Inr (), w2\<lparr>ps_storage := ls_try (if truthy (Some token) then ls_setItem PUSH_TOKEN_KEY token
              else ls_removeItem PUSH_TOKEN_KEY) (ps_storage w)\<rparr>)))"
  by (simp add: registerToken_def note_op_def io_bind_def push_request_run rememberToken_def Let_def split: sum.splits option.splits)

text \<open>
  Turning notifications on in the packaged app asks the person for the permission only when the server said it can
  deliver to phones. It answers yes only when the token the platform gave was accepted by the server, and then that token is
  the one kept for signing out; when it answers no, or fails, nothing kept has changed.
\<close>

theorem enabling_keeps_registered_token:
  assumes "enableNativePush E w = (r, w')"
  shows "(\<exists>ops. ps_log w' = ps_log w @ ops \<and> (PermissionAsked \<in> set ops \<longrightarrow> (\<exists>k e. pe_vapid E = Inr (k, e, True)))) \<and>
    (if r = Inr True then \<exists>token. pe_token E = Inr token \<and> pe_request E (pushApi_registerDevice token ''android'') = None \<and>
         Requested (pushApi_registerDevice token ''android'') \<in> set (ps_log w') \<and>
         (token \<noteq> [] \<and> \<not> ls_disabled (ps_storage w) \<and> \<not> ls_full (ps_storage w) \<longrightarrow> storedToken (ps_storage w') = Some token)
     else ps_storage w' = ps_storage w)"
proof (cases "pe_native E")
  case False
  with assms show ?thesis by (auto simp: enableNativePush_def)
next
  case nat: True
  show ?thesis
  proof (cases "pe_vapid E")
    case (Inl e)
    with assms nat show ?thesis by (auto simp: enableNativePush_def note_op_def io_bind_def)
  next
    case (Inr v)
    obtain k en mobile where v: "v = (k, en, mobile)" by (cases v) auto
    show ?thesis
    proof (cases mobile)
      case False
      with assms nat Inr v show ?thesis by (auto simp: enableNativePush_def note_op_def io_bind_def)
    next
      case True
      show ?thesis using assms nat Inr v True
        by (auto simp: enableNativePush_def note_op_def io_bind_def registerToken_run Let_def truthy_def storedToken_def
            ls_getItem_def ls_setItem_def ls_try_def split: sum.splits option.splits if_splits)
    qed
  qed
qed


definition sample_push :: push_env where
  "sample_push = \<lparr>pe_native = True, pe_web = False, pe_vapid = Inr (''k'', True, True), pe_check = Inr ''prompt'', pe_ask = Inr ''granted'',
     pe_token = Inr ''tok'', pe_request = (\<lambda>_. None), pe_unregister = None, pe_webPermission = [], pe_webAsk = [],
     pe_existing = None, pe_subscribe = (\<lambda>_. Inl (JsError ''none''))\<rparr>"

definition sample_push_state :: push_state where
  "sample_push_state = \<lparr>ps_storage = \<lparr>ls_items = Map.empty, ls_disabled = False, ls_full = False\<rparr>, ps_log = []\<rparr>"

theorem enabling_keeps_registered_token_witness:
  "fst (enableNativePush sample_push sample_push_state) = Inr True \<and>
   storedToken (ps_storage (snd (enableNativePush sample_push sample_push_state))) = Some ''tok''"
proof -
  have run: "fst (enableNativePush sample_push sample_push_state) = Inr True"
    by (simp add: enableNativePush_def sample_push_def note_op_def io_bind_def registerToken_run Let_def)
  with enabling_keeps_registered_token [of sample_push sample_push_state "Inr True" "snd (enableNativePush sample_push sample_push_state)"]
  have "\<exists>token. pe_token sample_push = Inr token \<and> (token \<noteq> [] \<longrightarrow> storedToken (ps_storage (snd (enableNativePush sample_push sample_push_state))) = Some token)"
    by (auto simp: prod_eq_iff sample_push_state_def)
  with run show ?thesis by (simp add: sample_push_def)
qed

text \<open>Turning them off never fails, tells the server about a token that was kept, and keeps none where the store can be written.\<close>

lemma disabling_forgets:
  "pe_native E \<Longrightarrow> fst (disableNativePush E w) = Inr () \<and>
   (\<not> ls_disabled (ps_storage w) \<longrightarrow> storedToken (ps_storage (snd (disableNativePush E w))) = None) \<and>
   (truthy (storedToken (ps_storage w)) \<longrightarrow>
      Requested (unregisterDevice_call (the (storedToken (ps_storage w)))) \<in> set (ps_log (snd (disableNativePush E w))))"
  by (auto simp: disableNativePush_def io_bind_def io_ignore_def io_catch_def push_request_run rememberToken_def note_op_def storedToken_def
      ls_getItem_def ls_removeItem_def ls_try_def truthy_def split: option.splits)

text \<open>
  Renewing the token on a sign-in leaves the kept one in place when it fails; but it fails itself when the permission cannot be
  read, which is asked for outside its \<open>try\<close>.
\<close>

lemma refresh_failure_keeps_token:
  "pe_check E = Inr st \<Longrightarrow> fst (refreshNativePushToken E w) = Inr () \<and>
     (pe_token E = Inl e \<longrightarrow> ps_storage (snd (refreshNativePushToken E w)) = ps_storage w)"
  by (auto simp: refreshNativePushToken_def nativePushEnabled_def io_bind_def io_ignore_def io_catch_def registerToken_run Let_def
      split: sum.splits option.splits)

lemma refresh_not_best_effort:
  "pe_native E \<Longrightarrow> truthy (storedToken (ps_storage w)) \<Longrightarrow> pe_check E = Inl e \<Longrightarrow> fst (refreshNativePushToken E w) = Inl e"
  by (simp add: refreshNativePushToken_def nativePushEnabled_def io_bind_def)

subsection \<open>The server's key\<close>

definition url_safe :: "char \<Rightarrow> char" where
  "url_safe c = (if c = CHR ''+'' then CHR ''-'' else if c = CHR ''/'' then CHR ''_'' else c)"

lemma b64_not_url: "n < 64 \<Longrightarrow> b64_char n \<noteq> CHR ''-'' \<and> b64_char n \<noteq> CHR ''_''"
  using b64_val_char [of n] by (auto simp: b64_val_def)

lemma btoa_shape:
  "\<forall>b\<in>set bs. b < 256 \<Longrightarrow> \<exists>body n. btoa bs = body @ replicate n (CHR ''='') \<and> n < 3 \<and> (length body + n) mod 4 = 0 \<and>
     (\<forall>c\<in>set body. c \<noteq> CHR ''='' \<and> c \<noteq> CHR ''-'' \<and> c \<noteq> CHR ''_'')"
proof (induction bs rule: btoa.induct)
  case 1 show ?case by (intro exI [of _ "[]"] exI [of _ 0]) simp
next
  case (2 a)
  then show ?case using byte_parts [of a 0 0] b64_not_url
    by (intro exI [of _ "[b64_char (a div 4), b64_char (a mod 4 * 16)]"] exI [of _ 2]) (auto simp: numeral_2_eq_2)
next
  case (3 a b)
  then show ?case using byte_parts [of a b 0] b64_not_url
    by (intro exI [of _ "[b64_char (a div 4), b64_char (a mod 4 * 16 + b div 16), b64_char (b mod 16 * 4)]"] exI [of _ 1]) auto
next
  case (4 a b c rest)
  then obtain body n where IH: "btoa rest = body @ replicate n (CHR ''='')" "n < 3" "(length body + n) mod 4 = 0"
    "\<forall>c\<in>set body. c \<noteq> CHR ''='' \<and> c \<noteq> CHR ''-'' \<and> c \<noteq> CHR ''_''" by auto
  have "c mod 64 < 64" by simp
  then show ?case using IH byte_parts [of a b c] b64_not_url 4(2)
    by (intro exI [of _ "[b64_char (a div 4), b64_char (a mod 4 * 16 + b div 16), b64_char (b mod 16 * 4 + c div 64), b64_char (c mod 64)] @ body"] exI [of _ n])
      (auto simp: mod_Suc)
qed

lemma url_back: "c \<noteq> CHR ''-'' \<Longrightarrow> c \<noteq> CHR ''_'' \<Longrightarrow> url_char (url_safe c) = c"
  by (simp add: url_char_def url_safe_def)

lemma pad_count:
  fixes l n :: nat
  assumes "n < 3" and "(l + n) mod 4 = 0"
  shows "(4 - l mod 4) mod 4 = n"
proof -
  have "(l mod 4 + n) mod 4 = 0" using assms(2) by (simp add: mod_simps)
  moreover have "l mod 4 = 0 \<or> l mod 4 = 1 \<or> l mod 4 = 2 \<or> l mod 4 = 3" by linarith
  moreover have "n = 0 \<or> n = 1 \<or> n = 2" using assms(1) by linarith
  ultimately show ?thesis by (elim disjE) simp_all
qed

lemma unpadded: "\<forall>c\<in>set body. c \<noteq> CHR ''='' \<Longrightarrow> takeWhile (\<lambda>c. c \<noteq> CHR ''='') (body @ replicate n (CHR ''='')) = body"
  by (cases n) (simp_all add: takeWhile_append)

text \<open>
  The server's public key, which travels as base64 in the alphabet of URLs and without padding, is read back as the bytes
  it stands for: padding and alphabet are restored before it is decoded.
\<close>

theorem vapid_key_round_trip:
  assumes "\<forall>b\<in>set bs. b < 256"
  shows "urlBase64ToUint8Array (map url_safe (takeWhile (\<lambda>c. c \<noteq> CHR ''='') (btoa bs))) = Inr bs"
proof -
  obtain body n where b: "btoa bs = body @ replicate n (CHR ''='')" "n < 3" "(length body + n) mod 4 = 0"
    "\<forall>c\<in>set body. c \<noteq> CHR ''='' \<and> c \<noteq> CHR ''-'' \<and> c \<noteq> CHR ''_''"
    using btoa_shape [OF assms] by (elim exE conjE) (rule that)
  have "takeWhile (\<lambda>c. c \<noteq> CHR ''='') (btoa bs) = body" unfolding b(1) by (rule unpadded) (simp add: b(4))
  moreover have "map url_char (map url_safe body) = body"
    unfolding map_map comp_def by (rule map_idI) (rule url_back; simp add: b(4))
  moreover have "(4 - length body mod 4) mod 4 = n" using b(2,3) by (rule pad_count)
  moreover have "url_char (CHR ''='') = CHR ''=''" by (simp add: url_char_def)
  ultimately show ?thesis using atob_btoa [OF assms] b(1) by (simp add: urlBase64ToUint8Array_def)
qed

theorem vapid_key_round_trip_witness:
  "urlBase64ToUint8Array ''-_8'' = Inr [251, 255]"
proof -
  have "btoa [251, 255] = ''+/8=''" by code_simp
  then show ?thesis using vapid_key_round_trip [of "[251, 255]"] by (simp add: url_safe_def)
qed


subsection \<open>Waiting for the token\<close>

text \<open>
  \<open>requestToken\<close>: two listeners are attached at once; the handle to remove each arrives by a promise of its own. The first of
  a registration, a registration error, a refused \<open>register()\<close> and the timeout settles the result, and \<open>finally\<close> removes the
  listeners whose handles have arrived by then.
\<close>

datatype token_event = HandleArrives nat | Registration string | RegistrationError string | RegisterRefused js_error | TimedOut

record token_wait =
  tw_result :: "(js_error + string) option"
  tw_handles :: "nat list"
  tw_attached :: "nat list"

definition token_start :: token_wait where
  "token_start = \<lparr>tw_result = None, tw_handles = [], tw_attached = [0, 1]\<rparr>"

definition token_settle :: "js_error + string \<Rightarrow> token_wait \<Rightarrow> token_wait" where
  "token_settle r s = (case tw_result s of Some _ \<Rightarrow> s
     | None \<Rightarrow> s\<lparr>tw_result := Some r, tw_attached := filter (\<lambda>l. l \<notin> set (tw_handles s)) (tw_attached s)\<rparr>)"

fun token_step :: "token_event \<Rightarrow> token_wait \<Rightarrow> token_wait" where
  "token_step (HandleArrives l) s = s\<lparr>tw_handles := tw_handles s @ [l]\<rparr>"
| "token_step (Registration token) s = token_settle (Inr token) s"
| "token_step (RegistrationError d) s = token_settle (Inl (JsError (''push: registration failed: '' @ d))) s"
| "token_step (RegisterRefused e) s = token_settle (Inl e) s"
| "token_step TimedOut s = token_settle (Inl (JsError ''push: registration timed out'')) s"

fun settles :: "token_event \<Rightarrow> bool" where
  "settles (HandleArrives l) = False"
| "settles _ = True"

lemma settled_stays: "tw_result s = Some r \<Longrightarrow> tw_result (fold token_step es s) = Some r"
proof (induction es arbitrary: s)
  case (Cons e es)
  have "tw_result (token_step e s) = Some r" using Cons.prems by (cases e) (simp_all add: token_settle_def)
  with Cons.IH show ?case by simp
qed simp

text \<open>It never waits for ever: once the timeout has fired there is a result, and it is the first one reported.\<close>

lemma token_settled_by_timeout: "TimedOut \<in> set es \<Longrightarrow> tw_result (fold token_step es s) \<noteq> None"
proof (induction es arbitrary: s)
  case (Cons e es)
  show ?case
  proof (cases "e = TimedOut")
    case True
    have "\<exists>r. tw_result (token_settle q s) = Some r" for q by (cases "tw_result s") (simp_all add: token_settle_def)
    then obtain r where "tw_result (token_settle (Inl (JsError ''push: registration timed out'')) s) = Some r" by blast
    from settled_stays [OF this] True show ?thesis by simp
  next
    case False with Cons show ?thesis by simp
  qed
qed simp

text \<open>Listeners are removed when their handles are there in time; one that arrives later stays attached for good.\<close>

lemma listeners_removed:
  "{0, 1} \<subseteq> set (tw_handles s) \<Longrightarrow> tw_result s = None \<Longrightarrow> set (tw_attached s) \<subseteq> {0, 1} \<Longrightarrow> tw_attached (token_settle r s) = []"
  by (auto simp: token_settle_def filter_empty_conv)

theorem late_handle_leaves_listener:
  "tw_attached (fold token_step [RegisterRefused e, HandleArrives 0, HandleArrives 1, Registration t, TimedOut] token_start) = [0, 1]"
  by (simp add: token_start_def token_settle_def)

subsection \<open>Taps and pushes on the screen\<close>

definition push_path :: "string option \<Rightarrow> string option" where
  "push_path url = (case url of None \<Rightarrow> None | Some u \<Rightarrow> if prefix ''/'' u \<and> \<not> prefix ''//'' u then Some u else None)"

text \<open>
  A URL reference that resolves to another host: for a web address the parser takes a backslash for a slash, so
  two of either in front name a host.
\<close>

fun names_host :: "string \<Rightarrow> bool" where
  "names_host (a # b # _) = (a \<in> {CHR ''/'', CHR 0x5C} \<and> b \<in> {CHR ''/'', CHR 0x5C})"
| "names_host _ = False"

lemma push_path_slashes: "push_path url = Some u \<Longrightarrow> \<not> prefix ''//'' u \<and> prefix ''/'' u"
  by (auto simp: push_path_def split: option.splits if_splits)

theorem backslash_passes: "push_path (Some (CHR ''/'' # CHR 0x5C # h)) = Some (CHR ''/'' # CHR 0x5C # h) \<and> names_host (CHR ''/'' # CHR 0x5C # h)"
  by (simp add: push_path_def)

definition call_push :: "string option \<Rightarrow> string option \<Rightarrow> (string \<times> string option) option" where
  "call_push kind callId = (case kind of Some k \<Rightarrow> if k \<noteq> ''call_invite'' \<and> k \<noteq> ''call_cancel'' then None else Some (k, callId) | None \<Rightarrow> None)"

definition PUSH_PREFIX :: string where
  "PUSH_PREFIX = ''announcement-''"

definition announcementPushTag :: "string \<Rightarrow> string" where
  "announcementPushTag i = PUSH_PREFIX @ i"

text \<open>The tags left on the screen; \<open>None\<close> when there is no worker to ask.\<close>

definition closeAnnouncementPush :: "string \<Rightarrow> string list option \<Rightarrow> string list option" where
  "closeAnnouncementPush i shown_tags = map_option (filter (\<lambda>tag. tag \<noteq> announcementPushTag i)) shown_tags"

definition closeWithdrawnAnnouncementPushes :: "string list \<Rightarrow> string list option \<Rightarrow> string list option" where
  "closeWithdrawnAnnouncementPushes current shown_tags =
     map_option (filter (\<lambda>tag. \<not> (prefix PUSH_PREFIX tag \<and> tag \<notin> set (map announcementPushTag current)))) shown_tags"

definition announcementIds :: "(string \<times> string option) list \<Rightarrow> string list" where
  "announcementIds ns = map (the \<circ> snd) (filter (\<lambda>(type, announcementId). type = ''announcement'' \<and> announcementId \<noteq> None) ns)"

text \<open>After the list is fetched the announcements shown are those still in it, and no other notification was touched.\<close>

lemma withdrawn_closed:
  "closeWithdrawnAnnouncementPushes current (Some tags) = Some tags' \<Longrightarrow>
   (announcementPushTag i \<in> set tags' \<longleftrightarrow> announcementPushTag i \<in> set tags \<and> i \<in> set current) \<and>
   filter (\<lambda>tag. \<not> prefix PUSH_PREFIX tag) tags' = filter (\<lambda>tag. \<not> prefix PUSH_PREFIX tag) tags"
  by (auto simp: closeWithdrawnAnnouncementPushes_def announcementPushTag_def intro: filter_cong)

end
