(* ===== verification/Hub.thy ===== *)
theory Hub
  imports Endpoints
begin

text \<open>
  The rooms of the hub: announcements (\<open>entities/announcement/queries.ts\<close>, \<open>features/announcements/AnnouncementsModal.tsx\<close>),
  feedback (\<open>entities/feedback/queries.ts\<close>, \<open>features/feedback/FeedbackModal.tsx\<close>), polls (\<open>features/voting/VotingModal.tsx\<close>) and
  the times offered for a message sent later (\<open>features/scheduled/SchedulePicker.tsx\<close>). What the server makes of an
  announcement's audience (\<open>backend/internal/announcements/announcements.go\<close>) is translated beside the form.
\<close>

subsection \<open>Announcements\<close>

definition ANNOUNCE_MAX_LEVEL :: int where "ANNOUNCE_MAX_LEVEL = 3"
definition TITLE_MAX :: nat where "TITLE_MAX = 100"
definition BODY_MAX :: nat where "BODY_MAX = 1000"

definition canAnnounce :: "int option \<Rightarrow> bool" where
  "canAnnounce roleLevel = (case roleLevel of None \<Rightarrow> False | Some l \<Rightarrow> l \<ge> 1 \<and> l \<le> ANNOUNCE_MAX_LEVEL)"

definition addressableLevels :: "int \<Rightarrow> int list" where
  "addressableLevels roleLevel = [roleLevel..10]"

definition canAddress :: "int \<Rightarrow> int option \<Rightarrow> bool" where
  "canAddress authorLevel targetLevel = (case targetLevel of None \<Rightarrow> True | Some t \<Rightarrow> t = 0 \<or> t \<ge> authorLevel)"

datatype audience = ToAll | ToBasic | ToLevels | ToUser

record announce_form =
  an_audience :: audience
  an_levels :: "int list"
  an_target :: "(string \<times> int option) option"
  an_title :: string
  an_body :: string

definition announce_open :: announce_form where
  "announce_open = \<lparr>an_audience = ToAll, an_levels = [], an_target = None, an_title = [], an_body = []\<rparr>"

definition announce_ready :: "announce_form \<Rightarrow> bool" where
  "announce_ready f \<longleftrightarrow> js_trim (an_title f) \<noteq> [] \<and> js_trim (an_body f) \<noteq> [] \<and>
     (an_audience f \<noteq> ToLevels \<or> an_levels f \<noteq> []) \<and> (an_audience f \<noteq> ToUser \<or> an_target f \<noteq> None)"

definition toggleLevel :: "int \<Rightarrow> announce_form \<Rightarrow> announce_form" where
  "toggleLevel l f = f\<lparr>an_levels := (if l \<in> set (an_levels f) then filter (\<lambda>x. x \<noteq> l) (an_levels f) else sort (an_levels f @ [l]))\<rparr>"

record announce_input =
  ai_audience :: audience
  ai_levels :: "int list option"
  ai_userId :: "string option"
  ai_title :: string
  ai_body :: string

definition announce_submit :: "bool \<Rightarrow> announce_form \<Rightarrow> announce_input option" where
  "announce_submit pending f = (if \<not> announce_ready f \<or> pending then None
     else Some \<lparr>ai_audience = an_audience f, ai_levels = (if an_audience f = ToLevels then Some (an_levels f) else None),
       ai_userId = (if an_audience f = ToUser then map_option fst (an_target f) else None),
       ai_title = js_trim (an_title f), ai_body = js_trim (an_body f)\<rparr>)"

definition announce_sent :: "announce_form \<Rightarrow> announce_form" where
  "announce_sent f = f\<lparr>an_title := [], an_body := [], an_target := None, an_levels := []\<rparr>"

datatype announce_event = AudiencePicked audience | LevelToggled int | PersonPicked "string \<times> int option" | PersonCleared
  | TitleTyped string | BodyTyped string | Sent

text \<open>Levels and people are offered by the rules above; the fields take no more characters than their limits.\<close>

fun announce_step :: "int \<Rightarrow> announce_event \<Rightarrow> announce_form \<Rightarrow> announce_form" where
  "announce_step me (AudiencePicked a) f = f\<lparr>an_audience := a\<rparr>"
| "announce_step me (LevelToggled l) f = (if an_audience f = ToLevels \<and> l \<in> set (addressableLevels me) then toggleLevel l f else f)"
| "announce_step me (PersonPicked p) f = (if an_audience f = ToUser \<and> an_target f = None \<and> canAddress me (snd p) then f\<lparr>an_target := Some p\<rparr> else f)"
| "announce_step me PersonCleared f = f\<lparr>an_target := None\<rparr>"
| "announce_step me (TitleTyped v) f = (if length v \<le> TITLE_MAX then f\<lparr>an_title := v\<rparr> else f)"
| "announce_step me (BodyTyped v) f = (if length v \<le> BODY_MAX then f\<lparr>an_body := v\<rparr> else f)"
| "announce_step me Sent f = announce_sent f"

text \<open>The server: \<open>normalize\<close> of an input, and that nobody above the author is addressed.\<close>

definition HasLevel :: "int \<Rightarrow> bool" where
  "HasLevel l \<longleftrightarrow> 1 \<le> l \<and> l \<le> 10"

definition server_takes_audience :: "int \<Rightarrow> (string \<Rightarrow> int option) \<Rightarrow> announce_input \<Rightarrow> bool" where
  "server_takes_audience me level_of i =
     (let ls = (case ai_levels i of Some ls \<Rightarrow> ls | None \<Rightarrow> []) in
      case ai_audience i of
        ToAll \<Rightarrow> ls = [] \<and> ai_userId i = None
      | ToBasic \<Rightarrow> ls = [] \<and> ai_userId i = None
      | ToLevels \<Rightarrow> ls \<noteq> [] \<and> ai_userId i = None \<and> list_all HasLevel ls \<and> list_all (\<lambda>l. l \<ge> me) ls
      | ToUser \<Rightarrow> ls = [] \<and> (case ai_userId i of None \<Rightarrow> False
          | Some u \<Rightarrow> (case level_of u of None \<Rightarrow> True | Some l \<Rightarrow> l \<ge> me)))"

definition announce_inv :: "int \<Rightarrow> announce_form \<Rightarrow> bool" where
  "announce_inv me f \<longleftrightarrow> sorted (an_levels f) \<and> distinct (an_levels f) \<and> set (an_levels f) \<subseteq> {me..10} \<and>
     (case an_target f of None \<Rightarrow> True | Some p \<Rightarrow> canAddress me (snd p)) \<and> length (an_title f) \<le> TITLE_MAX \<and> length (an_body f) \<le> BODY_MAX"

interpretation announcing: event_machine "announce_step me" "\<lambda>_. True" "announce_inv me" for me
proof
  fix s e
  assume "announce_inv me s"
  then show "announce_inv me (announce_step me e s)"
    by (cases e) (auto simp: announce_inv_def toggleLevel_def addressableLevels_def announce_sent_def sorted_filter [where f = id, simplified]
        split: option.splits)
qed

lemma js_trim_length: "length (js_trim s) \<le> length s"
proof -
  obtain a b where "s = a @ js_trim s @ b" using js_trim_inside by blast
  then have "length s = length a + length (js_trim s) + length b" by (metis add.assoc length_append)
  then show ?thesis by simp
qed

text \<open>
  C16. Whatever is done in the form of an announcement, by an author of a level from one to three, what it sends is what the
  server takes: a title and a text that are not blank and within their limits, and an audience of the right shape; the levels
  are real ones, each once and in order, and neither they nor the person named are above the author. The daily limit, blocks
  and a message to oneself are the server's to refuse.
\<close>

theorem announcement_is_taken:
  assumes "canAnnounce (Some me)"
    and "f = fold (announce_step me) es announce_open" and "announce_submit pending f = Some i"
    and "\<And>p. an_target f = Some p \<Longrightarrow> level_of (fst p) = (if snd p = Some 0 then None else snd p)"
  shows "server_takes_audience me level_of i \<and> ai_title i \<noteq> [] \<and> ai_body i \<noteq> [] \<and>
    length (ai_title i) \<le> TITLE_MAX \<and> length (ai_body i) \<le> BODY_MAX \<and>
    (\<forall>ls. ai_levels i = Some ls \<longrightarrow> sorted ls \<and> distinct ls)"
proof -
  have "announce_inv me announce_open" by (simp add: announce_inv_def announce_open_def)
  from announcing.run_inv [OF this, of es] have inv: "announce_inv me f" using assms(2) by (simp add: list.pred_True)
  have me: "1 \<le> me" using assms(1) by (simp add: canAnnounce_def)
  have i: "ai_title i = js_trim (an_title f)" "ai_body i = js_trim (an_body f)" "announce_ready f" "ai_audience i = an_audience f"
    "ai_levels i = (if an_audience f = ToLevels then Some (an_levels f) else None)"
    "ai_userId i = (if an_audience f = ToUser then map_option fst (an_target f) else None)"
    using assms(3) by (auto simp: announce_submit_def split: if_splits)
  have "list_all HasLevel (an_levels f)" "list_all (\<lambda>l. l \<ge> me) (an_levels f)"
    using inv me by (auto simp: announce_inv_def list_all_iff HasLevel_def)
  moreover have "case level_of (fst p) of None \<Rightarrow> True | Some l \<Rightarrow> l \<ge> me" if "an_target f = Some p" for p
    using inv assms(4) [OF that] that by (auto simp: announce_inv_def canAddress_def split: option.splits if_splits)
  ultimately have "server_takes_audience me level_of i"
    using i by (cases "an_audience f") (auto simp: server_takes_audience_def announce_ready_def Let_def split: option.splits)
  moreover have "length (ai_title i) \<le> TITLE_MAX" "length (ai_body i) \<le> BODY_MAX"
    using inv js_trim_length [of "an_title f"] js_trim_length [of "an_body f"] unfolding i by (auto simp: announce_inv_def)
  moreover have "ai_title i \<noteq> []" "ai_body i \<noteq> []" using i by (auto simp: announce_ready_def)
  ultimately show ?thesis using inv i by (auto simp: announce_inv_def split: if_splits)
qed


lemma blank_hi [simp]: "js_trim ''hi'' = ''hi''" by code_simp

theorem announcement_is_taken_witness:
  "\<exists>i. announce_submit False (fold (announce_step 2) [AudiencePicked ToLevels, LevelToggled 5, LevelToggled 3, LevelToggled 1, TitleTyped ''hi'', BodyTyped ''hi''] announce_open) = Some i \<and>
     ai_levels i = Some [3, 5] \<and> server_takes_audience 2 (\<lambda>_. None) i"
proof -
  let ?es = "[AudiencePicked ToLevels, LevelToggled 5, LevelToggled 3, LevelToggled 1, TitleTyped ''hi'', BodyTyped ''hi'']"
  let ?f = "fold (announce_step 2) ?es announce_open"
  have f: "?f = \<lparr>an_audience = ToLevels, an_levels = [3, 5], an_target = None, an_title = ''hi'', an_body = ''hi''\<rparr>"
    by (simp add: announce_open_def addressableLevels_def toggleLevel_def TITLE_MAX_def BODY_MAX_def)
  obtain i where i: "announce_submit False ?f = Some i" "ai_levels i = Some [3, 5]"
    unfolding f by (simp add: announce_submit_def announce_ready_def)
  have "canAnnounce (Some 2)" by (simp add: canAnnounce_def ANNOUNCE_MAX_LEVEL_def)
  from announcement_is_taken [OF this refl i(1), of "\<lambda>_. None"] f i show ?thesis by simp
qed

text \<open>The two client rules agree: a level is on the list exactly when a person of it may be addressed.\<close>

lemma addressable_levels_agree: "HasLevel l \<Longrightarrow> l \<in> set (addressableLevels me) \<longleftrightarrow> canAddress me (Some l)"
  by (auto simp: addressableLevels_def canAddress_def HasLevel_def)

subsection \<open>Feedback\<close>

definition FEEDBACK_STAFF_MAX_LEVEL :: int where "FEEDBACK_STAFF_MAX_LEVEL = 3"

definition canAnswerFeedback :: "int option \<Rightarrow> bool" where
  "canAnswerFeedback roleLevel = (case roleLevel of None \<Rightarrow> False | Some l \<Rightarrow> l \<ge> 1 \<and> l \<le> FEEDBACK_STAFF_MAX_LEVEL)"

definition FEEDBACK_WINDOW_MS :: int where "FEEDBACK_WINDOW_MS = 24 * 60 * 60 * 1000"

text \<open>The time of the newest entry in milliseconds, and now.\<close>

definition feedbackWait :: "int option \<Rightarrow> int \<Rightarrow> int" where
  "feedbackWait newest now = (case newest of None \<Rightarrow> 0 | Some t \<Rightarrow> max 0 (t + FEEDBACK_WINDOW_MS - now))"

definition waitText :: "int \<Rightarrow> ui_text" where
  "waitText ms = (let hours = (ms + 3599999) div 3600000 in
     if hours \<le> 1 then T ''hub.feedback.waitUnderHour'' [] else T ''hub.feedback.waitHours'' [(''count'', hours)])"

record ('a) feedback_page =
  fp_items :: "'a list"
  fp_nextCursor :: "string option"
  fp_hasMore :: bool

definition flattenFeedback :: "'a feedback_page list option \<Rightarrow> 'a list" where
  "flattenFeedback pages = (case pages of None \<Rightarrow> [] | Some ps \<Rightarrow> concat (map fp_items ps))"

definition feedback_next :: "'a feedback_page \<Rightarrow> string option" where
  "feedback_next p = (if fp_hasMore p then fp_nextCursor p else None)"

definition feedback_scope :: "int option \<Rightarrow> bool \<Rightarrow> string" where
  "feedback_scope level inbox_tab = (if canAnswerFeedback level \<and> inbox_tab then ''inbox'' else ''mine'')"

definition feedback_submit :: "int \<Rightarrow> string \<Rightarrow> api_call option" where
  "feedback_submit wait body = (if wait > 0 \<or> js_trim body = [] then None else Some (feedbackApi_create (js_trim body)))"

definition feedback_answer :: "string \<Rightarrow> string \<Rightarrow> api_call option" where
  "feedback_answer i body = (if js_trim body = [] then None else Some (feedbackApi_reply i (js_trim body)))"

text \<open>The wait ends exactly a day after the newest entry and the hours shown never fall short of it.\<close>

lemma wait_is_a_day: "feedbackWait (Some t) now = 0 \<longleftrightarrow> now \<ge> t + FEEDBACK_WINDOW_MS"
  by (auto simp: feedbackWait_def)

lemma hours_cover_wait:
  "waitText ms = T ''hub.feedback.waitHours'' [(''count'', h)] \<Longrightarrow> ms \<le> h * 3600000 \<and> h * 3600000 < ms + 3600000"
  by (auto simp: waitText_def Let_def split: if_splits)

subsection \<open>Polls\<close>

record poll_form =
  pf_open :: bool
  pf_question :: string
  pf_options :: "string list"

definition poll_reset :: poll_form where
  "poll_reset = \<lparr>pf_open = False, pf_question = [], pf_options = [[], []]\<rparr>"

definition setOption :: "nat \<Rightarrow> string \<Rightarrow> poll_form \<Rightarrow> poll_form" where
  "setOption i v f = f\<lparr>pf_options := (pf_options f)[i := v]\<rparr>"

definition addOption :: "poll_form \<Rightarrow> poll_form" where
  "addOption f = f\<lparr>pf_options := (if length (pf_options f) \<ge> 10 then pf_options f else pf_options f @ [[]])\<rparr>"

definition removeOption :: "nat \<Rightarrow> poll_form \<Rightarrow> poll_form" where
  "removeOption i f = f\<lparr>pf_options := (if length (pf_options f) \<le> 2 then pf_options f
     else take i (pf_options f) @ drop (Suc i) (pf_options f))\<rparr>"

definition poll_submit :: "poll_form \<Rightarrow> ui_text + api_call" where
  "poll_submit f = (let q = js_trim (pf_question f); opts = filter (\<lambda>o1. o1 \<noteq> []) (map js_trim (pf_options f)) in
     if q = [] then Inl (T ''work.poll.enterQuestion'' [])
     else if length opts < 2 then Inl (T ''work.poll.minTwoOptions'' [])
     else Inr (pollsApi_create q opts))"

definition poll_vote :: "bool \<Rightarrow> string option \<Rightarrow> string \<Rightarrow> api_call option" where
  "poll_vote closed myOptionId optionId = (if closed \<or> Some optionId = myOptionId then None else Some (pollsApi_vote optionId))"

text \<open>\<open>Math.round(votes / totalVotes * 100)\<close>\<close>

definition poll_pct :: "nat \<Rightarrow> nat \<Rightarrow> nat" where
  "poll_pct vs totalVotes = (if totalVotes > 0 then (200 * vs + totalVotes) div (2 * totalVotes) else 0)"

datatype poll_event = OptionTyped nat string | OptionAdded | OptionRemoved nat | QuestionTyped string | PollReset

fun poll_step :: "poll_event \<Rightarrow> poll_form \<Rightarrow> poll_form" where
  "poll_step (OptionTyped i v) f = setOption i v f"
| "poll_step OptionAdded f = addOption f"
| "poll_step (OptionRemoved i) f = removeOption i f"
| "poll_step (QuestionTyped v) f = f\<lparr>pf_question := v\<rparr>"
| "poll_step PollReset f = poll_reset"

interpretation polls: event_machine poll_step "\<lambda>_. True" "\<lambda>f. 2 \<le> length (pf_options f) \<and> length (pf_options f) \<le> 10"
proof
  fix s :: poll_form and e
  assume "2 \<le> length (pf_options s) \<and> length (pf_options s) \<le> 10"
  then show "2 \<le> length (pf_options (poll_step e s)) \<and> length (pf_options (poll_step e s)) \<le> 10"
    by (cases e) (auto simp: setOption_def addOption_def removeOption_def poll_reset_def)
qed

lemma poll_has_options: "2 \<le> length (pf_options (fold poll_step es poll_reset)) \<and> length (pf_options (fold poll_step es poll_reset)) \<le> 10"
  by (rule polls.run_inv) (simp_all add: poll_reset_def list.pred_True)

lemma poll_pct_bounded: "vs \<le> totalVotes \<Longrightarrow> poll_pct vs totalVotes \<le> 100"
proof (cases "totalVotes = 0")
  case False
  assume "vs \<le> totalVotes"
  then have "(200 * vs + totalVotes) div (2 * totalVotes) \<le> (201 * totalVotes) div (2 * totalVotes)" by (intro div_le_mono) simp
  also have "\<dots> = 100" using False by (simp add: div_mult2_eq [symmetric] mult.commute)
  finally show ?thesis by (simp add: poll_pct_def)
qed (simp add: poll_pct_def)

subsection \<open>A message for later\<close>

text \<open>Times are milliseconds; the hour of the day and its day are the clock's.\<close>

definition sched_pick :: "int \<Rightarrow> int \<Rightarrow> int option" where
  "sched_pick now d = (if d < now + 10000 then None else Some d)"

definition inAnHour :: "int \<Rightarrow> int" where "inAnHour now = now + 60 * 60 * 1000"

definition customValid :: "int \<Rightarrow> int option \<Rightarrow> bool" where
  "customValid now custom = (case custom of None \<Rightarrow> False | Some d \<Rightarrow> d > now + 10000)"

text \<open>In a zone without a change of clocks: \<open>midnight\<close> is the start of the day \<open>now\<close> falls on.\<close>

definition DAY_MS :: int where "DAY_MS = 24 * 60 * 60 * 1000"

definition presetTonight :: "int \<Rightarrow> int \<Rightarrow> int" where
  "presetTonight midnight now = (let d = midnight + 20 * 60 * 60 * 1000 in if d \<le> now then d + DAY_MS else d)"

definition presetTomorrowMorning :: "int \<Rightarrow> int" where
  "presetTomorrowMorning midnight = midnight + DAY_MS + 9 * 60 * 60 * 1000"

text \<open>Every preset is ahead of now, and within two days; only the last ten seconds before eight in the evening are refused.\<close>

lemma presets_ahead:
  assumes "midnight \<le> now" and "now < midnight + DAY_MS"
  shows "now < presetTonight midnight now \<and> presetTonight midnight now \<le> now + DAY_MS"
    and "now + 9 * 60 * 60 * 1000 < presetTomorrowMorning midnight"
    and "sched_pick now (presetTonight midnight now) = None \<longleftrightarrow>
      midnight + 20 * 60 * 60 * 1000 - 10000 < now \<and> now < midnight + 20 * 60 * 60 * 1000"
  using assms by (auto simp: presetTonight_def presetTomorrowMorning_def DAY_MS_def sched_pick_def Let_def)

end
