(* ===== verification/Calendar.thy ===== *)
theory Calendar
  imports Group_Roles
begin

text \<open>
  The calendar of a group: \<open>widgets/calendar/CalendarView.tsx\<close>. A date is the number of its day, counted from 1 January 1970 as
  the language counts it (\<open>MakeDay\<close>, \<open>YearFromTime\<close>, \<open>WeekDay\<close> of its standard); the local day of a time stamp and the reading
  of a date field are parameters.
\<close>

subsection \<open>Days and dates\<close>

definition DayFromYear :: "int \<Rightarrow> int" where
  "DayFromYear y = 365 * (y - 1970) + (y - 1969) div 4 - (y - 1901) div 100 + (y - 1601) div 400"

definition leap :: "int \<Rightarrow> bool" where
  "leap y \<longleftrightarrow> 4 dvd y \<and> (\<not> 100 dvd y \<or> 400 dvd y)"

definition month_len :: "bool \<Rightarrow> nat \<Rightarrow> int" where
  "month_len lp m = [31, if lp then 29 else 28, 31, 30, 31, 30, 31, 31, 30, 31, 30, 31] ! m"

definition month_start :: "bool \<Rightarrow> nat \<Rightarrow> int" where
  "month_start lp m = sum_list (map (month_len lp) [0..<m])"

definition MakeDay :: "int \<Rightarrow> int \<Rightarrow> int \<Rightarrow> int" where
  "MakeDay year month date = (let y = year + month div 12; m = nat (month mod 12) in DayFromYear y + month_start (leap y) m + date - 1)"

lemma div_step:
  fixes k m :: int
  assumes "m > 0"
  shows "(k + 1) div m = k div m + of_bool (m dvd k + 1)"
proof (cases "k mod m + 1 < m")
  case True
  have e: "k + 1 = m * (k div m) + (k mod m + 1)" by simp
  have "0 \<le> k mod m + 1" using assms by (simp add: add_nonneg_nonneg)
  then have "(k + 1) div m = k div m" "(k + 1) mod m = k mod m + 1"
    using int_div_pos_eq [OF e] int_mod_pos_eq [OF e] True by auto
  moreover have "k mod m + 1 \<noteq> 0" using pos_mod_sign [OF assms, of k] by linarith
  ultimately show ?thesis by (simp add: dvd_eq_mod_eq_0)
next
  case False
  then have r: "k mod m + 1 = m" using pos_mod_bound [OF assms, of k] by linarith
  have "m * (k div m) + k mod m = k" by simp
  then have e: "k + 1 = m * (k div m + 1) + 0" using r unfolding distrib_left by linarith
  then have "(k + 1) div m = k div m + 1" using int_div_pos_eq [OF e] assms by simp
  moreover have "m dvd k + 1" using e by simp
  ultimately show ?thesis by simp
qed

lemma year_length: "DayFromYear (y + 1) = DayFromYear y + 365 + of_bool (leap y)"
proof -
  have "(4 dvd y - 1968) = (4 dvd y)" "(100 dvd y - 1900) = (100 dvd y)" "(400 dvd y - 1600) = (400 dvd y)"
    using dvd_add_left_iff [of 4 "-1968" y] dvd_add_left_iff [of 100 "-1900" y] dvd_add_left_iff [of 400 "-1600" y] by simp_all
  moreover have "100 dvd y \<Longrightarrow> 4 dvd y" "400 dvd y \<Longrightarrow> 100 dvd y"
    using dvd_trans [of 4 100 y] dvd_trans [of 100 400 y] by simp_all
  ultimately have ds: "(y - 1968) div 4 = (y - 1969) div 4 + of_bool (4 dvd y)"
    "(y - 1900) div 100 = (y - 1901) div 100 + of_bool (100 dvd y)" "(y - 1600) div 400 = (y - 1601) div 400 + of_bool (400 dvd y)"
    and nest: "100 dvd y \<Longrightarrow> 4 dvd y" "400 dvd y \<Longrightarrow> 100 dvd y"
    using div_step [of 4 "y - 1969"] div_step [of 100 "y - 1901"] div_step [of 400 "y - 1601"] by simp_all
  have "y + 1 - 1969 = y - 1968" "y + 1 - 1901 = y - 1900" "y + 1 - 1601 = y - 1600" by simp_all
  then have "DayFromYear (y + 1) = DayFromYear y + 365 + of_bool (4 dvd y) - of_bool (100 dvd y) + of_bool (400 dvd y)"
    unfolding DayFromYear_def ds by (simp only: ds) (simp add: algebra_simps)
  also have "\<dots> = DayFromYear y + 365 + of_bool (leap y)"
    using nest unfolding leap_def by (cases "4 dvd y"; cases "100 dvd y"; cases "400 dvd y") simp_all
  finally show ?thesis .
qed


lemma year_longer: "DayFromYear y + 365 \<le> DayFromYear (y + 1) \<and> DayFromYear (y + 1) \<le> DayFromYear y + 366"
  by (simp add: year_length)

text \<open>\<open>YearFromTime\<close>: the last year that starts on or before the day.\<close>

function year_up :: "int \<Rightarrow> int \<Rightarrow> int" where
  "year_up n y = (if DayFromYear (y + 1) \<le> n then year_up n (y + 1) else y)"
  by pat_completeness auto
termination
proof (relation "measure (\<lambda>(n, y). nat (n - DayFromYear y))")
  fix n y
  assume "DayFromYear (y + 1) \<le> n"
  then show "((n, y + 1), (n, y)) \<in> measure (\<lambda>(n, y). nat (n - DayFromYear y))" using year_longer [of y] by simp
qed simp

declare year_up.simps [simp del]

definition YearFromDay :: "int \<Rightarrow> int" where
  "YearFromDay n = year_up n (1970 + (if n \<ge> 0 then n div 366 else n div 365))"

lemma year_up_bounds: "n < DayFromYear (year_up n y + 1) \<and> (DayFromYear y \<le> n \<longrightarrow> DayFromYear (year_up n y) \<le> n)"
proof (induction n y rule: year_up.induct)
  case (1 n y)
  then show ?case by (subst (1 2) year_up.simps) auto
qed

lemma year_floor: "DayFromYear (1970 + int k) \<le> 366 * int k" "DayFromYear (1970 - int k) \<le> - 365 * int k"
proof (induction k)
  case 0
  { case 1 show ?case by (simp add: DayFromYear_def) }
  { case 2 show ?case by (simp add: DayFromYear_def) }
next
  case (Suc k)
  { case 1 show ?case using Suc(1) year_longer [of "1970 + int k"] by (simp add: algebra_simps) }
  { case 2 show ?case using Suc(2) year_longer [of "1970 - int (Suc k)"] by (simp add: algebra_simps) }
qed

lemma YearFromDay_bounds: "DayFromYear (YearFromDay n) \<le> n \<and> n < DayFromYear (YearFromDay n + 1)"
proof -
  have "DayFromYear (1970 + (if n \<ge> 0 then n div 366 else n div 365)) \<le> n"
  proof (cases "n \<ge> 0")
    case True
    then have "int (nat (n div 366)) = n div 366" by (simp add: pos_imp_zdiv_nonneg_iff)
    moreover have "366 * (n div 366) \<le> n" using div_mult_mod_eq [of n 366] pos_mod_sign [of 366 n] by linarith
    ultimately show ?thesis using year_floor(1) [of "nat (n div 366)"] True by simp
  next
    case False
    then have "n div 365 < 0" by (simp add: neg_imp_zdiv_neg_iff)
    then have "int (nat (- (n div 365))) = - (n div 365)" by simp
    moreover have "365 * (n div 365) \<le> n" using div_mult_mod_eq [of n 365] pos_mod_sign [of 365 n] by linarith
    ultimately show ?thesis using year_floor(2) [of "nat (- (n div 365))"] False by simp
  qed
  then show ?thesis using year_up_bounds [of n] by (simp add: YearFromDay_def)
qed

lemma year_mono: "y < z \<Longrightarrow> DayFromYear (y + 1) \<le> DayFromYear z"
proof -
  have "DayFromYear (y + 1) \<le> DayFromYear (y + 1 + int k)" for k
  proof (induction k)
    case (Suc k) then show ?case using year_longer [of "y + 1 + int k"] by (simp add: algebra_simps)
  qed simp
  from this [of "nat (z - (y + 1))"] show "y < z \<Longrightarrow> ?thesis" by simp
qed

lemma YearFromDay_unique: "DayFromYear y \<le> n \<Longrightarrow> n < DayFromYear (y + 1) \<Longrightarrow> YearFromDay n = y"
  using YearFromDay_bounds [of n] year_mono [of y "YearFromDay n"] year_mono [of "YearFromDay n" y] by linarith

definition month_of :: "bool \<Rightarrow> int \<Rightarrow> nat" where
  "month_of lp d = length (takeWhile (\<lambda>m. month_start lp (Suc m) \<le> d) [0..<11])"

text \<open>\<open>getFullYear\<close>, \<open>getMonth\<close> and \<open>getDate\<close> of a day.\<close>

definition civil :: "int \<Rightarrow> int \<times> int \<times> int" where
  "civil n = (let y = YearFromDay n; d = n - DayFromYear y; m = month_of (leap y) d in (y, int m, d - month_start (leap y) m + 1))"

lemma month_of_12: "month_of lp d < 12"
  unfolding month_of_def using length_takeWhile_le [of "\<lambda>m. month_start lp (Suc m) \<le> d" "[0..<11]"] by simp

text \<open>A day made from the parts of a day is that day, and parts added to its date move it by as much.\<close>

lemma MakeDay_civil: "civil n = (y, m, d) \<Longrightarrow> MakeDay y m (d + i) = n + i"
  using month_of_12 by (auto simp: civil_def Let_def MakeDay_def)


lemma month_of_start: "m < 12 \<Longrightarrow> month_of lp (month_start lp m) = m \<and> 0 \<le> month_start lp m \<and> month_start lp m < 365"
proof -
  assume "m < 12"
  then have "m \<in> set [0..<12]" by simp
  moreover have "\<forall>lp\<in>{True, False}. \<forall>m\<in>set [0..<12]. month_of lp (month_start lp m) = m \<and> 0 \<le> month_start lp m \<and> month_start lp m < 365"
    by code_simp
  ultimately show ?thesis by (cases lp) blast+
qed

lemma civil_first: "civil (MakeDay y m 1) = (y + m div 12, m mod 12, 1)"
proof -
  let ?y = "y + m div 12" and ?m = "nat (m mod 12)"
  have m: "?m < 12" "int ?m = m mod 12" by (simp_all add: nat_less_iff)
  note ms = month_of_start [OF m(1), of "leap ?y"]
  have d: "MakeDay y m 1 = DayFromYear ?y + month_start (leap ?y) ?m" by (simp add: MakeDay_def Let_def)
  then have "YearFromDay (MakeDay y m 1) = ?y" using ms year_longer [of ?y] by (intro YearFromDay_unique) auto
  then show ?thesis using ms m by (simp add: civil_def Let_def d)
qed

subsection \<open>The grid\<close>

definition WeekDay :: "int \<Rightarrow> int" where
  "WeekDay n = (n + 4) mod 7"

definition monthGrid :: "int \<Rightarrow> int \<Rightarrow> int list" where
  "monthGrid year month =
     (let first = MakeDay year month 1; offset = (WeekDay first + 6) mod 7; start = MakeDay year month (1 - offset) in
      case civil start of (y, m, d) \<Rightarrow> map (\<lambda>i. MakeDay y m (d + int i)) [0..<42])"

definition days_in_month :: "int \<Rightarrow> int \<Rightarrow> int" where
  "days_in_month year month = (let y = year + month div 12 in month_len (leap y) (nat (month mod 12)))"

lemma monthGrid_days:
  "monthGrid year month = map (\<lambda>i. MakeDay year month 1 - (WeekDay (MakeDay year month 1) + 6) mod 7 + int i) [0..<42]"
proof -
  let ?s = "MakeDay year month (1 - (WeekDay (MakeDay year month 1) + 6) mod 7)"
  obtain y m d where c: "civil ?s = (y, m, d)" by (cases "civil ?s") auto
  have "?s = MakeDay year month 1 - (WeekDay (MakeDay year month 1) + 6) mod 7" by (simp add: MakeDay_def Let_def)
  then have "MakeDay y m (d + int i) = MakeDay year month 1 - (WeekDay (MakeDay year month 1) + 6) mod 7 + int i" for i
    using MakeDay_civil [OF c, of "int i"] by simp
  moreover have "monthGrid year month = map (\<lambda>i. MakeDay y m (d + int i)) [0..<42]"
    unfolding monthGrid_def Let_def c by simp
  ultimately show ?thesis by simp
qed

lemma month_len_le: "m < 12 \<Longrightarrow> month_len lp m \<le> 31"
proof -
  assume "m < 12"
  then have "m \<in> set [0..<12]" by simp
  moreover have "\<forall>lp\<in>{True, False}. \<forall>m\<in>set [0..<12]. month_len lp m \<le> 31" by code_simp
  ultimately show ?thesis by (cases lp) blast+
qed



subsection \<open>Turning the pages\<close>

definition cal_shift :: "int \<Rightarrow> int \<times> int \<Rightarrow> int \<times> int" where
  "cal_shift delta cursor = (case civil (MakeDay (fst cursor) (snd cursor + delta) 1) of (y, m, d) \<Rightarrow> (y, m))"

definition onTouchEnd :: "int option \<Rightarrow> int \<Rightarrow> int \<times> int \<Rightarrow> int \<times> int" where
  "onTouchEnd touchX x cursor = (case touchX of None \<Rightarrow> cursor
     | Some x0 \<Rightarrow> let dx = x - x0 in if \<bar>dx\<bar> > 50 then cal_shift (if dx < 0 then 1 else -1) cursor else cursor)"

lemma cal_shift_sum: "0 \<le> m \<Longrightarrow> m < 12 \<Longrightarrow> cal_shift b (cal_shift a (y, m)) = cal_shift (a + b) (y, m)"
proof -
  have "y + (m + a) div 12 + ((m + a) mod 12 + b) div 12 = y + (m + (a + b)) div 12"
    using div_mult_self2 [of 12 "(m + a) mod 12 + b" "(m + a) div 12"] mult_div_mod_eq [of 12 "m + a"]
    by (simp add: algebra_simps)
  moreover have "((m + a) mod 12 + b) mod 12 = (m + (a + b)) mod 12" by (simp add: mod_add_left_eq add.assoc)
  ultimately show ?thesis by (simp add: cal_shift_def civil_first)
qed

text \<open>Forward and back again is the month one started from.\<close>

lemma cal_shift_back: "0 \<le> m \<Longrightarrow> m < 12 \<Longrightarrow> cal_shift (-1) (cal_shift 1 (y, m)) = (y, m)"
  by (simp add: cal_shift_sum) (simp add: cal_shift_def civil_first)

subsection \<open>What stands in a cell, and the form of an event\<close>

record cal_event =
  ce_id :: string
  ce_groupId :: string
  ce_title :: string
  ce_startsAt :: string
  ce_endsAt :: "string option"
  ce_color :: string
  ce_createdBy :: string

record cal_card =
  cc_cardId :: string
  cc_title :: string
  cc_dueDate :: string
  cc_columnId :: string

text \<open>The text of a day (\<open>ymd\<close>) stands for its date; \<open>day_of\<close> is the local date of a time stamp.\<close>

definition byDay :: "(string \<Rightarrow> int) \<Rightarrow> cal_event list \<Rightarrow> cal_card list \<Rightarrow> int \<Rightarrow> cal_event list \<times> cal_card list" where
  "byDay day_of events cards d = (filter (\<lambda>e. day_of (ce_startsAt e) = d) events, filter (\<lambda>c. day_of (cc_dueDate c) = d) cards)"

definition cal_canEdit :: "user \<Rightarrow> group_info \<Rightarrow> cal_event \<Rightarrow> bool" where
  "cal_canEdit me g e \<longleftrightarrow> ce_createdBy e = u_id me \<or> u_roleLevel me = Some 1 \<or> u_id me = g_createdBy g"

text \<open>\<open>parse\<close> is \<open>new Date(field)\<close>, \<open>None\<close> for an invalid date, whose \<open>toISOString\<close> throws.\<close>

definition toISOString :: "(int \<Rightarrow> string) \<Rightarrow> int option \<Rightarrow> js_error + string" where
  "toISOString iso_text t = (case t of None \<Rightarrow> Inl (JsError ''RangeError: Invalid time value'') | Some t \<Rightarrow> Inr (iso_text t))"

datatype event_outcome = Refused ui_text | Threw js_error | Submitted string string "string option" string

definition event_submit :: "(string \<Rightarrow> int option) \<Rightarrow> (int \<Rightarrow> string) \<Rightarrow> string \<Rightarrow> string \<Rightarrow> string \<Rightarrow> string \<Rightarrow> event_outcome" where
  "event_submit parse iso_text nm startsAt endsAt color =
     (if js_trim nm = [] then Refused (T ''work.calendar.enterTitle'' [])
      else if endsAt \<noteq> [] \<and> (case (parse endsAt, parse startsAt) of (Some e, Some b) \<Rightarrow> e < b | _ \<Rightarrow> False)
        then Refused (T ''work.calendar.endBeforeStart'' [])
      else case toISOString iso_text (parse startsAt) of Inl e \<Rightarrow> Threw e
        | Inr s \<Rightarrow> (if endsAt = [] then Submitted (js_trim nm) s None color
            else case toISOString iso_text (parse endsAt) of Inl e \<Rightarrow> Threw e | Inr t \<Rightarrow> Submitted (js_trim nm) s (Some t) color))"

text \<open>An event that is sent does not end before it starts; saving with the start cleared throws and says nothing.\<close>

lemma submitted_in_order:
  "event_submit parse iso_text nm startsAt endsAt color = Submitted n s (Some t) c \<Longrightarrow>
   \<exists>b e. parse startsAt = Some b \<and> parse endsAt = Some e \<and> b \<le> e \<and> s = iso_text b \<and> t = iso_text e"
  by (auto simp: event_submit_def toISOString_def split: if_splits option.splits sum.splits)

theorem cleared_start_throws:
  "js_trim nm \<noteq> [] \<Longrightarrow> parse [] = None \<Longrightarrow> event_submit parse iso_text nm [] endsAt color = Threw (JsError ''RangeError: Invalid time value'')"
  by (auto simp: event_submit_def toISOString_def split: option.splits)

end
