(* ===== verification/Spec2Isabelle.thy ===== *)
theory Spec2Isabelle
  imports Message_Send Chat_Lock Auth_Store Ws_Client Realtime Call_Media Upload Rating
    Board Endpoints Voice_Player Voice_Recorder Rich_Text Conversation Text_Rules App_Shell
    Media_Viewer Composer Back_Stack Feed Chat_List I18n
    Avatar_Crop Push Hub Calendar
begin

text \<open>
  Kisy is a messenger with end-to-end encrypted private chats, groups, calls and a work board. This
  development models the logic of its client, the TypeScript under \<open>src/frontend/src\<close>.

  \<^bold>\<open>The parts and how they meet.\<close> Every request goes through \<open>shared/api/client.ts\<close>, which holds the
  access and refresh tokens in the packaged app and renews them when the server answers 401.
  \<open>shared/store/auth.ts\<close> restores, opens and closes the session on top of it. A WebSocket
  (\<open>shared/ws/client.ts\<close>) brings server events, which \<open>app/useRealtime.ts\<close> writes into the query cache
  and the stores. A private message is encrypted with MLS: \<open>shared/crypto\<close> keeps the device's identity,
  the key packages and the group states in an encrypted IndexedDB, \<open>entities/e2ee/session.ts\<close> brings the
  account's session up, \<open>entities/e2ee/chats.ts\<close> opens, joins, extends and reads the groups of the chats, and
  \<open>entities/message\<close> sends, schedules, edits, forwards and shows messages through them. Calls
  (\<open>features/call/useCall.ts\<close>) signal over the WebSocket.

  \<^bold>\<open>Conventions.\<close> \<open>Kisy_Prelude\<close> has the monad \<open>io\<close> of stateful code that may throw, with the loops
  \<open>io_for\<close>, \<open>try/catch\<close> as \<open>io_catch\<close>, JavaScript maps in insertion order, and the frame locale \<open>io_frame\<close>: a
  property of the state kept by the steps of a program is kept by the program. Errors are values of
  \<open>js_error\<close>. Code outside the repository (the MLS library, WebCrypto, IndexedDB, \<open>fetch\<close>, the server) is a
  record of functions over an outside state, given to every definition that uses it; what a theorem
  needs of it is a named hypothesis, and its witness instantiates it by the concrete \<open>sample_platform\<close>.
  Code whose awaits may interleave (the bring-up of the session, the chat lock, the refresh, the socket,
  the calls) is a step function on a state with pending tasks, and theorems quantify over all lists of
  events.

  \<^bold>\<open>Theories.\<close>

  \<^item> \<open>Api_Types\<close>, \<open>Api_Envelope\<close>, \<open>Json\<close>: the records of \<open>shared/api/types.ts\<close>, the response envelope
    and \<open>ApiError\<close>, and the part of JSON the client stores, with its round trip.
  \<^item> \<open>Keystore\<close>: \<open>shared/crypto/keystore.ts\<close>. The contract of a store is the locale \<open>key_store\<close>; the memory
    store and the encrypted IndexedDB store both interpret it, and the second refines the first.
  \<^item> \<open>Device_Identity\<close>, \<open>Mls_Wrapper\<close>: \<open>identity.ts\<close>, \<open>fingerprint.ts\<close>, \<open>mls.ts\<close>. The identity of a device survives
    restarts, and both sides of a chat compute the same safety number.
  \<^item> \<open>E2ee_World\<close>, \<open>Sample_Platform\<close>, \<open>E2ee_Session\<close>, \<open>E2ee_Init\<close>: the state shared by the encryption
    code and \<open>session.ts\<close>; key packages, their top-up, and \<open>initE2EE\<close> under every interleaving of its callers.
  \<^item> \<open>E2ee_Cache\<close>, \<open>E2ee_Group\<close>, \<open>E2ee_Chats\<close>, \<open>E2ee_Fork\<close>, \<open>E2ee_Reading\<close>, \<open>E2ee_Frame\<close>: \<open>chats.ts\<close>. The cache
    of decrypted texts and its expiry; creating, joining, extending and repairing a chat's group; that
    memory and disk never disagree and a state moves ahead of the server's only by an accepted commit;
    catching up with missed messages; what the operations may touch at all.
  \<^item> \<open>Message_Send\<close>, \<open>Message_Cache\<close>: \<open>encryption.ts\<close>, \<open>queries.ts\<close>, \<open>scheduled.ts\<close>, \<open>permissions.ts\<close>. No readable text of a
    private chat is ever in a request, errors included; a message is shown once, with its text.
  \<^item> \<open>Chat_Lock\<close>: \<open>withChatLock\<close> as an inductive step relation over promise chains.
  \<^item> \<open>Http_Client\<close>, \<open>Auth_Store\<close>: \<open>client.ts\<close>, \<open>native.ts\<close>, \<open>auth.ts\<close>, \<open>consent.ts\<close>, the sign-out of
    \<open>nativePush.ts\<close>. Renewal happens once and is shared, only a refusal signs out, and a page belongs to one
    account.
  \<^item> \<open>Ws_Client\<close>, \<open>Client_Stores\<close>, \<open>Realtime\<close>: \<open>ws/client.ts\<close>, the stores of presence, typing, receipts and
    drafts, \<open>useRealtime.ts\<close>. The order of frames, the schedule of retries, and what each server event does.
  \<^item> \<open>Call_Session\<close>, \<open>Call_Safety\<close>, \<open>Call_Media\<close>: \<open>useCall.ts\<close>. Candidates, microphones and connections
    over every history of actions, events, timers and settled awaits.
  \<^item> \<open>Upload\<close>, \<open>Rating\<close>: \<open>entities/attachment/upload.ts\<close> and \<open>entities/rating/model.ts\<close>.
  \<^item> \<open>Uri\<close>, \<open>Endpoints\<close>: every request of \<open>shared/api/endpoints.ts\<close> as a path, a method, headers and a body;
    queries read back as they were asked, and which requests cannot renew their session.
  \<^item> \<open>Board\<close>: \<open>widgets/board/useCardDrag.ts\<close> and the optimistic move of \<open>BoardView.tsx\<close>.
  \<^item> \<open>Media_Src\<close>, \<open>Voice_Player\<close>, \<open>Waveform\<close>, \<open>Voice_Recorder\<close>: \<open>shared/lib/mediaSrc.ts\<close> and
    \<open>features/voice-message\<close>. Object URLs and microphones over every history of renders, fetches and presses;
    what the player remembers; the peak envelope and its base64 form.
  \<^item> \<open>Rich_Text\<close>, \<open>Conversation\<close>: \<open>shared/lib/richText.tsx\<close> and \<open>widgets/conversation\<close>. What a message is drawn as, with
    nothing lost and only \<open>http\<close> links; the handlers of an open chat, what a send shows until it is answered, and which
    links are previewed.
  \<^item> \<open>Composer\<close>: \<open>widgets/conversation/Composer.tsx\<close>. The draft of a chat follows its field, nothing empty is sent, a typing
    signal is taken back.
  \<^item> \<open>Back_Stack\<close>: \<open>shared/lib/backStack.ts\<close> and \<open>nativeBack.ts\<close>. The locale \<open>overlay_stack\<close> is the contract of the stack; over
    every history it refines the plain list of open overlays.
  \<^item> \<open>Feed\<close>: \<open>entities/post/queries.ts\<close>, \<open>PostComposer.tsx\<close>, \<open>PostCard.tsx\<close>. The reactions shown refine the rows the server keeps; what
    publishing a post with files sends, and sends again.
  \<^item> \<open>Group_Roles\<close>: \<open>GroupMembersModal.tsx\<close>, \<open>GroupView.tsx\<close>, \<open>NewGroupModal.tsx\<close>, \<open>entities/group/queries.ts\<close>, and the server's rules of
    \<open>backend/internal/groups/service.go\<close>: the modal offers what the server allows.
  \<^item> \<open>Chat_List\<close>: \<open>widgets/chat-list\<close>, \<open>entities/chat-folders\<close>, \<open>features/chat-folders\<close>. Every chat has its place in list or archive.
  \<^item> \<open>Avatar_Crop\<close>, \<open>Calendar\<close>: \<open>AvatarCropper.tsx\<close> and \<open>CalendarView.tsx\<close>. The square cut out lies inside the picture; the month's grid,
    on the day arithmetic of the language, has every day of it.
  \<^item> \<open>Push\<close>: \<open>shared/lib/push.ts\<close>, \<open>nativePush.ts\<close>, \<open>shownNotifications.ts\<close>. Which token is kept, what a tap may open, and the
    server's key read back.
  \<^item> \<open>Hub\<close>: announcements, feedback, polls and the times of a later message. The form of an announcement sends only what the
    server takes.
  \<^item> \<open>I18n\<close>: \<open>shared/i18n\<close>. The language chosen, and texts with their placeholders.
  \<^item> \<open>Text_Rules\<close>: the rules for names, passwords and amounts and the labels of \<open>shared/lib\<close>.
  \<^item> \<open>App_Shell\<close>: \<open>app/router.tsx\<close>, \<open>app/guards.tsx\<close>, \<open>app/ConsentGates.tsx\<close>, \<open>shared/lib/nav.ts\<close>, \<open>useCapabilities.ts\<close> and
    \<open>features/permissions\<close>. Which screen is drawn to whom, that what is offered opens and redirects end.
  \<^item> \<open>Media_Viewer\<close>: \<open>shared/lib/zoomPan.ts\<close> and the gestures of \<open>shared/ui/MediaViewer.tsx\<close>.

  \<^bold>\<open>Bounds and fuel.\<close> No model runs on fuel of its own: the loops of the code are bounded (400 messages
  of catching up, five rounds of restoring a session, three attempts for a chunk, the attempts of a
  commit), the bounds are the code's constants, and the recursions follow them. Numbers of the client
  are sizes, counts, milliseconds and kopecks below \<open>2 ^ 53\<close>, where JavaScript's numbers are exact; they
  are \<open>nat\<close> or \<open>int\<close>.

  \<^bold>\<open>Not modelled.\<close> What the React components, pages and widgets draw, and the query hooks that only
  connect them to the requests; the handlers named above are modelled. The tabs of the administration and the
  details of a rated project, tables around single requests. The dictionaries and the legal texts, which are
  data. The platform glue (native plugins, service worker), which only calls the platform. The server, written
  in Go, but for the rules about who may act in a group and whom an announcement may address: it is the
  outside of this model. Statistics and audio priority of a call, and cross-tab effects of IndexedDB. The
  mock-up of the mobile design, which is no part of the program.
\<close>

end
